(* ===== verification/Prelude.thy ===== *)
theory Prelude
  imports Main "HOL-Library.Word" "HOL-Library.Monad_Syntax" "HOL-Library.Sublist"
    "HOL-Library.Char_ord" "HOL-Library.List_Lexorder"
begin

text \<open>
  Shared vocabulary of the development: the theorem collections, machine integers, the result
  type and the transaction calculus, and the few text functions of the Rust standard library
  the sources use.

  A fallible Rust function is a function into \<open>error + 'a\<close>, \<open>Inl\<close> the error. An operation on
  shared state is a function from the state to \<open>('a \<times> 's) option\<close>; \<open>None\<close> is a panic, which
  unwinds through every caller, unlike an error, which is a value the caller inspects. The
  predicate \<open>returns m Q\<close> below is total correctness of such an operation: it does not panic
  and its result and final state satisfy \<open>Q\<close>.
\<close>

unbundle bit_operations_syntax

named_theorems txn_rules \<open>introduction rules that step through a transaction\<close>
named_theorems txn_defs \<open>definitions of the small state updates transactions are made of\<close>

type_synonym u8 = "8 word"
type_synonym u32 = "32 word"
type_synonym u64 = "64 word"
type_synonym bytes = "u8 list"

section \<open>Machine integers\<close>

definition saturating_add :: "'a::len word \<Rightarrow> 'a word \<Rightarrow> 'a word" where
  "saturating_add a b = (if unat a + unat b < 2 ^ LENGTH('a) then a + b else - 1)"

definition checked_add :: "'a::len word \<Rightarrow> 'a word \<Rightarrow> 'a word option" where
  "checked_add a b = (if unat a + unat b < 2 ^ LENGTH('a) then Some (a + b) else None)"

lemma unat_max_word: "unat (- 1 :: 'a::len word) = 2 ^ LENGTH('a) - 1"
  by (metis unsigned_minus_1_eq_mask mask_eq_exp_minus_1)

lemma unat_saturating_add:
  "unat (saturating_add a (b :: 'a::len word)) = min (unat a + unat b) (2 ^ LENGTH('a) - 1)"
proof (cases "unat a + unat b < 2 ^ LENGTH('a)")
  case True
  then show ?thesis by (simp add: saturating_add_def unat_word_ariths)
next
  case False
  then show ?thesis by (simp add: saturating_add_def unat_max_word)
qed

lemma checked_add_Some:
  "checked_add a (b :: 'a::len word) = Some c \<longleftrightarrow>
     unat a + unat b < 2 ^ LENGTH('a) \<and> c = a + b"
  by (auto simp: checked_add_def)

lemma checked_add_one:
  "checked_add a (1 :: 'a::len word) = (if a = - 1 then None else Some (a + 1))"
proof (cases "a = - 1")
  case True
  then show ?thesis by (simp add: checked_add_def unat_max_word)
next
  case False
  have "unat a \<noteq> unat (- 1 :: 'a word)"
    using False by (simp add: word_unat_eq_iff)
  moreover have "unat a < 2 ^ LENGTH('a)" by simp
  ultimately have "unat a + 1 < 2 ^ LENGTH('a)" unfolding unat_max_word by linarith
  with False show ?thesis by (simp add: checked_add_def)
qed

lemma word_less_Suc_nonmax: "a \<noteq> - 1 \<Longrightarrow> a < a + (1 :: 'a::len word)"
  using checked_add_one [of a] checked_add_Some [of a 1 "a + 1"]
  by (simp add: word_less_nat_alt unat_word_ariths)

section \<open>Results\<close>

definition is_ok :: "'e + 'a \<Rightarrow> bool" where
  "is_ok r \<longleftrightarrow> (case r of Inl _ \<Rightarrow> False | Inr _ \<Rightarrow> True)"

lemma is_ok_simps [simp]: "\<not> is_ok (Inl e)" "is_ok (Inr x)"
  by (simp_all add: is_ok_def)

lemma is_ok_iff: "is_ok r \<longleftrightarrow> (\<exists>x. r = Inr x)"
  by (cases r) simp_all

definition map_err :: "('e \<Rightarrow> 'f) \<Rightarrow> 'e + 'a \<Rightarrow> 'f + 'a" where
  "map_err f r = (case r of Inl e \<Rightarrow> Inl (f e) | Inr x \<Rightarrow> Inr x)"

lemma map_err_simps [simp]: "map_err f (Inl e) = Inl (f e)" "map_err f (Inr x) = Inr x"
  by (simp_all add: map_err_def)

definition map_ok :: "('a \<Rightarrow> 'b) \<Rightarrow> 'e + 'a \<Rightarrow> 'e + 'b" where
  "map_ok f r = (case r of Inl e \<Rightarrow> Inl e | Inr x \<Rightarrow> Inr (f x))"

lemma map_ok_simps [simp]: "map_ok f (Inl e) = Inl e" "map_ok f (Inr x) = Inr (f x)"
  by (simp_all add: map_ok_def)

text \<open>The operator \<open>?\<close>: an error leaves the function, a value goes on.\<close>

definition and_then :: "'e + 'a \<Rightarrow> ('a \<Rightarrow> 'e + 'b) \<Rightarrow> 'e + 'b" where
  "and_then r f = (case r of Inl e \<Rightarrow> Inl e | Inr x \<Rightarrow> f x)"

lemma and_then_simps [simp]: "and_then (Inl e) f = Inl e" "and_then (Inr x) f = f x"
  by (simp_all add: and_then_def)

lemma and_then_Inr: "and_then r f = Inr y \<longleftrightarrow> (\<exists>x. r = Inr x \<and> f x = Inr y)"
  by (cases r) auto

section \<open>Transactions\<close>

definition returns :: "('a \<times> 's) option \<Rightarrow> ('a \<Rightarrow> 's \<Rightarrow> bool) \<Rightarrow> bool" where
  "returns m Q \<longleftrightarrow> (\<exists>r s. m = Some (r, s) \<and> Q r s)"

lemma returns_Some [simp]: "returns (Some (r, s)) Q \<longleftrightarrow> Q r s"
  by (simp add: returns_def)

lemma returns_None [simp]: "\<not> returns None Q"
  by (simp add: returns_def)

lemma returnsI: "m = Some (r, s) \<Longrightarrow> Q r s \<Longrightarrow> returns m Q"
  by (simp add: returns_def)

lemma returnsE:
  assumes "returns m Q"
  obtains r s where "m = Some (r, s)" "Q r s"
  using assms by (auto simp: returns_def)

lemma returns_bind [txn_rules]:
  "returns m (\<lambda>r s. returns (f (r, s)) Q) \<Longrightarrow> returns (m \<bind> f) Q"
  by (auto simp: returns_def)

lemma returns_mono:
  "returns m Q \<Longrightarrow> (\<And>r s. Q r s \<Longrightarrow> Q' r s) \<Longrightarrow> returns m Q'"
  by (auto simp: returns_def)

lemma returns_result:
  "returns m Q \<Longrightarrow> m = Some (r, s) \<Longrightarrow> Q r s"
  by (auto simp: returns_def)

lemma returns_case_sum [txn_rules]:
  "(\<And>e. r = Inl e \<Longrightarrow> returns (f e) Q) \<Longrightarrow> (\<And>x. r = Inr x \<Longrightarrow> returns (g x) Q)
   \<Longrightarrow> returns (case r of Inl e \<Rightarrow> f e | Inr x \<Rightarrow> g x) Q"
  by (cases r) simp_all

lemma returns_case_option [txn_rules]:
  "(r = None \<Longrightarrow> returns f Q) \<Longrightarrow> (\<And>x. r = Some x \<Longrightarrow> returns (g x) Q)
   \<Longrightarrow> returns (case r of None \<Rightarrow> f | Some x \<Rightarrow> g x) Q"
  by (cases r) simp_all

lemma returns_if [txn_rules]:
  "(b \<Longrightarrow> returns f Q) \<Longrightarrow> (\<not> b \<Longrightarrow> returns g Q) \<Longrightarrow> returns (if b then f else g) Q"
  by simp

lemma returns_case_prod [txn_rules]:
  "(\<And>a b. p = (a, b) \<Longrightarrow> returns (f a b) Q) \<Longrightarrow> returns (case p of (a, b) \<Rightarrow> f a b) Q"
  by (cases p) simp

text \<open>The operator \<open>?\<close> on an operation: an error ends the caller with the state reached so far.\<close>

definition and_do ::
  "(('e + 'a) \<times> 's) option \<Rightarrow> ('a \<Rightarrow> 's \<Rightarrow> (('e + 'b) \<times> 's) option) \<Rightarrow> (('e + 'b) \<times> 's) option" where
  "and_do m f = Option.bind m (\<lambda>(r, s). case r of Inl e \<Rightarrow> Some (Inl e, s) | Inr x \<Rightarrow> f x s)"

lemma and_do_simps [simp]:
  "and_do None f = None" "and_do (Some (Inl e, s)) f = Some (Inl e, s)"
  "and_do (Some (Inr x, s)) f = f x s"
  by (simp_all add: and_do_def)

lemma returns_and_do [txn_rules]:
  "returns m (\<lambda>r s. case r of Inl e \<Rightarrow> Q (Inl e) s | Inr x \<Rightarrow> returns (f x s) Q)
   \<Longrightarrow> returns (and_do m f) Q"
  by (erule returnsE) (auto simp: and_do_def split: sum.splits)

lemma returns_and_doI:
  "returns m A \<Longrightarrow> (\<And>e t. A (Inl e) t \<Longrightarrow> Q (Inl e) t) \<Longrightarrow> (\<And>x t. A (Inr x) t \<Longrightarrow> returns (f x t) Q)
   \<Longrightarrow> returns (and_do m f) Q"
  by (rule returns_and_do, erule returns_mono) (auto split: sum.splits)

lemma returns_bindI:
  "returns m A \<Longrightarrow> (\<And>r t. A r t \<Longrightarrow> returns (f (r, t)) Q) \<Longrightarrow> returns (m \<bind> f) Q"
  by (rule returns_bind, erule returns_mono) auto

lemma returns_conj: "returns m P \<Longrightarrow> returns m Q \<Longrightarrow> returns m (\<lambda>r s. P r s \<and> Q r s)"
  by (auto simp: returns_def)

text \<open>An association list without one key.\<close>

lemma map_of_filter_key: "map_of (filter (\<lambda>p. fst p \<noteq> i) xs) j = (if j = i then None else map_of xs j)"
  by (induction xs) auto

section \<open>Text\<close>

text \<open>Decimal digits of a number, as \<open>{}\<close> prints an unsigned integer.\<close>

fun show_nat :: "nat \<Rightarrow> string" where
  "show_nat n =
     (if n < 10 then [char_of (48 + n)] else show_nat (n div 10) @ [char_of (48 + n mod 10)])"

declare show_nat.simps [simp del]

definition join_with :: "string \<Rightarrow> string list \<Rightarrow> string" where
  "join_with sep xs = (case xs of [] \<Rightarrow> [] | y # ys \<Rightarrow> y @ concat (map (\<lambda>z. sep @ z) ys))"

definition strip_prefix :: "string \<Rightarrow> string \<Rightarrow> string option" where
  "strip_prefix p s = (if take (length p) s = p then Some (drop (length p) s) else None)"

definition strip_suffix :: "string \<Rightarrow> string \<Rightarrow> string option" where
  "strip_suffix p s = map_option rev (strip_prefix (rev p) (rev s))"

definition starts_with :: "string \<Rightarrow> string \<Rightarrow> bool" where
  "starts_with p s \<longleftrightarrow> take (length p) s = p"

definition ends_with :: "string \<Rightarrow> string \<Rightarrow> bool" where
  "ends_with p s \<longleftrightarrow> starts_with (rev p) (rev s)"

text \<open>\<open>str::split_once\<close>: the text before and after the first occurrence of a pattern.\<close>

fun split_once :: "string \<Rightarrow> string \<Rightarrow> (string \<times> string) option" where
  "split_once p [] = (if p = [] then Some ([], []) else None)"
| "split_once p (c # cs) =
     (if starts_with p (c # cs) then Some ([], drop (length p) (c # cs))
      else map_option (\<lambda>(a, b). (c # a, b)) (split_once p cs))"

definition rsplit_once :: "string \<Rightarrow> string \<Rightarrow> (string \<times> string) option" where
  "rsplit_once p s = map_option (\<lambda>(a, b). (rev b, rev a)) (split_once (rev p) (rev s))"

fun contains_str :: "string \<Rightarrow> string \<Rightarrow> bool" where
  "contains_str p [] \<longleftrightarrow> p = []"
| "contains_str p (c # cs) \<longleftrightarrow> starts_with p (c # cs) \<or> contains_str p cs"

lemma strip_prefix_append [simp]: "strip_prefix p (p @ s) = Some s"
  by (simp add: strip_prefix_def)

lemma strip_prefix_Some: "strip_prefix p s = Some t \<longleftrightarrow> s = p @ t"
  by (auto simp: strip_prefix_def) (metis append_take_drop_id)

lemma strip_prefix_None: "strip_prefix p s = None \<longleftrightarrow> (\<forall>t. s \<noteq> p @ t)"
  by (metis strip_prefix_Some not_None_eq)

lemma strip_suffix_Some: "strip_suffix p s = Some t \<longleftrightarrow> s = t @ p"
  by (auto simp: strip_suffix_def strip_prefix_Some)
    (metis rev_append rev_rev_ident)

lemma strip_suffix_append [simp]: "strip_suffix p (s @ p) = Some s"
  by (simp add: strip_suffix_Some)

lemma starts_with_append [simp]: "starts_with p (p @ s)"
  by (simp add: starts_with_def)

lemma starts_with_iff: "starts_with p s \<longleftrightarrow> (\<exists>t. s = p @ t)"
  by (metis starts_with_def append_take_drop_id append_eq_conv_conj)

lemma split_once_Some: "split_once p s = Some (a, b) \<Longrightarrow> s = a @ p @ b"
  by (induction p s arbitrary: a b rule: split_once.induct)
    (auto simp: starts_with_iff split: if_splits)

definition is_digit :: "char \<Rightarrow> bool" where
  "is_digit c \<longleftrightarrow> 48 \<le> (of_char c :: nat) \<and> (of_char c :: nat) \<le> 57"

lemma is_digit_char_of [simp]: "n < 10 \<Longrightarrow> is_digit (char_of (48 + n :: nat))"
  by (simp add: is_digit_def)

lemma show_nat_digits: "list_all is_digit (show_nat n)"
proof (induction n rule: show_nat.induct)
  case (1 n)
  then show ?case by (subst show_nat.simps) simp
qed

lemma show_nat_nonempty [simp]: "show_nat n \<noteq> []"
  by (subst show_nat.simps) simp

text \<open>\<open>str::parse::<u64>\<close>: an optional \<open>+\<close>, then at least one digit, rejecting overflow.\<close>

definition digits_value :: "string \<Rightarrow> nat" where
  "digits_value s = foldl (\<lambda>v c. v * 10 + (of_char c - 48)) 0 s"

definition parse_u64 :: "string \<Rightarrow> u64 option" where
  "parse_u64 s =
     (let ds = (case s of c # cs \<Rightarrow> if c = CHR ''+'' \<and> cs \<noteq> [] then cs else s | [] \<Rightarrow> s)
      in if ds \<noteq> [] \<and> list_all is_digit ds \<and> digits_value ds < 2 ^ 64
         then Some (of_nat (digits_value ds)) else None)"

lemma digits_value_snoc: "digits_value (s @ [c]) = digits_value s * 10 + (of_char c - 48)"
  by (simp add: digits_value_def)

lemma digits_value_show_nat [simp]: "digits_value (show_nat n) = n"
proof (induction n rule: show_nat.induct)
  case (1 n)
  show ?case
  proof (cases "n < 10")
    case True
    then show ?thesis by (subst show_nat.simps) (simp add: digits_value_def)
  next
    case False
    with "1.IH" show ?thesis
      by (subst show_nat.simps) (simp add: digits_value_snoc)
  qed
qed

lemma show_nat_inject [simp]: "show_nat m = show_nat n \<longleftrightarrow> m = n"
  by (metis digits_value_show_nat)

lemma parse_u64_show_nat [simp]: "parse_u64 (show_nat (unat w)) = Some w"
proof -
  obtain c cs where s: "show_nat (unat w) = c # cs"
    using show_nat_nonempty list.exhaust by metis
  have "is_digit c" using show_nat_digits [of "unat w"] by (simp add: s)
  then have "c \<noteq> CHR ''+''" by (auto simp: is_digit_def)
  moreover have "unat w < 2 ^ 64" using unsigned_less [of w] by simp
  moreover have "list_all is_digit (c # cs)" "digits_value (c # cs) = unat w"
    using show_nat_digits [of "unat w"] by (simp_all add: s [symmetric])
  ultimately show ?thesis
    by (simp add: parse_u64_def s Let_def)
qed

end
