(* ===== verification/Core_Types.thy ===== *)
theory Core_Types
  imports Prelude
begin

text \<open>
  The data the core manager is written over: error classifications
  (\<open>chimera-core-metadata/src/error_kind.rs\<close>), core kinds (\<open>chimera-core-metadata/src/kind.rs\<close>),
  epochs (\<open>epoch.rs\<close>), domain errors (\<open>error.rs\<close>) and the instance and manager states of
  \<open>state.rs\<close>. Times are Unix milliseconds (\<open>int\<close>), durations nanoseconds (\<open>nat\<close>), a UUID is a
  \<open>nat\<close>. The display texts of errors are the ones the \<open>#[error(...)]\<close> attributes give.
\<close>

section \<open>Error classification\<close>

datatype core_error_kind =
    KNotStarted | KAlreadyRunning | KRevisionConflict | KQuarantined | KConfigCheckFailed
  | KConfigNotFound | KBinaryNotFound | KInvalidConfig | KControllerMissing | KApplyFailed
  | KApplyRollbackFailed | KStopUnconfirmed | KNativeStoreUnavailable | KShuttingDown
  | KQueueFull | KOperationConflict | KBackendUnavailable | KInternal

definition kind_ALL :: "core_error_kind list" where
  "kind_ALL = [KNotStarted, KAlreadyRunning, KRevisionConflict, KQuarantined, KConfigCheckFailed,
     KConfigNotFound, KBinaryNotFound, KInvalidConfig, KControllerMissing, KApplyFailed,
     KApplyRollbackFailed, KStopUnconfirmed, KNativeStoreUnavailable, KShuttingDown,
     KQueueFull, KOperationConflict, KBackendUnavailable, KInternal]"

fun kind_as_str :: "core_error_kind \<Rightarrow> string" where
  "kind_as_str KNotStarted = ''not_started''"
| "kind_as_str KAlreadyRunning = ''already_running''"
| "kind_as_str KRevisionConflict = ''revision_conflict''"
| "kind_as_str KQuarantined = ''quarantined''"
| "kind_as_str KConfigCheckFailed = ''config_check_failed''"
| "kind_as_str KConfigNotFound = ''config_not_found''"
| "kind_as_str KBinaryNotFound = ''binary_not_found''"
| "kind_as_str KInvalidConfig = ''invalid_config''"
| "kind_as_str KControllerMissing = ''controller_missing''"
| "kind_as_str KApplyFailed = ''apply_failed''"
| "kind_as_str KApplyRollbackFailed = ''apply_rollback_failed''"
| "kind_as_str KStopUnconfirmed = ''stop_unconfirmed''"
| "kind_as_str KNativeStoreUnavailable = ''native_store_unavailable''"
| "kind_as_str KShuttingDown = ''shutting_down''"
| "kind_as_str KQueueFull = ''queue_full''"
| "kind_as_str KOperationConflict = ''operation_conflict''"
| "kind_as_str KBackendUnavailable = ''backend_unavailable''"
| "kind_as_str KInternal = ''internal''"

definition default_retryable :: "core_error_kind \<Rightarrow> bool" where
  "default_retryable k \<longleftrightarrow> k = KQueueFull \<or> k = KBackendUnavailable"

definition from_wire :: "string \<Rightarrow> core_error_kind option" where
  "from_wire value = find (\<lambda>kind. kind_as_str kind = value) kind_ALL"

lemma kind_ALL_complete: "k \<in> set kind_ALL"
  by (cases k) (simp_all add: kind_ALL_def)

lemma kind_as_str_inject: "kind_as_str a = kind_as_str b \<longleftrightarrow> a = b"
  by (cases a; cases b) simp_all

section \<open>Core kinds\<close>

datatype core_kind = Mihomo | ClashRust | ClashPremium | Meow | ChimeraClient

fun core_kind_as_ref :: "core_kind \<Rightarrow> string" where
  "core_kind_as_ref Mihomo = ''mihomo''"
| "core_kind_as_ref ClashRust = ''clash-rs''"
| "core_kind_as_ref ClashPremium = ''clash''"
| "core_kind_as_ref Meow = ''meow''"
| "core_kind_as_ref ChimeraClient = ''chimera-client''"

section \<open>Epochs\<close>

datatype epoch = Epoch (epoch_get: u64)

definition epoch_new :: "u64 \<Rightarrow> epoch option" where
  "epoch_new v = (if v = 0 then None else Some (Epoch v))"

instantiation epoch :: linorder
begin
definition less_eq_epoch :: "epoch \<Rightarrow> epoch \<Rightarrow> bool" where
  "a \<le> b \<longleftrightarrow> epoch_get a \<le> epoch_get b"
definition less_epoch :: "epoch \<Rightarrow> epoch \<Rightarrow> bool" where
  "a < b \<longleftrightarrow> epoch_get a < epoch_get b"
instance
  by standard (auto simp: less_eq_epoch_def less_epoch_def intro: epoch.expand)
end

definition epoch_show :: "epoch \<Rightarrow> string" where
  "epoch_show e = show_nat (unat (epoch_get e))"

lemma epoch_show_inject [simp]: "epoch_show a = epoch_show b \<longleftrightarrow> a = b"
  by (cases a; cases b) (simp add: epoch_show_def word_unat_eq_iff)

section \<open>Revisions\<close>

record revision_id =
  ri_epoch :: epoch
  ri_generation :: nat
  ri_effective_hash :: string

record config_revision =
  cr_epoch :: epoch
  cr_generation :: nat
  cr_source_hash :: string
  cr_effective_hash :: string
  cr_runtime_path :: string

definition revision_id_of :: "config_revision \<Rightarrow> revision_id" where
  "revision_id_of r = \<lparr>ri_epoch = cr_epoch r, ri_generation = cr_generation r,
     ri_effective_hash = cr_effective_hash r\<rparr>"

definition revision_show :: "revision_id \<Rightarrow> string" where
  "revision_show r = ''epoch '' @ epoch_show (ri_epoch r) @ '' generation '' @
     show_nat (ri_generation r) @ '' ('' @ ri_effective_hash r @ '')''"

text \<open>\<open>Debug\<close> of an optional revision; a hash is hexadecimal text, which \<open>Debug\<close> quotes as is.\<close>

definition revision_debug :: "revision_id option \<Rightarrow> string" where
  "revision_debug r = (case r of None \<Rightarrow> ''None''
     | Some r \<Rightarrow> ''Some(RevisionId { epoch: Epoch('' @ epoch_show (ri_epoch r) @
         ''), generation: '' @ show_nat (ri_generation r) @ '', effective_hash: '' @
         [CHR 34] @ ri_effective_hash r @ [CHR 34] @ '' })'')"

section \<open>Domain errors\<close>

datatype error =
    AlreadyRunning
  | NotStarted
  | ConfigNotFound string
  | BinaryNotFound string
  | CoreVersionProbeFailed (probe_binary: string) (probe_detail: string)
  | ControllerMissing
  | RequiredLocalIpcUnsupported core_kind string
  | ConfigCheckFailed string
  | InvalidConfig string
  | InvalidManagerOptions string
  | InvalidHealthPolicy string
  | UnsafeRuntimeArtifact string
  | RuntimeDirectoryOwned string
  | StopUnconfirmed string
  | ManagerQuarantined epoch string
  | RevisionConflict revision_id "revision_id option"
  | ApplyFailed string
  | ApplyRollbackFailed string string
  | DurabilityUncertain error string
  | StartupTimeout string
  | StartupFailed string
  | NativeStore string
  | Process string
  | Api string
  | Yaml string
  | Io string

definition nl :: string where
  "nl = [CHR 10]"

fun error_to_string :: "error \<Rightarrow> string" where
  "error_to_string AlreadyRunning = ''core is already running''"
| "error_to_string NotStarted = ''core is not running''"
| "error_to_string (ConfigNotFound p) = ''config file not found: '' @ p"
| "error_to_string (BinaryNotFound p) = ''core binary not found: '' @ p"
| "error_to_string (CoreVersionProbeFailed p d) =
     ''failed to probe version from core binary `'' @ p @ ''`: '' @ d"
| "error_to_string ControllerMissing =
     ''no external controller configured; the version health probe needs one''"
| "error_to_string (RequiredLocalIpcUnsupported k v) =
     ''core `'' @ core_kind_as_ref k @ ''` version `'' @ v @
     ''` does not support the required local IPC transport; use LocalIpcPolicy::Prefer or LocalIpcPolicy::Disable''"
| "error_to_string (ConfigCheckFailed m) = ''config check failed: '' @ m"
| "error_to_string (InvalidConfig m) = ''invalid runtime config: '' @ m"
| "error_to_string (InvalidManagerOptions m) = ''invalid manager options: '' @ m"
| "error_to_string (InvalidHealthPolicy m) = ''invalid health policy: '' @ m"
| "error_to_string (UnsafeRuntimeArtifact p) = ''unsafe runtime artifact: '' @ p"
| "error_to_string (RuntimeDirectoryOwned p) =
     ''runtime directory is already owned by another manager: '' @ p"
| "error_to_string (StopUnconfirmed m) = ''core process death could not be confirmed: '' @ m"
| "error_to_string (ManagerQuarantined e r) =
     ''manager is quarantined by uncertain epoch '' @ epoch_show e @ '': '' @ r"
| "error_to_string (RevisionConflict x a) =
     ''config revision conflict: expected '' @ revision_show x @ '', actual '' @ revision_debug a"
| "error_to_string (ApplyFailed m) = ''config apply failed: '' @ m"
| "error_to_string (ApplyRollbackFailed a r) =
     ''config apply failed ('' @ a @ ''); rollback also failed ('' @ r @ '')''"
| "error_to_string (DurabilityUncertain s w) =
     error_to_string s @ ''; runtime durability warning: '' @ w"
| "error_to_string (StartupTimeout t) =
     ''core did not become healthy before the startup timeout; diagnostic log tail:'' @ nl @ t"
| "error_to_string (StartupFailed t) = ''core failed to start; diagnostic log tail:'' @ nl @ t"
| "error_to_string (NativeStore m) = m"
| "error_to_string (Process m) = m"
| "error_to_string (Api m) = m"
| "error_to_string (Yaml m) = ''failed to process config YAML: '' @ m"
| "error_to_string (Io m) = m"

fun error_kind :: "error \<Rightarrow> core_error_kind option" where
  "error_kind AlreadyRunning = Some KAlreadyRunning"
| "error_kind NotStarted = Some KNotStarted"
| "error_kind (ConfigNotFound _) = Some KConfigNotFound"
| "error_kind (BinaryNotFound _) = Some KBinaryNotFound"
| "error_kind ControllerMissing = Some KControllerMissing"
| "error_kind (ConfigCheckFailed _) = Some KConfigCheckFailed"
| "error_kind (InvalidConfig _) = Some KInvalidConfig"
| "error_kind (Yaml _) = Some KInvalidConfig"
| "error_kind (StopUnconfirmed _) = Some KStopUnconfirmed"
| "error_kind (NativeStore _) = Some KNativeStoreUnavailable"
| "error_kind (ManagerQuarantined _ _) = Some KQuarantined"
| "error_kind (RevisionConflict _ _) = Some KRevisionConflict"
| "error_kind (ApplyFailed _) = Some KApplyFailed"
| "error_kind (ApplyRollbackFailed _ _) = Some KApplyRollbackFailed"
| "error_kind (DurabilityUncertain s _) = error_kind s"
| "error_kind _ = None"

definition is_stop_unconfirmed :: "error \<Rightarrow> bool" where
  "is_stop_unconfirmed e \<longleftrightarrow> (case e of StopUnconfirmed _ \<Rightarrow> True | _ \<Rightarrow> False)"

lemma is_stop_unconfirmed_simps [simp]:
  "is_stop_unconfirmed (StopUnconfirmed m)"
  "\<not> is_stop_unconfirmed (ApplyFailed m)"
  "\<not> is_stop_unconfirmed NotStarted"
  "\<not> is_stop_unconfirmed (NativeStore m)"
  by (simp_all add: is_stop_unconfirmed_def)

section \<open>Controller endpoints and features\<close>

datatype host = NamedPipe string | UnixSocket string | Http string

record resolved_controller =
  rc_host :: host
  rc_secret :: "string option"

datatype feature = NamedPipeIpc | UnixSocketIpc | DisableTcpController | NamedPipeSecurityDescriptor

datatype runtime_feature = LocalIpc

section \<open>Instance and manager states\<close>

datatype health_state = HStarting | HHealthy | HUnhealthy

record health_status =
  hs_state :: health_state
  hs_changed_at :: int
  hs_consecutive_failures :: u32
  hs_last_error :: "string option"
  hs_last_success_at :: "int option"

definition health_starting :: "int \<Rightarrow> health_status" where
  "health_starting now = \<lparr>hs_state = HStarting, hs_changed_at = now, hs_consecutive_failures = 0,
     hs_last_error = None, hs_last_success_at = None\<rparr>"

datatype stop_reason = Finished | User | StopError string

datatype instance_state =
    IStarting
  | IRunning (i_pid: u32)
  | IRestarting (i_attempt: u32)
  | IStopping
  | IStopped stop_reason

definition is_terminal :: "instance_state \<Rightarrow> bool" where
  "is_terminal s \<longleftrightarrow> (case s of IStopped _ \<Rightarrow> True | _ \<Rightarrow> False)"

lemma is_terminal_simps [simp]:
  "\<not> is_terminal IStarting" "\<not> is_terminal (IRunning p)" "\<not> is_terminal (IRestarting a)"
  "\<not> is_terminal IStopping" "is_terminal (IStopped r)"
  by (simp_all add: is_terminal_def)

record instance_status =
  is_instance_id :: "nat option"
  is_state :: instance_state
  is_health :: "health_status option"

definition instance_initial :: "int \<Rightarrow> instance_status" where
  "instance_initial now = \<lparr>is_instance_id = None, is_state = IStarting,
     is_health = Some (health_starting now)\<rparr>"

datatype core_state =
    CStopped "stop_reason option"
  | CStarting epoch
  | CRunning epoch u32
  | CRestarting epoch u32
  | CSwitching "epoch option" epoch
  | CStopping epoch

record spec_summary =
  ss_kind :: core_kind
  ss_config_path :: string
  ss_capabilities :: "feature list"
  ss_runtime_features :: "runtime_feature list"

record core_status =
  cs_instance_id :: "nat option"
  cs_state :: core_state
  cs_changed_at :: int
  cs_health :: "health_status option"
  cs_spec :: "spec_summary option"
  cs_controller :: "host option"
  cs_revision :: "config_revision option"

definition core_status_initial :: "int \<Rightarrow> core_status" where
  "core_status_initial now = \<lparr>cs_instance_id = None, cs_state = CStopped None, cs_changed_at = now,
     cs_health = None, cs_spec = None, cs_controller = None, cs_revision = None\<rparr>"

section \<open>Properties\<close>

text \<open>The wire text of an error kind is read back as that kind, and no other text is read as
  any kind: \<open>from_wire\<close> is the partial inverse of \<open>as_str\<close>.\<close>

theorem from_wire_roundtrip: "from_wire s = Some k \<longleftrightarrow> s = kind_as_str k"
proof
  assume "from_wire s = Some k"
  then show "s = kind_as_str k"
    by (auto simp: from_wire_def find_Some_iff)
next
  assume s: "s = kind_as_str k"
  have "from_wire s \<noteq> None"
    using kind_ALL_complete [of k] by (auto simp: from_wire_def find_None_iff s)
  then obtain k' where k': "from_wire s = Some k'" by auto
  then have "kind_as_str k' = kind_as_str k"
    by (auto simp: from_wire_def find_Some_iff s)
  with k' show "from_wire s = Some k" by (simp add: kind_as_str_inject)
qed

end
