(* ===== verification/Utf8.thy ===== *)
theory Utf8
  imports Prelude
begin

text \<open>
  Rust's \<open>str\<close> as the bytes it is made of. A \<open>string\<close> of this development is the UTF-8 encoding of
  the text, one \<open>char\<close> per byte; \<open>utf8\<close> is the validity the type \<open>str\<close> promises, \<open>is_char_boundary\<close>
  the test that slicing panics on, \<open>ws_head\<close> recognises the characters of \<open>char::is_whitespace\<close>.
\<close>

section \<open>Encoded characters\<close>

abbreviation byte :: "char \<Rightarrow> nat" where
  "byte c \<equiv> of_char c"

definition within :: "nat \<Rightarrow> nat \<Rightarrow> char \<Rightarrow> bool" where
  "within lo hi c \<longleftrightarrow> lo \<le> byte c \<and> byte c \<le> hi"

definition continuation :: "char \<Rightarrow> bool" where
  "continuation c \<longleftrightarrow> within 0x80 0xBF c"

text \<open>The length a leading byte announces, the range its second byte has, and the number of bytes of
  the character a text begins with, 0 when it begins with none.\<close>

definition lead_len :: "char \<Rightarrow> nat" where
  "lead_len a = (if byte a < 0x80 then 1 else if within 0xC2 0xDF a then 2
     else if within 0xE0 0xEF a then 3 else if within 0xF0 0xF4 a then 4 else 0)"

definition second_ok :: "char \<Rightarrow> char \<Rightarrow> bool" where
  "second_ok a b \<longleftrightarrow> within (if byte a = 0xE0 then 0xA0 else if byte a = 0xF0 then 0x90 else 0x80)
     (if byte a = 0xED then 0x9F else if byte a = 0xF4 then 0x8F else 0xBF) b"

fun utf8_head :: "string \<Rightarrow> nat" where
  "utf8_head [] = 0"
| "utf8_head (a # rest) = (let n = lead_len a in
     if n \<le> Suc (length rest) \<and> (case rest of b # _ \<Rightarrow> n \<le> 1 \<or> second_ok a b | [] \<Rightarrow> True)
        \<and> list_all continuation (take (n - 1) rest)
     then n else 0)"

lemma utf8_head_le: "utf8_head s \<le> length s"
  by (cases s) (auto simp: Let_def)

function utf8 :: "string \<Rightarrow> bool" where
  "utf8 s = (if s = [] then True else if utf8_head s = 0 then False else utf8 (drop (utf8_head s) s))"
  by auto
termination
proof (relation "measure length")
  fix s :: string assume "s \<noteq> []" "utf8_head s \<noteq> 0"
  then show "(drop (utf8_head s) s, s) \<in> measure length"
    using utf8_head_le [of s] by simp
qed simp

declare utf8.simps [simp del]

definition is_char :: "string \<Rightarrow> bool" where
  "is_char s \<longleftrightarrow> s \<noteq> [] \<and> utf8_head s = length s"

lemma is_char_Cons:
  "is_char (a # rest) \<longleftrightarrow> lead_len a = Suc (length rest)
     \<and> (case rest of b # _ \<Rightarrow> second_ok a b | [] \<Rightarrow> True) \<and> list_all continuation rest"
  by (auto simp: is_char_def Let_def split: list.splits)

lemma lead_len_ascii: "byte a < 0x80 \<longleftrightarrow> lead_len a = 1"
  by (simp add: lead_len_def within_def)

lemma lead_len_multi: "lead_len a \<noteq> 0 \<Longrightarrow> lead_len a \<noteq> 1 \<Longrightarrow> 0xC2 \<le> byte a \<and> \<not> continuation a"
  by (auto simp: lead_len_def within_def continuation_def split: if_splits)

lemma is_char_cases:
  assumes "is_char s"
  obtains (ascii) a where "s = [a]" "byte a < 0x80"
  | (multi) "list_all (\<lambda>b. 0x80 \<le> byte b) s" "2 \<le> length s" "\<not> continuation (hd s)"
      "list_all continuation (tl s)"
proof (cases s)
  case (Cons a rest)
  with assms have s: "lead_len a = Suc (length rest)" "list_all continuation rest"
    by (simp_all add: is_char_Cons)
  show thesis
  proof (cases rest)
    case Nil
    with s Cons show thesis by (intro ascii) (simp_all add: lead_len_ascii)
  next
    case (Cons b bs)
    with s lead_len_multi [of a] \<open>s = a # rest\<close> show thesis
      by (intro multi) (auto simp: list_all_iff continuation_def within_def)
  qed
qed (use assms in \<open>simp add: is_char_def\<close>)

lemma utf8_head_take:
  assumes "utf8_head s \<noteq> 0"
  shows "is_char (take (utf8_head s) s)"
proof (cases s)
  case (Cons a rest)
  with assms obtain n where n: "lead_len a = Suc n" "utf8_head s = Suc n" "n \<le> length rest"
    "case rest of b # _ \<Rightarrow> n = 0 \<or> second_ok a b | [] \<Rightarrow> True" "list_all continuation (take n rest)"
    by (cases "lead_len a") (auto simp: Let_def split: if_splits list.splits)
  then show ?thesis using Cons by (cases n; cases rest) (simp_all add: is_char_Cons)
qed (use assms in simp)

lemma utf8_head_append:
  assumes "is_char s"
  shows "utf8_head (s @ t) = length s"
proof (cases s)
  case (Cons a rest)
  with assms have "lead_len a = Suc (length rest)" "list_all continuation rest"
    "case rest of b # _ \<Rightarrow> second_ok a b | [] \<Rightarrow> True"
    by (simp_all add: is_char_Cons)
  then show ?thesis
    using Cons by (cases rest) (simp_all add: Let_def split: list.split)
qed (use assms in \<open>simp add: is_char_def\<close>)

lemma utf8_Nil [simp]: "utf8 []"
  by (subst utf8.simps) simp

lemma utf8_char_append [simp]: "is_char s \<Longrightarrow> utf8 (s @ t) \<longleftrightarrow> utf8 t"
  by (subst utf8.simps) (auto simp: utf8_head_append is_char_def)

lemma is_char_ascii [simp]: "is_char [a] \<longleftrightarrow> byte a < 0x80"
  by (simp add: is_char_Cons lead_len_ascii)

lemma utf8_ascii_Cons [simp]: "byte a < 0x80 \<Longrightarrow> utf8 (a # t) \<longleftrightarrow> utf8 t"
  using utf8_char_append [of "[a]" t] by simp

lemma utf8_cases:
  assumes "utf8 s"
  obtains (empty) "s = []" | (char) c t where "s = c @ t" "is_char c" "utf8 t"
proof (cases "s = []")
  case False
  with assms have "utf8_head s \<noteq> 0" "utf8 (drop (utf8_head s) s)"
    by (simp_all add: utf8.simps [of s] split: if_splits)
  then show thesis
    using char [of "take (utf8_head s) s" "drop (utf8_head s) s"] utf8_head_take [of s] by simp
qed (rule empty)

lemma utf8_induct [consumes 1, case_names empty char]:
  assumes "utf8 s" and "P []"
    and step: "\<And>c t. is_char c \<Longrightarrow> utf8 t \<Longrightarrow> P t \<Longrightarrow> P (c @ t)"
  shows "P s"
  using assms(1)
proof (induction s rule: length_induct)
  case (1 s)
  from "1.prems" show ?case
  proof (cases rule: utf8_cases)
    case (char c t)
    then have "length t < length s" by (auto simp: is_char_def)
    with "1.IH" char step show ?thesis by blast
  qed (simp add: assms(2))
qed

lemma utf8_append: "utf8 s \<Longrightarrow> utf8 (s @ t) \<longleftrightarrow> utf8 t"
  by (induction s rule: utf8_induct) simp_all

lemma utf8_ascii: "list_all (\<lambda>c. byte c < 0x80) s \<Longrightarrow> utf8 s"
  by (induction s) simp_all

section \<open>Boundaries\<close>

definition is_char_boundary :: "string \<Rightarrow> nat \<Rightarrow> bool" where
  "is_char_boundary s i \<longleftrightarrow> i = 0 \<or> i = length s \<or>
     (i < length s \<and> \<not> (128 \<le> (of_char (s ! i) :: nat) \<and> (of_char (s ! i) :: nat) < 192))"

fun floor_boundary :: "string \<Rightarrow> nat \<Rightarrow> nat" where
  "floor_boundary s 0 = 0"
| "floor_boundary s (Suc n) =
     (if is_char_boundary s (Suc n) then Suc n else floor_boundary s n)"

lemma floor_boundary_le: "floor_boundary s n \<le> n"
  by (induction n) (auto intro: le_SucI)

lemma floor_boundary_is_boundary: "is_char_boundary s (floor_boundary s n)"
  by (induction n) (simp_all add: is_char_boundary_def [of s 0])

lemma floor_boundary_greatest: "is_char_boundary s i \<Longrightarrow> i \<le> n \<Longrightarrow> i \<le> floor_boundary s n"
  by (induction n) (auto simp: le_Suc_eq)

lemma is_char_boundary_iff:
  "is_char_boundary s i \<longleftrightarrow> i = 0 \<or> i = length s \<or> (i < length s \<and> \<not> continuation (s ! i))"
  unfolding is_char_boundary_def continuation_def within_def by auto

text \<open>Cutting valid text at a boundary leaves valid text on both sides.\<close>

lemma utf8_not_continuation: "utf8 s \<Longrightarrow> s \<noteq> [] \<Longrightarrow> \<not> continuation (hd s)"
proof (erule utf8_cases)
  fix c t assume "s = c @ t" "is_char c"
  then show "\<not> continuation (hd s)"
    by (cases rule: is_char_cases [OF \<open>is_char c\<close>])
       (auto simp: continuation_def within_def is_char_def hd_append)
qed simp

lemma utf8_split:
  assumes "utf8 s" "is_char_boundary s i"
  shows "utf8 (take i s) \<and> utf8 (drop i s)"
  using assms
proof (induction s arbitrary: i rule: utf8_induct)
  case (char c t)
  show ?case
  proof (cases "i < length c")
    case True
    have "i = 0"
    proof (rule ccontr)
      assume "i \<noteq> 0"
      with True obtain j where j: "i = Suc j" "j < length (tl c)" by (cases i) auto
      have "continuation (c ! i)"
        using char.hyps(1)
      proof (cases rule: is_char_cases)
        case multi
        then have "continuation (tl c ! j)" using j by (simp add: list_all_length)
        then show ?thesis using j by (simp add: nth_tl)
      qed (use j in simp)
      with char.prems True \<open>i \<noteq> 0\<close> show False
        by (simp add: is_char_boundary_iff nth_append)
    qed
    with char.hyps show ?thesis by simp
  next
    case False
    then have "is_char_boundary t (i - length c)"
      using char.prems by (auto simp: is_char_boundary_iff nth_append)
    with char.IH [of "i - length c"] False char.hyps show ?thesis by simp
  qed
qed simp

lemma utf8_floor: "utf8 s \<Longrightarrow> utf8 (take (floor_boundary s n) s)"
  using utf8_split floor_boundary_is_boundary by blast

section \<open>White space\<close>

text \<open>The bytes of the white space character a text begins with, 0 when it begins with none:
  \<open>char::is_whitespace\<close> holds of U+0009..000D, 0020, 0085, 00A0, 1680, 2000..200A, 2028, 2029, 202F, 205F
  and 3000.\<close>

definition ws_chars :: "string list" where
  "ws_chars = map (\<lambda>c. [char_of (c :: nat)]) [9, 10, 11, 12, 13, 32]
     @ map (\<lambda>c. [CHR 0xC2, char_of (c :: nat)]) [0x85, 0xA0]
     @ [[CHR 0xE1, CHR 0x9A, CHR 0x80]]
     @ map (\<lambda>c. [CHR 0xE2, CHR 0x80, char_of (c :: nat)])
         [0x80, 0x81, 0x82, 0x83, 0x84, 0x85, 0x86, 0x87, 0x88, 0x89, 0x8A, 0xA8, 0xA9, 0xAF]
     @ [[CHR 0xE2, CHR 0x81, CHR 0x9F], [CHR 0xE3, CHR 0x80, CHR 0x80]]"

definition ws_head :: "string \<Rightarrow> nat" where
  "ws_head s = (case find (\<lambda>w. starts_with w s) ws_chars of Some w \<Rightarrow> length w | None \<Rightarrow> 0)"

lemma ws_chars_is_char: "list_all is_char ws_chars"
  by (simp add: ws_chars_def is_char_Cons lead_len_def within_def second_ok_def continuation_def)

lemma ws_headE:
  assumes "ws_head s \<noteq> 0"
  obtains w t where "s = w @ t" "is_char w" "ws_head s = length w"
proof -
  from assms obtain w where "find (\<lambda>w. starts_with w s) ws_chars = Some w" "ws_head s = length w"
    by (auto simp: ws_head_def split: option.splits)
  then show thesis
    using that ws_chars_is_char by (auto simp: find_Some_iff starts_with_iff list_all_length)
qed

lemma ws_head_Nil [simp]: "ws_head [] = 0"
  by (rule ccontr, erule ws_headE) (simp add: is_char_def)

function trim_start :: "string \<Rightarrow> string" where
  "trim_start s = (if ws_head s = 0 then s else trim_start (drop (ws_head s) s))"
  by auto
termination
proof (relation "measure length")
  show "wf (measure length)" by simp
  fix s assume "ws_head s \<noteq> 0"
  then show "(drop (ws_head s) s, s) \<in> measure length"
    by (elim ws_headE) (auto simp: is_char_def)
qed

declare trim_start.simps [simp del]

fun find_ws :: "string \<Rightarrow> nat option" where
  "find_ws [] = None"
| "find_ws (c # cs) = (if ws_head (c # cs) \<noteq> 0 then Some 0 else map_option Suc (find_ws cs))"

definition rfind_ws :: "string \<Rightarrow> nat option" where
  "rfind_ws s = find (\<lambda>i. ws_head (drop i s) \<noteq> 0) (rev [0..<length s])"

fun split_ws :: "nat \<Rightarrow> string \<Rightarrow> string \<Rightarrow> string list" where
  "split_ws skip acc [] = (if acc = [] then [] else [rev acc])"
| "split_ws (Suc skip) acc (c # cs) = split_ws skip acc cs"
| "split_ws 0 acc (c # cs) =
     (if ws_head (c # cs) \<noteq> 0
      then (if acc = [] then [] else [rev acc]) @ split_ws (ws_head (c # cs) - 1) [] cs
      else split_ws 0 (c # acc) cs)"

definition split_whitespace :: "string \<Rightarrow> string list" where
  "split_whitespace s = split_ws 0 [] s"

text \<open>\<open>str::trim\<close> and \<open>str::lines\<close>: a line ends at a line feed, with one carriage return before it
  removed; a last line without a line feed is kept as it is.\<close>

definition ws_tail :: "string \<Rightarrow> nat" where
  "ws_tail s = (case find (\<lambda>w. ends_with w s) ws_chars of Some w \<Rightarrow> length w | None \<Rightarrow> 0)"

lemma ws_tail_pos: "ws_tail s \<noteq> 0 \<Longrightarrow> s \<noteq> []"
  using ws_chars_is_char
  by (auto simp: ws_tail_def ends_with_def starts_with_def is_char_def find_Some_iff list_all_length
      split: option.splits)

function trim_end :: "string \<Rightarrow> string" where
  "trim_end s = (if ws_tail s = 0 then s else trim_end (take (length s - ws_tail s) s))"
  by auto
termination
proof (relation "measure length")
  fix s assume "ws_tail s \<noteq> 0"
  with ws_tail_pos [OF this] show "(take (length s - ws_tail s) s, s) \<in> measure length"
    by (cases s) simp_all
qed simp

declare trim_end.simps [simp del]

definition trim :: "string \<Rightarrow> string" where
  "trim s = trim_end (trim_start s)"

fun lines_from :: "string \<Rightarrow> string \<Rightarrow> string list" where
  "lines_from acc [] = (if acc = [] then [] else [rev acc])"
| "lines_from acc (c # cs) =
     (if c = CHR 0x0A
      then (case acc of r # rs \<Rightarrow> if r = CHR 0x0D then rev rs else rev acc | [] \<Rightarrow> []) # lines_from [] cs
      else lines_from (c # acc) cs)"

definition str_lines :: "string \<Rightarrow> string list" where
  "str_lines s = lines_from [] s"

lemma ws_head_char: "ws_head s \<noteq> 0 \<Longrightarrow> is_char (take (ws_head s) s)"
  by (erule ws_headE) simp

lemma ws_head_le: "ws_head s \<le> length s"
  by (cases "ws_head s = 0") (simp, erule ws_headE, simp)

lemma utf8_drop_ws: "ws_head s \<noteq> 0 \<Longrightarrow> utf8 s \<Longrightarrow> utf8 (drop (ws_head s) s)"
  using utf8_char_append [OF ws_head_char, of s "drop (ws_head s) s"] by simp

lemma utf8_trim_start: "utf8 s \<Longrightarrow> utf8 (trim_start s)"
proof (induction s rule: trim_start.induct)
  case (1 s)
  then show ?case by (subst trim_start.simps) (simp add: utf8_drop_ws)
qed

lemma trim_start_suffix: "\<exists>p. s = p @ trim_start s"
proof (induction s rule: trim_start.induct)
  case (1 s)
  show ?case
  proof (cases "ws_head s = 0")
    case True
    then show ?thesis by (subst trim_start.simps) simp
  next
    case False
    then obtain p where "drop (ws_head s) s = p @ trim_start (drop (ws_head s) s)" using 1 by blast
    then have "s = (take (ws_head s) s @ p) @ trim_start s"
      using False by (metis append.assoc append_take_drop_id trim_start.simps)
    then show ?thesis by blast
  qed
qed

lemma find_ws_Some: "find_ws s = Some i \<Longrightarrow> i < length s \<and> ws_head (drop i s) \<noteq> 0"
  by (induction s arbitrary: i) (auto split: if_splits)

lemma find_ws_boundary: "find_ws s = Some i \<Longrightarrow> is_char_boundary s i"
proof -
  assume s: "find_ws s = Some i"
  then have i: "i < length s" "ws_head (drop i s) \<noteq> 0" by (simp_all add: find_ws_Some)
  then obtain w t where w: "drop i s = w @ t" "is_char w" by (elim ws_headE)
  then have "\<not> continuation (hd w)" "w \<noteq> []"
    using utf8_not_continuation [of w] by (auto simp: is_char_def utf8.simps [of w])
  moreover have "s ! i = hd w"
    using w i(1) \<open>w \<noteq> []\<close> by (metis hd_append2 hd_drop_conv_nth)
  ultimately show ?thesis using i(1) by (simp add: is_char_boundary_iff)
qed

end
