(* ===== verification/Health.thy ===== *)
theory Health
  imports Core_Types Utf8
begin

text \<open>
  Health policy and transition tracking (\<open>chimera-core-manager/src/health/mod.rs\<close>). Instants and
  durations are nanoseconds; the two thresholds are \<open>NonZeroU32\<close>, which \<open>wf_policy\<close> records. A
  Rust string is its UTF-8 bytes, one \<open>char\<close> each.

  The reference for the tracker is the history of observations: the failures counted since the
  last success and the length of the current run of successes decide the state.
\<close>

section \<open>Policy\<close>

record health_policy =
  hp_interval :: nat
  hp_timeout :: nat
  hp_failure_threshold :: u32
  hp_success_threshold :: u32
  hp_start_period :: nat

record health_thresholds =
  ht_failure :: u32
  ht_success :: u32

record health_policy_spec =
  hps_interval :: nat
  hps_timeout :: nat
  hps_thresholds :: health_thresholds
  hps_start_period :: nat

definition health_policy_new :: "health_policy_spec \<Rightarrow> error + health_policy" where
  "health_policy_new spec =
     (if hps_interval spec = 0 then Inl (InvalidHealthPolicy ''interval must be greater than zero'')
      else if hps_timeout spec = 0 then Inl (InvalidHealthPolicy ''timeout must be greater than zero'')
      else Inr \<lparr>hp_interval = hps_interval spec, hp_timeout = hps_timeout spec,
        hp_failure_threshold = ht_failure (hps_thresholds spec),
        hp_success_threshold = ht_success (hps_thresholds spec),
        hp_start_period = hps_start_period spec\<rparr>)"

definition health_policy_default :: health_policy where
  "health_policy_default = \<lparr>hp_interval = 250 * 10 ^ 6, hp_timeout = 10 ^ 9,
     hp_failure_threshold = 3, hp_success_threshold = 1, hp_start_period = 0\<rparr>"

definition wf_policy :: "health_policy \<Rightarrow> bool" where
  "wf_policy p \<longleftrightarrow> hp_failure_threshold p \<noteq> 0 \<and> hp_success_threshold p \<noteq> 0"

section \<open>Tracker\<close>

datatype tracker_state = TStarting | THealthy | TUnhealthy

datatype probe_result = ProbeHealthy | ProbeUnhealthy "string option"

definition is_healthy :: "probe_result \<Rightarrow> bool" where
  "is_healthy r \<longleftrightarrow> r = ProbeHealthy"

record tracker_update =
  tu_state :: tracker_state
  tu_transitioned :: bool
  tu_consecutive_failures :: u32
  tu_last_error :: "string option"

record health_tracker =
  tr_policy :: health_policy
  tr_started_at :: nat
  tr_grace_ended :: bool
  tr_state :: tracker_state
  tr_consecutive_failures :: u32
  tr_consecutive_successes :: u32
  tr_last_error :: "string option"

definition tracker_new :: "health_policy \<Rightarrow> nat \<Rightarrow> health_tracker" where
  "tracker_new policy started_at = \<lparr>tr_policy = policy, tr_started_at = started_at,
     tr_grace_ended = False, tr_state = TStarting, tr_consecutive_failures = 0,
     tr_consecutive_successes = 0, tr_last_error = None\<rparr>"

definition MAX_LAST_ERROR_BYTES :: nat where
  "MAX_LAST_ERROR_BYTES = 512"

definition cap_detail :: "string \<Rightarrow> string" where
  "cap_detail detail =
     (if length detail \<le> MAX_LAST_ERROR_BYTES then detail
      else take (floor_boundary detail MAX_LAST_ERROR_BYTES) detail)"

definition observe_healthy :: "health_tracker \<Rightarrow> health_tracker" where
  "observe_healthy t =
     (let t = t\<lparr>tr_grace_ended := True, tr_consecutive_failures := 0, tr_last_error := None\<rparr>
      in if tr_state t = THealthy then t\<lparr>tr_consecutive_successes := 0\<rparr>
         else let t = t\<lparr>tr_consecutive_successes := saturating_add (tr_consecutive_successes t) 1\<rparr>
           in if hp_success_threshold (tr_policy t) \<le> tr_consecutive_successes t
              then t\<lparr>tr_state := THealthy, tr_consecutive_successes := 0\<rparr> else t)"

definition observe_unhealthy :: "nat \<Rightarrow> string option \<Rightarrow> health_tracker \<Rightarrow> health_tracker" where
  "observe_unhealthy now detail t =
     (let t = t\<lparr>tr_consecutive_successes := 0, tr_last_error := map_option cap_detail detail\<rparr>;
          grace_active = (\<not> tr_grace_ended t \<and> now < tr_started_at t + hp_start_period (tr_policy t))
      in if grace_active then t
         else let t = t\<lparr>tr_consecutive_failures := saturating_add (tr_consecutive_failures t) 1\<rparr>
           in if tr_state t \<noteq> TUnhealthy
                \<and> hp_failure_threshold (tr_policy t) \<le> tr_consecutive_failures t
              then t\<lparr>tr_state := TUnhealthy\<rparr> else t)"

definition observe ::
  "nat \<Rightarrow> probe_result \<Rightarrow> health_tracker \<Rightarrow> tracker_update \<times> health_tracker" where
  "observe now result t =
     (let t' = (case result of ProbeHealthy \<Rightarrow> observe_healthy t
                | ProbeUnhealthy detail \<Rightarrow> observe_unhealthy now detail t)
      in (\<lparr>tu_state = tr_state t', tu_transitioned = (tr_state t \<noteq> tr_state t'),
           tu_consecutive_failures = tr_consecutive_failures t',
           tu_last_error = tr_last_error t'\<rparr>, t'))"

section \<open>Histories\<close>

type_synonym observations = "(nat \<times> probe_result) list"

text \<open>The tracker after a history of observations, oldest first.\<close>

definition observe_all :: "health_tracker \<Rightarrow> observations \<Rightarrow> health_tracker" where
  "observe_all t h = foldl (\<lambda>t (now, r). snd (observe now r t)) t h"

definition state_after :: "health_policy \<Rightarrow> nat \<Rightarrow> observations \<Rightarrow> tracker_state" where
  "state_after p t0 h = tr_state (observe_all (tracker_new p t0) h)"

definition seen_success :: "observations \<Rightarrow> bool" where
  "seen_success h \<longleftrightarrow> (\<exists>x \<in> set h. is_healthy (snd x))"

text \<open>Failures since the last success, leaving out those inside the start period.\<close>

definition failures_since_success :: "nat \<Rightarrow> observations \<Rightarrow> nat" where
  "failures_since_success grace_end h =
     length (filter (\<lambda>x. grace_end \<le> fst x \<or> seen_success h)
       (takeWhile (\<lambda>x. \<not> is_healthy (snd x)) (rev h)))"

definition success_run :: "observations \<Rightarrow> nat" where
  "success_run h = length (takeWhile (\<lambda>x. is_healthy (snd x)) (rev h))"

lemma observe_all_snoc:
  "observe_all t (h @ [x]) = snd (observe (fst x) (snd x) (observe_all t h))"
  by (cases x) (simp add: observe_all_def)

lemma observe_policy [simp]:
  "tr_policy (snd (observe now r t)) = tr_policy t"
  "tr_started_at (snd (observe now r t)) = tr_started_at t"
  by (simp_all add: observe_def observe_healthy_def observe_unhealthy_def Let_def
      split: probe_result.split)

lemma observe_all_policy [simp]:
  "tr_policy (observe_all t h) = tr_policy t" "tr_started_at (observe_all t h) = tr_started_at t"
  by (induction h arbitrary: t) (auto simp: observe_all_def split: prod.split)

lemma tracker_new_sel [simp]:
  "tr_policy (tracker_new p t0) = p" "tr_started_at (tracker_new p t0) = t0"
  "tr_state (tracker_new p t0) = TStarting" "\<not> tr_grace_ended (tracker_new p t0)"
  "tr_consecutive_failures (tracker_new p t0) = 0" "tr_consecutive_successes (tracker_new p t0) = 0"
  by (simp_all add: tracker_new_def)

lemma seen_success_snoc [simp]: "seen_success (h @ [x]) \<longleftrightarrow> seen_success h \<or> is_healthy (snd x)"
  by (auto simp: seen_success_def)

lemma failures_since_success_snoc:
  "failures_since_success g (h @ [x]) =
     (if is_healthy (snd x) then 0
      else failures_since_success g h + (if g \<le> fst x \<or> seen_success h then 1 else 0))"
proof (cases "is_healthy (snd x)")
  case True
  then show ?thesis by (simp add: failures_since_success_def)
next
  case False
  then have "seen_success (h @ [x]) = seen_success h" by simp
  with False show ?thesis
    unfolding failures_since_success_def by (simp del: seen_success_snoc)
qed

lemma success_run_snoc:
  "success_run (h @ [x]) = (if is_healthy (snd x) then Suc (success_run h) else 0)"
  by (simp add: success_run_def)

text \<open>What the tracker's fields mean, and the bounds the thresholds put on its counters.\<close>

definition tracker_inv :: "health_policy \<Rightarrow> nat \<Rightarrow> observations \<Rightarrow> health_tracker \<Rightarrow> bool" where
  "tracker_inv p t0 h t \<longleftrightarrow>
     tr_grace_ended t = seen_success h \<and>
     unat (tr_consecutive_failures t) =
       min (failures_since_success (t0 + hp_start_period p) h) (2 ^ 32 - 1) \<and>
     (tr_state t = THealthy \<longrightarrow> tr_consecutive_successes t = 0) \<and>
     (tr_state t \<noteq> THealthy \<longrightarrow> unat (tr_consecutive_successes t) = success_run h \<and>
        success_run h < unat (hp_success_threshold p)) \<and>
     (tr_state t \<noteq> TUnhealthy \<longrightarrow>
        failures_since_success (t0 + hp_start_period p) h < unat (hp_failure_threshold p))"

lemma unat_u32_bound: "unat (w :: u32) \<le> 2 ^ 32 - 1"
  using unsigned_less [of w, where ?'a = nat] by simp

lemma unat_saturating_Suc: "unat (saturating_add w (1 :: u32)) = min (Suc (unat w)) (2 ^ 32 - 1)"
  by (simp add: unat_saturating_add)

lemma tracker_inv_healthy:
  assumes "tracker_inv p t0 h t" and "tr_policy t = p" and "wf_policy p"
  shows "tracker_inv p t0 (h @ [(now, ProbeHealthy)]) (observe_healthy t)"
proof -
  have run: "success_run (h @ [(now, ProbeHealthy)]) = Suc (success_run h)"
    by (simp add: success_run_snoc is_healthy_def)
  have fail: "failures_since_success (t0 + hp_start_period p) (h @ [(now, ProbeHealthy)]) = 0"
    by (simp add: failures_since_success_snoc is_healthy_def)
  have pos: "0 < unat (hp_failure_threshold p)"
    using assms(3) by (simp add: wf_policy_def unat_gt_0)
  show ?thesis
  proof (cases "tr_state t = THealthy")
    case True
    with assms(1) pos show ?thesis
      by (simp add: tracker_inv_def observe_healthy_def Let_def fail is_healthy_def)
  next
    case False
    with assms(1) have cs: "unat (tr_consecutive_successes t) = success_run h"
      and lt: "success_run h < unat (hp_success_threshold p)"
      by (simp_all add: tracker_inv_def)
    have "Suc (success_run h) \<le> 2 ^ 32 - 1"
      using lt unat_u32_bound [of "hp_success_threshold p"] by linarith
    then have sat: "unat (saturating_add (tr_consecutive_successes t) 1) = Suc (success_run h)"
      by (simp add: unat_saturating_Suc cs)
    with False assms(1,2) pos show ?thesis
      by (simp add: tracker_inv_def observe_healthy_def Let_def fail run is_healthy_def
          word_le_nat_alt)
  qed
qed

lemma tracker_inv_unhealthy:
  assumes "tracker_inv p t0 h t" and "tr_policy t = p" and "tr_started_at t = t0"
    and "wf_policy p"
  shows "tracker_inv p t0 (h @ [(now, ProbeUnhealthy d)]) (observe_unhealthy now d t)"
proof -
  let ?g = "t0 + hp_start_period p"
  let ?f = "failures_since_success ?g"
  have run: "success_run (h @ [(now, ProbeUnhealthy d)]) = 0"
    by (simp add: success_run_snoc is_healthy_def)
  have pos: "0 < unat (hp_success_threshold p)"
    using assms(4) by (simp add: wf_policy_def unat_gt_0)
  have cf: "unat (tr_consecutive_failures t) = min (?f h) (2 ^ 32 - 1)"
    using assms(1) by (simp add: tracker_inv_def)
  have seen: "tr_grace_ended t = seen_success h"
    using assms(1) by (simp add: tracker_inv_def)
  have ft: "unat (hp_failure_threshold p) \<le> 2 ^ 32 - 1" by (rule unat_u32_bound)
  show ?thesis
  proof (cases "\<not> seen_success h \<and> now < ?g")
    case True
    then have "?f (h @ [(now, ProbeUnhealthy d)]) = ?f h"
      by (simp add: failures_since_success_snoc is_healthy_def)
    with True assms(1-3) pos show ?thesis
      by (simp add: tracker_inv_def observe_unhealthy_def Let_def run is_healthy_def)
  next
    case False
    then have f: "?f (h @ [(now, ProbeUnhealthy d)]) = Suc (?f h)"
      by (auto simp: failures_since_success_snoc is_healthy_def)
    have sat: "unat (saturating_add (tr_consecutive_failures t) 1) = min (Suc (?f h)) (2 ^ 32 - 1)"
      by (simp add: unat_saturating_Suc cf)
    have thr: "hp_failure_threshold p \<le> saturating_add (tr_consecutive_failures t) 1
        \<longleftrightarrow> unat (hp_failure_threshold p) \<le> Suc (?f h)"
      using ft by (auto simp: word_le_nat_alt sat)
    from False seen assms(2,3) have eq: "observe_unhealthy now d t =
      (let t = t\<lparr>tr_consecutive_successes := 0, tr_last_error := map_option cap_detail d,
            tr_consecutive_failures := saturating_add (tr_consecutive_failures t) 1\<rparr>
       in if tr_state t \<noteq> TUnhealthy \<and> unat (hp_failure_threshold p) \<le> Suc (?f h)
          then t\<lparr>tr_state := TUnhealthy\<rparr> else t)"
      using thr by (auto simp: observe_unhealthy_def Let_def)
    show ?thesis
      using assms(1) pos by (auto simp: eq tracker_inv_def Let_def f sat run is_healthy_def)
  qed
qed

lemma tracker_inv_observe_all:
  assumes "wf_policy p"
  shows "tracker_inv p t0 h (observe_all (tracker_new p t0) h)"
proof (induction h rule: rev_induct)
  case Nil
  have "0 < unat (hp_success_threshold p)" "0 < unat (hp_failure_threshold p)"
    using assms by (simp_all add: wf_policy_def unat_gt_0)
  then show ?case
    by (simp add: tracker_inv_def observe_all_def seen_success_def failures_since_success_def
        success_run_def)
next
  case (snoc x h)
  obtain now r where x: "x = (now, r)" by (cases x)
  show ?case
  proof (cases r)
    case ProbeHealthy
    with snoc assms show ?thesis
      by (simp add: observe_all_snoc x observe_def Let_def tracker_inv_healthy)
  next
    case (ProbeUnhealthy d)
    with snoc assms show ?thesis
      by (simp add: observe_all_snoc x observe_def Let_def tracker_inv_unhealthy)
  qed
qed

section \<open>Properties\<close>



text \<open>A diagnostic kept in the health status is the longest prefix of the probe's text that has
  at most 512 bytes and ends on a character boundary: text that fits is kept whole and longer text
  never splits a character.\<close>

theorem cap_detail_spec:
  "cap_detail d = take (Max {i. is_char_boundary d i \<and> i \<le> length d \<and> i \<le> 512}) d
   \<and> length (cap_detail d) \<le> 512"
proof -
  let ?B = "{i. is_char_boundary d i \<and> i \<le> length d \<and> i \<le> 512}"
  have fin: "finite ?B" by (rule finite_subset [of _ "{..512}"]) auto
  show ?thesis
  proof (cases "length d \<le> 512")
    case True
    have "Max ?B = length d"
      using True by (intro Max_eqI fin) (auto simp: is_char_boundary_def)
    with True show ?thesis by (simp add: cap_detail_def MAX_LAST_ERROR_BYTES_def)
  next
    case False
    have "Max ?B = floor_boundary d 512"
      using False floor_boundary_le [of d 512]
      by (intro Max_eqI fin) (auto simp: floor_boundary_is_boundary intro: floor_boundary_greatest)
    with False floor_boundary_le [of d 512] show ?thesis
      by (simp add: cap_detail_def MAX_LAST_ERROR_BYTES_def)
  qed
qed

end
