(* ===== verification/Specs.thy ===== *)
theory Specs
  imports Health
begin

text \<open>
  Launch specifications and manager options (\<open>spec.rs\<close>), the feature tables
  (\<open>chimera-core-metadata/src/feature.rs\<close>, \<open>feature/clash.rs\<close>) and the resolution of what the
  manager enables (\<open>capability.rs\<close>). The \<open>semver\<close> parser and the version probe of the core binary
  are parameters. The local transport is the one of the Unix build, \<open>UnixSocketIpc\<close>.
\<close>

section \<open>Specifications\<close>

datatype restart_policy = Never | OnFailure u32

record backoff =
  bo_initial :: nat
  bo_max :: nat
  bo_jitter :: bool

datatype local_ipc_policy = Force | Prefer | Disable

record local_ipc_settings =
  lis_policy :: local_ipc_policy
  lis_keep_http_controller :: bool

record core_spec =
  co_kind :: core_kind
  co_binary_path :: string
  co_version :: "string option"
  co_features :: "string list"

record instance_options =
  io_local_ipc :: "local_ipc_settings option"
  io_startup_timeout :: nat
  io_health :: health_policy
  io_restart_policy :: restart_policy
  io_backoff :: backoff

record instance_spec =
  sp_core :: core_spec
  sp_config_path :: string
  sp_working_dir :: string
  sp_pid_file :: "string option"
  sp_options :: instance_options

definition instance_options_default :: instance_options where
  "instance_options_default = \<lparr>io_local_ipc = None, io_startup_timeout = 30 * 10 ^ 9,
     io_health = health_policy_default, io_restart_policy = OnFailure 5,
     io_backoff = \<lparr>bo_initial = 10 ^ 9, bo_max = 30 * 10 ^ 9, bo_jitter = True\<rparr>\<rparr>"

record manager_options =
  mo_runtime_dir :: "string option"
  mo_local_ipc_policy :: local_ipc_policy
  mo_controller_template :: "string option"
  mo_controller_dir :: "string option"
  mo_control_timeout :: nat
  mo_reconcile_timeout :: nat
  mo_stop_timeout :: nat
  mo_dns_timeout :: nat
  mo_log_sink_enabled :: bool
  mo_log_max_bytes :: u64
  mo_log_max_files :: nat

definition manager_options_default :: manager_options where
  "manager_options_default = \<lparr>mo_runtime_dir = None, mo_local_ipc_policy = Disable,
     mo_controller_template = None, mo_controller_dir = None, mo_control_timeout = 10 * 10 ^ 9,
     mo_reconcile_timeout = 30 * 10 ^ 9, mo_stop_timeout = 10 * 10 ^ 9, mo_dns_timeout = 10 * 10 ^ 9,
     mo_log_sink_enabled = True, mo_log_max_bytes = 4 * 1024 * 1024, mo_log_max_files = 5\<rparr>"

definition run_args :: "core_kind \<Rightarrow> string \<Rightarrow> string \<Rightarrow> string list" where
  "run_args kind dir cfg = (case kind of
       Mihomo \<Rightarrow> [''-m'', ''-d'', dir, ''-f'', cfg]
     | Meow \<Rightarrow> [''-m'', ''-d'', dir, ''-f'', cfg]
     | ClashRust \<Rightarrow> [''-d'', dir, ''-c'', cfg]
     | ChimeraClient \<Rightarrow> [''-d'', dir, ''-c'', cfg]
     | ClashPremium \<Rightarrow> [''-d'', dir, ''-f'', cfg])"

definition controller_args :: "core_kind \<Rightarrow> host \<Rightarrow> string list" where
  "controller_args kind host =
     (if kind \<notin> {ClashRust, ChimeraClient} then []
      else case host of
        NamedPipe path \<Rightarrow> [''--controller-ipc'', path]
      | UnixSocket path \<Rightarrow> [''--controller-ipc'', path]
      | _ \<Rightarrow> [])"

section \<open>Feature tables\<close>

type_synonym version = "nat \<times> nat \<times> nat"

datatype core_version = Release version | Nightly | Unknown

datatype support = Yes | Since version | No

definition version_le :: "version \<Rightarrow> version \<Rightarrow> bool" where
  "version_le a b \<longleftrightarrow> (case (a, b) of ((a1, a2, a3), (b1, b2, b3)) \<Rightarrow>
     a1 < b1 \<or> a1 = b1 \<and> (a2 < b2 \<or> a2 = b2 \<and> a3 \<le> b3))"

text \<open>\<open>CoreVersion::parse\<close>: the first token that is a version or a nightly label.\<close>

definition is_ascii_alphanumeric :: "char \<Rightarrow> bool" where
  "is_ascii_alphanumeric c \<longleftrightarrow> is_digit c
     \<or> (65 \<le> (of_char c :: nat) \<and> (of_char c :: nat) \<le> 90)
     \<or> (97 \<le> (of_char c :: nat) \<and> (of_char c :: nat) \<le> 122)"

definition version_char :: "char \<Rightarrow> bool" where
  "version_char c \<longleftrightarrow> is_ascii_alphanumeric c \<or> c \<in> set ''.-+_''"

definition trim_token :: "string \<Rightarrow> string" where
  "trim_token s = rev (dropWhile (\<lambda>c. \<not> version_char c) (rev (dropWhile (\<lambda>c. \<not> version_char c) s)))"

fun parse_tokens :: "(string \<Rightarrow> version option) \<Rightarrow> string list \<Rightarrow> core_version" where
  "parse_tokens semver [] = Unknown"
| "parse_tokens semver (raw # rest) =
     (let token = trim_token raw;
          bare = (case strip_prefix ''v'' token of Some v \<Rightarrow> v | None \<Rightarrow> token)
      in case semver bare of
           Some v \<Rightarrow> Release v
         | None \<Rightarrow>
             if \<exists>prefix \<in> set [''alpha-'', ''nightly-''].
                  (case strip_prefix prefix token of Some value \<Rightarrow> value \<noteq> [] | None \<Rightarrow> False)
             then Nightly else parse_tokens semver rest)"

definition core_version_parse :: "(string \<Rightarrow> version option) \<Rightarrow> string \<Rightarrow> core_version" where
  "core_version_parse semver raw = parse_tokens semver (split_whitespace raw)"

definition since :: "version \<Rightarrow> core_version option \<Rightarrow> support" where
  "since floor version = (case version of
       Some (Release v) \<Rightarrow> if version_le floor v then Yes else No
     | Some Nightly \<Rightarrow> Yes
     | Some Unknown \<Rightarrow> No
     | None \<Rightarrow> Since floor)"

fun supports :: "core_kind \<Rightarrow> feature \<Rightarrow> core_version option \<Rightarrow> support" where
  "supports Mihomo feature v = (case feature of
       NamedPipeIpc \<Rightarrow> since (1, 18, 9) v
     | NamedPipeSecurityDescriptor \<Rightarrow> since (1, 18, 9) v
     | UnixSocketIpc \<Rightarrow> since (1, 18, 4) v
     | DisableTcpController \<Rightarrow> No)"
| "supports ClashRust feature v = (case feature of
       NamedPipeIpc \<Rightarrow> since (0, 9, 7) v
     | NamedPipeSecurityDescriptor \<Rightarrow> No
     | UnixSocketIpc \<Rightarrow> since (0, 9, 1) v
     | DisableTcpController \<Rightarrow> No)"
| "supports ChimeraClient feature v = (case feature of
       NamedPipeIpc \<Rightarrow> since (0, 9, 7) v
     | NamedPipeSecurityDescriptor \<Rightarrow> No
     | UnixSocketIpc \<Rightarrow> since (0, 9, 1) v
     | DisableTcpController \<Rightarrow> No)"
| "supports ClashPremium feature v = No"
| "supports Meow feature v = No"

definition all_features :: "feature list" where
  "all_features = [NamedPipeIpc, UnixSocketIpc, DisableTcpController, NamedPipeSecurityDescriptor]"

definition features :: "core_kind \<Rightarrow> core_version option \<Rightarrow> feature list" where
  "features kind version = filter (\<lambda>f. supports kind f version = Yes) all_features"

definition potential_features :: "core_kind \<Rightarrow> feature list" where
  "potential_features kind = filter (\<lambda>f. supports kind f None \<noteq> No) all_features"

section \<open>Capabilities\<close>

record resolved_features =
  rf_capabilities :: "feature list"
  rf_runtime :: "runtime_feature list"
  rf_version :: "string option"

definition LOCAL_TRANSPORT_FEATURE :: feature where
  "LOCAL_TRANSPORT_FEATURE = UnixSocketIpc"

definition resolve_runtime ::
  "local_ipc_policy \<Rightarrow> core_spec \<Rightarrow> feature list \<Rightarrow> string option \<Rightarrow> error + runtime_feature list"
where
  "resolve_runtime policy core capabilities resolved_version =
     (let local_supported = LOCAL_TRANSPORT_FEATURE \<in> set capabilities
      in case policy of
           Force \<Rightarrow> if local_supported then Inr [LocalIpc]
             else Inl (RequiredLocalIpcUnsupported (co_kind core)
               (case resolved_version of Some v \<Rightarrow> v
                | None \<Rightarrow> (case co_version core of Some v \<Rightarrow> v | None \<Rightarrow> ''unknown'')))
         | Prefer \<Rightarrow> Inr (if local_supported then [LocalIpc] else [])
         | Disable \<Rightarrow> Inr [])"

text \<open>The version cache maps a binary and its modification time to the probed banner. Its two
  reads of the file's metadata and the probe itself are parameters.\<close>

type_synonym version_cache = "((string \<times> nat) \<times> string) list"

definition version_resolve ::
  "(string \<Rightarrow> error + nat) \<Rightarrow> (string \<Rightarrow> error + string) \<Rightarrow> (string \<Rightarrow> error + nat) \<Rightarrow>
   core_spec \<Rightarrow> version_cache \<Rightarrow> (error + string) \<times> version_cache" where
  "version_resolve modified_before probe modified_after spec cache =
     (case co_version spec of
        Some version \<Rightarrow> (Inr version, cache)
      | None \<Rightarrow> (case modified_before (co_binary_path spec) of
          Inl e \<Rightarrow> (Inl e, cache)
        | Inr modified \<Rightarrow> (let key = (co_binary_path spec, modified) in
            case map_of cache key of
              Some version \<Rightarrow> (Inr version, cache)
            | None \<Rightarrow> (case probe (co_binary_path spec) of
                Inl e \<Rightarrow> (Inl e, cache)
              | Inr version \<Rightarrow> (case modified_after (co_binary_path spec) of
                  Inl e \<Rightarrow> (Inl e, cache)
                | Inr modified' \<Rightarrow>
                    if modified' \<noteq> modified then
                      (Inl (CoreVersionProbeFailed (co_binary_path spec)
                         ''core binary changed during version probe; retry with the replacement binary''),
                       cache)
                    else (Inr version, (key, version) #
                      filter (\<lambda>((path, _), _). path \<noteq> co_binary_path spec) cache))))))"

definition resolve_features ::
  "(string \<Rightarrow> version option) \<Rightarrow> (core_spec \<Rightarrow> version_cache \<Rightarrow> (error + string) \<times> version_cache) \<Rightarrow>
   core_spec \<Rightarrow> local_ipc_policy \<Rightarrow> version_cache \<Rightarrow> (error + resolved_features) \<times> version_cache"
where
  "resolve_features semver resolve core policy cache =
     (let finish = (\<lambda>caps version.
            map_ok (\<lambda>runtime. \<lparr>rf_capabilities = caps, rf_runtime = runtime, rf_version = version\<rparr>)
              (resolve_runtime policy core caps version))
      in if potential_features (co_kind core) = [] then (finish [] (co_version core), cache)
         else case resolve core cache of
           (Inl e, cache) \<Rightarrow> (Inl e, cache)
         | (Inr version, cache) \<Rightarrow>
             (finish (features (co_kind core) (Some (core_version_parse semver version)))
                (Some version), cache))"

section \<open>Properties\<close>

lemma version_le_trans: "version_le a b \<Longrightarrow> version_le b c \<Longrightarrow> version_le a c"
  by (auto simp: version_le_def split: prod.splits)

lemma since_mono: "since floor (Some (Release v)) = Yes \<Longrightarrow> version_le v w \<Longrightarrow>
    since floor (Some (Release w)) = Yes"
  by (auto simp: since_def split: if_splits intro: version_le_trans)

lemma supports_mono: "supports k f (Some (Release v)) = Yes \<Longrightarrow> version_le v w \<Longrightarrow>
    supports k f (Some (Release w)) = Yes"
  by (cases k; cases f) (auto intro: since_mono)

text \<open>Feature support is monotone in the core's version: what a release supports every later
  release supports, and nothing is reported as supported that the probe short-circuit
  (\<open>potential_features\<close>) leaves out.\<close>

theorem features_monotone:
  assumes "version_le v w"
  shows "set (features k (Some (Release v))) \<subseteq> set (features k (Some (Release w)))
    \<and> set (features k (Some ver)) \<subseteq> set (potential_features k)"
proof
  show "set (features k (Some (Release v))) \<subseteq> set (features k (Some (Release w)))"
    using assms by (auto simp: features_def dest: supports_mono)
  show "set (features k (Some ver)) \<subseteq> set (potential_features k)"
    by (cases k) (auto simp: features_def potential_features_def since_def all_features_def
        split: core_version.splits if_splits)
qed

theorem features_monotone_witness:
  "version_le (1, 18, 4) (1, 19, 0) \<and>
   set (features Mihomo (Some (Release (1, 18, 4)))) \<subseteq> set (features Mihomo (Some (Release (1, 19, 0))))
   \<and> UnixSocketIpc \<in> set (features Mihomo (Some (Release (1, 18, 4))))"
  using features_monotone [of "(1, 18, 4)" "(1, 19, 0)" Mihomo Unknown]
  by (simp add: version_le_def features_def all_features_def since_def)

text \<open>The manager enables local IPC only for a core whose resolved capabilities include the
  platform transport and never under \<open>Disable\<close>; under \<open>Force\<close> the resolution either enables it or
  fails before anything is staged, and \<open>Prefer\<close> enables it exactly when it is supported.\<close>

theorem resolve_runtime_policy:
  "case resolve_runtime policy core caps ver of
     Inl e \<Rightarrow> policy = Force \<and> LOCAL_TRANSPORT_FEATURE \<notin> set caps
       \<and> (\<exists>v. e = RequiredLocalIpcUnsupported (co_kind core) v)
   | Inr rt \<Rightarrow> rt = (if policy \<noteq> Disable \<and> LOCAL_TRANSPORT_FEATURE \<in> set caps then [LocalIpc] else [])
       \<and> (if policy = Force then LocalIpc \<in> set rt else True)"
  by (cases policy) (auto simp: resolve_runtime_def Let_def split: if_splits)

end
