(* ===== verification/Yaml.thy ===== *)
theory Yaml
  imports Core_Types
begin

text \<open>
  YAML documents as \<open>serde_yaml_ng\<close> represents them, and the schema-agnostic part of
  \<open>chimera-core-manager/src/config\<close>: \<open>canonicalize\<close> of \<open>config/mod.rs\<close> and the diffing primitives
  of \<open>config/diff.rs\<close>. A mapping keeps its insertion order and has distinct keys; two mappings
  are equal when they hold the same entries in any order (\<open>value_eq\<close>). On canonical documents,
  the only ones the manager compares, that is equality (\<open>value_eq_canonical\<close>).
\<close>

section \<open>Values and mappings\<close>

datatype yaml_number = PosInt nat | NegInt int | Float string

datatype yaml_value =
    Null
  | Bool bool
  | Number yaml_number
  | String string
  | Sequence "yaml_value list"
  | Mapping "(yaml_value \<times> yaml_value) list"
  | Tagged string yaml_value

type_synonym mapping = "(yaml_value \<times> yaml_value) list"

definition as_mapping :: "yaml_value \<Rightarrow> mapping option" where
  "as_mapping v = (case v of Mapping m \<Rightarrow> Some m | _ \<Rightarrow> None)"

definition as_str :: "yaml_value \<Rightarrow> string option" where
  "as_str v = (case v of String s \<Rightarrow> Some s | _ \<Rightarrow> None)"

definition as_bool :: "yaml_value \<Rightarrow> bool option" where
  "as_bool v = (case v of Bool b \<Rightarrow> Some b | _ \<Rightarrow> None)"

definition as_i64 :: "yaml_value \<Rightarrow> int option" where
  "as_i64 v = (case v of
       Number (PosInt n) \<Rightarrow> if n < 2 ^ 63 then Some (int n) else None
     | Number (NegInt i) \<Rightarrow> Some i
     | _ \<Rightarrow> None)"

definition mapping_get :: "mapping \<Rightarrow> string \<Rightarrow> yaml_value option" where
  "mapping_get m k = map_of m (String k)"

text \<open>Overwriting keeps an entry's place, a new entry goes last; removal swaps the last entry in.\<close>

fun assoc_insert :: "'k \<Rightarrow> 'v \<Rightarrow> ('k \<times> 'v) list \<Rightarrow> ('k \<times> 'v) list" where
  "assoc_insert k v [] = [(k, v)]"
| "assoc_insert k v ((k', v') # m) =
     (if k' = k then (k, v) # m else (k', v') # assoc_insert k v m)"

definition mapping_insert :: "string \<Rightarrow> yaml_value \<Rightarrow> mapping \<Rightarrow> mapping" where
  "mapping_insert k v m = assoc_insert (String k) v m"

fun swap_remove :: "'k \<Rightarrow> ('k \<times> 'v) list \<Rightarrow> ('k \<times> 'v) list" where
  "swap_remove k [] = []"
| "swap_remove k ((k', v) # m) =
     (if k' = k then (if m = [] then [] else last m # butlast m) else (k', v) # swap_remove k m)"

definition mapping_remove :: "string \<Rightarrow> mapping \<Rightarrow> mapping" where
  "mapping_remove k m = swap_remove (String k) m"

lemma size_entry:
  "(a, b) \<in> set m \<Longrightarrow> size a < Suc (size_list (size_prod size size) m)
     \<and> size b < Suc (size_list (size_prod size size) m)"
  by (induction m) auto

function (sequential) value_eq :: "yaml_value \<Rightarrow> yaml_value \<Rightarrow> bool" where
  "value_eq (Mapping m) (Mapping n) \<longleftrightarrow> length m = length n \<and>
     list_all (\<lambda>(k, v). list_ex (\<lambda>(k', v'). value_eq k k' \<and> value_eq v v') n) m"
| "value_eq (Sequence xs) (Sequence ys) \<longleftrightarrow> length xs = length ys \<and>
     list_all (\<lambda>(x, y). value_eq x y) (zip xs ys)"
| "value_eq (Tagged t a) (Tagged u b) \<longleftrightarrow> t = u \<and> value_eq a b"
| "value_eq Null Null \<longleftrightarrow> True"
| "value_eq (Bool a) (Bool b) \<longleftrightarrow> a = b"
| "value_eq (Number a) (Number b) \<longleftrightarrow> a = b"
| "value_eq (String a) (String b) \<longleftrightarrow> a = b"
| "value_eq _ _ \<longleftrightarrow> False"
  by pat_completeness auto
termination
proof (relation "measure (\<lambda>(a, b). size a)", goal_cases)
  case (4 xs ys p x y)
  then have "x \<in> set xs" by (auto dest: set_zip_leftD)
  then have "size x \<le> size_list size xs" by (rule size_list_estimation') simp
  with 4 show ?case by (auto simp: less_Suc_eq_le)
qed (auto dest: size_entry)

section \<open>Canonical documents\<close>

fun canonicalize :: "yaml_value \<Rightarrow> error + yaml_value"
  and canonicalize_entries :: "mapping \<Rightarrow> error + (string \<times> yaml_value) list"
  and canonicalize_items :: "yaml_value list \<Rightarrow> error + yaml_value list" where
  "canonicalize (Mapping m) =
     map_ok (\<lambda>entries. Mapping (foldl (\<lambda>c (k, v). mapping_insert k v c) [] (sort_key fst entries)))
       (canonicalize_entries m)"
| "canonicalize (Sequence xs) = map_ok Sequence (canonicalize_items xs)"
| "canonicalize (Tagged t v) =
     Inl (InvalidConfig ''tagged YAML values are not supported in runtime configs'')"
| "canonicalize v = Inr v"
| "canonicalize_entries [] = Inr []"
| "canonicalize_entries ((k, v) # m) = (case k of
       String key \<Rightarrow> (case canonicalize v of
           Inl e \<Rightarrow> Inl e
         | Inr v' \<Rightarrow> map_ok (\<lambda>rest. (key, v') # rest) (canonicalize_entries m))
     | _ \<Rightarrow> Inl (InvalidConfig ''all YAML mapping keys must be strings''))"
| "canonicalize_items [] = Inr []"
| "canonicalize_items (x # xs) = (case canonicalize x of
       Inl e \<Rightarrow> Inl e
     | Inr x' \<Rightarrow> map_ok (\<lambda>rest. x' # rest) (canonicalize_items xs))"

definition str_keys :: "mapping \<Rightarrow> string list" where
  "str_keys m = List.map_filter (\<lambda>(k, _). as_str k) m"

fun canonical :: "yaml_value \<Rightarrow> bool" where
  "canonical (Mapping m) \<longleftrightarrow> list_all (\<lambda>(k, v). as_str k \<noteq> None \<and> canonical v) m
     \<and> sorted_wrt (<) (str_keys m)"
| "canonical (Sequence xs) \<longleftrightarrow> list_all canonical xs"
| "canonical (Tagged t v) \<longleftrightarrow> False"
| "canonical v \<longleftrightarrow> True"

section \<open>Diff\<close>

record diff_entry =
  de_path :: "string list"
  de_new :: "yaml_value option"

definition opt_eq :: "yaml_value option \<Rightarrow> yaml_value option \<Rightarrow> bool" where
  "opt_eq a b \<longleftrightarrow> (case (a, b) of
     (None, None) \<Rightarrow> True | (Some x, Some y) \<Rightarrow> value_eq x y | _ \<Rightarrow> False)"

definition merged_keys :: "mapping option \<Rightarrow> mapping option \<Rightarrow> string list" where
  "merged_keys c d = sorted_list_of_set
     (set (case c of None \<Rightarrow> [] | Some m \<Rightarrow> str_keys m)
      \<union> set (case d of None \<Rightarrow> [] | Some m \<Rightarrow> str_keys m))"

definition opt_mapping :: "yaml_value option \<Rightarrow> mapping option" where
  "opt_mapping v = Option.bind v as_mapping"

definition child :: "mapping option \<Rightarrow> string \<Rightarrow> yaml_value option" where
  "child m k = Option.bind m (\<lambda>m. mapping_get m k)"

fun value_size :: "yaml_value \<Rightarrow> nat" where
  "value_size (Mapping m) = Suc (sum_list (map (\<lambda>(k, v). value_size v) m))"
| "value_size _ = 1"

definition opt_size :: "yaml_value option \<Rightarrow> nat" where
  "opt_size v = (case v of None \<Rightarrow> 0 | Some x \<Rightarrow> value_size x)"

lemma str_keys_set: "k \<in> set (str_keys m) \<longleftrightarrow> String k \<in> fst ` set m"
proof (induction m)
  case Nil
  show ?case by (simp add: str_keys_def)
next
  case (Cons p m)
  then show ?case
    by (cases p; cases "fst p") (auto simp: str_keys_def as_str_def)
qed

lemma mapping_get_size: "mapping_get m k = Some v \<Longrightarrow> value_size v < value_size (Mapping m)"
proof -
  assume "mapping_get m k = Some v"
  then have "(String k, v) \<in> set m" by (simp add: mapping_get_def map_of_SomeD)
  then have "value_size v \<in> set (map (\<lambda>(k, v). value_size v) m)" by force
  then have "value_size v \<le> sum_list (map (\<lambda>(k, v). value_size v) m)"
    by (intro member_le_sum_list) simp_all
  then show ?thesis by simp
qed

lemma child_size: "opt_mapping v \<noteq> None \<Longrightarrow> opt_size (child (opt_mapping v) k) < opt_size v"
proof (cases v)
  case (Some x)
  assume "opt_mapping v \<noteq> None"
  with Some obtain m where x: "x = Mapping m"
    by (auto simp: opt_mapping_def as_mapping_def split: yaml_value.splits)
  then show ?thesis
    using Some mapping_get_size [of m k]
    by (cases "mapping_get m k") (auto simp: opt_mapping_def child_def opt_size_def as_mapping_def)
qed (simp add: opt_mapping_def)

lemma child_None [simp]: "child None k = None"
  by (simp add: child_def)

function diff_value ::
  "yaml_value option \<Rightarrow> yaml_value option \<Rightarrow> string list \<Rightarrow> diff_entry list" where
  "diff_value current desired path =
     (if opt_eq current desired then []
      else let cm = opt_mapping current; dm = opt_mapping desired
        in if (cm \<noteq> None \<or> dm \<noteq> None)
              \<and> (current = None \<or> cm \<noteq> None \<and> (desired = None \<or> dm \<noteq> None))
              \<and> merged_keys cm dm \<noteq> []
           then concat (map (\<lambda>k. diff_value (child cm k) (child dm k) (path @ [k])) (merged_keys cm dm))
           else [\<lparr>de_path = path, de_new = desired\<rparr>])"
  by pat_completeness auto
termination
proof (relation "measure (\<lambda>(c, d, _). opt_size c + opt_size d)", goal_cases)
  case 1
  show ?case by simp
next
  case (2 current desired path cm dm k)
  have le: "opt_size (child (opt_mapping v) k) \<le> opt_size v" for v
    using child_size [of v k] by (cases "opt_mapping v") (auto simp: opt_size_def)
  have "opt_size (child (opt_mapping current) k) < opt_size current
      \<or> opt_size (child (opt_mapping desired) k) < opt_size desired"
    using 2 child_size by auto
  then show ?case using le [of current] le [of desired] 2(2,3) by auto
qed

declare diff_value.simps [simp del]

definition diff :: "mapping \<Rightarrow> mapping \<Rightarrow> diff_entry list" where
  "diff current desired = diff_value (Some (Mapping current)) (Some (Mapping desired)) []"

fun collect_leaves :: "yaml_value \<Rightarrow> string list \<Rightarrow> (string list \<times> yaml_value) list" where
  "collect_leaves (Mapping m) path =
     (if m \<noteq> [] then concat (map (\<lambda>(k, v). case k of
          String key \<Rightarrow> collect_leaves v (path @ [key]) | _ \<Rightarrow> []) m)
      else [(path, Mapping m)])"
| "collect_leaves v path = [(path, v)]"

fun value_at :: "yaml_value \<Rightarrow> string list \<Rightarrow> yaml_value option" where
  "value_at v [] = Some v"
| "value_at v (k # ks) = (case as_mapping v of
     None \<Rightarrow> None
   | Some m \<Rightarrow> (case mapping_get m k of None \<Rightarrow> None | Some v' \<Rightarrow> value_at v' ks))"

section \<open>Mapping lemmas\<close>

lemma map_of_assoc_insert [simp]: "map_of (assoc_insert k v m) = (map_of m)(k \<mapsto> v)"
  by (induction m) (auto simp: fun_eq_iff)

lemma mapping_get_insert [simp]:
  "mapping_get (mapping_insert k v m) k' = (if k' = k then Some v else mapping_get m k')"
  by (simp add: mapping_get_def mapping_insert_def)

lemma set_last_butlast: "m \<noteq> [] \<Longrightarrow> set (last m # butlast m) = set m"
  by (metis append_butlast_last_id list.set(2) set_append Un_commute list.set(1) Un_insert_right
      sup_bot_right list.simps(15))

lemma distinct_last_butlast:
  "m \<noteq> [] \<Longrightarrow> distinct (map fst m) \<Longrightarrow> distinct (map fst (last m # butlast m))"
  by (cases m rule: rev_cases) auto

lemma map_of_eqI':
  "distinct (map fst xs) \<Longrightarrow> distinct (map fst ys) \<Longrightarrow> set xs = set ys \<Longrightarrow> map_of xs = map_of ys"
  by (simp add: map_of_inject_set)

lemma map_of_swap_remove:
  "distinct (map fst m) \<Longrightarrow> map_of (swap_remove k m) = (map_of m)(k := None)
     \<and> distinct (map fst (swap_remove k m)) \<and> fst ` set (swap_remove k m) = fst ` set m - {k}"
proof (induction m)
  case (Cons p m)
  obtain k' v where p: "p = (k', v)" by (cases p)
  show ?case
  proof (cases "k' = k")
    case True
    have notin: "k \<notin> fst ` set m" using Cons.prems p True by auto
    show ?thesis
    proof (cases "m = []")
      case True
      then show ?thesis using \<open>k' = k\<close> by (auto simp: p)
    next
      case False
      have d: "distinct (map fst (last m # butlast m))"
        using False Cons.prems by (intro distinct_last_butlast) auto
      have "map_of (last m # butlast m) = map_of m"
        by (metis Cons.prems d distinct.simps(2) list.map(2) map_of_eqI' set_last_butlast [OF False])
      moreover have "(map_of m)(k := None) = map_of m"
        using notin by (auto simp: fun_eq_iff dom_map_of_conv_image_fst dest: map_of_SomeD
            intro!: ext split: if_splits)
      ultimately show ?thesis
        using d notin \<open>k' = k\<close> False set_last_butlast [OF False]
        by (simp add: p) (auto simp: fun_eq_iff split: if_splits)
    qed
  next
    case False
    with Cons show ?thesis by (auto simp: p fun_eq_iff)
  qed
qed simp

lemma mapping_get_remove:
  "distinct (map fst m) \<Longrightarrow>
     mapping_get (mapping_remove k m) k' = (if k' = k then None else mapping_get m k')"
  by (simp add: mapping_get_def mapping_remove_def map_of_swap_remove)

lemma keys_assoc_insert: "fst ` set (assoc_insert k v m) = insert k (fst ` set m)"
proof (induction m)
  case (Cons p m)
  then show ?case by (cases p) (simp add: insert_commute)
qed simp

lemma distinct_assoc_insert:
  "distinct (map fst m) \<Longrightarrow> distinct (map fst (assoc_insert k v m))"
proof (induction m)
  case (Cons p m)
  then show ?case using keys_assoc_insert [of k v m] by (cases p) auto
qed simp


section \<open>Canonicalization\<close>

lemma str_keys_Nil [simp]: "str_keys [] = []"
  by (simp add: str_keys_def)

lemma str_keys_Cons_String [simp]: "str_keys ((String k, v) # m) = k # str_keys m"
  by (simp add: str_keys_def as_str_def List.map_filter_simps)

lemma as_str_eq_Some [simp]: "as_str v = Some k \<longleftrightarrow> v = String k"
  by (cases v) (auto simp: as_str_def)

lemma as_str_String [simp]: "as_str (String k) = Some k"
  by simp

lemma canonical_Cons:
  "canonical (Mapping (p # m)) \<longleftrightarrow> (\<exists>k v. p = (String k, v) \<and> canonical v
     \<and> (\<forall>k' \<in> set (str_keys m). k < k') \<and> canonical (Mapping m))"
proof (cases p)
  case (Pair a b)
  then show ?thesis by (cases a) (auto simp: as_str_def)
qed

declare canonical.simps(1) [simp del]

lemma canonical_Nil [simp]: "canonical (Mapping [])"
  by (simp add: canonical.simps)

lemma canonical_insert:
  "canonical (Mapping m) \<Longrightarrow> canonical v \<Longrightarrow> \<forall>k' \<in> set (str_keys m). k' \<le> k \<Longrightarrow>
     canonical (Mapping (mapping_insert k v m))
     \<and> set (str_keys (mapping_insert k v m)) = insert k (set (str_keys m))"
proof (induction m)
  case (Cons p m)
  then obtain k' v' where "p = (String k', v')" by (auto simp: canonical_Cons)
  with Cons show ?case
    by (cases "k' = k") (auto simp: canonical_Cons mapping_insert_def)
next
  case Nil
  then show ?case by (auto simp: canonical_Cons mapping_insert_def)
qed

lemma canonical_foldl_insert:
  "sorted (map fst es) \<Longrightarrow> list_all (canonical \<circ> snd) es \<Longrightarrow> canonical (Mapping c) \<Longrightarrow>
     \<forall>k \<in> set (str_keys c). \<forall>e \<in> set es. k \<le> fst e \<Longrightarrow>
     canonical (Mapping (foldl (\<lambda>c (k, v). mapping_insert k v c) c es))"
proof (induction es arbitrary: c)
  case (Cons e es)
  obtain k v where e: "e = (k, v)" by (cases e)
  have "canonical (Mapping (mapping_insert k v c))
      \<and> set (str_keys (mapping_insert k v c)) = insert k (set (str_keys c))"
    using Cons.prems e by (intro canonical_insert) auto
  with Cons e show ?case by simp
qed simp

lemma canonicalize_canonical':
  "(\<forall>c. canonicalize v = Inr c \<longrightarrow> canonical c)"
  "(\<forall>es. canonicalize_entries m = Inr es \<longrightarrow> list_all (canonical \<circ> snd) es)"
  "(\<forall>cs. canonicalize_items xs = Inr cs \<longrightarrow> list_all canonical cs)"
proof (induction v and m and xs rule: canonicalize_canonicalize_entries_canonicalize_items.induct)
  case (1 m)
  show ?case
  proof (intro allI impI)
    fix c assume "canonicalize (Mapping m) = Inr c"
    then obtain es where es: "canonicalize_entries m = Inr es"
      and c: "c = Mapping (foldl (\<lambda>c (k, v). mapping_insert k v c) [] (sort_key fst es))"
      by (auto simp: map_ok_def split: sum.splits)
    from 1 es have "list_all (canonical \<circ> snd) (sort_key fst es)" by (simp add: list_all_iff)
    then show "canonical c" unfolding c by (intro canonical_foldl_insert) auto
  qed
qed (auto simp: map_ok_def split: sum.splits yaml_value.splits)

lemma foldl_insert_append:
  "distinct (map fst es) \<Longrightarrow> fst ` set es \<inter> set (str_keys c) = {} \<Longrightarrow>
     list_all (\<lambda>(k, v). as_str k \<noteq> None) c \<Longrightarrow>
     foldl (\<lambda>c (k, v). mapping_insert k v c) c es = c @ map (\<lambda>(k, v). (String k, v)) es"
proof (induction es arbitrary: c)
  case (Cons e es)
  obtain k v where e: "e = (k, v)" by (cases e)
  have app: "k \<notin> set (str_keys c) \<Longrightarrow> mapping_insert k v c = c @ [(String k, v)]"
    unfolding str_keys_set mapping_insert_def by (induction c) auto
  have "set (str_keys (c @ [(String k, v)])) = insert k (set (str_keys c))"
    by (auto simp: str_keys_set)
  with Cons app show ?case by (simp add: e)
qed simp

lemma canonicalize_id':
  "canonical v \<Longrightarrow> canonicalize v = Inr v"
  "canonical (Mapping m) \<Longrightarrow> canonicalize_entries m = Inr (map (\<lambda>(k, v). (the (as_str k), v)) m)"
  "list_all canonical xs \<Longrightarrow> canonicalize_items xs = Inr xs"
proof (induction v and m and xs rule: canonicalize_canonicalize_entries_canonicalize_items.induct)
  case (1 m)
  let ?es = "map (\<lambda>(k, v). (the (as_str k), v)) m"
  have all: "list_all (\<lambda>(k, v). as_str k \<noteq> None) m" and s: "sorted_wrt (<) (str_keys m)"
    using 1(2) by (auto simp: canonical.simps list_all_iff)
  from all have keys: "map fst ?es = str_keys m" and inv: "map (\<lambda>(k, v). (String k, v)) ?es = m"
    by (induction m) auto
  have "sorted (map fst ?es)" "distinct (map fst ?es)"
    unfolding keys using s by (auto simp: strict_sorted_iff)
  then have "foldl (\<lambda>c (k, v). mapping_insert k v c) [] (sort_key fst ?es) = m"
    using foldl_insert_append [of ?es "[]"] inv by (simp add: sort_key_id_if_sorted)
  with 1 show ?case by (simp add: map_ok_def)
qed (auto simp: map_ok_def canonical_Cons)

lemmas canonicalize_id = canonicalize_id'(1)

text \<open>Canonicalization puts every accepted document in canonical form (string keys, strictly
  increasing, at every level), and leaves a canonical document as it is: it is idempotent.\<close>

theorem canonicalize_idempotent:
  "case canonicalize v of Inl e \<Rightarrow> True | Inr c \<Rightarrow> canonical c \<and> canonicalize c = Inr c"
  using canonicalize_canonical'(1) [of v] canonicalize_id by (auto split: sum.splits)


section \<open>Equality of canonical documents\<close>

lemma entries_eqI:
  "map fst m = map fst n \<Longrightarrow> set m = set n \<Longrightarrow> distinct (map fst m) \<Longrightarrow> m = n"
proof (intro nth_equalityI)
  assume k: "map fst m = map fst n" and s: "set m = set n" and d: "distinct (map fst m)"
  show len: "length m = length n" using k by (rule map_eq_imp_length_eq)
  fix i assume i: "i < length m"
  have "fst (m ! i) = fst (n ! i)" using k i len by (metis nth_map)
  moreover have "n ! i \<in> set m" using s i len by simp
  ultimately show "m ! i = n ! i"
    using d i by (metis distinct_map inj_on_eq_iff nth_mem)
qed

lemma canonical_set:
  "canonical (Mapping m) \<longleftrightarrow> (\<forall>(k, v) \<in> set m. as_str k \<noteq> None \<and> canonical v)
     \<and> sorted_wrt (<) (str_keys m)"
  by (auto simp: canonical.simps list_all_iff)

lemma canonical_str_keys:
  "canonical (Mapping m) \<Longrightarrow> map fst m = map String (str_keys m)"
  by (induction m) (auto simp: canonical_Cons)

lemma canonical_distinct: "canonical (Mapping m) \<Longrightarrow> distinct (map fst m)"
  by (simp add: canonical_str_keys distinct_map inj_on_def canonical_set strict_sorted_iff)

lemma canonical_set_inject:
  assumes "canonical (Mapping m)" "canonical (Mapping n)" "set m = set n"
  shows "m = n"
proof -
  have "set (str_keys m) = set (str_keys n)"
    using assms(3) by (auto simp: str_keys_set)
  with assms(1,2) have "str_keys m = str_keys n"
    by (simp add: canonical_set strict_sorted_equal)
  then have "map fst m = map fst n"
    using assms(1,2) by (simp add: canonical_str_keys)
  with assms show ?thesis
    using canonical_distinct [of m] by (intro entries_eqI) auto
qed


lemma canonical_mapping_eqI:
  assumes "canonical (Mapping m)" "canonical (Mapping n)"
    and "length m = length n" "set m \<subseteq> set n"
  shows "m = n"
proof -
  have "card (set m) = card (set n)"
    using assms(3) canonical_distinct [OF assms(1)] canonical_distinct [OF assms(2)]
    by (simp add: distinct_card distinct_map)
  with assms show ?thesis
    by (intro canonical_set_inject card_subset_eq) auto
qed

lemma canonical_member:
  "canonical (Mapping m) \<Longrightarrow> (k, v) \<in> set m \<Longrightarrow> (\<exists>s. k = String s) \<and> canonical v"
  by (fastforce simp: canonical_set)

lemma value_eq_canonical: "canonical a \<Longrightarrow> canonical b \<Longrightarrow> value_eq a b \<longleftrightarrow> a = b"
proof (induction a b rule: value_eq.induct)
  case (1 m n)
  have entry: "value_eq k k' \<and> value_eq v v' \<longleftrightarrow> (k, v) = (k', v')"
    if "(k, v) \<in> set m" "(k', v') \<in> set n" for k v k' v'
    using that 1 canonical_member [of m k v] canonical_member [of n k' v'] by auto
  have "value_eq (Mapping m) (Mapping n) \<longleftrightarrow> length m = length n \<and> set m \<subseteq> set n"
    using entry by (fastforce simp: list_all_iff list_ex_iff)
  then show ?case using canonical_mapping_eqI [of m n] 1 by auto
next
  case (2 xs ys)
  have "value_eq x y \<longleftrightarrow> x = y" if "(x, y) \<in> set (zip xs ys)" for x y
    using 2(1) [OF that refl] 2(2,3) that
    by (metis canonical.simps(2) list_all_iff set_zip_leftD set_zip_rightD)
  then show ?case by (auto simp: list_all_iff list_eq_iff_zip_eq)
qed auto

section \<open>What a diff says\<close>

definition opt_canonical :: "yaml_value option \<Rightarrow> bool" where
  "opt_canonical v \<longleftrightarrow> (case v of None \<Rightarrow> True | Some x \<Rightarrow> canonical x)"

definition opt_at :: "yaml_value option \<Rightarrow> string list \<Rightarrow> yaml_value option" where
  "opt_at v p = Option.bind v (\<lambda>x. value_at x p)"

lemma opt_at_Nil [simp]: "opt_at v [] = v"
  by (cases v) (auto simp: opt_at_def)

lemma opt_at_Cons: "opt_at v (k # ks) = opt_at (child (opt_mapping v) k) ks"
  by (cases v) (auto simp: opt_at_def child_def opt_mapping_def split: option.splits)

lemma opt_eq_canonical: "opt_canonical c \<Longrightarrow> opt_canonical d \<Longrightarrow> opt_eq c d \<longleftrightarrow> c = d"
  by (auto simp: opt_canonical_def opt_eq_def value_eq_canonical split: option.splits)

lemma child_canonical: "opt_canonical v \<Longrightarrow> opt_canonical (child (opt_mapping v) k)"
  by (auto simp: opt_canonical_def child_def opt_mapping_def as_mapping_def mapping_get_def
      canonical_set split: option.splits yaml_value.splits dest!: map_of_SomeD)

lemma merged_keys_iff:
  "k \<in> set (merged_keys c d) \<longleftrightarrow> child c k \<noteq> None \<or> child d k \<noteq> None"
proof -
  have "set (merged_keys c d) = set (case c of None \<Rightarrow> [] | Some m \<Rightarrow> str_keys m)
      \<union> set (case d of None \<Rightarrow> [] | Some m \<Rightarrow> str_keys m)"
    unfolding merged_keys_def by (rule set_sorted_list_of_set) (intro finite_UnI finite_set)
  moreover have "k \<in> set (case x of None \<Rightarrow> [] | Some m \<Rightarrow> str_keys m) \<longleftrightarrow> child x k \<noteq> None" for x
    by (cases x) (simp_all add: child_def str_keys_set mapping_get_def map_of_eq_None_iff)
  ultimately show ?thesis by blast
qed

lemma canonical_map_of_inject:
  "canonical (Mapping m) \<Longrightarrow> canonical (Mapping n) \<Longrightarrow>
     (\<And>k. mapping_get m k = mapping_get n k) \<Longrightarrow> m = n"
proof (rule canonical_set_inject)
  assume c: "canonical (Mapping m)" "canonical (Mapping n)"
    and e: "\<And>k. mapping_get m k = mapping_get n k"
  have "(k, v) \<in> set m \<longleftrightarrow> (k, v) \<in> set n" for k v
  proof (cases "\<exists>s. k = String s")
    case True
    then show ?thesis
      using e c [THEN canonical_distinct] by (metis mapping_get_def map_of_eq_Some_iff)
  next
    case False
    then show ?thesis using c canonical_member by blast
  qed
  then show "set m = set n" by auto
qed


lemma opt_mapping_Some [simp]: "opt_mapping v = Some m \<longleftrightarrow> v = Some (Mapping m)"
  by (cases v) (auto simp: opt_mapping_def as_mapping_def split: yaml_value.splits)

text \<open>A node at which the walk descends: its keys tell the two sides apart.\<close>

definition descends :: "yaml_value option \<Rightarrow> yaml_value option \<Rightarrow> bool" where
  "descends c d \<longleftrightarrow> (opt_mapping c \<noteq> None \<or> opt_mapping d \<noteq> None)
     \<and> (c = None \<or> opt_mapping c \<noteq> None \<and> (d = None \<or> opt_mapping d \<noteq> None))
     \<and> merged_keys (opt_mapping c) (opt_mapping d) \<noteq> []"

lemma diff_value_cases:
  assumes "opt_canonical c" "opt_canonical d"
  shows "diff_value c d p = (if c = d then []
     else if descends c d then concat (map (\<lambda>k. diff_value (child (opt_mapping c) k)
            (child (opt_mapping d) k) (p @ [k])) (merged_keys (opt_mapping c) (opt_mapping d)))
     else [\<lparr>de_path = p, de_new = d\<rparr>])"
  by (subst diff_value.simps) (simp add: descends_def Let_def opt_eq_canonical assms)

lemma descends_children_differ:
  assumes "opt_canonical c" "opt_canonical d" "c \<noteq> d" "descends c d"
  shows "\<exists>k. child (opt_mapping c) k \<noteq> child (opt_mapping d) k"
proof (rule ccontr)
  assume "\<not> ?thesis"
  then have eq: "child (opt_mapping c) k = child (opt_mapping d) k" for k by simp
  obtain k where k: "k \<in> set (merged_keys (opt_mapping c) (opt_mapping d))"
    using assms(4) unfolding descends_def by (meson last_in_set)
  then have "child (opt_mapping c) k \<noteq> None" "child (opt_mapping d) k \<noteq> None"
    using eq by (auto simp: merged_keys_iff)
  then obtain m n where "c = Some (Mapping m)" "d = Some (Mapping n)"
    by (cases "opt_mapping c"; cases "opt_mapping d") auto
  moreover from this have "m = n"
    using assms eq
    by (intro canonical_map_of_inject)
       (auto simp: opt_canonical_def child_def opt_mapping_def as_mapping_def)
  ultimately show False using assms by simp
qed

definition diff_sound :: "yaml_value option \<Rightarrow> yaml_value option \<Rightarrow> string list \<Rightarrow> diff_entry \<Rightarrow> bool" where
  "diff_sound c d p e \<longleftrightarrow> (\<exists>q. de_path e = p @ q \<and> de_new e = opt_at d q
     \<and> opt_at c q \<noteq> opt_at d q \<and> \<not> descends (opt_at c q) (opt_at d q))"

lemma diff_value_sound:
  "opt_canonical c \<Longrightarrow> opt_canonical d \<Longrightarrow> e \<in> set (diff_value c d p) \<Longrightarrow> diff_sound c d p e"
proof (induction c d p rule: diff_value.induct)
  case (1 c d p)
  show ?case
  proof (cases "c \<noteq> d \<and> descends c d")
    case True
    with 1 obtain k where k: "k \<in> set (merged_keys (opt_mapping c) (opt_mapping d))"
      and e: "e \<in> set (diff_value (child (opt_mapping c) k) (child (opt_mapping d) k) (p @ [k]))"
      by (auto simp: diff_value_cases)
    have "diff_sound (child (opt_mapping c) k) (child (opt_mapping d) k) (p @ [k]) e"
      using 1(1) [OF _ refl refl _ k] True e 1(2,3) unfolding descends_def
      by (simp add: opt_eq_canonical child_canonical)
    then obtain q where "de_path e = p @ k # q" "de_new e = opt_at d (k # q)"
      "opt_at c (k # q) \<noteq> opt_at d (k # q)" "\<not> descends (opt_at c (k # q)) (opt_at d (k # q))"
      by (auto simp: diff_sound_def opt_at_Cons)
    then show ?thesis unfolding diff_sound_def by blast
  next
    case False
    with 1 show ?thesis by (auto simp: diff_value_cases diff_sound_def split: if_splits)
  qed
qed

lemma diff_value_complete:
  "opt_canonical c \<Longrightarrow> opt_canonical d \<Longrightarrow> opt_at c q \<noteq> opt_at d q \<Longrightarrow>
     \<exists>e \<in> set (diff_value c d p). prefix (de_path e) (p @ q) \<or> prefix (p @ q) (de_path e)"
proof (induction c d p arbitrary: q rule: diff_value.induct)
  case (1 c d p)
  have ne: "c \<noteq> d" using 1(4) by auto
  show ?case
  proof (cases "descends c d")
    case True
    obtain k r where kr: "opt_at (child (opt_mapping c) k) r \<noteq> opt_at (child (opt_mapping d) k) r"
      and q: "q = [] \<or> q = k # r"
      using 1(4) descends_children_differ [OF 1(2,3) ne True]
      by (cases q) (auto simp: opt_at_Cons, metis opt_at_Nil)
    have k: "k \<in> set (merged_keys (opt_mapping c) (opt_mapping d))"
      using kr unfolding merged_keys_iff opt_at_def by (metis bind_eq_None_conv)
    have "\<exists>e \<in> set (diff_value (child (opt_mapping c) k) (child (opt_mapping d) k) (p @ [k])).
        prefix (de_path e) ((p @ [k]) @ r) \<or> prefix ((p @ [k]) @ r) (de_path e)"
      using 1(1) [OF _ refl refl _ k, of r] True ne kr 1(2,3) unfolding descends_def
      by (simp add: opt_eq_canonical child_canonical)
    then obtain e where e: "e \<in> set (diff_value (child (opt_mapping c) k) (child (opt_mapping d) k) (p @ [k]))"
      and pre: "prefix (de_path e) (p @ k # r) \<or> prefix (p @ k # r) (de_path e)" by auto
    have "prefix p (de_path e)"
      using diff_value_sound [OF _ _ e] 1(2,3) by (auto simp: diff_sound_def child_canonical)
    with pre q have "prefix (de_path e) (p @ q) \<or> prefix (p @ q) (de_path e)" by auto
    moreover have "e \<in> set (diff_value c d p)"
      using e k ne True 1(2,3) by (auto simp: diff_value_cases)
    ultimately show ?thesis by blast
  next
    case False
    with 1 ne show ?thesis by (auto simp: diff_value_cases)
  qed
qed


definition roots :: "diff_entry list \<Rightarrow> string set" where
  "roots es = {k. \<exists>e \<in> set es. \<exists>q. de_path e = k # q}"

lemma opt_at_Mapping_Cons [simp]:
  "opt_at (Some (Mapping m)) (k # q) = opt_at (mapping_get m k) q"
  by (simp add: opt_at_def as_mapping_def split: option.splits)

lemma diff_sound_iff:
  "canonical (Mapping m) \<Longrightarrow> canonical (Mapping n) \<Longrightarrow> e \<in> set (diff m n) \<Longrightarrow>
     de_new e = value_at (Mapping n) (de_path e)
     \<and> value_at (Mapping m) (de_path e) \<noteq> value_at (Mapping n) (de_path e) "
  using diff_value_sound [of "Some (Mapping m)" "Some (Mapping n)" e "[]"]
  by (auto simp: diff_def diff_sound_def opt_canonical_def opt_at_def)

lemma diff_leaf:
  "canonical (Mapping m) \<Longrightarrow> canonical (Mapping n) \<Longrightarrow> e \<in> set (diff m n) \<Longrightarrow>
     \<not> descends (value_at (Mapping m) (de_path e)) (value_at (Mapping n) (de_path e))"
  using diff_value_sound [of "Some (Mapping m)" "Some (Mapping n)" e "[]"]
  by (auto simp: diff_def diff_sound_def opt_canonical_def opt_at_def)

lemma diff_paths_nonempty:
  assumes "canonical (Mapping m)" "canonical (Mapping n)" "e \<in> set (diff m n)"
  shows "de_path e \<noteq> []"
proof -
  have ne: "m \<noteq> n" using diff_sound_iff [OF assms] by auto
  then have "\<exists>k. mapping_get m k \<noteq> mapping_get n k"
    using canonical_map_of_inject assms by blast
  then have "merged_keys (Some m) (Some n) \<noteq> []"
    using merged_keys_iff [of _ "Some m" "Some n"] by (fastforce simp: child_def)
  then have "descends (Some (Mapping m)) (Some (Mapping n))"
    by (simp add: descends_def opt_mapping_def as_mapping_def)
  then obtain k where "e \<in> set (diff_value (mapping_get m k) (mapping_get n k) [k])"
    using assms ne by (auto simp: diff_def diff_value_cases opt_canonical_def opt_mapping_def
        as_mapping_def child_def)
  moreover have "opt_canonical (mapping_get m k)" "opt_canonical (mapping_get n k)"
    using child_canonical [of "Some (Mapping m)" k] child_canonical [of "Some (Mapping n)" k] assms
    by (auto simp: opt_canonical_def opt_mapping_def as_mapping_def child_def)
  ultimately show ?thesis using diff_value_sound by (fastforce simp: diff_sound_def)
qed

lemma diff_complete:
  "canonical (Mapping m) \<Longrightarrow> canonical (Mapping n) \<Longrightarrow>
     value_at (Mapping m) q \<noteq> value_at (Mapping n) q \<Longrightarrow>
     \<exists>e \<in> set (diff m n). prefix (de_path e) q \<or> prefix q (de_path e)"
  using diff_value_complete [of "Some (Mapping m)" "Some (Mapping n)" q "[]"]
  by (auto simp: diff_def opt_canonical_def opt_at_def)

lemma diff_Nil_iff:
  "canonical (Mapping m) \<Longrightarrow> canonical (Mapping n) \<Longrightarrow> diff m n = [] \<longleftrightarrow> m = n"
  using diff_complete [of m n "[]"] diff_sound_iff [of m n] by (cases "diff m n") auto

lemma roots_diff:
  assumes "canonical (Mapping m)" "canonical (Mapping n)"
  shows "roots (diff m n) = {k. mapping_get m k \<noteq> mapping_get n k}"
proof -
  have one: "value_at (Mapping x) [k] = mapping_get x k" for x k
    by (simp add: as_mapping_def split: option.splits)
  have "k \<in> roots (diff m n)" if ne: "mapping_get m k \<noteq> mapping_get n k" for k
  proof -
    obtain e where e: "e \<in> set (diff m n)" and pre: "prefix (de_path e) [k] \<or> prefix [k] (de_path e)"
      using diff_complete [OF assms, of "[k]"] ne unfolding one by blast
    then have "\<exists>q. de_path e = k # q"
      using diff_paths_nonempty [OF assms e] by (cases "de_path e") (auto simp: prefix_Cons)
    with e show ?thesis unfolding roots_def by blast
  qed
  moreover have "mapping_get m k \<noteq> mapping_get n k" if "k \<in> roots (diff m n)" for k
    using that diff_sound_iff [OF assms] unfolding roots_def
    by (fastforce simp: as_mapping_def split: option.splits)
  ultimately show ?thesis by blast
qed

text \<open>C10. A diff of two canonical documents is empty exactly when they are equal; every entry names
  a path at which they differ and carries the desired value there; and every path at which they
  differ lies on the path of some entry.\<close>

theorem diff_spec:
  assumes "canonical (Mapping current)" "canonical (Mapping desired)"
  shows "(diff current desired = [] \<longleftrightarrow> current = desired)
    \<and> (\<forall>e \<in> set (diff current desired). de_path e \<noteq> []
         \<and> de_new e = value_at (Mapping desired) (de_path e)
         \<and> value_at (Mapping current) (de_path e) \<noteq> value_at (Mapping desired) (de_path e))
    \<and> (\<forall>q. value_at (Mapping current) q \<noteq> value_at (Mapping desired) q \<longrightarrow>
         (\<exists>e \<in> set (diff current desired). prefix (de_path e) q \<or> prefix q (de_path e)))"
  using assms diff_Nil_iff diff_paths_nonempty diff_sound_iff diff_complete by simp

theorem diff_spec_witness:
  "canonical (Mapping [(String ''mode'', String ''rule'')])
   \<and> canonical (Mapping [(String ''mode'', String ''direct'')])
   \<and> diff [(String ''mode'', String ''rule'')] [(String ''mode'', String ''direct'')] \<noteq> []"
proof -
  have c: "canonical (Mapping [(String ''mode'', String x)])" for x
    by (simp add: canonical_Cons)
  then show ?thesis using diff_spec [OF c [of "''rule''"] c [of "''direct''"]] by simp
qed

end
