(* ===== verification/Config.thy ===== *)
theory Config
  imports Specs Yaml
begin

text \<open>
  The configuration pipeline of \<open>chimera-core-manager/src/config\<close>: the controller vocabulary of
  \<open>clash.rs\<close>, the deny-by-default classification of changes and the bootstrap document of
  \<open>mihomo.rs\<close>, and snapshots, managed endpoints and effective documents of \<open>mod.rs\<close>. The YAML
  reader and printer, the path library, the host parser and the \<open>ConfigPatch\<close> type of the Clash API
  client are the fields of \<open>config_ext\<close>; the build is the Unix one.
\<close>

section \<open>What the pipeline calls\<close>

type_synonym config_patch = yaml_value

record config_ext =
  x_from_slice :: "bytes \<Rightarrow> error + yaml_value"
  x_to_text :: "mapping \<Rightarrow> error + bytes"
  x_host_http :: "string \<Rightarrow> error + host"
  x_join :: "string \<Rightarrow> string \<Rightarrow> string"
  x_is_absolute :: "string \<Rightarrow> bool"
  x_parent :: "string \<Rightarrow> string option"
  x_file_name :: "string \<Rightarrow> string option"
  x_path_starts_with :: "string \<Rightarrow> string \<Rightarrow> bool"
  x_canonicalize_path :: "string \<Rightarrow> string + string"
  x_from_pathname :: "string \<Rightarrow> string + unit"
  x_parse_patch :: "yaml_value \<Rightarrow> config_patch option"
  x_patch_value :: "config_patch \<Rightarrow> error + yaml_value"

section \<open>Controller vocabulary\<close>

definition EXTERNAL_CONTROLLER :: string where
  "EXTERNAL_CONTROLLER = ''external-controller''"

definition EXTERNAL_CONTROLLER_PIPE :: string where
  "EXTERNAL_CONTROLLER_PIPE = ''external-controller-pipe''"

definition EXTERNAL_CONTROLLER_UNIX :: string where
  "EXTERNAL_CONTROLLER_UNIX = ''external-controller-unix''"

definition EXTERNAL_CONTROLLER_TLS :: string where
  "EXTERNAL_CONTROLLER_TLS = ''external-controller-tls''"

definition SECRET :: string where
  "SECRET = ''secret''"

lemmas controller_keys = EXTERNAL_CONTROLLER_def EXTERNAL_CONTROLLER_PIPE_def
  EXTERNAL_CONTROLLER_UNIX_def EXTERNAL_CONTROLLER_TLS_def SECRET_def

definition CONTROLLER_FIELDS :: "string list" where
  "CONTROLLER_FIELDS = [EXTERNAL_CONTROLLER, EXTERNAL_CONTROLLER_TLS, EXTERNAL_CONTROLLER_PIPE,
     EXTERNAL_CONTROLLER_UNIX, SECRET]"

datatype raw_controller = RawPipe string | RawUnix string | RawHttp string

record config_info =
  ci_controller :: "raw_controller option"
  ci_secret :: "string option"

definition str_value :: "mapping \<Rightarrow> string \<Rightarrow> string option" where
  "str_value doc key = (case Option.bind (mapping_get doc key) as_str of
       Some v \<Rightarrow> if v \<noteq> [] then Some v else None
     | None \<Rightarrow> None)"

definition inspect :: "mapping \<Rightarrow> config_info" where
  "inspect doc = \<lparr>ci_controller =
       (case map_option RawUnix (str_value doc EXTERNAL_CONTROLLER_UNIX) of
          Some local \<Rightarrow> Some local
        | None \<Rightarrow> map_option RawHttp (str_value doc EXTERNAL_CONTROLLER)),
     ci_secret = str_value doc SECRET\<rparr>"

definition inspect_http :: "mapping \<Rightarrow> config_info" where
  "inspect_http doc = \<lparr>ci_controller = map_option RawHttp (str_value doc EXTERNAL_CONTROLLER),
     ci_secret = str_value doc SECRET\<rparr>"

definition rewrite_managed_controller :: "mapping \<Rightarrow> string \<Rightarrow> bool \<Rightarrow> mapping" where
  "rewrite_managed_controller doc endpoint keep_http =
     mapping_insert EXTERNAL_CONTROLLER_UNIX (String endpoint)
       (fold (\<lambda>field d.
          if \<not> (field = EXTERNAL_CONTROLLER \<or> field = EXTERNAL_CONTROLLER_TLS) \<or> \<not> keep_http
          then mapping_remove field d else d)
        [EXTERNAL_CONTROLLER, EXTERNAL_CONTROLLER_TLS, EXTERNAL_CONTROLLER_PIPE,
         EXTERNAL_CONTROLLER_UNIX] doc)"

section \<open>Field tables of Mihomo\<close>

definition INBOUND_PORT_FIELDS :: "string list" where
  "INBOUND_PORT_FIELDS = [''port'', ''socks-port'', ''redir-port'', ''tproxy-port'', ''mixed-port'']"

definition PATCH_FIELDS :: "string list" where
  "PATCH_FIELDS = [''port'', ''socks-port'', ''redir-port'', ''tproxy-port'', ''mixed-port'', ''tun'',
     ''tuic-server'', ''ss-config'', ''vmess-config'', ''tcptun-config'', ''udptun-config'',
     ''allow-lan'', ''skip-auth-prefixes'', ''lan-allowed-ips'', ''lan-disallowed-ips'',
     ''bind-address'', ''mode'', ''log-level'', ''ipv6'', ''sniffing'', ''tcp-concurrent'',
     ''find-process-mode'', ''interface-name'']"

definition TUN_PATCH_FIELDS :: "string list" where
  "TUN_PATCH_FIELDS = [''enable'', ''device'', ''stack'', ''dns-hijack'', ''auto-route'',
     ''auto-detect-interface'', ''mtu'', ''gso'', ''gso-max-size'', ''inet6-address'',
     ''iproute2-table-index'', ''iproute2-rule-index'', ''auto-redirect'',
     ''auto-redirect-input-mark'', ''auto-redirect-output-mark'',
     ''auto-redirect-iproute2-fallback-rule-index'', ''loopback-address'', ''strict-route'',
     ''route-address'', ''route-address-set'', ''route-exclude-address'',
     ''route-exclude-address-set'', ''include-interface'', ''exclude-interface'', ''include-uid'',
     ''include-uid-range'', ''exclude-uid'', ''exclude-uid-range'', ''include-android-user'',
     ''include-package'', ''exclude-package'', ''include-mac-address'', ''exclude-mac-address'',
     ''endpoint-independent-nat'', ''udp-timeout'', ''icmp-timeout'', ''file-descriptor'',
     ''inet4-route-address'', ''inet6-route-address'', ''inet4-route-exclude-address'',
     ''inet6-route-exclude-address'', ''recvmsgx'', ''sendmsgx'']"

definition TUIC_SERVER_PATCH_FIELDS :: "string list" where
  "TUIC_SERVER_PATCH_FIELDS = [''enable'', ''listen'', ''token'', ''users'', ''certificate'',
     ''private-key'', ''congestion-controller'', ''max-idle-time'', ''authentication-timeout'',
     ''alpn'', ''max-udp-relay-packet-size'', ''cwnd'', ''bbr-profile'']"

definition RELOAD_FIELDS :: "string list" where
  "RELOAD_FIELDS = [''proxies'', ''proxy-groups'', ''proxy-providers'', ''rule-providers'',
     ''providers'', ''rules'', ''hosts'', ''dns'']"

section \<open>Bootstrap documents\<close>

definition zero_listener :: "string \<Rightarrow> mapping \<Rightarrow> mapping" where
  "zero_listener key doc = (case Option.bind (mapping_get doc key) as_i64 of
       Some value \<Rightarrow> if value \<noteq> 0 then mapping_insert key (Number (PosInt 0)) doc else doc
     | None \<Rightarrow> doc)"

definition zero_inbounds :: "mapping \<Rightarrow> mapping" where
  "zero_inbounds doc =
     (let doc = fold zero_listener INBOUND_PORT_FIELDS doc
      in case Option.bind (mapping_get doc ''tun'') as_mapping of
           Some tun \<Rightarrow>
             if Option.bind (mapping_get tun ''enable'') as_bool = Some True
             then mapping_insert ''tun'' (Mapping (mapping_insert ''enable'' (Bool False) tun)) doc
             else doc
         | None \<Rightarrow> doc)"

section \<open>Classification of changes\<close>

type_synonym runtime_projection = "(string list \<times> yaml_value) list"

datatype config_change = Noop | Patch config_patch runtime_projection | Reload | Switch

definition projection_verify :: "runtime_projection \<Rightarrow> yaml_value \<Rightarrow> bool" where
  "projection_verify expected actual \<longleftrightarrow> list_all (\<lambda>(path, value).
     case value_at actual path of Some a \<Rightarrow> value_eq a value | None \<Rightarrow> False) expected"

definition process_spec_changed :: "instance_spec \<Rightarrow> instance_spec \<Rightarrow> bool" where
  "process_spec_changed current desired \<longleftrightarrow>
     co_kind (sp_core current) \<noteq> co_kind (sp_core desired)
     \<or> co_binary_path (sp_core current) \<noteq> co_binary_path (sp_core desired)
     \<or> co_version (sp_core current) \<noteq> co_version (sp_core desired)
     \<or> co_features (sp_core current) \<noteq> co_features (sp_core desired)
     \<or> sp_working_dir current \<noteq> sp_working_dir desired
     \<or> io_startup_timeout (sp_options current) \<noteq> io_startup_timeout (sp_options desired)
     \<or> io_health (sp_options current) \<noteq> io_health (sp_options desired)
     \<or> io_restart_policy (sp_options current) \<noteq> io_restart_policy (sp_options desired)
     \<or> io_backoff (sp_options current) \<noteq> io_backoff (sp_options desired)"

fun patch_nested_path_is_supported :: "string list \<Rightarrow> bool" where
  "patch_nested_path_is_supported [] = False"
| "patch_nested_path_is_supported (root # rest) =
     (if root = ''tun'' then
        (case rest of field # _ \<Rightarrow> field \<in> set TUN_PATCH_FIELDS | [] \<Rightarrow> False)
      else if root = ''tuic-server'' then
        (case rest of field # _ \<Rightarrow> field \<in> set TUIC_SERVER_PATCH_FIELDS | [] \<Rightarrow> False)
      else rest = [])"

fun is_dns_listen :: "string list \<Rightarrow> bool" where
  "is_dns_listen (a # b # _) \<longleftrightarrow> a = ''dns'' \<and> b = ''listen''"
| "is_dns_listen _ \<longleftrightarrow> False"

definition dns_listen :: "mapping \<Rightarrow> yaml_value option" where
  "dns_listen doc = Option.bind (Option.bind (mapping_get doc ''dns'') as_mapping)
     (\<lambda>dns. mapping_get dns ''listen'')"

fun filter_entries :: "mapping \<Rightarrow> string list \<Rightarrow> mapping \<Rightarrow> error + mapping" where
  "filter_entries [] allowed filtered = Inr filtered"
| "filter_entries ((key, value) # rest) allowed filtered = (case as_str key of
       None \<Rightarrow> Inl (InvalidConfig ''config keys must be strings'')
     | Some key_text \<Rightarrow> filter_entries rest allowed
         (if key_text \<in> set allowed then assoc_insert key value filtered else filtered))"

definition filter_mapping :: "yaml_value \<Rightarrow> string list \<Rightarrow> error + yaml_value" where
  "filter_mapping value allowed = (case as_mapping value of
       None \<Rightarrow> Inl (InvalidConfig ''patchable nested config must be a mapping'')
     | Some m \<Rightarrow> map_ok Mapping (filter_entries m allowed []))"

text \<open>The document of a patch: \<open>Inr None\<close> when a changed root is gone, which needs a switch.\<close>

fun patch_document :: "mapping \<Rightarrow> string list \<Rightarrow> mapping \<Rightarrow> error + mapping option" where
  "patch_document desired [] document = Inr (Some document)"
| "patch_document desired (root # rest) document = (case mapping_get desired root of
       None \<Rightarrow> Inr None
     | Some value \<Rightarrow>
         and_then (if root = ''tun'' then filter_mapping value TUN_PATCH_FIELDS
                   else if root = ''tuic-server'' then filter_mapping value TUIC_SERVER_PATCH_FIELDS
                   else Inr value)
           (\<lambda>value. patch_document desired rest (mapping_insert root value document)))"

definition enable_missing :: "mapping \<Rightarrow> string \<Rightarrow> bool" where
  "enable_missing document root \<longleftrightarrow> mapping_get document root \<noteq> None
     \<and> Option.bind (Option.bind (Option.bind (mapping_get document root) as_mapping)
          (\<lambda>m. mapping_get m ''enable'')) as_bool = None"

definition change_roots :: "diff_entry list \<Rightarrow> string list" where
  "change_roots changes = sorted_list_of_set (set (concat (map (\<lambda>e. take 1 (de_path e)) changes)))"

definition build_patch :: "config_ext \<Rightarrow> mapping \<Rightarrow> diff_entry list \<Rightarrow> error + config_change" where
  "build_patch x desired changes =
     and_then (patch_document desired (change_roots changes) []) (\<lambda>document.
       case document of
         None \<Rightarrow> Inr Switch
       | Some document \<Rightarrow>
           if list_ex (enable_missing document) [''tun'', ''tuic-server''] then Inr Switch
           else case x_parse_patch x (Mapping document) of
             None \<Rightarrow> Inr Switch
           | Some patch \<Rightarrow> and_then (x_patch_value x patch) (\<lambda>serialized.
               Inr (Patch patch (collect_leaves serialized []))))"

definition patchable :: "diff_entry \<Rightarrow> bool" where
  "patchable entry \<longleftrightarrow> de_new entry \<noteq> None \<and> (case de_path entry of
     root # _ \<Rightarrow> root \<in> set PATCH_FIELDS \<and> patch_nested_path_is_supported (de_path entry)
   | [] \<Rightarrow> False)"

definition reloadable :: "diff_entry \<Rightarrow> bool" where
  "reloadable entry \<longleftrightarrow> (case de_path entry of
     root # _ \<Rightarrow> root \<in> set RELOAD_FIELDS \<and> \<not> is_dns_listen (de_path entry)
       \<and> \<not> (root = ''dns'' \<and> length (de_path entry) = 1)
   | [] \<Rightarrow> False)"

definition classify_documents :: "config_ext \<Rightarrow> mapping \<Rightarrow> mapping \<Rightarrow> error + config_change" where
  "classify_documents x current desired =
     (if \<not> opt_eq (dns_listen current) (dns_listen desired) then Inr Switch
      else let changes = diff current desired
        in if changes = [] then Inr Noop
           else if list_all patchable changes then build_patch x desired changes
           else Inr (if list_all reloadable changes then Reload else Switch))"

definition restoration_patch ::
  "config_ext \<Rightarrow> mapping \<Rightarrow> mapping \<Rightarrow> error + (config_patch \<times> runtime_projection) option" where
  "restoration_patch x bootstrap desired =
     and_then (classify_documents x bootstrap desired) (\<lambda>change. case change of
         Noop \<Rightarrow> Inr None
       | Patch patch projection \<Rightarrow> Inr (Some (patch, projection))
       | _ \<Rightarrow> Inl (InvalidConfig
           ''graceful bootstrap cannot be restored losslessly with ConfigPatch''))"

record config_classification_view =
  cv_source :: mapping
  cv_effective :: mapping
  cv_spec :: instance_spec

definition touches_controller :: "diff_entry \<Rightarrow> bool" where
  "touches_controller entry \<longleftrightarrow>
     (case de_path entry of root # _ \<Rightarrow> root \<in> set CONTROLLER_FIELDS | [] \<Rightarrow> False)
     \<or> is_dns_listen (de_path entry)"

definition classify ::
  "config_ext \<Rightarrow> config_classification_view \<Rightarrow> config_classification_view \<Rightarrow> error + config_change" where
  "classify x current desired =
     (if process_spec_changed (cv_spec current) (cv_spec desired) then Inr Switch
      else let source_diff = diff (cv_source current) (cv_source desired)
        in if co_kind (sp_core (cv_spec desired)) \<noteq> Mihomo then
             Inr (if source_diff = [] \<and> diff (cv_effective current) (cv_effective desired) = []
                  then Noop else Switch)
           else if list_ex touches_controller source_diff then Inr Switch
           else classify_documents x (cv_effective current) (cv_effective desired))"

section \<open>Overlapping epochs\<close>

datatype overlap_block = DnsListen | InboundSurface

definition nonempty_collection :: "yaml_value \<Rightarrow> bool" where
  "nonempty_collection value \<longleftrightarrow> (case value of
       Null \<Rightarrow> False
     | String s \<Rightarrow> s \<noteq> []
     | Sequence xs \<Rightarrow> xs \<noteq> []
     | Mapping m \<Rightarrow> m \<noteq> []
     | Bool _ \<Rightarrow> True | Number _ \<Rightarrow> True | Tagged _ _ \<Rightarrow> True)"

definition is_some_and :: "'a option \<Rightarrow> ('a \<Rightarrow> bool) \<Rightarrow> bool" where
  "is_some_and v P \<longleftrightarrow> (case v of Some x \<Rightarrow> P x | None \<Rightarrow> False)"

definition tun_blocks :: "yaml_value \<Rightarrow> bool" where
  "tun_blocks tun \<longleftrightarrow> (case as_mapping tun of
       None \<Rightarrow> True
     | Some m \<Rightarrow> is_some_and (mapping_get m ''enable'') (\<lambda>e. as_bool e = None))"

definition tuic_blocks :: "yaml_value \<Rightarrow> bool" where
  "tuic_blocks tuic \<longleftrightarrow> (case as_mapping tuic of
       None \<Rightarrow> True
     | Some m \<Rightarrow> (case mapping_get m ''enable'' of
           Some enable \<Rightarrow> as_bool enable \<noteq> Some False
         | None \<Rightarrow> m \<noteq> []))"

definition inbound_like :: "string \<Rightarrow> bool" where
  "inbound_like key \<longleftrightarrow> (ends_with ''-port'' key \<or> contains_str ''listener'' key
      \<or> contains_str ''inbound'' key \<or> contains_str ''tunnel'' key)
     \<and> key \<notin> set PATCH_FIELDS \<and> key \<notin> {''listeners'', ''tunnels''}"

definition inbound_surface :: "mapping \<Rightarrow> bool" where
  "inbound_surface doc \<longleftrightarrow>
     list_ex (\<lambda>key. is_some_and (mapping_get doc key) (\<lambda>v. as_i64 v = None)) INBOUND_PORT_FIELDS
     \<or> is_some_and (mapping_get doc ''tun'') tun_blocks
     \<or> is_some_and (mapping_get doc ''tuic-server'') tuic_blocks
     \<or> list_ex (\<lambda>key. is_some_and (mapping_get doc key) (\<lambda>v. as_str v \<noteq> Some ''''))
         [''ss-config'', ''vmess-config'', ''tcptun-config'', ''udptun-config'']
     \<or> list_ex (\<lambda>key. is_some_and (mapping_get doc key) nonempty_collection)
         [''listeners'', ''tunnels'']
     \<or> list_ex inbound_like (str_keys doc)"

definition overlap_block :: "mapping \<Rightarrow> overlap_block option" where
  "overlap_block doc = (case Option.bind (Option.bind (mapping_get doc ''dns'') as_mapping)
         (\<lambda>dns. mapping_get dns ''listen'') of
       Some listen \<Rightarrow> (case as_str listen of
           Some text \<Rightarrow> if text = [] then None else Some DnsListen
         | None \<Rightarrow> if listen = Null then None else Some InboundSurface)
     | None \<Rightarrow> if inbound_surface doc then Some InboundSurface else None)"

section \<open>Snapshots and effective documents\<close>

record config_snapshot =
  sn_source_path :: string
  sn_document :: mapping
  sn_source_hash :: string

record prepared_config =
  pc_bytes :: bytes
  pc_document :: mapping
  pc_controller :: resolved_controller
  pc_rewrote_controller :: bool
  pc_source_hash :: string
  pc_effective_hash :: string

definition hex_digit :: "nat \<Rightarrow> char" where
  "hex_digit n = (''0123456789abcdef'' ! n)"

definition hex16 :: "u64 \<Rightarrow> string" where
  "hex16 w = map (\<lambda>i. hex_digit (unat (drop_bit (4 * i) w) mod 16)) (rev [0..<16])"

definition fnv1a :: "bytes \<Rightarrow> u64" where
  "fnv1a bs = foldl (\<lambda>h b. (h XOR ucast b) * 0x100000001b3) 0xcbf29ce484222325 bs"

definition semantic_hash :: "bytes \<Rightarrow> string" where
  "semantic_hash bs = hex16 (fnv1a bs)"

definition probe_address :: "string \<Rightarrow> string" where
  "probe_address address = (case rsplit_once '':'' address of
       Some (host, port) \<Rightarrow>
         if host \<in> {''0.0.0.0'', ''::'', ''[::]'', ''''} then ''127.0.0.1:'' @ port else address
     | None \<Rightarrow> address)"

definition resolve_controller :: "config_ext \<Rightarrow> config_info \<Rightarrow> error + resolved_controller" where
  "resolve_controller x info = (case ci_controller info of
       None \<Rightarrow> Inl ControllerMissing
     | Some raw \<Rightarrow>
         map_ok (\<lambda>host. \<lparr>rc_host = host, rc_secret = ci_secret info\<rparr>)
           (case raw of
              RawPipe path \<Rightarrow> Inr (NamedPipe path)
            | RawUnix path \<Rightarrow> Inr (UnixSocket path)
            | RawHttp address \<Rightarrow> x_host_http x (probe_address address)))"

definition validate_controller_template :: "string option \<Rightarrow> error + unit" where
  "validate_controller_template template =
     (if is_some_and template (\<lambda>v. \<not> contains_str ''{epoch}'' v)
      then Inl (InvalidManagerOptions ''managed controller_template must contain `{epoch}`'')
      else Inr ())"

text \<open>\<open>str::replace\<close> of the placeholder.\<close>

function replace_all :: "string \<Rightarrow> string \<Rightarrow> string \<Rightarrow> string" where
  "replace_all pat new s = (if pat = [] then s else case split_once pat s of
       None \<Rightarrow> s
     | Some (a, b) \<Rightarrow> a @ new @ replace_all pat new b)"
  by pat_completeness auto
termination
proof (relation "measure (\<lambda>(p, n, s). length s)", goal_cases)
  case (2 pat new s ab a b)
  then have "s = a @ pat @ b" by (auto dest: split_once_Some)
  with 2 show ?case by simp
qed simp

declare replace_all.simps [simp del]

definition managed_unix_endpoint :: "config_ext \<Rightarrow> string \<Rightarrow> string \<Rightarrow> error + string" where
  "managed_unix_endpoint x runtime_dir endpoint =
     (let candidate = (if x_is_absolute x endpoint then endpoint else x_join x runtime_dir endpoint)
      in case x_parent x candidate of
        None \<Rightarrow> Inl (InvalidManagerOptions ''managed Unix controller has no parent directory'')
      | Some parent \<Rightarrow>
          and_then (map_err (\<lambda>e. InvalidManagerOptions (''managed Unix controller parent `'' @ parent
              @ ''` cannot be canonicalized: '' @ e)) (x_canonicalize_path x parent)) (\<lambda>canonical_parent.
          and_then (map_err Io (x_canonicalize_path x runtime_dir)) (\<lambda>canonical_root.
          if \<not> x_path_starts_with x canonical_parent canonical_root then
            Inl (InvalidManagerOptions (''managed Unix controller `'' @ candidate
              @ ''` escapes runtime directory `'' @ runtime_dir @ ''`''))
          else case x_file_name x candidate of
            None \<Rightarrow> Inl (InvalidManagerOptions ''managed Unix controller must name a socket file'')
          | Some file_name \<Rightarrow> Inr (x_join x canonical_parent file_name))))"

definition render_endpoint_path ::
  "config_ext \<Rightarrow> string \<Rightarrow> string option \<Rightarrow> u64 \<Rightarrow> error + string" where
  "render_endpoint_path x runtime_dir template epoch =
     and_then (validate_controller_template template) (\<lambda>_. case template of
         Some template \<Rightarrow> managed_unix_endpoint x runtime_dir
           (replace_all ''{epoch}'' (show_nat (unat epoch)) template)
       | None \<Rightarrow> Inr (x_join x runtime_dir (''core-'' @ show_nat (unat epoch) @ ''.sock'')))"

definition TEMPLATE_PROBE_RENDERING :: u64 where
  "TEMPLATE_PROBE_RENDERING = 0"

definition validate_managed_endpoint :: "config_ext \<Rightarrow> string \<Rightarrow> string option \<Rightarrow> error + unit" where
  "validate_managed_endpoint x runtime_dir template =
     map_ok (\<lambda>_. ()) (render_endpoint_path x runtime_dir template TEMPLATE_PROBE_RENDERING)"

definition managed_endpoint_path ::
  "config_ext \<Rightarrow> string \<Rightarrow> string option \<Rightarrow> epoch \<Rightarrow> error + string" where
  "managed_endpoint_path x runtime_dir template epoch =
     render_endpoint_path x runtime_dir template (epoch_get epoch)"

definition validate_socket_path :: "config_ext \<Rightarrow> string \<Rightarrow> error + unit" where
  "validate_socket_path x path = map_err (\<lambda>e. InvalidManagerOptions
     (''invalid controller socket path: '' @ e)) (x_from_pathname x path)"

definition snapshot_from_bytes :: "config_ext \<Rightarrow> string \<Rightarrow> bytes \<Rightarrow> error + config_snapshot" where
  "snapshot_from_bytes x source_path raw =
     and_then (x_from_slice x raw) (\<lambda>value.
     and_then (canonicalize value) (\<lambda>value. case as_mapping value of
         None \<Rightarrow> Inl (InvalidConfig ''top-level YAML document must be a mapping'')
       | Some document \<Rightarrow> and_then (x_to_text x document) (\<lambda>canonical.
           Inr \<lparr>sn_source_path = source_path, sn_document = document,
             sn_source_hash = semantic_hash canonical\<rparr>)))"

definition managed_document ::
  "config_ext \<Rightarrow> mapping \<Rightarrow> string option \<Rightarrow> string \<Rightarrow> epoch \<Rightarrow> local_ipc_settings option
     \<Rightarrow> error + mapping" where
  "managed_document x document template runtime_dir epoch settings =
     and_then (managed_endpoint_path x runtime_dir template epoch) (\<lambda>endpoint.
     and_then (validate_socket_path x endpoint) (\<lambda>_.
     Inr (rewrite_managed_controller document endpoint
       (is_some_and settings lis_keep_http_controller))))"

text \<open>\<open>ConfigSnapshot::prepare\<close>, its tail first; \<open>None\<close> is the \<open>unreachable!\<close> of the code.\<close>

definition finish_prepare ::
  "config_ext \<Rightarrow> config_snapshot \<Rightarrow> bool \<Rightarrow> mapping \<Rightarrow> (error + prepared_config) option" where
  "finish_prepare x snap rewrote document =
     (case canonicalize (Mapping document) of
        Inl e \<Rightarrow> Some (Inl e)
      | Inr value \<Rightarrow> (case as_mapping value of
          None \<Rightarrow> None
        | Some document \<Rightarrow>
            Some (and_then (resolve_controller x
                (if rewrote then inspect document else inspect_http document)) (\<lambda>controller.
              and_then (x_to_text x document) (\<lambda>bytes.
              Inr \<lparr>pc_bytes = bytes, pc_document = document, pc_controller = controller,
                pc_rewrote_controller = rewrote, pc_source_hash = sn_source_hash snap,
                pc_effective_hash = semantic_hash bytes\<rparr>)))))"

definition prepare ::
  "config_ext \<Rightarrow> config_snapshot \<Rightarrow> string option \<Rightarrow> string \<Rightarrow> epoch \<Rightarrow> runtime_feature list
     \<Rightarrow> local_ipc_settings option \<Rightarrow> bool \<Rightarrow> (error + prepared_config) option" where
  "prepare x snap template runtime_dir epoch runtime settings zero =
     (let document = (if zero then zero_inbounds (sn_document snap) else sn_document snap);
          rewrote = LocalIpc \<in> set runtime
      in case (if rewrote then managed_document x document template runtime_dir epoch settings
               else Inr document) of
        Inl e \<Rightarrow> Some (Inl e)
      | Inr document \<Rightarrow>
          finish_prepare x snap rewrote
            (if \<not> rewrote \<and> settings \<noteq> None
             then mapping_remove ''external-controller-unix''
                    (mapping_remove ''external-controller-pipe'' document)
             else document))"

definition prepare_full ::
  "config_ext \<Rightarrow> config_snapshot \<Rightarrow> string option \<Rightarrow> string \<Rightarrow> epoch \<Rightarrow> runtime_feature list
     \<Rightarrow> local_ipc_settings option \<Rightarrow> (error + prepared_config) option" where
  "prepare_full x snap template runtime_dir epoch runtime settings =
     prepare x snap template runtime_dir epoch runtime settings False"

definition prepare_bootstrap ::
  "config_ext \<Rightarrow> config_snapshot \<Rightarrow> string option \<Rightarrow> string \<Rightarrow> epoch \<Rightarrow> runtime_feature list
     \<Rightarrow> local_ipc_settings option \<Rightarrow> (error + prepared_config) option" where
  "prepare_bootstrap x snap template runtime_dir epoch runtime settings =
     prepare x snap template runtime_dir epoch runtime settings True"

section \<open>Classification lemmas\<close>

lemma reload_patch_disjoint:
  "set RELOAD_FIELDS \<inter> set PATCH_FIELDS = {}" "set CONTROLLER_FIELDS \<inter> set PATCH_FIELDS = {}"
  "set CONTROLLER_FIELDS \<inter> set RELOAD_FIELDS = {}"
  by (simp_all add: RELOAD_FIELDS_def PATCH_FIELDS_def CONTROLLER_FIELDS_def controller_keys)

lemma change_roots_set: "set (change_roots es) = roots es"
proof -
  have "set (take 1 p) = {k. \<exists>q. p = k # q}" for p :: "string list"
    by (cases p) auto
  then have "set (concat (map (\<lambda>e. take 1 (de_path e)) es)) = roots es"
    by (auto simp: roots_def)
  then show ?thesis
    unfolding change_roots_def by (metis List.finite_set set_sorted_list_of_set)
qed

lemma patch_document_keys:
  "patch_document d rs doc = Inr (Some doc') \<Longrightarrow>
     set (str_keys doc') \<subseteq> set rs \<union> set (str_keys doc) \<and> (\<forall>r \<in> set rs. mapping_get d r \<noteq> None)"
proof (induction d rs doc rule: patch_document.induct)
  case (2 d r rs doc)
  then obtain v v' where r: "mapping_get d r = Some v"
    and "patch_document d rs (mapping_insert r v' doc) = Inr (Some doc')"
    and "(if r = ''tun'' then filter_mapping v TUN_PATCH_FIELDS
          else if r = ''tuic-server'' then filter_mapping v TUIC_SERVER_PATCH_FIELDS
          else Inr v) = Inr v'"
    by (simp add: and_then_Inr split: option.splits) blast
  with 2(1) [OF r, of v'] show ?case
    by (auto simp: mapping_insert_def str_keys_set keys_assoc_insert)
qed simp

lemma build_patch_cases:
  "build_patch x d es \<noteq> Inr Noop \<and> build_patch x d es \<noteq> Inr Reload"
  by (auto simp: build_patch_def and_then_def split: sum.splits option.splits if_splits)

lemma classify_documents_Noop:
  assumes "canonical (Mapping c)" "canonical (Mapping d)"
  shows "classify_documents x c d = Inr Noop \<longleftrightarrow> c = d"
proof -
  have "opt_eq (dns_listen c) (dns_listen c)"
  proof -
    have "opt_canonical (child (opt_mapping (child (Some c) ''dns'')) ''listen'')"
      using child_canonical [of "Some (Mapping c)" "''dns''"] assms
      by (intro child_canonical) (simp add: opt_canonical_def opt_mapping_def as_mapping_def)
    then show ?thesis
      by (simp add: opt_eq_canonical dns_listen_def child_def opt_mapping_def)
  qed
  then show ?thesis
    using assms build_patch_cases [of x d "diff c d"]
    by (auto simp: classify_documents_def diff_Nil_iff Let_def)
qed

lemma classify_documents_Patch:
  assumes "canonical (Mapping c)" "canonical (Mapping d)"
    and "classify_documents x c d = Inr (Patch p e)"
  shows "{k. mapping_get c k \<noteq> mapping_get d k}
     \<subseteq> set PATCH_FIELDS \<inter> {k. mapping_get d k \<noteq> None}"
proof -
  from assms(3) have all: "list_all patchable (diff c d)"
    and b: "build_patch x d (diff c d) = Inr (Patch p e)"
    by (auto simp: classify_documents_def Let_def split: if_splits)
  from all have "roots (diff c d) \<subseteq> set PATCH_FIELDS"
    by (fastforce simp: roots_def list_all_iff patchable_def)
  moreover obtain doc where "patch_document d (change_roots (diff c d)) [] = Inr (Some doc)"
    using b by (auto simp: build_patch_def and_then_Inr split: option.splits)
  then have "roots (diff c d) \<subseteq> {k. mapping_get d k \<noteq> None}"
    using patch_document_keys by (fastforce simp: change_roots_set)
  ultimately show ?thesis using roots_diff [OF assms(1,2)] by auto
qed

lemma dns_listen_canonical:
  "canonical (Mapping c) \<Longrightarrow> opt_canonical (dns_listen c)"
proof -
  assume "canonical (Mapping c)"
  then have "opt_canonical (child (opt_mapping (child (opt_mapping (Some (Mapping c))) ''dns'')) ''listen'')"
    by (intro child_canonical) (simp add: opt_canonical_def)
  then show ?thesis by (simp add: dns_listen_def child_def opt_mapping_def as_mapping_def)
qed

lemma classify_documents_Reload:
  assumes "canonical (Mapping c)" "canonical (Mapping d)"
    and "classify_documents x c d = Inr Reload"
  shows "{k. mapping_get c k \<noteq> mapping_get d k} \<subseteq> set RELOAD_FIELDS \<and> dns_listen c = dns_listen d"
proof -
  from assms(3) have "list_all reloadable (diff c d)" "opt_eq (dns_listen c) (dns_listen d)"
    using build_patch_cases [of x d] by (auto simp: classify_documents_def Let_def split: if_splits)
  moreover from this have "dns_listen c = dns_listen d"
    by (simp add: opt_eq_canonical dns_listen_canonical assms)
  ultimately have "roots (diff c d) \<subseteq> set RELOAD_FIELDS \<and> dns_listen c = dns_listen d"
    by (fastforce simp: roots_def list_all_iff reloadable_def)
  then show ?thesis using roots_diff [OF assms(1,2)] by auto
qed

text \<open>C11. Deny by default: two documents are classified as unchanged exactly when they are equal;
  a patch is chosen only when every changed root is a patchable field that the desired document
  still has; a reload only when every changed root is a reloadable field and the DNS listener is the
  same; every other change is a switch or an error.\<close>

theorem classify_documents_deny_by_default:
  assumes "canonical (Mapping current)" "canonical (Mapping desired)"
  shows "(classify_documents x current desired = Inr Noop \<longleftrightarrow> current = desired)
    \<and> (case classify_documents x current desired of
         Inr (Patch p e) \<Rightarrow> {k. mapping_get current k \<noteq> mapping_get desired k}
           \<subseteq> set PATCH_FIELDS \<inter> {k. mapping_get desired k \<noteq> None}
       | Inr Reload \<Rightarrow> {k. mapping_get current k \<noteq> mapping_get desired k} \<subseteq> set RELOAD_FIELDS
           \<and> dns_listen current = dns_listen desired
       | _ \<Rightarrow> True)"
  using assms classify_documents_Noop [of current desired x]
    classify_documents_Patch [of current desired x] classify_documents_Reload [of current desired x]
  by (auto split: sum.splits config_change.splits)

text \<open>A stand-in for the called libraries, used where a statement is evaluated.\<close>

definition plain_ext :: config_ext where
  "plain_ext = \<lparr>x_from_slice = \<lambda>_. Inr Null, x_to_text = \<lambda>_. Inr [], x_host_http = \<lambda>a. Inr (Http a),
     x_join = \<lambda>a b. a @ ''/'' @ b, x_is_absolute = \<lambda>p. take 1 p = ''/'', x_parent = \<lambda>p. Some ''/run'',
     x_file_name = \<lambda>p. Some p, x_path_starts_with = \<lambda>p q. starts_with q p,
     x_canonicalize_path = Inr, x_from_pathname = \<lambda>_. Inr (), x_parse_patch = Some,
     x_patch_value = Inr\<rparr>"

theorem classify_documents_deny_by_default_witness:
  "canonical (Mapping [(String ''mode'', String ''rule'')])
   \<and> canonical (Mapping [(String ''rules'', Sequence [])])
   \<and> classify_documents plain_ext [(String ''mode'', String ''rule'')] [(String ''rules'', Sequence [])]
        \<noteq> Inr Noop"
proof -
  have c: "canonical (Mapping [(String ''mode'', String ''rule'')])"
    "canonical (Mapping [(String ''rules'', Sequence [])])"
    by (simp_all add: canonical_Cons)
  show ?thesis
    using c classify_documents_deny_by_default [OF c, of plain_ext] by simp
qed

lemma classify_switch_if:
  "process_spec_changed (cv_spec c) (cv_spec d)
   \<or> (\<exists>e \<in> set (diff (cv_source c) (cv_source d)). touches_controller e)
   \<Longrightarrow> classify x c d = Inr Switch"
  by (auto simp: classify_def Let_def list_ex_iff)

text \<open>A change of the process spec, of any controller key or of the secret always needs a
  switch, for every core; and a change is skipped only when the effective documents are equal.\<close>

theorem classify_controller_switches:
  assumes "canonical (Mapping (cv_source c))" "canonical (Mapping (cv_source d))"
    and "canonical (Mapping (cv_effective c))" "canonical (Mapping (cv_effective d))"
  shows "(if process_spec_changed (cv_spec c) (cv_spec d)
            \<or> (\<exists>k \<in> set CONTROLLER_FIELDS. mapping_get (cv_source c) k \<noteq> mapping_get (cv_source d) k)
          then classify x c d = Inr Switch
          else classify x c d = Inr Noop \<longrightarrow> cv_effective c = cv_effective d)"
proof -
  have "\<exists>e \<in> set (diff (cv_source c) (cv_source d)). touches_controller e"
    if "k \<in> set CONTROLLER_FIELDS" "mapping_get (cv_source c) k \<noteq> mapping_get (cv_source d) k" for k
  proof -
    have "k \<in> roots (diff (cv_source c) (cv_source d))"
      using that roots_diff [OF assms(1,2)] by simp
    then obtain e q where "e \<in> set (diff (cv_source c) (cv_source d))" "de_path e = k # q"
      by (auto simp: roots_def)
    with that(1) have "e \<in> set (diff (cv_source c) (cv_source d)) \<and> touches_controller e"
      by (simp add: touches_controller_def)
    then show ?thesis by blast
  qed
  moreover have "cv_effective c = cv_effective d" if "classify x c d = Inr Noop"
    using that assms classify_documents_Noop
    by (auto simp: classify_def Let_def diff_Nil_iff split: if_splits)
  ultimately show ?thesis using classify_switch_if [of c d x] by auto
qed

definition sample_spec :: "core_kind \<Rightarrow> instance_spec" where
  "sample_spec kind = \<lparr>sp_core = \<lparr>co_kind = kind, co_binary_path = ''/bin/core'', co_version = None,
       co_features = []\<rparr>, sp_config_path = ''/etc/core.yaml'', sp_working_dir = ''/var'',
     sp_pid_file = None, sp_options = instance_options_default\<rparr>"

theorem classify_controller_switches_witness:
  "classify plain_ext
     \<lparr>cv_source = [(String ''secret'', String ''a'')], cv_effective = [], cv_spec = sample_spec Mihomo\<rparr>
     \<lparr>cv_source = [(String ''secret'', String ''b'')], cv_effective = [], cv_spec = sample_spec Mihomo\<rparr>
   = Inr Switch"
  using classify_controller_switches
    [of "\<lparr>cv_source = [(String ''secret'', String ''a'')], cv_effective = [], cv_spec = sample_spec Mihomo\<rparr>"
        "\<lparr>cv_source = [(String ''secret'', String ''b'')], cv_effective = [], cv_spec = sample_spec Mihomo\<rparr>"
        plain_ext]
  by (simp add: canonical_Cons CONTROLLER_FIELDS_def controller_keys mapping_get_def)

section \<open>Bootstrap lemmas\<close>

lemma mapping_get_zero_listener:
  "mapping_get (zero_listener key doc) k =
     (if k = key \<and> is_some_and (Option.bind (mapping_get doc key) as_i64) (\<lambda>v. v \<noteq> 0)
      then Some (Number (PosInt 0)) else mapping_get doc k)"
  by (auto simp: zero_listener_def is_some_and_def split: option.splits)

lemma mapping_get_zero_listeners:
  "distinct keys \<Longrightarrow> mapping_get (fold zero_listener keys doc) k =
     (if k \<in> set keys \<and> is_some_and (Option.bind (mapping_get doc k) as_i64) (\<lambda>v. v \<noteq> 0)
      then Some (Number (PosInt 0)) else mapping_get doc k)"
  by (induction keys arbitrary: doc) (auto simp: mapping_get_zero_listener)

lemma canonical_replace:
  "canonical (Mapping m) \<Longrightarrow> canonical v \<Longrightarrow> mapping_get m k \<noteq> None \<Longrightarrow>
     canonical (Mapping (mapping_insert k v m)) \<and> str_keys (mapping_insert k v m) = str_keys m"
proof (induction m)
  case (Cons p m)
  then obtain k' v' where "p = (String k', v')" by (auto simp: canonical_Cons)
  with Cons show ?case
    by (cases "k' = k") (auto simp: canonical_Cons mapping_insert_def mapping_get_def)
qed (simp add: mapping_get_def)

lemma canonical_zero_listeners:
  "canonical (Mapping m) \<Longrightarrow> canonical (Mapping (fold zero_listener keys m))"
proof (induction keys arbitrary: m)
  case (Cons key keys)
  have "canonical (Mapping (zero_listener key m))"
    using Cons.prems canonical_replace [of m "Number (PosInt 0)" key]
    by (cases "mapping_get m key") (auto simp: zero_listener_def split: option.splits)
  then show ?case using Cons.IH by simp
qed simp

lemma canonical_get:
  "canonical (Mapping m) \<Longrightarrow> mapping_get m k = Some v \<Longrightarrow> canonical v"
  using canonical_member [of m "String k" v] by (auto simp: mapping_get_def dest: map_of_SomeD)

text \<open>What the bootstrap document holds for every key.\<close>

definition zeroed_tun :: "yaml_value \<Rightarrow> yaml_value" where
  "zeroed_tun v = (case as_mapping v of
       Some tun \<Rightarrow> if Option.bind (mapping_get tun ''enable'') as_bool = Some True
         then Mapping (mapping_insert ''enable'' (Bool False) tun) else v
     | None \<Rightarrow> v)"

lemma INBOUND_distinct: "distinct INBOUND_PORT_FIELDS" "''tun'' \<notin> set INBOUND_PORT_FIELDS"
  by (simp_all add: INBOUND_PORT_FIELDS_def)

lemma as_mapping_Some [simp]: "as_mapping v = Some m \<longleftrightarrow> v = Mapping m"
  by (cases v) (auto simp: as_mapping_def)

lemma as_mapping_Mapping [simp]: "as_mapping (Mapping m) = Some m"
  by simp

lemma mapping_get_zero_inbounds:
  "mapping_get (zero_inbounds doc) k =
     (if k \<in> set INBOUND_PORT_FIELDS
      then if is_some_and (Option.bind (mapping_get doc k) as_i64) (\<lambda>v. v \<noteq> 0)
           then Some (Number (PosInt 0)) else mapping_get doc k
      else if k = ''tun'' then map_option zeroed_tun (mapping_get doc k)
      else mapping_get doc k)"
  using INBOUND_distinct
  by (cases "mapping_get doc ''tun''")
     (auto simp: zero_inbounds_def Let_def mapping_get_zero_listeners zeroed_tun_def
      split: option.splits)

lemma zero_inbounds_canonical:
  assumes "canonical (Mapping doc)"
  shows "canonical (Mapping (zero_inbounds doc))"
proof -
  let ?d = "fold zero_listener INBOUND_PORT_FIELDS doc"
  have d: "canonical (Mapping ?d)" by (rule canonical_zero_listeners [OF assms])
  have "canonical (Mapping (mapping_insert ''enable'' (Bool False) tun))"
    if "mapping_get ?d ''tun'' = Some (Mapping tun)" "mapping_get tun ''enable'' \<noteq> None" for tun
    using canonical_get [OF d that(1)] canonical_replace that(2) by simp
  then have "canonical (Mapping (mapping_insert ''tun''
      (Mapping (mapping_insert ''enable'' (Bool False) tun)) ?d))"
    if "mapping_get ?d ''tun'' = Some (Mapping tun)" "mapping_get tun ''enable'' \<noteq> None" for tun
    using that canonical_replace [OF d] by simp
  with d show ?thesis
    by (auto simp: zero_inbounds_def Let_def bind_eq_Some_conv split: option.splits)
qed

lemma as_i64_Number: "as_i64 v = Some i \<Longrightarrow> \<exists>n. v = Number n"
  by (cases v) (auto simp: as_i64_def)

lemma as_bool_Bool: "as_bool v = Some b \<Longrightarrow> v = Bool b"
  by (cases v) (auto simp: as_bool_def)

lemma zero_inbounds_patchable:
  assumes doc: "canonical (Mapping doc)" and e: "e \<in> set (diff (zero_inbounds doc) doc)"
  shows "patchable e"
proof -
  let ?z = "zero_inbounds doc"
  note z = zero_inbounds_canonical [OF doc]
  obtain k q where p: "de_path e = k # q"
    using diff_paths_nonempty [OF z doc e] by (cases "de_path e") auto
  have new: "de_new e = opt_at (mapping_get doc k) q"
    and ne: "opt_at (mapping_get ?z k) q \<noteq> opt_at (mapping_get doc k) q"
    and leaf: "\<not> descends (opt_at (mapping_get ?z k) q) (opt_at (mapping_get doc k) q)"
    using diff_sound_iff [OF z doc e] diff_leaf [OF z doc e]
    by (auto simp: p opt_at_def split: option.splits)
  show ?thesis
  proof (cases "k \<in> set INBOUND_PORT_FIELDS")
    case True
    with ne obtain i where i: "Option.bind (mapping_get doc k) as_i64 = Some i"
      and zk: "mapping_get ?z k = Some (Number (PosInt 0))"
      by (auto simp: mapping_get_zero_inbounds is_some_and_def split: if_splits option.splits)
    then obtain n where n: "mapping_get doc k = Some (Number n)"
      using as_i64_Number by (auto simp: bind_eq_Some_conv)
    have "q = []"
      using ne zk n by (cases q) (auto simp: opt_at_def as_mapping_def)
    moreover have "k \<in> set PATCH_FIELDS" "k \<notin> {''tun'', ''tuic-server''}"
      using True by (auto simp: INBOUND_PORT_FIELDS_def PATCH_FIELDS_def)
    ultimately show ?thesis using new n by (simp add: patchable_def p)
  next
    case False
    with ne have k: "k = ''tun''" by (auto simp: mapping_get_zero_inbounds split: if_splits)
    with ne False obtain tun where doc_tun: "mapping_get doc k = Some (Mapping tun)"
      and en: "Option.bind (mapping_get tun ''enable'') as_bool = Some True"
      and z_tun: "mapping_get ?z k = Some (Mapping (mapping_insert ''enable'' (Bool False) tun))"
      by (cases "mapping_get doc k")
         (auto simp: mapping_get_zero_inbounds zeroed_tun_def split: option.splits if_splits)
    obtain b where b: "mapping_get tun ''enable'' = Some (Bool b)"
      using en as_bool_Bool by (auto simp: bind_eq_Some_conv)
    have "q \<noteq> []"
    proof
      assume "q = []"
      with leaf doc_tun z_tun have "merged_keys (Some (mapping_insert ''enable'' (Bool False) tun)) (Some tun) = []"
        by (simp add: descends_def opt_mapping_def)
      then show False
        using merged_keys_iff [of "''enable''" "Some (mapping_insert ''enable'' (Bool False) tun)" "Some tun"]
        by (simp add: child_def)
    qed
    then obtain j r where q: "q = j # r" by (cases q) auto
    have j: "j = ''enable''" using ne doc_tun z_tun by (auto simp: q split: if_splits)
    have "r = []" using ne doc_tun z_tun b by (cases r) (auto simp: q j opt_at_def as_mapping_def)
    then show ?thesis
      using new doc_tun b by (simp add: patchable_def p k q j PATCH_FIELDS_def TUN_PATCH_FIELDS_def)
  qed
qed

lemma dns_listen_zero_inbounds: "dns_listen (zero_inbounds doc) = dns_listen doc"
  by (simp add: dns_listen_def mapping_get_zero_inbounds INBOUND_PORT_FIELDS_def)



text \<open>An empty or null \<open>dns.listen\<close> ends the search for shared inbound resources: such a
  document is reported free to overlap whatever listeners it declares.\<close>

theorem overlap_block_dns_listen_shadows:
  "overlap_block ((String ''dns'', Mapping [(String ''listen'', String '''')]) # doc) = None
   \<and> overlap_block ((String ''dns'', Mapping [(String ''listen'', Null)]) # doc) = None
   \<and> overlap_block [(String ''listeners'', Sequence [Null])] = Some InboundSurface"
  by (simp add: overlap_block_def mapping_get_def as_str_def inbound_surface_def is_some_and_def
      INBOUND_PORT_FIELDS_def nonempty_collection_def)

section \<open>Effective documents\<close>

lemma mapping_remove_keys:
  "distinct (map fst m) \<Longrightarrow> distinct (map fst (mapping_remove k m))"
  by (simp add: mapping_remove_def map_of_swap_remove)

lemma rewrite_get:
  assumes "distinct (map fst doc)"
  shows "mapping_get (rewrite_managed_controller doc endpoint keep) k =
    (if k = EXTERNAL_CONTROLLER_UNIX then Some (String endpoint)
     else if k = EXTERNAL_CONTROLLER_PIPE
        \<or> k \<in> {EXTERNAL_CONTROLLER, EXTERNAL_CONTROLLER_TLS} \<and> \<not> keep then None
     else mapping_get doc k)"
  using assms
  by (auto simp: rewrite_managed_controller_def mapping_get_remove mapping_remove_keys controller_keys)

lemma mapping_get_Nil: "mapping_get [] k = None"
  by (simp add: mapping_get_def)

lemma map_of_foldl_insert:
  "distinct (map fst es) \<Longrightarrow>
     mapping_get (foldl (\<lambda>c (k, v). mapping_insert k v c) c es) k =
       (case map_of es k of Some v \<Rightarrow> Some v | None \<Rightarrow> mapping_get c k)"
proof (induction es arbitrary: c)
  case (Cons e es)
  obtain j v where e: "e = (j, v)" by (cases e)
  then have "map_of es j = None" using Cons.prems by (simp add: map_of_eq_None_iff)
  with Cons e show ?case by (auto split: option.splits)
qed simp

lemma canonicalize_entries_get:
  "canonicalize_entries m = Inr es \<Longrightarrow> map fst m = map (\<lambda>e. String (fst e)) es
     \<and> (\<forall>k. rel_option (\<lambda>v c. canonicalize v = Inr c) (mapping_get m k) (map_of es k))"
proof (induction m arbitrary: es)
  case (Cons p m)
  obtain a v where p: "p = (a, v)" by (cases p)
  from Cons.prems obtain key c rest where "a = String key" "canonicalize v = Inr c"
    "canonicalize_entries m = Inr rest" "es = (key, c) # rest"
    by (auto simp: p map_ok_def split: yaml_value.splits sum.splits)
  with Cons.IH show ?case by (auto simp: p mapping_get_def)
qed (simp add: mapping_get_def)

lemma canonicalize_mapping_get:
  assumes "canonicalize (Mapping m) = Inr c" "distinct (map fst m)"
  shows "\<exists>m'. c = Mapping m' \<and> canonical c
     \<and> (\<forall>k. rel_option (\<lambda>v c. canonicalize v = Inr c) (mapping_get m k) (mapping_get m' k))"
proof -
  obtain es where es: "canonicalize_entries m = Inr es"
    and c: "c = Mapping (foldl (\<lambda>c (k, v). mapping_insert k v c) [] (sort_key fst es))"
    using assms(1) by (auto simp: map_ok_def split: sum.splits)
  note e = canonicalize_entries_get [OF es]
  have "map String (map fst es) = map fst m" using e by simp
  then have d: "distinct (map fst es)" using assms(2) by (metis distinct_map)
  have "distinct (map fst (sort_key fst es))"
    using d by (simp add: distinct_map)
  moreover have "map_of (sort_key fst es) = map_of es"
    using d calculation by (intro map_of_eqI') auto
  ultimately have "mapping_get (foldl (\<lambda>c (k, v). mapping_insert k v c) [] (sort_key fst es)) k
      = map_of es k" for k
    using map_of_foldl_insert [of "sort_key fst es" "[]" k]
    by (cases "map_of es k") (simp_all add: mapping_get_Nil)
  then show ?thesis
    using e c canonicalize_canonical'(1) [of "Mapping m"] assms(1) by auto
qed

lemma canonicalize_canonical_values:
  assumes "canonicalize (Mapping m) = Inr c" "distinct (map fst m)"
    and "\<And>k v. mapping_get m k = Some v \<Longrightarrow> canonical v"
  shows "\<exists>m'. c = Mapping m' \<and> canonical (Mapping m') \<and> mapping_get m' = mapping_get m"
proof -
  obtain m' where m': "c = Mapping m'" "canonical c"
    and rel: "\<And>k. rel_option (\<lambda>v c. canonicalize v = Inr c) (mapping_get m k) (mapping_get m' k)"
    using canonicalize_mapping_get [OF assms(1,2)] by auto
  have "mapping_get m' k = mapping_get m k" for k
  proof (cases "mapping_get m k")
    case (Some v)
    with rel [of k] assms(3) [OF Some] canonicalize_id show ?thesis
      by (auto simp: option_rel_Some1)
  qed (use rel [of k] in simp)
  with m' show ?thesis by auto
qed

lemma canonicalize_Mapping_shape:
  "canonicalize (Mapping m) = Inr c \<Longrightarrow> \<exists>m'. c = Mapping m'"
  by (auto simp: map_ok_def split: sum.splits)

text \<open>\<open>unreachable!\<close> in \<open>prepare\<close> is never reached.\<close>

lemma as_mapping_canonicalize: "canonicalize (Mapping m) = Inr c \<Longrightarrow> as_mapping c \<noteq> None"
  using canonicalize_Mapping_shape [of m c] by auto

lemma finish_prepare_no_panic: "finish_prepare x snap rewrote document \<noteq> None"
  unfolding finish_prepare_def
  by (cases "canonicalize (Mapping document)")
     (auto simp del: canonicalize.simps dest: as_mapping_canonicalize split: option.splits)

lemma prepare_no_panic: "prepare x snap template dir epoch runtime settings zero \<noteq> None"
  using finish_prepare_no_panic unfolding prepare_def Let_def by (simp split: sum.split)

lemma finish_prepare_Inr:
  assumes "finish_prepare x snap rewrote document = Some (Inr p)"
  shows "canonicalize (Mapping document) = Inr (Mapping (pc_document p))
    \<and> pc_rewrote_controller p = rewrote
    \<and> resolve_controller x (if rewrote then inspect (pc_document p) else inspect_http (pc_document p))
        = Inr (pc_controller p)"
  using assms unfolding finish_prepare_def
  by (cases "canonicalize (Mapping document)")
     (auto simp: and_then_Inr simp del: canonicalize.simps split: option.splits)

definition boot_document :: "config_snapshot \<Rightarrow> bool \<Rightarrow> mapping" where
  "boot_document snap zero = (if zero then zero_inbounds (sn_document snap) else sn_document snap)"

lemma prepare_managed:
  assumes "canonical (Mapping (sn_document snap))" "LocalIpc \<in> set runtime"
    and "prepare x snap template dir epoch runtime settings zero = Some (Inr p)"
  shows "\<exists>endpoint. managed_endpoint_path x dir template epoch = Inr endpoint
    \<and> canonical (Mapping (pc_document p))
    \<and> mapping_get (pc_document p) = mapping_get (rewrite_managed_controller (boot_document snap zero)
        endpoint (is_some_and settings lis_keep_http_controller))
    \<and> resolve_controller x (inspect (pc_document p)) = Inr (pc_controller p)
    \<and> pc_rewrote_controller p"
proof -
  let ?keep = "is_some_and settings lis_keep_http_controller"
  obtain endpoint where ep: "managed_endpoint_path x dir template epoch = Inr endpoint"
    and fin: "finish_prepare x snap True
      (rewrite_managed_controller (boot_document snap zero) endpoint ?keep) = Some (Inr p)"
    using assms(2,3)
    by (auto simp: prepare_def Let_def managed_document_def boot_document_def and_then_Inr
        split: sum.splits)
  note can = finish_prepare_Inr [OF fin, THEN conjunct1]
    and p = finish_prepare_Inr [OF fin, THEN conjunct2]
  have doc: "canonical (Mapping (boot_document snap zero))"
    using assms(1) zero_inbounds_canonical by (simp add: boot_document_def)
  note dist = canonical_distinct [OF doc]
  let ?m = "rewrite_managed_controller (boot_document snap zero) endpoint ?keep"
  have "distinct (map fst ?m)"
    using dist by (simp add: rewrite_managed_controller_def mapping_insert_def distinct_assoc_insert
        mapping_remove_keys)
  moreover have "canonical v" if "mapping_get ?m k = Some v" for k v
    using that canonical_get [OF doc] dist by (auto simp: rewrite_get split: if_splits)
  ultimately show ?thesis
    using canonicalize_canonical_values [OF can] ep p by auto
qed

text \<open>Preparing a canonical snapshot never panics. With local IPC it yields a canonical document
  whose only local controller is the endpoint rendered for this epoch, which is the controller the
  manager will dial; the TCP controllers survive exactly when they are to be kept, and every other
  field is the one of the snapshot (or of its bootstrap form).\<close>

theorem prepare_managed_endpoint:
  assumes "canonical (Mapping (sn_document snap))" "LocalIpc \<in> set runtime"
    and "managed_endpoint_path x dir template epoch = Inr endpoint" "endpoint \<noteq> []"
  shows "prepare x snap template dir epoch runtime settings zero \<noteq> None
    \<and> (case prepare x snap template dir epoch runtime settings zero of
      Some (Inr p) \<Rightarrow> canonical (Mapping (pc_document p))
        \<and> pc_controller p = \<lparr>rc_host = UnixSocket endpoint,
             rc_secret = str_value (sn_document snap) SECRET\<rparr>
        \<and> (\<forall>k. mapping_get (pc_document p) k =
             (if k = EXTERNAL_CONTROLLER_UNIX then Some (String endpoint)
              else if k = EXTERNAL_CONTROLLER_PIPE
                \<or> k \<in> {EXTERNAL_CONTROLLER, EXTERNAL_CONTROLLER_TLS}
                    \<and> \<not> is_some_and settings lis_keep_http_controller then None
              else mapping_get (boot_document snap zero) k))
    | _ \<Rightarrow> True)"
proof (intro conjI prepare_no_panic)
  have doc: "canonical (Mapping (boot_document snap zero))"
    using assms(1) zero_inbounds_canonical by (simp add: boot_document_def)
  have "mapping_get (boot_document snap zero) SECRET = mapping_get (sn_document snap) SECRET"
    by (simp add: boot_document_def mapping_get_zero_inbounds SECRET_def INBOUND_PORT_FIELDS_def)
  then have secret: "str_value (sn_document snap) SECRET = str_value (boot_document snap zero) SECRET"
    by (simp add: str_value_def)
  show "case prepare x snap template dir epoch runtime settings zero of
      Some (Inr p) \<Rightarrow> canonical (Mapping (pc_document p))
        \<and> pc_controller p = \<lparr>rc_host = UnixSocket endpoint,
             rc_secret = str_value (sn_document snap) SECRET\<rparr>
        \<and> (\<forall>k. mapping_get (pc_document p) k =
             (if k = EXTERNAL_CONTROLLER_UNIX then Some (String endpoint)
              else if k = EXTERNAL_CONTROLLER_PIPE
                \<or> k \<in> {EXTERNAL_CONTROLLER, EXTERNAL_CONTROLLER_TLS}
                    \<and> \<not> is_some_and settings lis_keep_http_controller then None
              else mapping_get (boot_document snap zero) k))
    | _ \<Rightarrow> True"
  proof (cases "prepare x snap template dir epoch runtime settings zero")
    case (Some r)
    then show ?thesis
    proof (cases r)
      case (Inr p)
      note pm = prepare_managed [OF assms(1,2) Some [unfolded Inr]]
      then have get: "mapping_get (pc_document p) k = mapping_get (rewrite_managed_controller
          (boot_document snap zero) endpoint (is_some_and settings lis_keep_http_controller)) k" for k
        using assms(3) by auto
      have "str_value (pc_document p) EXTERNAL_CONTROLLER_UNIX = Some endpoint"
        "str_value (pc_document p) SECRET = str_value (boot_document snap zero) SECRET"
        using assms(4) by (simp_all add: str_value_def get rewrite_get [OF canonical_distinct [OF doc]]
            controller_keys)
      then have "pc_controller p = \<lparr>rc_host = UnixSocket endpoint,
          rc_secret = str_value (sn_document snap) SECRET\<rparr>"
        using pm by (auto simp: resolve_controller_def inspect_def secret)
      moreover have "canonical (Mapping (pc_document p))" using pm by blast
      ultimately show ?thesis
        by (simp add: Some Inr get rewrite_get [OF canonical_distinct [OF doc]])
    qed (simp add: Some)
  qed simp
qed

lemma show_nat_one: "show_nat (Suc 0) = ''1''"
  by code_simp

theorem prepare_managed_endpoint_witness:
  "managed_endpoint_path plain_ext ''/run'' None (Epoch 1) = Inr ''/run/core-1.sock''
   \<and> prepare plain_ext \<lparr>sn_source_path = ''a'', sn_document = [], sn_source_hash = ''b''\<rparr> None ''/run''
       (Epoch 1) [LocalIpc] None False \<noteq> None"
proof -
  have ep: "managed_endpoint_path plain_ext ''/run'' None (Epoch 1) = Inr ''/run/core-1.sock''"
    by (simp add: managed_endpoint_path_def render_endpoint_path_def validate_controller_template_def
        is_some_and_def plain_ext_def show_nat_one)
  show ?thesis
    using ep prepare_managed_endpoint [OF _ _ ep,
      of "\<lparr>sn_source_path = ''a'', sn_document = [], sn_source_hash = ''b''\<rparr>" "[LocalIpc]" None False]
    by simp
qed

end
