(* ===== verification/Native_Paths.thy ===== *)
theory Native_Paths
  imports Config
begin

text \<open>
  What a host-injected native store changes in an effective document
  (\<open>native_store/paths.rs\<close>, \<open>PreparedConfig::native_paths\<close> of \<open>config/mod.rs\<close>) and the two text
  classifiers of \<open>native_store/mod.rs\<close>. The document is the canonical one of \<open>prepare\<close>: its keys are
  distinct strings and it has no tagged values, so \<open>get_mut\<close> touches one entry.
\<close>

section \<open>Updating in place\<close>

definition entrywise :: "(yaml_value \<Rightarrow> yaml_value \<Rightarrow> yaml_value) \<Rightarrow> mapping \<Rightarrow> mapping" where
  "entrywise F m = map (\<lambda>(k, v). (k, F k v)) m"

definition at_key :: "string \<Rightarrow> (yaml_value \<Rightarrow> yaml_value) \<Rightarrow> mapping \<Rightarrow> mapping" where
  "at_key key f m = entrywise (\<lambda>k v. if k = String key then f v else v) m"

definition on_mapping :: "(mapping \<Rightarrow> mapping) \<Rightarrow> yaml_value \<Rightarrow> yaml_value" where
  "on_mapping f v = (case v of Mapping m \<Rightarrow> Mapping (f m) | _ \<Rightarrow> v)"

definition on_items :: "(yaml_value \<Rightarrow> yaml_value) \<Rightarrow> yaml_value \<Rightarrow> yaml_value" where
  "on_items f v = (case v of Sequence xs \<Rightarrow> Sequence (map f xs) | _ \<Rightarrow> v)"

section \<open>Rebasing file inputs\<close>

definition rebase :: "config_ext \<Rightarrow> string \<Rightarrow> yaml_value \<Rightarrow> yaml_value" where
  "rebase x source v = (case v of
       String path \<Rightarrow>
         if path \<noteq> [] \<and> CHR 0x0A \<notin> set path \<and> \<not> starts_with ''-----BEGIN '' path
            \<and> \<not> contains_str ''://'' path \<and> \<not> x_is_absolute x path
         then String (x_join x source path) else v
     | _ \<Rightarrow> v)"

definition rebase_each :: "config_ext \<Rightarrow> string \<Rightarrow> yaml_value \<Rightarrow> yaml_value" where
  "rebase_each x source v = (case v of
       Sequence certificates \<Rightarrow> Sequence (map (rebase x source) certificates)
     | certificate \<Rightarrow> rebase x source certificate)"

definition certificate_paths :: "config_ext \<Rightarrow> string \<Rightarrow> mapping \<Rightarrow> mapping" where
  "certificate_paths x source m =
     at_key ''client-auth-cert'' (rebase_each x source)
     (fold (\<lambda>key. at_key key (rebase x source)) [''certificate'', ''private-key''] m)"

definition rewrite_provider :: "config_ext \<Rightarrow> string \<Rightarrow> mapping \<Rightarrow> mapping" where
  "rewrite_provider x source provider =
     (if Option.bind (mapping_get provider ''type'') as_str \<noteq> Some ''http''
      then at_key ''path'' (rebase x source) provider else provider)"

definition tls_proxy_types :: "string list" where
  "tls_proxy_types = [''vmess'', ''vless'', ''trojan'', ''hysteria2'', ''tuic'', ''anytls'']"

definition rewrite_proxy :: "config_ext \<Rightarrow> string \<Rightarrow> mapping \<Rightarrow> mapping" where
  "rewrite_proxy x source proxy =
     (case Option.bind (mapping_get proxy ''type'') as_str of
        None \<Rightarrow> proxy
      | Some type \<Rightarrow>
          if type = ''ssh'' then at_key ''private-key'' (rebase x source) proxy
          else if type \<in> set tls_proxy_types then
            at_key ''xhttp-opts'' (on_mapping (at_key ''download-settings''
              (on_mapping (certificate_paths x source))))
            (at_key ''realm-opts'' (on_mapping (certificate_paths x source))
            (certificate_paths x source proxy))
          else if type = ''zerotier'' then at_key ''planet'' (rebase x source) proxy
          else proxy)"

definition dns_certificates :: "config_ext \<Rightarrow> string \<Rightarrow> mapping \<Rightarrow> mapping" where
  "dns_certificates x source listen =
     fold (\<lambda>kind. at_key kind (on_mapping (fold (\<lambda>key. at_key key (rebase x source)) [''ca-cert'', ''ca-key''])))
       [''doh'', ''dot'', ''doh3''] listen"

definition rewrite_paths :: "config_ext \<Rightarrow> core_kind \<Rightarrow> string \<Rightarrow> mapping \<Rightarrow> mapping" where
  "rewrite_paths x kind source document =
     (let document = fold (\<lambda>field. at_key field (rebase x source))
            [''external-ui'', ''mmdb'', ''geosite'', ''asn-mmdb''] document;
          document = fold (\<lambda>field. at_key field (on_mapping
              (entrywise (\<lambda>_. on_mapping (rewrite_provider x source)))))
            [''proxy-providers'', ''rule-providers''] document;
          document = fold (\<lambda>field. at_key field (on_mapping (certificate_paths x source)))
            [''tls'', ''tuic-server'', ''ss-config''] document;
          document = at_key ''listeners'' (on_items (on_mapping (certificate_paths x source))) document;
          document = at_key ''proxies'' (on_items (on_mapping (rewrite_proxy x source))) document
      in if kind = ClashRust \<or> kind = ChimeraClient
         then at_key ''dns'' (on_mapping (at_key ''listen'' (on_mapping (dns_certificates x source))))
           document
         else document)"

definition native_paths ::
  "config_ext \<Rightarrow> core_kind \<Rightarrow> string \<Rightarrow> prepared_config \<Rightarrow> error + prepared_config" where
  "native_paths x kind source prepared =
     (let document = rewrite_paths x kind source (pc_document prepared)
      in and_then (x_to_text x document) (\<lambda>bytes.
         Inr (prepared\<lparr>pc_document := document, pc_bytes := bytes,
           pc_effective_hash := semantic_hash bytes\<rparr>)))"

section \<open>Text classifiers\<close>

definition cache_failure :: "core_kind \<Rightarrow> string \<Rightarrow> bool" where
  "cache_failure kind message = (case kind of
       Meow \<Rightarrow> contains_str ''selector store:'' message
         \<and> (contains_str ''failed'' message \<or> contains_str ''malformed'' message)
     | _ \<Rightarrow> if kind = ClashRust \<or> kind = ChimeraClient
         then list_ex (\<lambda>prefix. contains_str prefix message)
           [''failed to read cache file:'', ''failed to parse cache file:'',
            ''failed to write cache file:'', ''failed to serialize cache file:'']
         else contains_str ''[CacheFile]'' message
           \<and> list_ex (\<lambda>part. contains_str part message) [''can'' @ [CHR 0x27] @ ''t open'', ''failed:'', ''error:''])"

fun untag :: "yaml_value \<Rightarrow> yaml_value" where
  "untag (Tagged t v) = untag v"
| "untag v = v"

definition legacy_name_kind :: "string \<Rightarrow> core_kind option" where
  "legacy_name_kind name =
     (if name \<in> {''mihomo'', ''mihomo-alpha'', ''clash-meta''} then Some Mihomo
      else if name \<in> {''clash-rs'', ''clash-rs-alpha''} then Some ClashRust
      else if name \<in> {''chimera-client'', ''chimera-client-alpha'', ''chimera'', ''chimera_client''}
        then Some ChimeraClient
      else if name \<in> {''clash'', ''clash-premium''} then Some ClashPremium
      else if name = ''meow'' then Some Meow
      else None)"

text \<open>The file is what reading it gave: \<open>None\<close> when it does not exist. \<open>parse\<close> is the deserializer for
  mappings.\<close>

definition legacy_kind ::
  "(bytes \<Rightarrow> error + mapping) \<Rightarrow> (error + bytes option) \<Rightarrow> error + core_kind option" where
  "legacy_kind parse file = and_then file (\<lambda>contents. case contents of
       None \<Rightarrow> Inr None
     | Some bytes \<Rightarrow> and_then (parse bytes) (\<lambda>document.
         Inr (Option.bind (case mapping_get document ''core'' of
             Some v \<Rightarrow> Some v | None \<Rightarrow> mapping_get document ''clash_core'')
           (\<lambda>v. Option.bind (as_str (untag v)) legacy_name_kind))))"

section \<open>What rewriting does\<close>

lemma entrywise_entrywise [simp]: "entrywise F (entrywise G m) = entrywise (\<lambda>k v. F k (G k v)) m"
  by (simp add: entrywise_def case_prod_beta)

lemma mapping_get_entrywise [simp]:
  "mapping_get (entrywise F m) k = map_option (F (String k)) (mapping_get m k)"
  by (induction m) (auto simp: entrywise_def mapping_get_def)

lemma keys_entrywise [simp]: "map fst (entrywise F m) = map fst m"
  by (simp add: entrywise_def case_prod_beta)

lemma mapping_get_at_key [simp]:
  "mapping_get (at_key key f m) k = (if k = key then map_option f (mapping_get m k) else mapping_get m k)"
  by (simp add: at_key_def option.map_ident)

text \<open>A transformer is settled when a second run changes nothing; the combinators keep that.\<close>

definition settled :: "('a \<Rightarrow> 'a) \<Rightarrow> bool" where
  "settled f \<longleftrightarrow> (\<forall>v. f (f v) = f v)"

named_theorems settled_rules \<open>combinators that keep idempotence\<close>

lemma settled_id [settled_rules]: "settled (\<lambda>v. v)"
  by (simp add: settled_def)

lemma settled_entrywise [settled_rules]: "(\<And>k. settled (F k)) \<Longrightarrow> settled (entrywise F)"
  by (simp add: settled_def)

lemma settled_on_mapping [settled_rules]: "settled f \<Longrightarrow> settled (on_mapping f)"
  by (simp add: settled_def on_mapping_def split: yaml_value.split)

lemma settled_on_items [settled_rules]: "settled f \<Longrightarrow> settled (on_items f)"
  by (auto simp: settled_def on_items_def split: yaml_value.split)

lemma settled_at_key [settled_rules]: "settled f \<Longrightarrow> settled (at_key key f)"
  unfolding at_key_def by (rule settled_entrywise) (simp add: settled_def)

lemma settled_compose:
  "settled f \<Longrightarrow> settled g \<Longrightarrow> (\<And>m. f (g m) = g (f m)) \<Longrightarrow> settled (\<lambda>m. f (g m))"
  by (simp add: settled_def)

text \<open>The rewriting of one root field; no field is touched twice.\<close>

definition rewrite_field :: "config_ext \<Rightarrow> core_kind \<Rightarrow> string \<Rightarrow> yaml_value \<Rightarrow> yaml_value \<Rightarrow> yaml_value" where
  "rewrite_field x kind source k =
     (if k \<in> {String ''external-ui'', String ''mmdb'', String ''geosite'', String ''asn-mmdb''}
        then rebase x source
      else if k \<in> {String ''proxy-providers'', String ''rule-providers''}
        then on_mapping (entrywise (\<lambda>_. on_mapping (rewrite_provider x source)))
      else if k \<in> {String ''tls'', String ''tuic-server'', String ''ss-config''}
        then on_mapping (certificate_paths x source)
      else if k = String ''listeners'' then on_items (on_mapping (certificate_paths x source))
      else if k = String ''proxies'' then on_items (on_mapping (rewrite_proxy x source))
      else if k = String ''dns'' \<and> (kind = ClashRust \<or> kind = ChimeraClient)
        then on_mapping (at_key ''listen'' (on_mapping (dns_certificates x source)))
      else (\<lambda>v. v))"

lemma entrywise_cong: "(\<And>k v. F k v = G k v) \<Longrightarrow> entrywise F m = entrywise G m"
  by (simp add: entrywise_def)

lemma rewrite_paths_entrywise:
  "rewrite_paths x kind source m = entrywise (rewrite_field x kind source) m"
proof (cases "kind = ClashRust \<or> kind = ChimeraClient")
  case True
  then show ?thesis
    unfolding rewrite_paths_def Let_def at_key_def
    by simp (rule entrywise_cong, auto simp: rewrite_field_def at_key_def [abs_def])
next
  case False
  then show ?thesis
    unfolding rewrite_paths_def Let_def at_key_def
    by simp (rule entrywise_cong, auto simp: rewrite_field_def)
qed

text \<open>The path library: joining onto this base gives an absolute path.\<close>

definition joins_absolute :: "config_ext \<Rightarrow> string \<Rightarrow> bool" where
  "joins_absolute x source \<longleftrightarrow> (\<forall>path. x_is_absolute x (x_join x source path))"

lemma settled_rebase: "joins_absolute x source \<Longrightarrow> settled (rebase x source)"
  by (auto simp: settled_def rebase_def joins_absolute_def split: yaml_value.split)

lemma settled_rebase_each:
  assumes "joins_absolute x source"
  shows "settled (rebase_each x source)"
  unfolding settled_def
proof
  fix v
  have r: "rebase x source (rebase x source w) = rebase x source w" for w
    using settled_rebase [OF assms] by (simp add: settled_def)
  show "rebase_each x source (rebase_each x source v) = rebase_each x source v"
  proof (cases "\<exists>p. v = String p")
    case True
    then show ?thesis using assms by (auto simp: rebase_each_def rebase_def joins_absolute_def)
  next
    case False
    then have "rebase x source v = v" by (auto simp: rebase_def split: yaml_value.split)
    then show ?thesis by (auto simp: rebase_each_def r split: yaml_value.split)
  qed
qed

lemma certificate_paths_entrywise:
  "certificate_paths x source = entrywise (\<lambda>k.
     if k = String ''certificate'' \<or> k = String ''private-key'' then rebase x source
     else if k = String ''client-auth-cert'' then rebase_each x source
     else (\<lambda>v. v))"
  unfolding certificate_paths_def [abs_def] at_key_def
  by (rule ext, simp) (rule entrywise_cong, auto)

lemma settled_certificate_paths:
  assumes "joins_absolute x source"
  shows "settled (certificate_paths x source)"
  unfolding certificate_paths_entrywise
  by (rule settled_entrywise)
     (use settled_rebase [OF assms] settled_rebase_each [OF assms] in \<open>simp add: settled_def\<close>)

lemma settled_rewrite_provider:
  "joins_absolute x source \<Longrightarrow> settled (rewrite_provider x source)"
  using settled_at_key [OF settled_rebase, of x source "''path''"]
  by (simp add: settled_def rewrite_provider_def)

lemma settled_dns_certificates:
  assumes "joins_absolute x source"
  shows "settled (dns_certificates x source)"
proof -
  have "settled (\<lambda>m. fold (\<lambda>key. at_key key (rebase x source)) [''ca-cert'', ''ca-key''] m)"
    using settled_rebase [OF assms]
    by (simp add: at_key_def settled_def) (auto intro: entrywise_cong)
  then have "settled (on_mapping (fold (\<lambda>key. at_key key (rebase x source)) [''ca-cert'', ''ca-key'']))"
    by (rule settled_on_mapping)
  then show ?thesis
    unfolding dns_certificates_def [abs_def]
    by (simp add: at_key_def settled_def) (auto intro!: entrywise_cong)
qed

lemma settled_rewrite_proxy:
  assumes "joins_absolute x source"
  shows "settled (rewrite_proxy x source)"
proof -
  let ?c = "certificate_paths x source"
  let ?xh = "at_key ''xhttp-opts'' (on_mapping (at_key ''download-settings'' (on_mapping ?c)))"
  let ?re = "at_key ''realm-opts'' (on_mapping ?c)"
  have simple: "settled (at_key key (rebase x source))" for key
    by (intro settled_rules settled_rebase assms)
  have tls: "settled (\<lambda>m. ?xh (?re (?c m)))"
  proof (rule settled_compose [of ?xh "\<lambda>m. ?re (?c m)"])
    show "settled ?xh" by (intro settled_rules settled_certificate_paths assms)
    show "settled (\<lambda>m. ?re (?c m))"
      by (rule settled_compose [of ?re ?c])
         ((intro settled_rules settled_certificate_paths assms)+,
          auto simp: at_key_def certificate_paths_entrywise intro!: entrywise_cong)
    show "?xh (?re (?c m)) = ?re (?c (?xh m))" for m
      by (simp add: at_key_def certificate_paths_entrywise) (auto intro!: entrywise_cong)
  qed
  have ty: "mapping_get (?c m) ''type'' = mapping_get m ''type''" for m
    by (simp add: certificate_paths_entrywise option.map_ident)
  show ?thesis
    unfolding settled_def
  proof
    fix m
    show "rewrite_proxy x source (rewrite_proxy x source m) = rewrite_proxy x source m"
      using simple tls by (auto simp: rewrite_proxy_def settled_def ty split: option.split)
  qed
qed

lemma settled_rewrite_field:
  "joins_absolute x source \<Longrightarrow> settled (rewrite_field x kind source k)"
  unfolding rewrite_field_def
  by (auto intro!: settled_rules settled_rebase settled_rewrite_provider settled_certificate_paths
      settled_rewrite_proxy settled_dns_certificates)

text \<open>Rebasing the file inputs of a document onto the native store's directory is idempotent: a
  document that was rewritten once is left alone, so preparing an already prepared document for a
  restart or a rollback does not move its paths again. The path library joins the directory to
  absolute paths.\<close>

theorem rewrite_paths_idempotent:
  assumes "joins_absolute x source"
  shows "rewrite_paths x kind source (rewrite_paths x kind source doc) = rewrite_paths x kind source doc"
  using settled_entrywise [OF settled_rewrite_field [OF assms]]
  by (simp add: rewrite_paths_entrywise settled_def)

theorem rewrite_paths_idempotent_witness:
  "joins_absolute plain_ext ''/data'' \<and>
   rewrite_paths plain_ext Mihomo ''/data''
     (rewrite_paths plain_ext Mihomo ''/data'' [(String ''external-ui'', String ''ui'')])
   = rewrite_paths plain_ext Mihomo ''/data'' [(String ''external-ui'', String ''ui'')]"
proof -
  have "joins_absolute plain_ext ''/data''" by (simp add: joins_absolute_def plain_ext_def)
  then show ?thesis using rewrite_paths_idempotent by blast
qed

text \<open>Rebasing keeps the keys of the document and their order, and changes no root field outside
  the schema's file inputs: transport settings, rules and the controller fields come out as they
  went in, and a \<open>dns\<close> section only changes for the cores that take certificates there.\<close>

theorem rewrite_paths_scope:
  "map fst (rewrite_paths x kind source doc) = map fst doc
   \<and> mapping_get (rewrite_paths x kind source doc) key =
       (if key \<in> {''external-ui'', ''mmdb'', ''geosite'', ''asn-mmdb'', ''proxy-providers'', ''rule-providers'',
            ''tls'', ''tuic-server'', ''ss-config'', ''listeners'', ''proxies''}
          \<or> key = ''dns'' \<and> kind \<in> {ClashRust, ChimeraClient}
        then map_option (rewrite_field x kind source (String key)) (mapping_get doc key)
        else mapping_get doc key)"
  by (auto simp: rewrite_paths_entrywise rewrite_field_def option.map_ident)

text \<open>The persisted core name of every kind, and its alternative channel names, identify that kind
  again; a file that does not exist identifies none.\<close>

theorem legacy_kind_roundtrip:
  "legacy_kind (\<lambda>_. Inr [(String ''core'', String (core_kind_as_ref kind))]) (Inr (Some [])) = Inr (Some kind)
   \<and> legacy_kind (\<lambda>_. Inr [(String ''clash_core'', String (core_kind_as_ref kind))]) (Inr (Some [])) = Inr (Some kind)
   \<and> legacy_kind parse (Inr None) = Inr None"
  by (cases kind) (simp_all add: legacy_kind_def mapping_get_def as_str_def legacy_name_kind_def)

end
