(* ===== verification/Runtime_Store.thy ===== *)
theory Runtime_Store
  imports Specs
begin

text \<open>
  The runtime directory of the manager (\<open>config/runtime_store.rs\<close>) on the file operations it uses
  (\<open>chimera-utils/src/io/atomic_fs.rs\<close>, Unix build). The directory is flat: a store keeps the names
  in it with what they are. Every system call may fail: \<open>se_fault\<close> says whether the \<open>n\<close>-th one does,
  and with which message; it is universally quantified in every statement, so the statements hold
  under every pattern of failures. A call that fails has no effect, except that a failing write
  leaves the file it was writing, empty.
\<close>

section \<open>File system\<close>

datatype node = Regular bytes | Symlink | Socket | Directory

record store_env =
  se_fault :: "nat \<Rightarrow> string option"
  se_process_id :: u32

record store =
  st_dir :: string
  st_files :: "(string \<times> node) list"
  st_calls :: nat
  st_temp_counter :: u64

type_synonym path = "string \<times> string"

definition path_show :: "path \<Rightarrow> string" where
  "path_show p = fst p @ ''/'' @ snd p"

definition lookup :: "store \<Rightarrow> string \<Rightarrow> node option" where
  "lookup s name = map_of (st_files s) name"

definition put :: "string \<Rightarrow> node \<Rightarrow> store \<Rightarrow> store" where
  "put name n s = s\<lparr>st_files := (name, n) # filter (\<lambda>p. fst p \<noteq> name) (st_files s)\<rparr>"

definition unlink :: "string \<Rightarrow> store \<Rightarrow> store" where
  "unlink name s = s\<lparr>st_files := filter (\<lambda>p. fst p \<noteq> name) (st_files s)\<rparr>"

definition is_regular :: "node \<Rightarrow> bool" where
  "is_regular n \<longleftrightarrow> (case n of Regular _ \<Rightarrow> True | _ \<Rightarrow> False)"

text \<open>One system call: it counts, and the environment may make it fail.\<close>

definition io :: "store_env \<Rightarrow> (store \<Rightarrow> (error + 'a) \<times> store) \<Rightarrow> store \<Rightarrow> ((error + 'a) \<times> store) option" where
  "io env act s = (let s' = s\<lparr>st_calls := Suc (st_calls s)\<rparr> in
     case se_fault env (st_calls s) of Some msg \<Rightarrow> Some (Inl (Io msg), s') | None \<Rightarrow> Some (act s'))"

definition not_found :: error where
  "not_found = Io ''No such file or directory (os error 2)''"

definition already_exists :: error where
  "already_exists = Io ''File exists (os error 17)''"

text \<open>\<open>symlink_metadata\<close>; \<open>NotFound\<close> is the value \<open>None\<close>, which the callers tell apart.\<close>

definition symlink_metadata :: "store_env \<Rightarrow> string \<Rightarrow> store \<Rightarrow> ((error + node option) \<times> store) option" where
  "symlink_metadata env name = io env (\<lambda>s. (Inr (lookup s name), s))"

definition remove_file :: "store_env \<Rightarrow> string \<Rightarrow> store \<Rightarrow> ((error + unit) \<times> store) option" where
  "remove_file env name = io env (\<lambda>s. case lookup s name of
       None \<Rightarrow> (Inl not_found, s)
     | Some Directory \<Rightarrow> (Inl (Io ''Is a directory (os error 21)''), s)
     | Some _ \<Rightarrow> (Inr (), unlink name s))"

definition read_file :: "store_env \<Rightarrow> string \<Rightarrow> store \<Rightarrow> ((error + bytes) \<times> store) option" where
  "read_file env name = io env (\<lambda>s. case lookup s name of
       Some (Regular contents) \<Rightarrow> (Inr contents, s)
     | None \<Rightarrow> (Inl not_found, s)
     | Some _ \<Rightarrow> (Inl (Io ''not a readable file''), s))"

definition create_new :: "store_env \<Rightarrow> string \<Rightarrow> store \<Rightarrow> ((error + unit) \<times> store) option" where
  "create_new env name = io env (\<lambda>s. case lookup s name of
       None \<Rightarrow> (Inr (), put name (Regular []) s)
     | Some _ \<Rightarrow> (Inl already_exists, s))"

definition write_all :: "store_env \<Rightarrow> string \<Rightarrow> bytes \<Rightarrow> store \<Rightarrow> ((error + unit) \<times> store) option" where
  "write_all env name contents = io env (\<lambda>s. (Inr (), put name (Regular contents) s))"

definition hard_link :: "store_env \<Rightarrow> string \<Rightarrow> string \<Rightarrow> store \<Rightarrow> ((error + unit) \<times> store) option" where
  "hard_link env source target = io env (\<lambda>s. case (lookup s source, lookup s target) of
       (None, _) \<Rightarrow> (Inl not_found, s)
     | (Some n, Some _) \<Rightarrow> (Inl already_exists, s)
     | (Some n, None) \<Rightarrow> (Inr (), put target n s))"

definition sync_dir :: "store_env \<Rightarrow> store \<Rightarrow> ((error + unit) \<times> store) option" where
  "sync_dir env = io env (\<lambda>s. (Inr (), s))"

section \<open>Atomic file operations\<close>

definition unsafe_path :: "store \<Rightarrow> string \<Rightarrow> error" where
  "unsafe_path s name = UnsafeRuntimeArtifact (path_show (st_dir s, name))"

definition validate_absent_regular_target ::
  "store_env \<Rightarrow> string \<Rightarrow> store \<Rightarrow> ((error + unit) \<times> store) option" where
  "validate_absent_regular_target env name s =
     and_do (symlink_metadata env name s) (\<lambda>m s. case m of
         None \<Rightarrow> Some (Inr (), s)
       | Some n \<Rightarrow>
           if \<not> is_regular n then Some (Inl (unsafe_path s name), s)
           else Some (Inl (Io (''runtime artifact already exists: '' @ path_show (st_dir s, name))), s))"

definition validate_existing_regular_target ::
  "store_env \<Rightarrow> string \<Rightarrow> store \<Rightarrow> ((error + unit) \<times> store) option" where
  "validate_existing_regular_target env name s =
     and_do (symlink_metadata env name s) (\<lambda>m s. case m of
         None \<Rightarrow> Some (Inl not_found, s)
       | Some n \<Rightarrow> Some (if \<not> is_regular n then Inl (unsafe_path s name) else Inr (), s))"

definition remove_regular_file ::
  "store_env \<Rightarrow> string \<Rightarrow> store \<Rightarrow> ((error + unit) \<times> store) option" where
  "remove_regular_file env name s =
     and_do (symlink_metadata env name s) (\<lambda>m s. case m of
         None \<Rightarrow> Some (Inr (), s)
       | Some n \<Rightarrow>
           if \<not> is_regular n then Some (Inl (unsafe_path s name), s) else remove_file env name s)"

definition atomic_move_new ::
  "store_env \<Rightarrow> string \<Rightarrow> string \<Rightarrow> store \<Rightarrow> ((error + unit) \<times> store) option" where
  "atomic_move_new env source target s =
     and_do (hard_link env source target s) (\<lambda>_ s. remove_file env source s)"

definition atomic_replace ::
  "store_env \<Rightarrow> string \<Rightarrow> string \<Rightarrow> store \<Rightarrow> ((error + unit) \<times> store) option" where
  "atomic_replace env replacement destination = io env (\<lambda>s. case lookup s replacement of
       None \<Rightarrow> (Inl not_found, s)
     | Some n \<Rightarrow> (Inr (), put destination n (unlink replacement s)))"

section \<open>Artifact names\<close>

definition artifact_runtime_path :: "u64 \<Rightarrow> string" where
  "artifact_runtime_path d = ''config-'' @ show_nat (unat d) @ ''.yaml''"

definition artifact_pid_path :: "u64 \<Rightarrow> string" where
  "artifact_pid_path d = ''core-'' @ show_nat (unat d) @ ''.pid''"

definition artifact_socket_path :: "u64 \<Rightarrow> string" where
  "artifact_socket_path d = ''core-'' @ show_nat (unat d) @ ''.sock''"

definition runtime_path :: "epoch \<Rightarrow> string" where
  "runtime_path e = artifact_runtime_path (epoch_get e)"

definition pid_path :: "epoch \<Rightarrow> string" where
  "pid_path e = artifact_pid_path (epoch_get e)"

definition socket_path :: "epoch \<Rightarrow> string" where
  "socket_path e = artifact_socket_path (epoch_get e)"

definition backup_prefix :: "u64 \<Rightarrow> string" where
  "backup_prefix d = ''config-'' @ show_nat (unat d) @ ''.yaml.backup-''"

definition temp_prefix :: "u64 \<Rightarrow> string" where
  "temp_prefix d = ''.config-'' @ show_nat (unat d) @ ''.yaml.tmp-''"

definition pid_temp_prefix :: "u64 \<Rightarrow> string" where
  "pid_temp_prefix d = ''core-'' @ show_nat (unat d) @ ''.pid.tmp-''"

definition or_else :: "'a option \<Rightarrow> 'a option \<Rightarrow> 'a option" where
  "or_else a b = (case a of Some x \<Rightarrow> Some x | None \<Rightarrow> b)"

definition artifact_epoch :: "string \<Rightarrow> u64 option" where
  "artifact_epoch name =
     Option.bind
       (or_else (Option.bind (strip_prefix ''core-'' name) (strip_suffix ''.pid''))
       (or_else (Option.bind (strip_prefix ''core-'' name) (strip_suffix ''.sock''))
       (or_else (Option.bind (strip_prefix ''config-'' name) (\<lambda>value.
            or_else (strip_suffix ''.yaml'' value)
              (map_option fst (split_once ''.yaml.backup-'' value))))
       (or_else (Option.bind (strip_prefix ''.config-'' name) (\<lambda>value.
            map_option fst (split_once ''.yaml.tmp-'' value)))
         (Option.bind (strip_prefix ''core-'' name) (\<lambda>value.
            map_option fst (split_once ''.pid.tmp-'' value)))))))
       parse_u64"

section \<open>Staging, committing, backups\<close>

record staged =
  sg_path :: path

datatype commit_durability = Durable | Uncertain string

record config_commit =
  cc_path :: path
  cc_durability :: commit_durability

record config_backup =
  bk_path :: path
  bk_epoch :: epoch

definition durability_warning :: "config_commit \<Rightarrow> string option" where
  "durability_warning c = (case cc_durability c of Durable \<Rightarrow> None | Uncertain w \<Rightarrow> Some w)"

text \<open>Dropping a staged file that was not consumed removes it, whatever that returns. Every error
  path out of an operation that owns one goes through \<open>or_drop\<close>.\<close>

definition drop_staged :: "store_env \<Rightarrow> staged \<Rightarrow> store \<Rightarrow> store option" where
  "drop_staged env sg s = map_option snd (remove_file env (snd (sg_path sg)) s)"

definition or_drop ::
  "store_env \<Rightarrow> staged \<Rightarrow> ((error + 'a) \<times> store) option \<Rightarrow> ((error + 'a) \<times> store) option" where
  "or_drop env sg m = Option.bind m (\<lambda>(r, s). case r of
       Inr x \<Rightarrow> Some (Inr x, s)
     | Inl e \<Rightarrow> map_option (\<lambda>s. (Inl e, s)) (drop_staged env sg s))"

definition temp_name :: "store_env \<Rightarrow> epoch \<Rightarrow> u64 \<Rightarrow> string" where
  "temp_name env e counter = temp_prefix (epoch_get e) @ show_nat (unat (se_process_id env))
     @ ''-'' @ show_nat (unat counter)"

definition stage :: "store_env \<Rightarrow> epoch \<Rightarrow> bytes \<Rightarrow> store \<Rightarrow> ((error + staged) \<times> store) option" where
  "stage env e contents s =
     (let name = temp_name env e (st_temp_counter s);
          s = s\<lparr>st_temp_counter := st_temp_counter s + 1\<rparr>
      in and_do (validate_absent_regular_target env name s) (\<lambda>_ s.
         and_do (create_new env name s) (\<lambda>_ s.
         and_do (io env (\<lambda>s. (Inr (), s)) s) (\<lambda>_ s.
         Option.bind (and_do (write_all env name contents s) (\<lambda>_ s. io env (\<lambda>s. (Inr (), s)) s))
           (\<lambda>(r, s). case r of
              Inl err \<Rightarrow> Option.bind (remove_file env name s) (\<lambda>(_, s). Some (Inl err, s))
            | Inr _ \<Rightarrow> Some (Inr \<lparr>sg_path = (st_dir s, name)\<rparr>, s))))))"

definition validate_staged :: "store_env \<Rightarrow> staged \<Rightarrow> epoch \<Rightarrow> store \<Rightarrow> ((error + unit) \<times> store) option" where
  "validate_staged env sg e s =
     (if fst (sg_path sg) \<noteq> st_dir s \<or> \<not> starts_with (temp_prefix (epoch_get e)) (snd (sg_path sg))
      then Some (Inl (UnsafeRuntimeArtifact (path_show (sg_path sg))), s)
      else validate_existing_regular_target env (snd (sg_path sg)) s)"

definition commit_new :: "store_env \<Rightarrow> staged \<Rightarrow> epoch \<Rightarrow> store \<Rightarrow> ((error + path) \<times> store) option" where
  "commit_new env sg e s =
     and_do (or_drop env sg
       (and_do (validate_staged env sg e s) (\<lambda>_ s.
        and_do (validate_absent_regular_target env (runtime_path e) s) (\<lambda>_ s.
        atomic_move_new env (snd (sg_path sg)) (runtime_path e) s)))) (\<lambda>_ s.
     and_do (sync_dir env s) (\<lambda>_ s.
     Some (Inr (st_dir s, runtime_path e), s)))"

definition installed_commit :: "path \<Rightarrow> error + unit \<Rightarrow> config_commit" where
  "installed_commit p parent_sync = \<lparr>cc_path = p, cc_durability = (case parent_sync of
       Inr _ \<Rightarrow> Durable
     | Inl e \<Rightarrow> Uncertain (''runtime config was atomically installed, but parent-directory synchronization failed: ''
         @ error_to_string e))\<rparr>"

definition commit_replace ::
  "store_env \<Rightarrow> staged \<Rightarrow> epoch \<Rightarrow> store \<Rightarrow> ((error + config_commit) \<times> store) option" where
  "commit_replace env sg e s =
     and_do (or_drop env sg
       (and_do (validate_staged env sg e s) (\<lambda>_ s.
        and_do (validate_existing_regular_target env (runtime_path e) s) (\<lambda>_ s.
        atomic_replace env (snd (sg_path sg)) (runtime_path e) s)))) (\<lambda>_ s.
     Option.bind (sync_dir env s) (\<lambda>(parent_sync, s).
     Some (Inr (installed_commit (st_dir s, runtime_path e) parent_sync), s)))"

definition replace :: "store_env \<Rightarrow> epoch \<Rightarrow> bytes \<Rightarrow> store \<Rightarrow> ((error + config_commit) \<times> store) option" where
  "replace env e contents s =
     and_do (stage env e contents s) (\<lambda>sg s. commit_replace env sg e s)"

definition backup_name :: "epoch \<Rightarrow> nat \<Rightarrow> string" where
  "backup_name e generation = backup_prefix (epoch_get e) @ show_nat generation"

definition backup :: "store_env \<Rightarrow> epoch \<Rightarrow> nat \<Rightarrow> store \<Rightarrow> ((error + config_backup) \<times> store) option" where
  "backup env e generation s =
     and_do (validate_existing_regular_target env (runtime_path e) s) (\<lambda>_ s.
     and_do (read_file env (runtime_path e) s) (\<lambda>contents s.
     and_do (stage env e contents s) (\<lambda>sg s.
     and_do (or_drop env sg
       (and_do (validate_absent_regular_target env (backup_name e generation) s) (\<lambda>_ s.
        atomic_move_new env (snd (sg_path sg)) (backup_name e generation) s))) (\<lambda>_ s.
     and_do (sync_dir env s) (\<lambda>_ s.
     Some (Inr \<lparr>bk_path = (st_dir s, backup_name e generation), bk_epoch = e\<rparr>, s))))))"

definition restore :: "store_env \<Rightarrow> config_backup \<Rightarrow> store \<Rightarrow> ((error + config_commit) \<times> store) option" where
  "restore env b s =
     and_do (validate_existing_regular_target env (snd (bk_path b)) s) (\<lambda>_ s.
     and_do (read_file env (snd (bk_path b)) s) (\<lambda>contents s.
     replace env (bk_epoch b) contents s))"

definition remove_backup :: "store_env \<Rightarrow> config_backup \<Rightarrow> store \<Rightarrow> ((error + unit) \<times> store) option" where
  "remove_backup env b s = remove_regular_file env (snd (bk_path b)) s"

section \<open>Cleaning up\<close>

definition remove_socket_artifact ::
  "store_env \<Rightarrow> string \<Rightarrow> store \<Rightarrow> ((error + unit) \<times> store) option" where
  "remove_socket_artifact env name s =
     and_do (symlink_metadata env name s) (\<lambda>m s. case m of
         None \<Rightarrow> Some (Inr (), s)
       | Some Socket \<Rightarrow> remove_file env name s
       | Some _ \<Rightarrow> Some (Inl (unsafe_path s name), s))"

definition swept :: "u64 \<Rightarrow> string \<Rightarrow> bool" where
  "swept d name \<longleftrightarrow> starts_with (backup_prefix d) name \<or> starts_with (temp_prefix d) name
     \<or> starts_with (pid_temp_prefix d) name"

fun sweep :: "store_env \<Rightarrow> u64 \<Rightarrow> string list \<Rightarrow> store \<Rightarrow> ((error + unit) \<times> store) option" where
  "sweep env d [] s = io env (\<lambda>s. (Inr (), s)) s"
| "sweep env d (name # rest) s =
     and_do (io env (\<lambda>s. (Inr (), s)) s) (\<lambda>_ s.
     if swept d name then and_do (remove_regular_file env name s) (\<lambda>_ s. sweep env d rest s)
     else sweep env d rest s)"

definition read_dir :: "store_env \<Rightarrow> store \<Rightarrow> ((error + string list) \<times> store) option" where
  "read_dir env = io env (\<lambda>s. (Inr (map fst (st_files s)), s))"

definition cleanup_artifacts :: "store_env \<Rightarrow> u64 \<Rightarrow> store \<Rightarrow> ((error + unit) \<times> store) option" where
  "cleanup_artifacts env d s =
     and_do (remove_regular_file env (artifact_runtime_path d) s) (\<lambda>_ s.
     and_do (remove_regular_file env (artifact_pid_path d) s) (\<lambda>_ s.
     and_do (remove_socket_artifact env (artifact_socket_path d) s) (\<lambda>_ s.
     and_do (read_dir env s) (\<lambda>names s.
     and_do (sweep env d names s) (\<lambda>_ s.
     sync_dir env s)))))"

definition cleanup_epoch :: "store_env \<Rightarrow> epoch \<Rightarrow> store \<Rightarrow> ((error + unit) \<times> store) option" where
  "cleanup_epoch env e = cleanup_artifacts env (epoch_get e)"

fun scan_names :: "store_env \<Rightarrow> string list \<Rightarrow> u64 list \<Rightarrow> store \<Rightarrow> ((error + u64 list) \<times> store) option" where
  "scan_names env [] acc s = and_do (io env (\<lambda>s. (Inr (), s)) s) (\<lambda>_ s. Some (Inr acc, s))"
| "scan_names env (name # rest) acc s =
     and_do (io env (\<lambda>s. (Inr (), s)) s) (\<lambda>_ s.
     scan_names env rest (case artifact_epoch name of Some d \<Rightarrow> acc @ [d] | None \<Rightarrow> acc) s)"

definition artifact_epochs :: "store_env \<Rightarrow> store \<Rightarrow> ((error + u64 list) \<times> store) option" where
  "artifact_epochs env s =
     and_do (read_dir env s) (\<lambda>names s.
     and_do (scan_names env names [] s) (\<lambda>epochs s.
     Some (Inr (remdups_adj (sort epochs)), s)))"

section \<open>What the file operations do\<close>

lemma lookup_simps [simp]:
  "lookup (s\<lparr>st_calls := n\<rparr>) = lookup s" "lookup (s\<lparr>st_temp_counter := c\<rparr>) = lookup s"
  "lookup (put name x s) = (lookup s)(name \<mapsto> x)" "lookup (unlink name s) = (lookup s)(name := None)"
  "st_dir (put name x s) = st_dir s" "st_dir (unlink name s) = st_dir s"
proof -
  have "map_of (filter (\<lambda>p. fst p \<noteq> name) xs) = (map_of xs)(name := None)"
    for xs :: "(string \<times> node) list"
    by (induction xs) (auto simp: fun_eq_iff)
  then show "lookup (put name x s) = (lookup s)(name \<mapsto> x)"
    "lookup (unlink name s) = (lookup s)(name := None)"
    by (auto simp: lookup_def put_def unlink_def fun_eq_iff)
qed (auto simp: lookup_def put_def unlink_def fun_eq_iff)

lemma returns_io:
  assumes "\<And>msg. Q (Inl (Io msg)) (s\<lparr>st_calls := Suc (st_calls s)\<rparr>)"
    and "case act (s\<lparr>st_calls := Suc (st_calls s)\<rparr>) of (r, s') \<Rightarrow> Q r s'"
  shows "returns (io env act s) Q"
  using assms by (auto simp: io_def Let_def returns_def split: option.splits prod.splits)

text \<open>Operation \<open>m\<close> from \<open>s\<close> changes the directory to \<open>f x\<close> when it returns \<open>x\<close>, and to nothing when
  it fails.\<close>

definition changes ::
  "store \<Rightarrow> ((error + 'a) \<times> store) option \<Rightarrow> ('a \<Rightarrow> (string \<rightharpoonup> node) \<Rightarrow> bool) \<Rightarrow> bool" where
  "changes s m P \<longleftrightarrow> returns m (\<lambda>r s'. st_dir s' = st_dir s \<and> (case r of
     Inl e \<Rightarrow> lookup s' = lookup s | Inr x \<Rightarrow> P x (lookup s')))"

lemma changes_io:
  assumes "case act (s\<lparr>st_calls := Suc (st_calls s)\<rparr>) of (r, s') \<Rightarrow> st_dir s' = st_dir s \<and> (case r of
     Inl e \<Rightarrow> lookup s' = lookup s | Inr x \<Rightarrow> P x (lookup s'))"
  shows "changes s (io env act s) P"
  using assms unfolding changes_def by (intro returns_io) auto

lemma changes_symlink_metadata:
  "changes s (symlink_metadata env name s) (\<lambda>m f. m = lookup s name \<and> f = lookup s)"
  unfolding symlink_metadata_def by (rule changes_io) simp

lemma changes_remove_file:
  "changes s (remove_file env name s) (\<lambda>_ f. f = (lookup s)(name := None))"
  unfolding remove_file_def by (rule changes_io) (auto split: option.splits node.splits)

lemma changes_read_file:
  "changes s (read_file env name s) (\<lambda>c f. lookup s name = Some (Regular c) \<and> f = lookup s)"
  unfolding read_file_def by (rule changes_io) (auto split: option.splits node.splits)

lemma changes_create_new:
  "changes s (create_new env name s) (\<lambda>_ f. lookup s name = None \<and> f = (lookup s)(name \<mapsto> Regular []))"
  unfolding create_new_def by (rule changes_io) (auto split: option.splits)

lemma changes_write_all:
  "changes s (write_all env name c s) (\<lambda>_ f. f = (lookup s)(name \<mapsto> Regular c))"
  unfolding write_all_def by (rule changes_io) simp

lemma changes_hard_link:
  "changes s (hard_link env source target s) (\<lambda>_ f. lookup s target = None
     \<and> (\<exists>n. lookup s source = Some n \<and> f = (lookup s)(target \<mapsto> n)))"
  unfolding hard_link_def by (rule changes_io) (auto split: option.splits)

lemma changes_skip: "changes s (io env (\<lambda>s. (Inr (), s)) s) (\<lambda>_ f. f = lookup s)"
  by (rule changes_io) simp

lemma changes_sync_dir: "changes s (sync_dir env s) (\<lambda>_ f. f = lookup s)"
  unfolding sync_dir_def by (rule changes_skip)

lemma changes_read_dir:
  "changes s (read_dir env s) (\<lambda>names f. f = lookup s \<and> set names = {n. lookup s n \<noteq> None})"
  unfolding read_dir_def
  by (rule changes_io) (auto simp: lookup_def map_of_eq_None_iff)

lemma changes_atomic_replace:
  "changes s (atomic_replace env a b s)
     (\<lambda>_ f. \<exists>n. lookup s a = Some n \<and> f = (lookup s)(a := None, b \<mapsto> n))"
  unfolding atomic_replace_def by (rule changes_io) (auto split: option.splits)

lemma changes_and_do:
  assumes "changes s m P"
    and "\<And>x s'. st_dir s' = st_dir s \<Longrightarrow> P x (lookup s') \<Longrightarrow>
           returns (f x s') (\<lambda>r t. st_dir t = st_dir s \<and> R r t)"
    and "\<And>e s'. st_dir s' = st_dir s \<Longrightarrow> lookup s' = lookup s \<Longrightarrow> R (Inl e) s'"
  shows "returns (and_do m f) (\<lambda>r t. st_dir t = st_dir s \<and> R r t)"
  using assms(1) unfolding changes_def
  by (intro returns_and_do) (erule returns_mono, auto intro: assms(2,3) split: sum.splits)

lemma changes_seq:
  assumes "changes s m P"
    and "\<And>x s'. st_dir s' = st_dir s \<Longrightarrow> P x (lookup s') \<Longrightarrow> lookup s' = lookup s \<and> changes s' (f x s') R"
  shows "changes s (and_do m f) R"
  unfolding changes_def
proof (rule changes_and_do [OF assms(1)])
  fix x s' assume s': "st_dir s' = st_dir s" "P x (lookup s')"
  show "returns (f x s') (\<lambda>r t. st_dir t = st_dir s \<and> (case r of
      Inl e \<Rightarrow> lookup t = lookup s | Inr x \<Rightarrow> R x (lookup t)))"
    using assms(2) [OF s'] s'(1)
    by (auto simp: changes_def elim!: returns_mono split: sum.splits)
qed auto

lemma changes_mono:
  "changes s m P \<Longrightarrow> (\<And>x f. P x f \<Longrightarrow> R x f) \<Longrightarrow> changes s m R"
  unfolding changes_def by (erule returns_mono) (auto split: sum.splits)

lemma changes_Some [simp]:
  "changes s (Some (Inr x, s')) P \<longleftrightarrow> st_dir s' = st_dir s \<and> P x (lookup s')"
  "changes s (Some (Inl e, s')) P \<longleftrightarrow> st_dir s' = st_dir s \<and> lookup s' = lookup s"
  by (auto simp: changes_def)

lemma changes_validate_absent:
  "changes s (validate_absent_regular_target env name s) (\<lambda>_ f. lookup s name = None \<and> f = lookup s)"
  unfolding validate_absent_regular_target_def
  by (rule changes_seq [OF changes_symlink_metadata]) (auto split: option.splits)

lemma changes_validate_existing:
  "changes s (validate_existing_regular_target env name s)
     (\<lambda>_ f. (\<exists>c. lookup s name = Some (Regular c)) \<and> f = lookup s)"
  unfolding validate_existing_regular_target_def
  by (rule changes_seq [OF changes_symlink_metadata])
     (auto simp: is_regular_def split: option.splits node.splits)

lemma changes_remove_regular_file:
  "changes s (remove_regular_file env name s) (\<lambda>_ f. f = (lookup s)(name := None))"
  unfolding remove_regular_file_def
proof (rule changes_seq [OF changes_symlink_metadata])
  fix m s' assume "st_dir s' = st_dir s" "m = lookup s name \<and> lookup s' = lookup s"
  moreover from this have "lookup s name = None \<Longrightarrow> lookup s = (lookup s)(name := None)"
    by (auto simp: fun_eq_iff)
  ultimately show "lookup s' = lookup s \<and> changes s'
      (case m of None \<Rightarrow> Some (Inr (), s')
       | Some n \<Rightarrow> if \<not> is_regular n then Some (Inl (unsafe_path s' name), s') else remove_file env name s')
      (\<lambda>_ f. f = (lookup s)(name := None))"
    using changes_remove_file [of s' env name] by (auto split: option.splits)
qed

lemma changes_remove_socket_artifact:
  "changes s (remove_socket_artifact env name s) (\<lambda>_ f. f = (lookup s)(name := None))"
  unfolding remove_socket_artifact_def
proof (rule changes_seq [OF changes_symlink_metadata])
  fix m s' assume "st_dir s' = st_dir s" "m = lookup s name \<and> lookup s' = lookup s"
  moreover from this have "lookup s name = None \<Longrightarrow> lookup s = (lookup s)(name := None)"
    by (auto simp: fun_eq_iff)
  ultimately show "lookup s' = lookup s \<and> changes s'
      (case m of None \<Rightarrow> Some (Inr (), s') | Some Socket \<Rightarrow> remove_file env name s'
       | Some _ \<Rightarrow> Some (Inl (unsafe_path s' name), s')) (\<lambda>_ f. f = (lookup s)(name := None))"
    using changes_remove_file [of s' env name] by (auto split: option.splits node.splits)
qed

section \<open>What the store operations do\<close>

definition same_outside :: "(string \<Rightarrow> bool) \<Rightarrow> store \<Rightarrow> store \<Rightarrow> bool" where
  "same_outside P s s' \<longleftrightarrow> st_dir s' = st_dir s \<and> (\<forall>n. \<not> P n \<longrightarrow> lookup s' n = lookup s n)"

lemma same_outside_refl [simp]: "same_outside P s s"
  by (simp add: same_outside_def)

lemma same_outside_trans:
  "same_outside P s s' \<Longrightarrow> same_outside P s' s'' \<Longrightarrow> same_outside P s s''"
  by (simp add: same_outside_def)

abbreviation temp_of :: "epoch \<Rightarrow> string \<Rightarrow> bool" where
  "temp_of e n \<equiv> starts_with (temp_prefix (epoch_get e)) n"

lemma temp_name_temp [simp]: "temp_of e (temp_name env e c)"
  by (simp add: temp_name_def)

lemma not_temp [simp]:
  "\<not> temp_of e (artifact_runtime_path d)" "\<not> temp_of e (artifact_pid_path d)"
  "\<not> temp_of e (artifact_socket_path d)" "\<not> temp_of e (backup_prefix d @ x)"
  "\<not> temp_of e (pid_temp_prefix d @ x)"
  by (auto simp: starts_with_iff temp_prefix_def artifact_runtime_path_def artifact_pid_path_def
      artifact_socket_path_def backup_prefix_def pid_temp_prefix_def)

lemma not_temp' [simp]: "\<not> temp_of e (runtime_path d)" "\<not> temp_of e (backup_name d g)"
  by (simp_all add: runtime_path_def backup_name_def)

lemma stage_spec:
  "returns (stage env e c s) (\<lambda>r s'. same_outside (temp_of e) s s' \<and> (case r of
     Inl _ \<Rightarrow> True
   | Inr sg \<Rightarrow> fst (sg_path sg) = st_dir s \<and> temp_of e (snd (sg_path sg))
       \<and> lookup s (snd (sg_path sg)) = None
       \<and> lookup s' = (lookup s)(snd (sg_path sg) \<mapsto> Regular c)))"
proof -
  let ?n = "temp_name env e (st_temp_counter s)"
  let ?s = "s\<lparr>st_temp_counter := st_temp_counter s + 1\<rparr>"
  let ?Q = "\<lambda>r t. st_dir t = st_dir ?s \<and> (\<forall>n. \<not> temp_of e n \<longrightarrow> lookup t n = lookup s n) \<and> (case r of
     Inl _ \<Rightarrow> True
   | Inr sg \<Rightarrow> sg_path sg = (st_dir s, ?n) \<and> lookup s ?n = None \<and> lookup t = (lookup s)(?n \<mapsto> Regular c))"
  have wr: "returns (Option.bind (and_do (write_all env ?n c s1) (\<lambda>_ s. io env (\<lambda>s. (Inr (), s)) s))
      (\<lambda>(r, s). case r of
         Inl err \<Rightarrow> Option.bind (remove_file env ?n s) (\<lambda>(_, s). Some (Inl err, s))
       | Inr _ \<Rightarrow> Some (Inr \<lparr>sg_path = (st_dir s, ?n)\<rparr>, s))) ?Q"
    if "st_dir s1 = st_dir s" "lookup s ?n = None" "lookup s1 = (lookup s)(?n \<mapsto> Regular [])" for s1
  proof (rule returns_bind, rule returns_mono)
    show "returns (and_do (write_all env ?n c s1) (\<lambda>_ s. io env (\<lambda>s. (Inr (), s)) s))
      (\<lambda>r t. st_dir t = st_dir s1 \<and> (\<exists>x. lookup t = (lookup s)(?n \<mapsto> x))
         \<and> (is_ok r \<longrightarrow> lookup t = (lookup s)(?n \<mapsto> Regular c)))"
      using that by (intro changes_and_do [OF changes_write_all] returns_io) auto
  next
    fix r t assume t: "st_dir t = st_dir s1 \<and> (\<exists>x. lookup t = (lookup s)(?n \<mapsto> x))
         \<and> (is_ok r \<longrightarrow> lookup t = (lookup s)(?n \<mapsto> Regular c))"
    have ne: "n \<noteq> ?n" if "\<not> temp_of e n" for n using that by auto
    show "returns (case (r, t) of (r, s) \<Rightarrow> case r of
         Inl err \<Rightarrow> Option.bind (remove_file env ?n s) (\<lambda>(_, s). Some (Inl err, s))
       | Inr _ \<Rightarrow> Some (Inr \<lparr>sg_path = (st_dir s, ?n)\<rparr>, s)) ?Q"
    proof (cases r)
      case (Inl err)
      have "returns (remove_file env ?n t) (\<lambda>r' t'. st_dir t' = st_dir s
          \<and> (\<forall>n. \<not> temp_of e n \<longrightarrow> lookup t' n = lookup s n))"
        using changes_remove_file [of t env ?n] t that(1) ne unfolding changes_def
        by (elim returns_mono) (auto split: sum.splits)
      then show ?thesis
        by (auto simp: Inl intro!: returns_bind elim!: returns_mono)
    next
      case (Inr x)
      then show ?thesis using t that ne by auto
    qed
  qed
  have "returns (stage env e c s) ?Q"
    unfolding stage_def Let_def
    apply (rule changes_and_do [OF changes_validate_absent])
     apply (rule returns_mono [OF changes_and_do [OF changes_create_new,
           where R = "\<lambda>r t. (\<forall>n. \<not> temp_of e n \<longrightarrow> lookup t n = lookup s n) \<and> (case r of
     Inl _ \<Rightarrow> True
   | Inr sg \<Rightarrow> sg_path sg = (st_dir s, ?n) \<and> lookup s ?n = None \<and> lookup t = (lookup s)(?n \<mapsto> Regular c))"]])
       apply (rule returns_mono [OF changes_and_do [OF changes_skip,
           where R = "\<lambda>r t. (\<forall>n. \<not> temp_of e n \<longrightarrow> lookup t n = lookup s n) \<and> (case r of
     Inl _ \<Rightarrow> True
   | Inr sg \<Rightarrow> sg_path sg = (st_dir s, ?n) \<and> lookup s ?n = None \<and> lookup t = (lookup s)(?n \<mapsto> Regular c))"]])
         apply (rule returns_mono [OF wr])
            apply auto
    done
  then show ?thesis
    by (rule returns_mono) (auto simp: same_outside_def split: sum.splits)
qed

lemma returns_or_drop:
  assumes "returns m (\<lambda>r t. case r of
      Inr x \<Rightarrow> Q (Inr x) t
    | Inl e \<Rightarrow> \<forall>t'. st_dir t' = st_dir t \<and> (\<forall>k. k \<noteq> snd (sg_path sg) \<longrightarrow> lookup t' k = lookup t k)
         \<longrightarrow> Q (Inl e) t')"
  shows "returns (or_drop env sg m) Q"
proof -
  from assms obtain r t where m: "m = Some (r, t)" and q: "case r of
      Inr x \<Rightarrow> Q (Inr x) t
    | Inl e \<Rightarrow> \<forall>t'. st_dir t' = st_dir t \<and> (\<forall>k. k \<noteq> snd (sg_path sg) \<longrightarrow> lookup t' k = lookup t k)
         \<longrightarrow> Q (Inl e) t'"
    by (rule returnsE)
  have "changes t (remove_file env (snd (sg_path sg)) t)
      (\<lambda>_ f. f = (lookup t)(snd (sg_path sg) := None))"
    by (rule changes_remove_file)
  then obtain r' t' where "remove_file env (snd (sg_path sg)) t = Some (r', t')"
    "st_dir t' = st_dir t" "\<forall>k. k \<noteq> snd (sg_path sg) \<longrightarrow> lookup t' k = lookup t k"
    unfolding changes_def by (elim returnsE) (auto split: sum.splits)
  with m q show ?thesis
    by (cases r) (simp_all add: or_drop_def drop_staged_def)
qed

lemma changes_or_drop:
  assumes "changes s m P"
  shows "returns (or_drop env sg m) (\<lambda>r t. st_dir t = st_dir s \<and> (case r of
     Inr x \<Rightarrow> P x (lookup t)
   | Inl e \<Rightarrow> \<forall>k. k \<noteq> snd (sg_path sg) \<longrightarrow> lookup t k = lookup s k))"
  using assms unfolding changes_def
  by (intro returns_or_drop) (erule returns_mono, auto split: sum.splits)

lemma changes_validate_staged:
  "changes s (validate_staged env sg e s) (\<lambda>_ f. temp_of e (snd (sg_path sg))
     \<and> (\<exists>c. lookup s (snd (sg_path sg)) = Some (Regular c)) \<and> f = lookup s)"
  using changes_validate_existing [of s env "snd (sg_path sg)"]
  by (auto simp: validate_staged_def elim: changes_mono)

lemma commit_replace_spec:
  assumes "temp_of e (snd (sg_path sg))"
  shows "returns (commit_replace env sg e s) (\<lambda>r t. st_dir t = st_dir s
     \<and> (\<forall>k. k \<noteq> runtime_path e \<and> k \<noteq> snd (sg_path sg) \<longrightarrow> lookup t k = lookup s k)
     \<and> lookup t (runtime_path e) =
        (case r of Inr _ \<Rightarrow> lookup s (snd (sg_path sg)) | Inl _ \<Rightarrow> lookup s (runtime_path e)))"
    (is "returns _ ?Q")
proof -
  let ?n = "snd (sg_path sg)"
  have ne: "?n \<noteq> runtime_path e" using assms by auto
  have "changes s (and_do (validate_staged env sg e s) (\<lambda>_ s.
        and_do (validate_existing_regular_target env (runtime_path e) s) (\<lambda>_ s.
        atomic_replace env ?n (runtime_path e) s)))
      (\<lambda>_ f. \<exists>n. lookup s ?n = Some n \<and> f = (lookup s)(?n := None, runtime_path e \<mapsto> n))"
  proof (rule changes_seq [OF changes_validate_staged], intro conjI)
    fix x s1 assume s1: "temp_of e ?n \<and> (\<exists>c. lookup s ?n = Some (Regular c)) \<and> lookup s1 = lookup s"
    then show "lookup s1 = lookup s" by simp
    show "changes s1 (and_do (validate_existing_regular_target env (runtime_path e) s1) (\<lambda>_ s.
        atomic_replace env ?n (runtime_path e) s))
      (\<lambda>_ f. \<exists>n. lookup s ?n = Some n \<and> f = (lookup s)(?n := None, runtime_path e \<mapsto> n))"
    proof (rule changes_seq [OF changes_validate_existing], intro conjI)
      fix y s2 assume s2: "(\<exists>c. lookup s1 (runtime_path e) = Some (Regular c)) \<and> lookup s2 = lookup s1"
      then show "lookup s2 = lookup s1" by simp
      show "changes s2 (atomic_replace env ?n (runtime_path e) s2)
          (\<lambda>_ f. \<exists>n. lookup s ?n = Some n \<and> f = (lookup s)(?n := None, runtime_path e \<mapsto> n))"
        using changes_atomic_replace [of s2 env ?n "runtime_path e"] s1 s2 by simp
    qed
  qed
  note body = changes_or_drop [OF this, of env sg]
  show ?thesis
    unfolding commit_replace_def
  proof (rule returns_and_doI [OF body])
    fix u t assume "st_dir t = st_dir s \<and> (case Inr u of
        Inr x \<Rightarrow> \<exists>n. lookup s ?n = Some n \<and> lookup t = (lookup s)(?n := None, runtime_path e \<mapsto> n)
      | Inl e \<Rightarrow> \<forall>k. k \<noteq> ?n \<longrightarrow> lookup t k = lookup s k)"
    then have t: "st_dir t = st_dir s" "lookup t (runtime_path e) = lookup s ?n"
      "\<forall>k. k \<noteq> runtime_path e \<and> k \<noteq> ?n \<longrightarrow> lookup t k = lookup s k"
      by auto
    show "returns (Option.bind (sync_dir env t) (\<lambda>(parent_sync, s).
        Some (Inr (installed_commit (st_dir s, runtime_path e) parent_sync), s))) ?Q"
      by (rule returns_bindI [OF changes_sync_dir [unfolded changes_def]])
         (use t in \<open>auto split: sum.splits\<close>)
  qed (use ne in auto)
qed

text \<open>Names an operation on an epoch may touch: its runtime file and its temporaries.\<close>

definition epoch_files :: "epoch \<Rightarrow> string \<Rightarrow> bool" where
  "epoch_files e n \<longleftrightarrow> n = runtime_path e \<or> temp_of e n"

lemma replace_spec:
  "returns (replace env e c s) (\<lambda>r t. same_outside (epoch_files e) s t
     \<and> lookup t (runtime_path e) =
        (case r of Inr _ \<Rightarrow> Some (Regular c) | Inl _ \<Rightarrow> lookup s (runtime_path e)))"
  unfolding replace_def
proof (rule returns_and_doI [OF stage_spec])
  fix sg :: staged and t
  assume "same_outside (temp_of e) s t \<and> (case Inr sg of Inl _ \<Rightarrow> True
     | Inr sg \<Rightarrow> fst (sg_path sg) = st_dir s \<and> temp_of e (snd (sg_path sg))
       \<and> lookup s (snd (sg_path sg)) = None
       \<and> lookup t = (lookup s)(snd (sg_path sg) \<mapsto> Regular c))"
  then have sg: "temp_of e (snd (sg_path sg))" "lookup t = (lookup s)(snd (sg_path sg) \<mapsto> Regular c)"
    "st_dir t = st_dir s"
    by (auto simp: same_outside_def)
  moreover from sg have "runtime_path e \<noteq> snd (sg_path sg)" by (metis not_temp'(1))
  ultimately show "returns (commit_replace env sg e t) (\<lambda>r t. same_outside (epoch_files e) s t
     \<and> lookup t (runtime_path e) =
        (case r of Inr _ \<Rightarrow> Some (Regular c) | Inl _ \<Rightarrow> lookup s (runtime_path e)))"
    by (intro returns_mono [OF commit_replace_spec [OF sg(1)]])
       (auto simp: same_outside_def epoch_files_def split: sum.splits)
qed (auto simp: same_outside_def epoch_files_def)

lemma move_new_spec:
  "returns (atomic_move_new env a b s) (\<lambda>r t. st_dir t = st_dir s
     \<and> (case r of
         Inr _ \<Rightarrow> a \<noteq> b \<and> (\<exists>n. lookup s a = Some n \<and> lookup t = (lookup s)(b \<mapsto> n, a := None))
       | Inl _ \<Rightarrow> (\<forall>k. k \<noteq> b \<longrightarrow> lookup t k = lookup s k)
           \<and> (lookup t b = lookup s b \<or> lookup s b = None \<and> lookup t b = lookup s a)))"
  unfolding atomic_move_new_def
proof (rule returns_and_doI [OF changes_hard_link [unfolded changes_def]])
  fix x t
  assume "st_dir t = st_dir s \<and> (case Inr x of Inl e \<Rightarrow> lookup t = lookup s
     | Inr x \<Rightarrow> lookup s b = None \<and> (\<exists>n. lookup s a = Some n \<and> lookup t = (lookup s)(b \<mapsto> n)))"
  then obtain n where "st_dir t = st_dir s" "lookup s b = None" "lookup s a = Some n"
    "lookup t = (lookup s)(b \<mapsto> n)" by auto
  then show "returns (remove_file env a t) (\<lambda>r t. st_dir t = st_dir s
     \<and> (case r of
         Inr _ \<Rightarrow> a \<noteq> b \<and> (\<exists>n. lookup s a = Some n \<and> lookup t = (lookup s)(b \<mapsto> n, a := None))
       | Inl _ \<Rightarrow> (\<forall>k. k \<noteq> b \<longrightarrow> lookup t k = lookup s k)
           \<and> (lookup t b = lookup s b \<or> lookup s b = None \<and> lookup t b = lookup s a)))"
    by (intro returns_mono [OF changes_remove_file [unfolded changes_def]]) (auto split: sum.splits)
qed auto

lemma backup_spec:
  "returns (backup env e g s) (\<lambda>r t.
     same_outside (\<lambda>n. temp_of e n \<or> n = backup_name e g) s t \<and> (case r of
       Inr b \<Rightarrow> bk_epoch b = e \<and> snd (bk_path b) = backup_name e g
         \<and> (\<exists>c. lookup s (runtime_path e) = Some (Regular c)
              \<and> lookup t (backup_name e g) = Some (Regular c))
     | Inl _ \<Rightarrow> True))" (is "returns _ ?Q")
proof -
  let ?b = "backup_name e g"
  have move: "returns (and_do (or_drop env sg
       (and_do (validate_absent_regular_target env ?b t) (\<lambda>_ s.
        atomic_move_new env (snd (sg_path sg)) ?b s))) (\<lambda>_ s.
     and_do (sync_dir env s) (\<lambda>_ s.
     Some (Inr \<lparr>bk_path = (st_dir s, ?b), bk_epoch = e\<rparr>, s)))) ?Q"
    if sg: "temp_of e (snd (sg_path sg))" "lookup t = (lookup s)(snd (sg_path sg) \<mapsto> Regular c)"
      "st_dir t = st_dir s" "lookup s (runtime_path e) = Some (Regular c)" for sg t c
  proof (rule returns_and_doI)
    have ne: "k \<noteq> snd (sg_path sg)" if "\<not> temp_of e k" for k using that sg(1) by auto
    show "returns (or_drop env sg (and_do (validate_absent_regular_target env ?b t) (\<lambda>_ s.
        atomic_move_new env (snd (sg_path sg)) ?b s)))
      (\<lambda>r t. st_dir t = st_dir s \<and> (\<forall>k. \<not> temp_of e k \<and> k \<noteq> ?b \<longrightarrow> lookup t k = lookup s k)
         \<and> (is_ok r \<longrightarrow> lookup t ?b = Some (Regular c)))"
      by (intro returns_or_drop returns_and_doI [OF changes_validate_absent [unfolded changes_def]]
            returns_mono [OF move_new_spec]) (use sg in \<open>auto simp: ne split: sum.splits\<close>)
  qed (auto simp: same_outside_def sg intro!: returns_and_doI [OF changes_sync_dir [unfolded changes_def]])
  show ?thesis
    unfolding backup_def
    by (intro returns_and_doI [OF changes_validate_existing [unfolded changes_def]]
          returns_and_doI [OF changes_read_file [unfolded changes_def]] returns_and_doI [OF stage_spec] move)
       (auto simp: same_outside_def)
qed

lemma restore_spec:
  assumes "\<And>c. lookup s (snd (bk_path b)) = Some (Regular c) \<Longrightarrow> P (Some (Regular c))"
  shows "returns (restore env b s) (\<lambda>r t. same_outside (epoch_files (bk_epoch b)) s t
     \<and> (case r of
          Inr _ \<Rightarrow> P (lookup t (runtime_path (bk_epoch b)))
        | Inl _ \<Rightarrow> lookup t (runtime_path (bk_epoch b)) = lookup s (runtime_path (bk_epoch b))))"
  unfolding restore_def
  by (intro returns_and_doI [OF changes_validate_existing [unfolded changes_def]]
        returns_and_doI [OF changes_read_file [unfolded changes_def]] returns_mono [OF replace_spec])
     (use assms in \<open>auto simp: same_outside_def split: sum.splits\<close>)

text \<open>C13. Replacing the stable config of an epoch is atomic: whatever system calls fail, the file
  holds the new bytes when the operation succeeds and exactly what it held before when it reports an
  error; no other file than the temporaries of that epoch is touched.\<close>

theorem replace_atomic:
  "returns (replace env e new s) (\<lambda>r t. same_outside (epoch_files e) s t
     \<and> lookup t (runtime_path e) =
        (case r of Inr _ \<Rightarrow> Some (Regular new) | Inl _ \<Rightarrow> lookup s (runtime_path e)))"
  by (rule replace_spec)

lemma backup_not_runtime [simp]:
  "backup_name e g \<noteq> runtime_path e" "runtime_path e \<noteq> backup_name e g"
  by (auto simp: backup_name_def backup_prefix_def runtime_path_def artifact_runtime_path_def)

lemma backup_name_not_epoch_file: "\<not> epoch_files e (backup_name e g)"
  by (simp add: epoch_files_def)

text \<open>Backup, replace, restore: when all three succeed the stable config holds what it held
  before the backup, and when one of them fails it holds that or the replacement.\<close>

theorem backup_restore_roundtrip:
  "returns (and_do (backup env e g s) (\<lambda>b s. and_do (replace env e new s) (\<lambda>_ s. restore env b s)))
     (\<lambda>r t. (case r of
          Inr _ \<Rightarrow> lookup t (runtime_path e) = lookup s (runtime_path e)
        | Inl _ \<Rightarrow> lookup t (runtime_path e) \<in> {lookup s (runtime_path e), Some (Regular new)}))"
proof (rule returns_and_doI [OF backup_spec])
  fix b :: config_backup and t
  assume "same_outside (\<lambda>n. temp_of e n \<or> n = backup_name e g) s t \<and> (case Inr b of
       Inr b \<Rightarrow> bk_epoch b = e \<and> snd (bk_path b) = backup_name e g
         \<and> (\<exists>c. lookup s (runtime_path e) = Some (Regular c)
              \<and> lookup t (backup_name e g) = Some (Regular c))
     | Inl _ \<Rightarrow> True)"
  then obtain c where b: "bk_epoch b = e" "snd (bk_path b) = backup_name e g"
    and c: "lookup s (runtime_path e) = Some (Regular c)" "lookup t (backup_name e g) = Some (Regular c)"
    and rt: "lookup t (runtime_path e) = lookup s (runtime_path e)"
    using backup_name_not_epoch_file [of e g] by (auto simp: same_outside_def epoch_files_def)
  show "returns (and_do (replace env e new t) (\<lambda>_ s. restore env b s)) (\<lambda>r t. (case r of
          Inr _ \<Rightarrow> lookup t (runtime_path e) = lookup s (runtime_path e)
        | Inl _ \<Rightarrow> lookup t (runtime_path e) \<in> {lookup s (runtime_path e), Some (Regular new)}))"
  proof (rule returns_and_doI [OF replace_spec])
    fix x u assume "same_outside (epoch_files e) t u \<and> lookup u (runtime_path e) =
        (case Inr x of Inr _ \<Rightarrow> Some (Regular new) | Inl _ \<Rightarrow> lookup t (runtime_path e))"
    then have "lookup u (snd (bk_path b)) = Some (Regular c)" "lookup u (runtime_path e) = Some (Regular new)"
      using c b backup_name_not_epoch_file [of e g] by (auto simp: same_outside_def)
    then show "returns (restore env b u) (\<lambda>r t. (case r of
          Inr _ \<Rightarrow> lookup t (runtime_path e) = lookup s (runtime_path e)
        | Inl _ \<Rightarrow> lookup t (runtime_path e) \<in> {lookup s (runtime_path e), Some (Regular new)}))"
      using b c by (intro returns_mono [OF restore_spec [where P = "\<lambda>n. n = lookup s (runtime_path e)"]])
         (auto split: sum.splits)
  qed (use rt in auto)
qed (simp add: same_outside_def)

section \<open>Cleaning up one epoch\<close>

definition owned :: "u64 \<Rightarrow> string \<Rightarrow> bool" where
  "owned d n \<longleftrightarrow> n = artifact_runtime_path d \<or> n = artifact_pid_path d \<or> n = artifact_socket_path d
     \<or> swept d n"

definition no_artifacts :: "u64 \<Rightarrow> store \<Rightarrow> bool" where
  "no_artifacts d s \<longleftrightarrow> (\<forall>n. owned d n \<longrightarrow> lookup s n = None)"

lemma sweep_spec:
  "returns (sweep env d names s) (\<lambda>r t. st_dir t = st_dir s
     \<and> (\<forall>k. lookup t k = lookup s k \<or> swept d k \<and> lookup t k = None)
     \<and> (is_ok r \<longrightarrow> (\<forall>k \<in> set names. swept d k \<longrightarrow> lookup t k = None)))"
proof (induction names arbitrary: s)
  case Nil
  show ?case using changes_skip [of s env] unfolding changes_def
    by (auto elim!: returns_mono split: sum.splits)
next
  case (Cons n names)
  show ?case
    unfolding sweep.simps
  proof (rule returns_and_doI [OF changes_skip [unfolded changes_def]])
    fix x t assume "st_dir t = st_dir s \<and> (case Inr x of Inl e \<Rightarrow> lookup t = lookup s
        | Inr x \<Rightarrow> lookup t = lookup s)"
    then have t: "st_dir t = st_dir s" "lookup t = lookup s" by simp_all
    show "returns (if swept d n then and_do (remove_regular_file env n t) (\<lambda>_ s. sweep env d names s)
        else sweep env d names t) (\<lambda>r t. st_dir t = st_dir s
     \<and> (\<forall>k. lookup t k = lookup s k \<or> swept d k \<and> lookup t k = None)
     \<and> (is_ok r \<longrightarrow> (\<forall>k \<in> set (n # names). swept d k \<longrightarrow> lookup t k = None)))"
    proof (cases "swept d n")
      case True
      have "returns (and_do (remove_regular_file env n t) (\<lambda>_ s. sweep env d names s))
          (\<lambda>r t. st_dir t = st_dir s \<and> (\<forall>k. lookup t k = lookup s k \<or> swept d k \<and> lookup t k = None)
             \<and> (is_ok r \<longrightarrow> (\<forall>k \<in> set (n # names). swept d k \<longrightarrow> lookup t k = None)))"
      proof (rule returns_and_doI [OF changes_remove_regular_file [unfolded changes_def]])
        fix y u assume "st_dir u = st_dir t \<and> (case Inr y of Inl e \<Rightarrow> lookup u = lookup t
            | Inr y \<Rightarrow> lookup u = (lookup t)(n := None))"
        then have u: "st_dir u = st_dir s" "lookup u = (lookup s)(n := None)" using t by simp_all
        show "returns (sweep env d names u) (\<lambda>r t. st_dir t = st_dir s
            \<and> (\<forall>k. lookup t k = lookup s k \<or> swept d k \<and> lookup t k = None)
            \<and> (is_ok r \<longrightarrow> (\<forall>k \<in> set (n # names). swept d k \<longrightarrow> lookup t k = None)))"
          by (rule returns_mono [OF Cons.IH]) (use True u in \<open>auto split: if_splits\<close>)
      qed (use t in auto)
      with True show ?thesis by simp
    next
      case False
      then show ?thesis using t by (auto elim!: returns_mono intro!: returns_mono [OF Cons.IH])
    qed
  qed auto
qed

lemma returns_seq_frame:
  assumes "changes s m (\<lambda>_ f. f = (lookup s)(n := None))"
    and "\<And>t. st_dir t = st_dir s \<Longrightarrow> lookup t = (lookup s)(n := None) \<Longrightarrow> returns (f () t) Q"
    and "\<And>e t. st_dir t = st_dir s \<Longrightarrow> lookup t = lookup s \<Longrightarrow> Q (Inl e) t"
  shows "returns (and_do m f) Q"
  using assms by (auto simp: changes_def intro!: returns_and_doI)

lemma cleanup_artifacts_spec:
  "returns (cleanup_artifacts env d s) (\<lambda>r t. same_outside (owned d) s t
     \<and> (case r of Inr _ \<Rightarrow> no_artifacts d t | Inl _ \<Rightarrow> True))" (is "returns _ ?Q")
proof -
  have tail: "returns (and_do (read_dir env t) (\<lambda>names s.
      and_do (sweep env d names s) (\<lambda>_ s. sync_dir env s))) ?Q"
    if t: "st_dir t = st_dir s" "lookup t = (lookup s)(artifact_runtime_path d := None,
      artifact_pid_path d := None, artifact_socket_path d := None)" for t
  proof (rule returns_and_doI [OF changes_read_dir [unfolded changes_def]])
    fix names u assume "st_dir u = st_dir t \<and> (case Inr names of Inl e \<Rightarrow> lookup u = lookup t
        | Inr names \<Rightarrow> lookup u = lookup t \<and> set names = {n. lookup t n \<noteq> None})"
    then have u: "st_dir u = st_dir s" "lookup u = lookup t" "set names = {n. lookup t n \<noteq> None}"
      using t by simp_all
    show "returns (and_do (sweep env d names u) (\<lambda>_ s. sync_dir env s)) ?Q"
    proof (rule returns_and_doI [OF sweep_spec])
      fix y v assume v: "st_dir v = st_dir u
          \<and> (\<forall>k. lookup v k = lookup u k \<or> swept d k \<and> lookup v k = None)
          \<and> (is_ok (Inr y :: error + unit) \<longrightarrow> (\<forall>k \<in> set names. swept d k \<longrightarrow> lookup v k = None))"
      have vk: "lookup v k = lookup t k \<or> swept d k \<and> lookup v k = None" for k
        using v u(2) by metis
      have "lookup v k = lookup s k" if "\<not> owned d k" for k
        using vk [of k] that by (auto simp: owned_def t(2))
      then have "same_outside (owned d) s v" using v u(1) by (simp add: same_outside_def)
      moreover have "lookup v k = None" if "owned d k" for k
      proof (cases "lookup t k = None")
        case False
        then have "swept d k" "k \<in> set names" using that u(3) by (auto simp: owned_def t(2) split: if_splits)
        then show ?thesis using v by simp
      qed (use vk [of k] in auto)
      then have "no_artifacts d v" by (simp add: no_artifacts_def)
      ultimately have "same_outside (owned d) s v" "no_artifacts d v" by simp_all
      then show "returns (sync_dir env v) ?Q"
        by (intro returns_mono [OF changes_sync_dir [unfolded changes_def]])
           (auto simp: same_outside_def no_artifacts_def split: sum.splits)
    next
      fix e v assume v: "st_dir v = st_dir u
          \<and> (\<forall>k. lookup v k = lookup u k \<or> swept d k \<and> lookup v k = None)
          \<and> (is_ok (Inl e :: error + unit) \<longrightarrow> (\<forall>k \<in> set names. swept d k \<longrightarrow> lookup v k = None))"
      have "lookup v k = lookup s k" if "\<not> owned d k" for k
        using conjunct1 [OF conjunct2 [OF v], THEN spec, of k] that u(2) by (auto simp: owned_def t(2))
      then show "?Q (Inl e) v" using v u(1) by (simp add: same_outside_def)
    qed
  qed (use t in \<open>auto simp: same_outside_def owned_def\<close>)
  show ?thesis
    unfolding cleanup_artifacts_def
    by (intro returns_seq_frame [OF changes_remove_regular_file]
          returns_seq_frame [OF changes_remove_socket_artifact] tail)
       (auto simp: same_outside_def owned_def)
qed


section \<open>Recognizing artifacts\<close>

lemma digits_no_char: "\<not> is_digit c \<Longrightarrow> c \<notin> set (show_nat n)"
  using show_nat_digits [of n] by (auto simp: list_all_iff)

lemma split_once_first:
  "c \<notin> set a \<Longrightarrow> split_once (c # p) (a @ (c # p) @ b) = Some (a, b)"
  by (induction a) (auto simp: starts_with_def)

lemma split_digits [simp]: "split_once (CHR ''.'' # p) (show_nat n @ CHR ''.'' # p @ b) = Some (show_nat n, b)"
  using split_once_first [of "CHR ''.''" "show_nat n" p b] digits_no_char [of "CHR ''.''" n]
  by (simp add: is_digit_def)

lemma strip_prefix_Cons [simp]:
  "strip_prefix [] s = Some s" "strip_prefix (c # p) [] = None"
  "strip_prefix (c # p) (d # s) = (if c = d then strip_prefix p s else None)"
  by (auto simp: strip_prefix_def)

lemma strip_suffix_literal:
  "length p \<le> length q \<Longrightarrow> strip_suffix p (x @ q) = map_option (\<lambda>t. x @ t) (strip_suffix p q)"
  by (auto simp: strip_suffix_def strip_prefix_def)

lemma strip_suffix_digit:
  assumes "p \<noteq> []" "\<not> is_digit (last p)"
  shows "strip_suffix p (x @ show_nat n) = None"
proof (rule ccontr)
  assume "strip_suffix p (x @ show_nat n) \<noteq> None"
  then obtain t where "x @ show_nat n = t @ p" by (auto simp: strip_suffix_Some)
  then have "last p = last (show_nat n)" using assms(1) by (metis last_appendR show_nat_nonempty)
  then show False
    using assms(2) show_nat_digits [of n] by (metis last_in_set list_all_iff show_nat_nonempty)
qed

lemma artifact_epoch_names:
  "artifact_epoch (artifact_runtime_path d) = Some d"
  "artifact_epoch (artifact_pid_path d) = Some d"
  "artifact_epoch (artifact_socket_path d) = Some d"
  by (simp_all add: artifact_epoch_def artifact_runtime_path_def artifact_pid_path_def or_else_def
      artifact_socket_path_def strip_suffix_literal) (simp_all add: strip_suffix_def)

lemma artifact_epoch_generated:
  "artifact_epoch (backup_prefix d @ show_nat n) = Some d"
  "artifact_epoch (temp_prefix d @ x @ show_nat n) = Some d"
  "artifact_epoch (pid_temp_prefix d @ x @ show_nat n) = Some d"
proof -
  have s: "strip_suffix p (show_nat k @ q @ show_nat n) = None"
    if "p \<noteq> []" "\<not> is_digit (last p)" for p q k
    using strip_suffix_digit [OF that, of "show_nat k @ q" n] by simp
  show "artifact_epoch (backup_prefix d @ show_nat n) = Some d"
    using s [of "''.yaml''" "unat d" "''.yaml.backup-''"] split_digits [of "''yaml.backup-''" "unat d" "show_nat n"]
    by (simp add: artifact_epoch_def backup_prefix_def or_else_def is_digit_def)
  show "artifact_epoch (temp_prefix d @ x @ show_nat n) = Some d"
    using split_digits [of "''yaml.tmp-''" "unat d" "x @ show_nat n"]
    by (simp add: artifact_epoch_def temp_prefix_def or_else_def)
  show "artifact_epoch (pid_temp_prefix d @ x @ show_nat n) = Some d"
    using s [of "''.pid''" "unat d" "''.pid.tmp-'' @ x"] s [of "''.sock''" "unat d" "''.pid.tmp-'' @ x"]
      split_digits [of "''pid.tmp-''" "unat d" "x @ show_nat n"]
    by (simp add: artifact_epoch_def pid_temp_prefix_def or_else_def is_digit_def)
qed

lemma name_digits:
  assumes "list_all (\<lambda>c. \<not> is_digit c) p"
  shows "takeWhile is_digit (dropWhile (\<lambda>c. \<not> is_digit c) (p @ show_nat k @ CHR ''.'' # q)) = show_nat k"
proof -
  have "dropWhile (\<lambda>c. \<not> is_digit c) (p @ show_nat k @ CHR ''.'' # q) = show_nat k @ CHR ''.'' # q"
    using assms show_nat_digits [of k]
    by (cases "show_nat k") (auto simp: list_all_iff dropWhile_append2)
  moreover have "\<not> is_digit CHR ''.''" by (simp add: is_digit_def)
  ultimately show ?thesis using show_nat_digits [of k] by (simp add: list_all_iff takeWhile_append2)
qed

lemma owned_digits:
  "owned d n \<Longrightarrow> takeWhile is_digit (dropWhile (\<lambda>c. \<not> is_digit c) n) = show_nat (unat d)"
proof -
  have p: "list_all (\<lambda>c. \<not> is_digit c) ''config-''" "list_all (\<lambda>c. \<not> is_digit c) ''core-''"
    "list_all (\<lambda>c. \<not> is_digit c) ''.config-''"
    by (simp_all add: is_digit_def)
  note name_digits [OF p(1)] name_digits [OF p(2)] name_digits [OF p(3)]
  note d = this [of "unat d"]
  assume "owned d n"
  then consider "n = artifact_runtime_path d" | "n = artifact_pid_path d" | "n = artifact_socket_path d"
    | t where "n = backup_prefix d @ t" | t where "n = temp_prefix d @ t"
    | t where "n = pid_temp_prefix d @ t"
    by (auto simp: owned_def swept_def starts_with_iff)
  then show ?thesis
  proof cases
    case 1 then show ?thesis using d(1) [of "''yaml''"] by (simp add: artifact_runtime_path_def)
  next
    case 2 then show ?thesis using d(2) [of "''pid''"] by (simp add: artifact_pid_path_def)
  next
    case 3 then show ?thesis using d(2) [of "''sock''"] by (simp add: artifact_socket_path_def)
  next
    case 4 then show ?thesis using d(1) [of "''yaml.backup-'' @ t"] by (simp add: backup_prefix_def)
  next
    case 5 then show ?thesis using d(3) [of "''yaml.tmp-'' @ t"] by (simp add: temp_prefix_def)
  next
    case 6 then show ?thesis using d(2) [of "''pid.tmp-'' @ t"] by (simp add: pid_temp_prefix_def)
  qed
qed

lemma owned_disjoint: "owned d n \<Longrightarrow> owned e n \<Longrightarrow> d = e"
  using owned_digits [of d n] owned_digits [of e n] by (simp add: word_unat_eq_iff)

lemma strict_sorted_remdups_adj: "sorted xs \<Longrightarrow> sorted_wrt (<) (remdups_adj xs)"
proof (induction xs rule: remdups_adj.induct)
  case (3 x y xs)
  then show ?case by (cases "x = y") (auto simp: order_less_le)
qed auto

lemma scan_names_spec:
  "returns (scan_names env names acc s) (\<lambda>r t. lookup t = lookup s \<and> st_dir t = st_dir s \<and> (case r of
     Inl _ \<Rightarrow> True
   | Inr ds \<Rightarrow> set ds = set acc \<union> {d. \<exists>n \<in> set names. artifact_epoch n = Some d}))"
proof (induction names arbitrary: acc s)
  case Nil
  show ?case unfolding scan_names.simps
    by (rule returns_and_doI [OF changes_skip [unfolded changes_def]]) auto
next
  case (Cons n names)
  show ?case unfolding scan_names.simps
    by (rule returns_and_doI [OF changes_skip [unfolded changes_def]], simp,
        rule returns_mono [OF Cons.IH]) (auto split: option.splits sum.splits)
qed

lemma artifact_epochs_spec:
  "returns (artifact_epochs env s) (\<lambda>r t. lookup t = lookup s \<and> (case r of
   Inl _ \<Rightarrow> True
   | Inr ds \<Rightarrow> sorted_wrt (<) ds
     \<and> set ds = {d. \<exists>n. lookup s n \<noteq> None \<and> artifact_epoch n = Some d}))"
  unfolding artifact_epochs_def
  by (rule returns_and_doI [OF changes_read_dir [unfolded changes_def]], simp,
      rule returns_and_doI [OF scan_names_spec]) (auto simp: strict_sorted_remdups_adj)

text \<open>The scan of the runtime directory finds exactly the epochs some file is named for, in
  increasing order and once each; every file the store writes for an epoch is found under it, and
  the files cleaned up for two epochs are never the same.\<close>

theorem artifact_epochs_complete:
  "returns (artifact_epochs env s) (\<lambda>r t. lookup t = lookup s \<and> (case r of
     Inl _ \<Rightarrow> True
   | Inr ds \<Rightarrow> sorted_wrt (<) ds
       \<and> set ds = {d. \<exists>n. lookup s n \<noteq> None \<and> artifact_epoch n = Some d}))
   \<and> list_all (\<lambda>n. artifact_epoch n = Some (epoch_get e) \<and> owned (epoch_get e) n)
        [runtime_path e, pid_path e, socket_path e, backup_name e g, temp_name env e c]
   \<and> ({n. owned d1 n} \<inter> {n. owned d2 n} = {} \<longleftrightarrow> d1 \<noteq> d2)"
proof (intro conjI)
  show "returns (artifact_epochs env s) (\<lambda>r t. lookup t = lookup s \<and> (case r of
     Inl _ \<Rightarrow> True
   | Inr ds \<Rightarrow> sorted_wrt (<) ds
       \<and> set ds = {d. \<exists>n. lookup s n \<noteq> None \<and> artifact_epoch n = Some d}))"
    by (rule artifact_epochs_spec)
  show "{n. owned d1 n} \<inter> {n. owned d2 n} = {} \<longleftrightarrow> d1 \<noteq> d2"
    using owned_disjoint [of d1 _ d2] by (auto simp: owned_def)
next
  have "artifact_epoch (temp_name env e c) = Some (epoch_get e)"
    using artifact_epoch_generated(2) [of "epoch_get e" "show_nat (unat (se_process_id env)) @ ''-''"]
    by (simp add: temp_name_def)
  moreover have "owned (epoch_get e) (temp_name env e c)" by (simp add: owned_def swept_def)
  ultimately show "list_all (\<lambda>n. artifact_epoch n = Some (epoch_get e) \<and> owned (epoch_get e) n)
      [runtime_path e, pid_path e, socket_path e, backup_name e g, temp_name env e c]"
    by (simp add: artifact_epoch_names artifact_epoch_generated runtime_path_def pid_path_def
        socket_path_def backup_name_def owned_def swept_def)
qed

end
