(* ===== verification/Manager_State.thy ===== *)
theory Manager_State
  imports Native_Paths Runtime_Store
begin

text \<open>
  The state of the core manager (\<open>manager/mod.rs\<close>), what it publishes (\<open>manager/publish.rs\<close>) and its
  quarantine (\<open>manager/quarantine.rs\<close>).

  Everything behind the manager is the record \<open>env\<close>: the runtime backend and its instances, the
  host's DNS controller, the core's HTTP API, the clock, file reads outside the runtime directory
  and the I/O faults inside it. Each call of it gets a number, so two calls with the same arguments
  may answer differently; statements quantify over \<open>env\<close>, so they hold for every behaviour of it.

  An operation maps a state to its result and the state it leaves, in \<open>option\<close>: \<open>None\<close> is a panic.
  The control lock makes operations atomic, so between two operations only the forwarder of the
  current epoch runs (\<open>publish_epoch_status\<close>). The field \<open>ms_live\<close> is not in the code: it holds the
  runtimes whose death the backend has not proven, and is what the safety of the manager is about.
\<close>

section \<open>Plans, instances, records\<close>

record dns_intent =
  di_servers :: "string list"

datatype dns_override_state = Applied | RestorePending

record dns_record =
  dr_interface :: string
  dr_previous :: "string list"
  dr_applied :: "string list"
  dr_runtime_epoch :: u64
  dr_owner_generation :: "u64 option"
  dr_state :: dns_override_state

record epoch_plan =
  pl_source_spec :: instance_spec
  pl_effective_spec :: instance_spec
  pl_controller :: resolved_controller
  pl_revision :: config_revision
  pl_capabilities :: "feature list"
  pl_runtime_features :: "runtime_feature list"
  pl_source_document :: mapping
  pl_effective_document :: mapping

abbreviation plan_epoch :: "epoch_plan \<Rightarrow> epoch" where
  "plan_epoch p \<equiv> cr_epoch (pl_revision p)"

record runtime_instance =
  in_handle :: nat
  in_epoch :: epoch
  in_controller :: resolved_controller

record active =
  ac_instance :: runtime_instance
  ac_plan :: epoch_plan

record quarantined_epoch =
  qe_epoch :: epoch
  qe_reason :: string
  qe_death_proven :: bool

record effective_config_snapshot =
  ec_instance_id :: nat
  ec_revision :: config_revision
  ec_config :: mapping

definition effective_config_snapshot :: "epoch_plan \<Rightarrow> nat \<Rightarrow> effective_config_snapshot" where
  "effective_config_snapshot plan instance_id = \<lparr>ec_instance_id = instance_id,
     ec_revision = pl_revision plan, ec_config = pl_effective_document plan\<rparr>"

definition classification_view :: "epoch_plan \<Rightarrow> config_classification_view" where
  "classification_view plan = \<lparr>cv_source = pl_source_document plan,
     cv_effective = pl_effective_document plan, cv_spec = pl_source_spec plan\<rparr>"

datatype reap_outcome = AlreadyExited | Killed | NotFound

section \<open>The environment\<close>

record env =
  ev_options :: manager_options
  ev_ext :: config_ext
  ev_store :: store_env
  ev_now :: "nat \<Rightarrow> int"
  ev_launch :: "nat \<Rightarrow> epoch_plan \<Rightarrow> error + unit"
  ev_wait_ready :: "nat \<Rightarrow> runtime_instance \<Rightarrow> error + unit"
  ev_stop :: "nat \<Rightarrow> runtime_instance \<Rightarrow> error + unit"
  ev_state :: "nat \<Rightarrow> runtime_instance \<Rightarrow> instance_status"
  ev_pid :: "nat \<Rightarrow> runtime_instance \<Rightarrow> u32 option"
  ev_probe_now :: "nat \<Rightarrow> runtime_instance \<Rightarrow> probe_result"
  ev_check_config :: "nat \<Rightarrow> instance_spec \<Rightarrow> error + unit"
  ev_read :: "nat \<Rightarrow> string \<Rightarrow> error + bytes"
  ev_binary_exists :: "nat \<Rightarrow> string \<Rightarrow> bool"
  ev_modified :: "nat \<Rightarrow> string \<Rightarrow> error + nat"
  ev_probe_version :: "nat \<Rightarrow> string \<Rightarrow> error + string"
  ev_semver :: "string \<Rightarrow> version option"
  ev_local_ipc_available :: bool
  ev_native_dir :: "string option"
  ev_dns :: bool
  ev_dns_desired :: "mapping \<Rightarrow> dns_intent option"
  ev_dns_apply :: "nat \<Rightarrow> dns_intent \<Rightarrow> epoch \<Rightarrow> (string + dns_record) option"
  ev_dns_restore :: "nat \<Rightarrow> dns_record \<Rightarrow> (string + unit) option"
  ev_dns_timeout_text :: string
  ev_record_bytes :: "dns_record \<Rightarrow> error + bytes"
  ev_record_parse :: "bytes \<Rightarrow> error + dns_record"
  ev_reap :: "nat \<Rightarrow> string \<Rightarrow> error + reap_outcome"
  ev_control_client :: "nat \<Rightarrow> resolved_controller \<Rightarrow> error + unit"
  ev_patch_config :: "nat \<Rightarrow> runtime_instance \<Rightarrow> config_patch \<Rightarrow> error + unit"
  ev_configs :: "nat \<Rightarrow> runtime_instance \<Rightarrow> error + yaml_value"
  ev_update_config :: "nat \<Rightarrow> runtime_instance \<Rightarrow> string \<Rightarrow> error + unit"
  ev_reconcile_elapsed :: "nat \<Rightarrow> bool"
  ev_controller_node :: "nat \<Rightarrow> string \<Rightarrow> error + node option"
  ev_controller_remove :: "nat \<Rightarrow> string \<Rightarrow> error + unit"

record mgr =
  ms_epochs_last :: u64
  ms_current :: "active option"
  ms_last_spec :: "instance_spec option"
  ms_quarantine :: "quarantined_epoch list"
  ms_dns_record :: "dns_record option"
  ms_status :: core_status
  ms_config_commit :: "effective_config_snapshot option"
  ms_store :: store
  ms_version_cache :: version_cache
  ms_tick :: nat
  ms_live :: "runtime_instance list"

type_synonym 'a result = "((error + 'a) \<times> mgr) option"

definition ok :: "'a \<Rightarrow> mgr \<Rightarrow> 'a result" where
  "ok x s = Some (Inr x, s)"

definition fail :: "error \<Rightarrow> mgr \<Rightarrow> 'a result" where
  "fail e s = Some (Inl e, s)"

definition tick :: "mgr \<Rightarrow> mgr" where
  "tick s = s\<lparr>ms_tick := Suc (ms_tick s)\<rparr>"

text \<open>One question to the environment, with an answer or with a result.\<close>

definition ask :: "(nat \<Rightarrow> 'a) \<Rightarrow> mgr \<Rightarrow> 'a result" where
  "ask f s = ok (f (ms_tick s)) (tick s)"

definition call :: "(nat \<Rightarrow> error + 'a) \<Rightarrow> mgr \<Rightarrow> 'a result" where
  "call f s = Some (f (ms_tick s), tick s)"

text \<open>\<open>let _ = op\<close> and \<open>if let Err(e) = op { warn }\<close>.\<close>

definition ignoring :: "'a result \<Rightarrow> (mgr \<Rightarrow> 'b result) \<Rightarrow> 'b result" where
  "ignoring m f = Option.bind m (\<lambda>(_, s). f s)"

text \<open>\<open>match op { Ok(x) => f, Err(e) => g }\<close>.\<close>

definition matching :: "'a result \<Rightarrow> (error \<Rightarrow> mgr \<Rightarrow> 'b result) \<Rightarrow> ('a \<Rightarrow> mgr \<Rightarrow> 'b result) \<Rightarrow> 'b result" where
  "matching m g f = Option.bind m (\<lambda>(r, s). case r of Inl e \<Rightarrow> g e s | Inr x \<Rightarrow> f x s)"

definition in_store :: "(store \<Rightarrow> ((error + 'a) \<times> store) option) \<Rightarrow> mgr \<Rightarrow> 'a result" where
  "in_store op s = map_option (\<lambda>(r, st). (r, s\<lparr>ms_store := st\<rparr>)) (op (ms_store s))"

section \<open>Publishing\<close>

definition spec_summary_of :: "epoch_plan \<Rightarrow> spec_summary" where
  "spec_summary_of plan = \<lparr>ss_kind = co_kind (sp_core (pl_source_spec plan)),
     ss_config_path = sp_config_path (pl_source_spec plan),
     ss_capabilities = pl_capabilities plan, ss_runtime_features = pl_runtime_features plan\<rparr>"

definition default_health_for_state ::
  "int \<Rightarrow> health_status option \<Rightarrow> core_state \<Rightarrow> health_status option" where
  "default_health_for_state now previous state =
     (let target = (case state of
          CStarting _ \<Rightarrow> Some HStarting | CRestarting _ _ \<Rightarrow> Some HStarting
        | CSwitching _ _ \<Rightarrow> Some HStarting | CRunning _ _ \<Rightarrow> Some HHealthy
        | CStopping _ \<Rightarrow> None | CStopped _ \<Rightarrow> None)
      in case target of
        None \<Rightarrow> None
      | Some target \<Rightarrow> Some (case previous of
            Some p \<Rightarrow> if hs_state p = target then p else (health_starting now)\<lparr>hs_state := target\<rparr>
          | None \<Rightarrow> (health_starting now)\<lparr>hs_state := target\<rparr>))"

definition set_status ::
  "int \<Rightarrow> core_state \<Rightarrow> nat option \<Rightarrow> health_status option \<Rightarrow> spec_summary option \<Rightarrow> host option
     \<Rightarrow> config_revision option \<Rightarrow> core_status \<Rightarrow> core_status" where
  "set_status now state instance_id health spec controller revision st =
     \<lparr>cs_instance_id = instance_id, cs_state = state,
      cs_changed_at = (if cs_state st \<noteq> state then now else cs_changed_at st),
      cs_health = health, cs_spec = spec, cs_controller = controller, cs_revision = revision\<rparr>"

definition publish :: "env \<Rightarrow> core_state \<Rightarrow> epoch_plan option \<Rightarrow> mgr \<Rightarrow> mgr" where
  "publish env state plan s = (let now = ev_now env (ms_tick s) in
     tick (s\<lparr>ms_status := set_status now state None
       (default_health_for_state now (cs_health (ms_status s)) state)
       (map_option spec_summary_of plan) (map_option (rc_host \<circ> pl_controller) plan)
       (map_option pl_revision plan) (ms_status s)\<rparr>))"

definition is_running_state :: "core_state \<Rightarrow> bool" where
  "is_running_state state \<longleftrightarrow> (case state of CRunning _ _ \<Rightarrow> True | _ \<Rightarrow> False)"

definition publish_instance ::
  "env \<Rightarrow> runtime_instance \<Rightarrow> core_state \<Rightarrow> epoch_plan \<Rightarrow> mgr \<Rightarrow> mgr" where
  "publish_instance env inst state plan s =
     (let snapshot = ev_state env (ms_tick s) inst; now = ev_now env (ms_tick s)
      in tick (s\<lparr>ms_config_commit :=
           (case is_instance_id snapshot of
              Some instance_id \<Rightarrow> if is_running_state state
                then Some (effective_config_snapshot plan instance_id) else ms_config_commit s
            | None \<Rightarrow> ms_config_commit s),
         ms_status := set_status now state (is_instance_id snapshot) (is_health snapshot)
           (Some (spec_summary_of plan)) (Some (rc_host (in_controller inst)))
           (Some (pl_revision plan)) (ms_status s)\<rparr>))"

definition publish_active :: "env \<Rightarrow> active \<Rightarrow> core_state \<Rightarrow> mgr \<Rightarrow> mgr" where
  "publish_active env active state = publish_instance env (ac_instance active) state (ac_plan active)"

definition publish_terminal_error :: "env \<Rightarrow> error \<Rightarrow> mgr \<Rightarrow> mgr" where
  "publish_terminal_error env e = publish env (CStopped (Some (StopError (error_to_string e)))) None"

fun instance_core_state :: "epoch \<Rightarrow> instance_state \<Rightarrow> core_state" where
  "instance_core_state e IStarting = CStarting e"
| "instance_core_state e (IRunning pid) = CRunning e pid"
| "instance_core_state e (IRestarting attempt) = CRestarting e attempt"
| "instance_core_state e IStopping = CStopping e"
| "instance_core_state e (IStopped reason) = CStopped (Some reason)"

definition republish_retained :: "env \<Rightarrow> mgr \<Rightarrow> mgr" where
  "republish_retained env s = (case ms_current s of
       None \<Rightarrow> s
     | Some active \<Rightarrow>
         let state = instance_core_state (in_epoch (ac_instance active))
               (is_state (ev_state env (ms_tick s) (ac_instance active)))
         in publish_active env active state (tick s))"

text \<open>What the forwarder of an epoch publishes when its instance reports a status; the flag says
  whether the published status was modified.\<close>

definition apply_epoch_status :: "int \<Rightarrow> epoch \<Rightarrow> instance_status \<Rightarrow> core_status \<Rightarrow> bool \<times> core_status" where
  "apply_epoch_status now e inst st =
     (if map_option cr_epoch (cs_revision st) \<noteq> Some e then (False, st)
      else let state = instance_core_state e (is_state inst);
               lifecycle_changed = (cs_state st \<noteq> state);
               health_changed = (cs_health st \<noteq> is_health inst)
        in if \<not> lifecycle_changed \<and> \<not> health_changed \<and> cs_instance_id st = is_instance_id inst
           then (False, st)
           else (True, st\<lparr>cs_state := state, cs_health := is_health inst,
             cs_instance_id := is_instance_id inst,
             cs_changed_at := (if lifecycle_changed then now else cs_changed_at st)\<rparr>))"

definition publish_epoch_status :: "env \<Rightarrow> epoch \<Rightarrow> instance_status \<Rightarrow> mgr \<Rightarrow> mgr" where
  "publish_epoch_status env e inst s =
     tick (s\<lparr>ms_status := snd (apply_epoch_status (ev_now env (ms_tick s)) e inst (ms_status s))\<rparr>)"

section \<open>Epoch numbers\<close>

definition epochs_next :: "mgr \<Rightarrow> epoch result" where
  "epochs_next s = (case checked_add (ms_epochs_last s) 1 of
       None \<Rightarrow> None
     | Some n \<Rightarrow> (case epoch_new n of
         None \<Rightarrow> None
       | Some e \<Rightarrow> ok e (s\<lparr>ms_epochs_last := n\<rparr>)))"

section \<open>The runtime backend\<close>

text \<open>A launch that succeeds, and one that fails without knowing whether its process died, leave a
  runtime that may be alive; a stop that returns anything but \<open>StopUnconfirmed\<close> has proven it dead.\<close>

definition spawn_instance :: "env \<Rightarrow> epoch_plan \<Rightarrow> mgr \<Rightarrow> runtime_instance result" where
  "spawn_instance env plan s =
     (let inst = \<lparr>in_handle = ms_tick s, in_epoch = plan_epoch plan, in_controller = pl_controller plan\<rparr>
      in case ev_launch env (ms_tick s) plan of
        Inr _ \<Rightarrow> ok inst (tick (s\<lparr>ms_live := inst # ms_live s\<rparr>))
      | Inl e \<Rightarrow> fail e (tick (if is_stop_unconfirmed e then s\<lparr>ms_live := inst # ms_live s\<rparr> else s)))"

definition stop_and_confirm_dead :: "env \<Rightarrow> runtime_instance \<Rightarrow> mgr \<Rightarrow> unit result" where
  "stop_and_confirm_dead env inst s =
     (case ev_stop env (ms_tick s) inst of
        Inl e \<Rightarrow> if is_stop_unconfirmed e then fail e (tick s)
          else fail e (tick (s\<lparr>ms_live := removeAll inst (ms_live s)\<rparr>))
      | Inr _ \<Rightarrow> ok () (tick (s\<lparr>ms_live := removeAll inst (ms_live s)\<rparr>)))"

definition reap_epoch_pid_file :: "env \<Rightarrow> epoch \<Rightarrow> mgr \<Rightarrow> reap_outcome result" where
  "reap_epoch_pid_file env e s =
     (case ev_reap env (ms_tick s) (pid_path e) of
        Inl err \<Rightarrow> fail err (tick s)
      | Inr NotFound \<Rightarrow> ok NotFound (tick s)
      | Inr outcome \<Rightarrow> ok outcome (tick (s\<lparr>ms_live := filter (\<lambda>i. in_epoch i \<noteq> e) (ms_live s)\<rparr>)))"

definition pid_or_default :: "env \<Rightarrow> runtime_instance \<Rightarrow> mgr \<Rightarrow> u32" where
  "pid_or_default env inst s = (case ev_pid env (ms_tick s) inst of Some pid \<Rightarrow> pid | None \<Rightarrow> 0)"

definition runtime_alive :: "env \<Rightarrow> mgr \<Rightarrow> bool result" where
  "runtime_alive env s = (case ms_current s of
       None \<Rightarrow> ok False s
     | Some active \<Rightarrow> ask (\<lambda>n. \<not> is_terminal (is_state (ev_state env n (ac_instance active)))) s)"

definition install :: "runtime_instance \<Rightarrow> epoch_plan \<Rightarrow> mgr \<Rightarrow> mgr" where
  "install inst plan s = s\<lparr>ms_last_spec := Some (pl_source_spec plan),
     ms_current := Some \<lparr>ac_instance = inst, ac_plan = plan\<rparr>\<rparr>"

section \<open>Quarantine\<close>

definition quarantine_error :: "mgr \<Rightarrow> error option" where
  "quarantine_error s = (case ms_quarantine s of
       [] \<Rightarrow> None
     | first # _ \<Rightarrow> Some (ManagerQuarantined (qe_epoch first)
         (if length (ms_quarantine s) = 1 then qe_reason first
          else qe_reason first @ ''; additional uncertain epochs: ''
            @ join_with '', '' (map (epoch_show \<circ> qe_epoch) (ms_quarantine s)))))"

fun record_entry :: "epoch \<Rightarrow> string \<Rightarrow> quarantined_epoch list \<Rightarrow> quarantined_epoch list" where
  "record_entry e reason [] = [\<lparr>qe_epoch = e, qe_reason = reason, qe_death_proven = False\<rparr>]"
| "record_entry e reason (q # qs) =
     (if qe_epoch q = e then q\<lparr>qe_reason := reason\<rparr> # qs else q # record_entry e reason qs)"

definition record_quarantine :: "epoch \<Rightarrow> string \<Rightarrow> mgr \<Rightarrow> mgr" where
  "record_quarantine e reason s = s\<lparr>ms_quarantine := record_entry e reason (ms_quarantine s)\<rparr>"

definition latch_quarantine :: "env \<Rightarrow> epoch \<Rightarrow> error \<Rightarrow> mgr \<Rightarrow> 'a result" where
  "latch_quarantine env e err s =
     (let s = record_quarantine e (error_to_string err) s
      in case quarantine_error s of
           None \<Rightarrow> None
         | Some quarantine \<Rightarrow> fail err (publish_terminal_error env quarantine s))"

definition reject_quarantine :: "mgr \<Rightarrow> unit result" where
  "reject_quarantine s = (case quarantine_error s of Some e \<Rightarrow> fail e s | None \<Rightarrow> ok () s)"

definition cleanup_controller :: "env \<Rightarrow> epoch \<Rightarrow> mgr \<Rightarrow> unit result" where
  "cleanup_controller env e s = (case mo_controller_dir (ev_options env) of
       None \<Rightarrow> ok () s
     | Some dir \<Rightarrow>
         (case managed_endpoint_path (ev_ext env) dir (mo_controller_template (ev_options env)) e of
            Inl err \<Rightarrow> fail err s
          | Inr endpoint \<Rightarrow>
              and_do (call (\<lambda>n. ev_controller_node env n endpoint) s) (\<lambda>node s. case node of
                  Some Socket \<Rightarrow> call (\<lambda>n. ev_controller_remove env n endpoint) s
                | Some _ \<Rightarrow> fail (InvalidManagerOptions ''refusing to remove a non-socket controller'') s
                | None \<Rightarrow> ok () s)))"

definition mgr_cleanup_epoch :: "env \<Rightarrow> epoch \<Rightarrow> mgr \<Rightarrow> unit result" where
  "mgr_cleanup_epoch env e s =
     and_do (cleanup_controller env e s) (\<lambda>_ s. in_store (cleanup_epoch (ev_store env) e) s)"

section \<open>Retiring the current epoch\<close>

text \<open>\<open>RetireFailure\<close> is the pair of the epoch and the error.\<close>

definition retire_current :: "env \<Rightarrow> mgr \<Rightarrow> ((epoch \<times> error) + epoch_plan option) result" where
  "retire_current env s = (case ms_current s of
       None \<Rightarrow> ok (Inr None) s
     | Some active \<Rightarrow>
         matching (stop_and_confirm_dead env (ac_instance active) (s\<lparr>ms_current := None\<rparr>))
           (\<lambda>e s. ok (Inl (plan_epoch (ac_plan active), e)) s)
           (\<lambda>_ s. ok (Inr (Some (ac_plan active))) s))"

definition discard_stale :: "env \<Rightarrow> mgr \<Rightarrow> unit result" where
  "discard_stale env s =
     and_do (retire_current env s) (\<lambda>r s. case r of
         Inr None \<Rightarrow> ok () s
       | Inr (Some plan) \<Rightarrow> mgr_cleanup_epoch env (plan_epoch plan) s
       | Inl (e, err) \<Rightarrow> if is_stop_unconfirmed err then latch_quarantine env e err s else fail err s)"

end
