(* ===== verification/Dns_Sync.thy ===== *)
theory Dns_Sync
  imports Manager_State
begin

text \<open>
  The host DNS override inside the manager's transactions (\<open>manager/dns_sync.rs\<close>): activation before
  a launch, deactivation before an unprotected plan, the converge tail, restoration, and the
  persistence of the ownership record. The build is not the macOS one, whose extra refusal without
  an injected controller is left out.
\<close>

section \<open>The record on disk\<close>

definition RECORD_FILE :: string where
  "RECORD_FILE = ''dns-override.json''"

definition RECORD_STAGING_FILE :: string where
  "RECORD_STAGING_FILE = ''dns-override.json.tmp''"

definition create_file :: "store_env \<Rightarrow> string \<Rightarrow> store \<Rightarrow> ((error + unit) \<times> store) option" where
  "create_file env name = io env (\<lambda>s. (Inr (), put name (Regular []) s))"

definition try_exists :: "store_env \<Rightarrow> string \<Rightarrow> store \<Rightarrow> ((error + bool) \<times> store) option" where
  "try_exists env name = io env (\<lambda>s. (Inr (lookup s name \<noteq> None), s))"

definition publish_record :: "store_env \<Rightarrow> bytes \<Rightarrow> store \<Rightarrow> ((error + unit) \<times> store) option" where
  "publish_record env contents s =
     and_do (create_file env RECORD_STAGING_FILE s) (\<lambda>_ s.
     and_do (write_all env RECORD_STAGING_FILE contents s) (\<lambda>_ s.
     and_do (io env (\<lambda>s. (Inr (), s)) s) (\<lambda>_ s.
     and_do (try_exists env RECORD_FILE s) (\<lambda>exists s.
     if exists then atomic_replace env RECORD_STAGING_FILE RECORD_FILE s
     else atomic_move_new env RECORD_STAGING_FILE RECORD_FILE s))))"

definition write_record :: "store_env \<Rightarrow> error + bytes \<Rightarrow> store \<Rightarrow> ((error + unit) \<times> store) option" where
  "write_record env contents s =
     Option.bind (case contents of Inl e \<Rightarrow> Some (Inl e, s) | Inr bs \<Rightarrow> publish_record env bs s)
       (\<lambda>(r, s). case r of
          Inl e \<Rightarrow> Option.bind (remove_file env RECORD_STAGING_FILE s) (\<lambda>(_, s). Some (Inl e, s))
        | Inr _ \<Rightarrow> Option.bind (sync_dir env s) (\<lambda>(_, s). Some (Inr (), s)))"

definition clear_record :: "store_env \<Rightarrow> store \<Rightarrow> ((error + unit) \<times> store) option" where
  "clear_record env s = Option.bind (remove_file env RECORD_FILE s) (\<lambda>(r, s). case r of
       Inr _ \<Rightarrow> Option.bind (sync_dir env s) (\<lambda>(_, s). Some (Inr (), s))
     | Inl e \<Rightarrow> Some (if e = not_found then Inr () else Inl e, s))"

definition persist_dns_record :: "env \<Rightarrow> dns_record option \<Rightarrow> mgr \<Rightarrow> unit result" where
  "persist_dns_record env record s =
     and_do (in_store (case record of
         Some entry \<Rightarrow> write_record (ev_store env) (ev_record_bytes env entry)
       | None \<Rightarrow> clear_record (ev_store env)) s)
       (\<lambda>_ s. ok () (s\<lparr>ms_dns_record := record\<rparr>))"

section \<open>Restoring\<close>

definition dns_restore :: "env \<Rightarrow> mgr \<Rightarrow> unit result" where
  "dns_restore env s = (case ms_dns_record s of
       None \<Rightarrow> ok () s
     | Some record \<Rightarrow>
         if \<not> ev_dns env then
           fail (ApplyFailed ''DNS override is recorded but no host DNS controller is registered'') s
         else ignoring (persist_dns_record env (Some (record\<lparr>dr_state := RestorePending\<rparr>)) s) (\<lambda>s.
           and_do (ask (\<lambda>n. ev_dns_restore env n record) s) (\<lambda>answer s. case answer of
               Some (Inr _) \<Rightarrow> ignoring (persist_dns_record env None s) (ok ())
             | Some (Inl e) \<Rightarrow> fail (ApplyFailed
                 (''DNS override restore failed; ownership record retained: '' @ e)) s
             | None \<Rightarrow> fail (ApplyFailed (''DNS override restore timed out after ''
                 @ ev_dns_timeout_text env @ ''; ownership record retained'')) s)))"

section \<open>Activating\<close>

definition dns_baseline :: "mgr \<Rightarrow> (string \<times> string list) option" where
  "dns_baseline s = (case ms_dns_record s of
       Some record \<Rightarrow> if dr_interface record \<noteq> [] then Some (dr_interface record, dr_previous record)
         else None
     | None \<Rightarrow> None)"

definition pre_record :: "(string \<times> string list) option \<Rightarrow> dns_intent \<Rightarrow> epoch \<Rightarrow> dns_record" where
  "pre_record baseline intent e =
     \<lparr>dr_interface = (case baseline of Some (i, _) \<Rightarrow> i | None \<Rightarrow> []),
      dr_previous = (case baseline of Some (_, p) \<Rightarrow> p | None \<Rightarrow> []),
      dr_applied = di_servers intent, dr_runtime_epoch = epoch_get e, dr_owner_generation = None,
      dr_state = Applied\<rparr>"

definition prefixed :: "string \<Rightarrow> unit result \<Rightarrow> unit result" where
  "prefixed text m = map_option (\<lambda>(r, s).
     (map_err (\<lambda>e. ApplyFailed (text @ error_to_string e)) r, s)) m"

definition dns_activate_for_plan :: "env \<Rightarrow> epoch_plan \<Rightarrow> mgr \<Rightarrow> unit result" where
  "dns_activate_for_plan env plan s =
     (if \<not> ev_dns env then ok () s
      else case ev_dns_desired env (pl_effective_document plan) of
        None \<Rightarrow> ok () s
      | Some intent \<Rightarrow>
          let baseline = dns_baseline s in
          and_do (prefixed ''could not persist DNS override ownership before activation: ''
            (persist_dns_record env (Some (pre_record baseline intent (plan_epoch plan))) s)) (\<lambda>_ s.
          and_do (ask (\<lambda>n. ev_dns_apply env n intent (plan_epoch plan)) s) (\<lambda>answer s. case answer of
              Some (Inl e) \<Rightarrow> fail (ApplyFailed (''DNS override activation failed: '' @ e)) s
            | None \<Rightarrow> fail (ApplyFailed (''DNS override activation timed out after ''
                @ ev_dns_timeout_text env)) s
            | Some (Inr record) \<Rightarrow>
                (case baseline of
                   Some (interface, previous) \<Rightarrow>
                     if dr_interface record \<noteq> interface then
                       fail (ApplyFailed ''DNS interface changed while the override was active'') s
                     else prefixed ''could not persist DNS override read-back before activation: ''
                       (persist_dns_record env (Some (record\<lparr>dr_previous := previous\<rparr>)) s)
                 | None \<Rightarrow> prefixed ''could not persist DNS override read-back before activation: ''
                     (persist_dns_record env (Some record) s)))))"

definition dns_deactivate_for_plan :: "env \<Rightarrow> epoch_plan \<Rightarrow> mgr \<Rightarrow> unit result" where
  "dns_deactivate_for_plan env plan s =
     (if ms_dns_record s = None then ok () s
      else if ev_dns env \<and> ev_dns_desired env (pl_effective_document plan) \<noteq> None then ok () s
      else dns_restore env s)"

section \<open>The converge tail\<close>

definition dns_apply_current :: "env \<Rightarrow> dns_intent \<Rightarrow> epoch \<Rightarrow> mgr \<Rightarrow> unit result" where
  "dns_apply_current env intent e s =
     (let baseline = dns_baseline s in
      and_do (prefixed ''could not persist DNS override ownership during convergence: ''
        (persist_dns_record env (Some (pre_record baseline intent e)) s)) (\<lambda>_ s.
      and_do (ask (\<lambda>n. ev_dns_apply env n intent e) s) (\<lambda>answer s. case answer of
          Some (Inl err) \<Rightarrow> fail (ApplyFailed
            (''DNS override convergence failed; ownership record retained: '' @ err)) s
        | None \<Rightarrow> fail (ApplyFailed (''DNS override convergence timed out after ''
            @ ev_dns_timeout_text env @ ''; ownership record retained'')) s
        | Some (Inr record) \<Rightarrow>
            (case baseline of
               Some (interface, previous) \<Rightarrow>
                 if dr_interface record \<noteq> interface then
                   fail (ApplyFailed
                     ''DNS interface changed during convergence; ownership record retained'') s
                 else prefixed ''could not persist DNS override read-back during convergence: ''
                   (persist_dns_record env (Some (record\<lparr>dr_previous := previous\<rparr>)) s)
             | None \<Rightarrow> prefixed ''could not persist DNS override read-back during convergence: ''
                 (persist_dns_record env (Some record) s)))))"

definition dns_converge :: "env \<Rightarrow> mgr \<Rightarrow> unit result" where
  "dns_converge env s =
     (if \<not> ev_dns env then dns_restore env s
      else and_do (runtime_alive env s) (\<lambda>running s. case ms_current s of
          None \<Rightarrow> dns_restore env s
        | Some active \<Rightarrow>
            (case (if running then ev_dns_desired env (pl_effective_document (ac_plan active)) else None) of
               None \<Rightarrow> dns_restore env s
             | Some intent \<Rightarrow> dns_apply_current env intent (in_epoch (ac_instance active)) s)))"

definition finish_dns_converge :: "env \<Rightarrow> 'a result \<Rightarrow> 'a result" where
  "finish_dns_converge env m = Option.bind m (\<lambda>(result, s).
     and_do (runtime_alive env s) (\<lambda>alive s.
     Option.bind (if is_ok result \<or> \<not> alive then dns_converge env s else ok () s) (\<lambda>(dns_result, s).
     case (result, dns_result) of
       (Inr outcome, Inr _) \<Rightarrow> ok outcome s
     | (Inr _, Inl e) \<Rightarrow> fail (ApplyFailed
         (''runtime transition completed, but host DNS state is unconfirmed: '' @ error_to_string e)) s
     | (Inl e, Inr _) \<Rightarrow> fail e s
     | (Inl e, Inl d) \<Rightarrow> fail (ApplyFailed (''runtime transition failed ('' @ error_to_string e
         @ ''); host DNS convergence also failed: '' @ error_to_string d)) s)))"

section \<open>Orphan records at startup\<close>

definition reconcile_orphan_record :: "env \<Rightarrow> mgr \<Rightarrow> mgr option" where
  "reconcile_orphan_record env s =
     map_option snd (and_do (in_store (read_file (ev_store env) RECORD_FILE) s) (\<lambda>contents s.
       case ev_record_parse env contents of
         Inl _ \<Rightarrow> ok () s
       | Inr record \<Rightarrow>
           if \<not> ev_dns env then ok () s
           else and_do (ask (\<lambda>n. ev_dns_restore env n record) s) (\<lambda>answer s. case answer of
               Some (Inr _) \<Rightarrow> ignoring (in_store (remove_file (ev_store env) RECORD_FILE) s) (ok ())
             | _ \<Rightarrow> ok () s)))"

end
