(* ===== verification/Transactions.thy ===== *)
theory Transactions
  imports Dns_Sync
begin

text \<open>
  Start, stop, shutdown, recovery (\<open>manager/mod.rs\<close>, \<open>manager/quarantine.rs\<close>) and switching between
  epochs (\<open>manager/switching.rs\<close>). \<open>tracing\<close> output and the log sink are not modelled.
\<close>

datatype degrade_reason =
    NotRunning | UnsupportedKind | DegradeDnsListen | InboundConflict | PatchFailed | HttpController
  | NativeStoreShared

datatype switch_outcome =
    Graceful
  | Hard degrade_reason
  | SwitchDurabilityUncertain switch_outcome string

section \<open>Preparing a launch\<close>

definition controller_dir :: "env \<Rightarrow> mgr \<Rightarrow> string" where
  "controller_dir env s = (case mo_controller_dir (ev_options env) of
     Some dir \<Rightarrow> dir | None \<Rightarrow> st_dir (ms_store s))"

definition spec_local_ipc_settings :: "env \<Rightarrow> instance_spec \<Rightarrow> local_ipc_settings" where
  "spec_local_ipc_settings env spec = (case io_local_ipc (sp_options spec) of
       Some settings \<Rightarrow> settings
     | None \<Rightarrow> \<lparr>lis_policy = mo_local_ipc_policy (ev_options env), lis_keep_http_controller = False\<rparr>)"

definition mgr_resolve_features :: "env \<Rightarrow> instance_spec \<Rightarrow> mgr \<Rightarrow> resolved_features result" where
  "mgr_resolve_features env spec s =
     (let policy = lis_policy (spec_local_ipc_settings env spec);
          available = ev_local_ipc_available env
      in if \<not> available \<and> policy = Force then
           fail (InvalidManagerOptions ''the host cannot authorize local IPC'') s
         else let n = ms_tick s;
                  resolve = version_resolve (ev_modified env n) (ev_probe_version env n)
                    (ev_modified env (Suc n));
                  (r, cache) = resolve_features (ev_semver env) resolve (sp_core spec)
                    (if available then policy else Disable) (ms_version_cache s)
           in Some (r, tick (tick (s\<lparr>ms_version_cache := cache\<rparr>))))"

definition validate_launchable :: "env \<Rightarrow> instance_spec \<Rightarrow> mgr \<Rightarrow> unit result" where
  "validate_launchable env spec s =
     call (\<lambda>n. if ev_binary_exists env n (co_binary_path (sp_core spec)) then Inr ()
       else Inl (BinaryNotFound (co_binary_path (sp_core spec)))) s"

definition load_snapshot :: "env \<Rightarrow> string \<Rightarrow> mgr \<Rightarrow> config_snapshot result" where
  "load_snapshot env path s =
     and_do (call (\<lambda>n. ev_read env n path) s) (\<lambda>raw s.
     Some (snapshot_from_bytes (ev_ext env) path raw, s))"

definition prepare_document ::
  "env \<Rightarrow> instance_spec \<Rightarrow> epoch \<Rightarrow> config_snapshot \<Rightarrow> resolved_features \<Rightarrow> bool \<Rightarrow> mgr
     \<Rightarrow> prepared_config result" where
  "prepare_document env spec e snap resolved zero s =
     map_option (\<lambda>r. (r, s)) (prepare (ev_ext env) snap (mo_controller_template (ev_options env))
       (controller_dir env s) e (rf_runtime resolved) (Some (spec_local_ipc_settings env spec)) zero)"

text \<open>The native store, when one is injected: its data directory and the home it gives a core.\<close>

definition native_home :: "env \<Rightarrow> string \<Rightarrow> core_kind \<Rightarrow> string" where
  "native_home env dir kind =
     x_join (ev_ext env) (x_join (ev_ext env) dir ''native-store/v1'') (core_kind_as_ref kind)"

definition rebase_native :: "env \<Rightarrow> instance_spec \<Rightarrow> prepared_config \<Rightarrow> mgr \<Rightarrow> prepared_config result" where
  "rebase_native env spec prepared s = (case ev_native_dir env of
       None \<Rightarrow> ok prepared s
     | Some dir \<Rightarrow> Some (native_paths (ev_ext env) (co_kind (sp_core spec)) dir prepared, s))"

definition native_working_dir :: "env \<Rightarrow> instance_spec \<Rightarrow> instance_spec" where
  "native_working_dir env spec = (case ev_native_dir env of
       None \<Rightarrow> spec
     | Some dir \<Rightarrow> spec\<lparr>sp_working_dir := native_home env dir (co_kind (sp_core spec))\<rparr>)"

text \<open>Staging and the dry run of the core on the staged file; the staged file is dropped when the
  check rejects it.\<close>

definition stage_checked ::
  "env \<Rightarrow> instance_spec \<Rightarrow> epoch \<Rightarrow> bytes \<Rightarrow> mgr \<Rightarrow> staged result" where
  "stage_checked env spec e contents s =
     and_do (in_store (stage (ev_store env) e contents) s) (\<lambda>sg s.
     matching (call (\<lambda>n. ev_check_config env n (spec\<lparr>sp_config_path := path_show (sg_path sg)\<rparr>)) s)
       (\<lambda>err s. Option.bind (drop_staged (ev_store env) sg (ms_store s)) (\<lambda>st.
          fail err (s\<lparr>ms_store := st\<rparr>)))
       (\<lambda>_ s. ok sg s))"

definition drop_in_mgr :: "env \<Rightarrow> staged \<Rightarrow> (mgr \<Rightarrow> 'a result) \<Rightarrow> mgr \<Rightarrow> 'a result" where
  "drop_in_mgr env sg f s =
     Option.bind (drop_staged (ev_store env) sg (ms_store s)) (\<lambda>st. f (s\<lparr>ms_store := st\<rparr>))"

definition make_plan ::
  "env \<Rightarrow> instance_spec \<Rightarrow> prepared_config \<Rightarrow> resolved_features \<Rightarrow> config_snapshot \<Rightarrow> epoch \<Rightarrow> nat \<Rightarrow> string
     \<Rightarrow> string \<Rightarrow> epoch_plan" where
  "make_plan env spec prepared resolved snap e generation path pid_file =
     \<lparr>pl_source_spec = spec,
      pl_effective_spec = (native_working_dir env spec)\<lparr>sp_config_path := path, sp_pid_file := Some pid_file\<rparr>,
      pl_controller = pc_controller prepared,
      pl_revision = \<lparr>cr_epoch = e, cr_generation = generation,
        cr_source_hash = pc_source_hash prepared, cr_effective_hash = pc_effective_hash prepared,
        cr_runtime_path = path\<rparr>,
      pl_capabilities = rf_capabilities resolved, pl_runtime_features = rf_runtime resolved,
      pl_source_document = sn_document snap, pl_effective_document = pc_document prepared\<rparr>"

definition prepare_launch_with_features ::
  "env \<Rightarrow> instance_spec \<Rightarrow> epoch \<Rightarrow> config_snapshot \<Rightarrow> resolved_features \<Rightarrow> mgr \<Rightarrow> epoch_plan result" where
  "prepare_launch_with_features env spec e snap resolved s =
     and_do (prepare_document env spec e snap resolved False s) (\<lambda>prepared s.
     and_do (rebase_native env spec prepared s) (\<lambda>prepared s.
     and_do (stage_checked env spec e (pc_bytes prepared) s) (\<lambda>sg s.
     and_do (in_store (commit_new (ev_store env) sg e) s) (\<lambda>path s.
     ok (make_plan env spec prepared resolved snap e 1 (path_show path)
       (path_show (st_dir (ms_store s), pid_path e))) s))))"

definition prepare_launch ::
  "env \<Rightarrow> instance_spec \<Rightarrow> epoch \<Rightarrow> config_snapshot \<Rightarrow> mgr \<Rightarrow> epoch_plan result" where
  "prepare_launch env spec e snap s =
     and_do (validate_launchable env spec s) (\<lambda>_ s.
     and_do (mgr_resolve_features env spec s) (\<lambda>resolved s.
     prepare_launch_with_features env spec e snap resolved s))"

section \<open>Starting\<close>

definition start_prepared :: "env \<Rightarrow> epoch_plan \<Rightarrow> mgr \<Rightarrow> unit result" where
  "start_prepared env plan s =
     (let e = plan_epoch plan in
      matching (dns_activate_for_plan env plan s)
        (\<lambda>err s. ignoring (dns_restore env s) (\<lambda>s.
           ignoring (mgr_cleanup_epoch env e s) (\<lambda>s. fail err (publish_terminal_error env err s))))
        (\<lambda>_ s.
      matching (dns_deactivate_for_plan env plan s)
        (\<lambda>err s. ignoring (mgr_cleanup_epoch env e s) (\<lambda>s. fail err (publish_terminal_error env err s)))
        (\<lambda>_ s.
      matching (spawn_instance env plan (publish env (CStarting e) (Some plan) s))
        (\<lambda>err s. ignoring (dns_restore env s) (\<lambda>s.
           ignoring (mgr_cleanup_epoch env e s) (\<lambda>s. fail err (publish_terminal_error env err s))))
        (\<lambda>inst s.
      matching (call (\<lambda>n. ev_wait_ready env n inst) s)
        (\<lambda>ready_err s. matching (stop_and_confirm_dead env inst s)
           (\<lambda>stop_err s. latch_quarantine env e (StopUnconfirmed (error_to_string ready_err
              @ ''; failed to stop rejected initial instance: '' @ error_to_string stop_err)) s)
           (\<lambda>_ s. ignoring (dns_restore env s) (\<lambda>s.
              ignoring (mgr_cleanup_epoch env e s) (\<lambda>s.
              fail ready_err (publish_terminal_error env ready_err s)))))
        (\<lambda>_ s.
      ok () (install inst plan
        (publish_instance env inst (CRunning e (pid_or_default env inst s)) plan (tick s))))))))"

definition start_locked :: "env \<Rightarrow> instance_spec \<Rightarrow> mgr \<Rightarrow> unit result" where
  "start_locked env spec s =
     and_do (epochs_next s) (\<lambda>e s.
     matching (load_snapshot env (sp_config_path spec) s)
       (\<lambda>err s. fail err (publish_terminal_error env err s))
       (\<lambda>snap s.
     matching (prepare_launch env spec e snap s)
       (\<lambda>err s. ignoring (mgr_cleanup_epoch env e s) (\<lambda>s. fail err (publish_terminal_error env err s)))
       (\<lambda>plan s. start_prepared env plan s)))"

definition start :: "env \<Rightarrow> instance_spec \<Rightarrow> mgr \<Rightarrow> unit result" where
  "start env spec s =
     and_do (reject_quarantine s) (\<lambda>_ s.
     and_do (runtime_alive env s) (\<lambda>running s.
     if running then fail AlreadyRunning s
     else and_do (discard_stale env s) (\<lambda>_ s.
       finish_dns_converge env (start_locked env spec s))))"

section \<open>Stopping\<close>

definition stop_taken :: "env \<Rightarrow> active \<Rightarrow> mgr \<Rightarrow> unit result" where
  "stop_taken env active s =
     (let e = in_epoch (ac_instance active) in
      matching (stop_and_confirm_dead env (ac_instance active)
          (publish env (CStopping e) (Some (ac_plan active)) s))
        (\<lambda>err s. if is_stop_unconfirmed err then latch_quarantine env e err s
           else fail err (publish_terminal_error env err s))
        (\<lambda>_ s. matching (mgr_cleanup_epoch env e s)
           (\<lambda>err s. fail err (publish_terminal_error env err s))
           (\<lambda>_ s. ok () (publish env (CStopped (Some User)) None s))))"

definition stop_terminal :: "env \<Rightarrow> active \<Rightarrow> instance_state \<Rightarrow> mgr \<Rightarrow> unit result" where
  "stop_terminal env active captured s =
     (let e = in_epoch (ac_instance active) in
      matching (stop_and_confirm_dead env (ac_instance active)
          (publish env (instance_core_state e captured) (Some (ac_plan active)) s))
        (\<lambda>err s. if is_stop_unconfirmed err then latch_quarantine env e err s else fail err s)
        (\<lambda>_ s. matching (mgr_cleanup_epoch env e s)
           (\<lambda>err s. fail err (publish_terminal_error env err s))
           (\<lambda>_ s. fail NotStarted s)))"

definition stop :: "env \<Rightarrow> mgr \<Rightarrow> unit result" where
  "stop env s =
     and_do (dns_restore env s) (\<lambda>_ s. case ms_current s of
         None \<Rightarrow> fail NotStarted s
       | Some active \<Rightarrow>
           and_do (ask (\<lambda>n. is_state (ev_state env n (ac_instance active))) (s\<lparr>ms_current := None\<rparr>))
             (\<lambda>captured s. if is_terminal captured then stop_terminal env active captured s
                else stop_taken env active s))"

definition shutdown :: "env \<Rightarrow> mgr \<Rightarrow> unit result" where
  "shutdown env s =
     and_do (dns_restore env s) (\<lambda>_ s. case ms_current s of
         None \<Rightarrow> ok () s
       | Some active \<Rightarrow> stop_taken env active (s\<lparr>ms_current := None\<rparr>))"

section \<open>Recovering from quarantine\<close>

fun mark_entry :: "epoch \<Rightarrow> quarantined_epoch list \<Rightarrow> quarantined_epoch list" where
  "mark_entry e [] = []"
| "mark_entry e (q # qs) =
     (if qe_epoch q = e then q\<lparr>qe_death_proven := True\<rparr> # qs else q # mark_entry e qs)"

definition mark_dead :: "epoch \<Rightarrow> mgr \<Rightarrow> mgr" where
  "mark_dead e s = s\<lparr>ms_quarantine := mark_entry e (ms_quarantine s)\<rparr>"

definition entry_text :: "quarantined_epoch \<Rightarrow> string" where
  "entry_text q = ''epoch '' @ epoch_show (qe_epoch q) @ '': '' @ qe_reason q"

text \<open>One entry of the loop: \<open>Some\<close> failure text, or \<open>None\<close>.\<close>

definition recover_cleanup :: "env \<Rightarrow> quarantined_epoch \<Rightarrow> mgr \<Rightarrow> (string option) result" where
  "recover_cleanup env q s =
     matching (mgr_cleanup_epoch env (qe_epoch q) s)
       (\<lambda>err s. ok (Some (entry_text q @ ''; artifact cleanup failed: '' @ error_to_string err)) s)
       (\<lambda>_ s. ok None (s\<lparr>ms_quarantine := filter (\<lambda>x. qe_epoch x \<noteq> qe_epoch q) (ms_quarantine s)\<rparr>))"

definition recover_entry :: "env \<Rightarrow> quarantined_epoch \<Rightarrow> mgr \<Rightarrow> (string option) result" where
  "recover_entry env q s =
     (if qe_death_proven q then recover_cleanup env q s
      else matching (reap_epoch_pid_file env (qe_epoch q) s)
        (\<lambda>err s. ok (Some (entry_text q @ ''; recovery failed: '' @ error_to_string err)) s)
        (\<lambda>outcome s. if outcome = NotFound
           then ok (Some (entry_text q @ ''; authoritative epoch pid record is unavailable'')) s
           else recover_cleanup env q (mark_dead (qe_epoch q) s)))"

fun recover_entries :: "env \<Rightarrow> quarantined_epoch list \<Rightarrow> string list \<Rightarrow> mgr \<Rightarrow> (string list) result" where
  "recover_entries env [] failures s = ok failures s"
| "recover_entries env (q # qs) failures s =
     and_do (recover_entry env q s) (\<lambda>failure s.
     recover_entries env qs (case failure of Some f \<Rightarrow> failures @ [f] | None \<Rightarrow> failures) s)"

definition recover_quarantine :: "env \<Rightarrow> mgr \<Rightarrow> unit result" where
  "recover_quarantine env s =
     (if ms_quarantine s = [] then ok () s
      else and_do (recover_entries env (ms_quarantine s) [] s) (\<lambda>failures s.
        if failures \<noteq> [] then
          (case ms_quarantine s of
             [] \<Rightarrow> None
           | first # _ \<Rightarrow> fail (ManagerQuarantined (qe_epoch first) (join_with '' | '' failures)) s)
        else and_do (dns_restore env s) (\<lambda>_ s. ok () (publish env (CStopped None) None s))))"

end
