(* ===== verification/Switching.thy ===== *)
theory Switching
  imports Transactions
begin

text \<open>
  Switching between epochs (\<open>manager/switching.rs\<close>): the hard switch, which stops the old epoch before
  it starts the new one, and the graceful one, which overlaps them behind a bootstrap document.
\<close>

section \<open>In-place verification\<close>

text \<open>\<open>patch_and_verify\<close> of \<open>manager/apply.rs\<close>: the result of the patch is only logged, what counts is
  what the core reports afterwards.\<close>

definition patch_and_verify ::
  "env \<Rightarrow> runtime_instance \<Rightarrow> config_patch \<Rightarrow> runtime_projection \<Rightarrow> mgr \<Rightarrow> bool result" where
  "patch_and_verify env inst patch projection s =
     matching (call (\<lambda>n. ev_control_client env n (in_controller inst)) s)
       (\<lambda>_ s. ok False s)
       (\<lambda>_ s. ignoring (call (\<lambda>n. ev_patch_config env n inst patch) s) (\<lambda>s.
     matching (call (\<lambda>n. ev_configs env n inst) s)
       (\<lambda>_ s. ok False s)
       (\<lambda>actual s. if \<not> projection_verify projection actual then ok False s
          else ask (\<lambda>n. is_healthy (ev_probe_now env n inst)) s)))"

text \<open>\<open>timeout(reconcile_timeout, ..).unwrap_or(false)\<close>.\<close>

definition within_reconcile_timeout :: "env \<Rightarrow> bool result \<Rightarrow> bool result" where
  "within_reconcile_timeout env m =
     and_do m (\<lambda>b s. ask (\<lambda>n. b \<and> \<not> ev_reconcile_elapsed env n) s)"

section \<open>Outcomes\<close>

definition graceful_degrade_reason ::
  "bool \<Rightarrow> core_kind \<Rightarrow> overlap_block option \<Rightarrow> degrade_reason option" where
  "graceful_degrade_reason local_controller kind block =
     (if \<not> local_controller then Some HttpController
      else if kind \<noteq> Mihomo then Some UnsupportedKind
      else case block of
        Some DnsListen \<Rightarrow> Some DegradeDnsListen
      | Some InboundSurface \<Rightarrow> Some InboundConflict
      | None \<Rightarrow> None)"

definition with_switch_durability_warning :: "switch_outcome \<Rightarrow> string option \<Rightarrow> switch_outcome" where
  "with_switch_durability_warning outcome warning = (case warning of
     Some w \<Rightarrow> SwitchDurabilityUncertain outcome w | None \<Rightarrow> outcome)"

definition with_switch_durability_result ::
  "error + switch_outcome \<Rightarrow> string option \<Rightarrow> error + switch_outcome" where
  "with_switch_durability_result result warning = (case (result, warning) of
       (Inr outcome, warning) \<Rightarrow> Inr (with_switch_durability_warning outcome warning)
     | (Inl e, Some w) \<Rightarrow> Inl (DurabilityUncertain e w)
     | (Inl e, None) \<Rightarrow> Inl e)"

definition mapping_result :: "(error + 'a \<Rightarrow> error + 'b) \<Rightarrow> 'a result \<Rightarrow> 'b result" where
  "mapping_result f m = map_option (\<lambda>(r, s). (f r, s)) m"

section \<open>The hard switch\<close>

definition hard_switch ::
  "env \<Rightarrow> instance_spec \<Rightarrow> config_snapshot \<Rightarrow> resolved_features \<Rightarrow> mgr \<Rightarrow> unit result" where
  "hard_switch env spec snap resolved s =
     and_do (epochs_next s) (\<lambda>e s.
     matching (prepare_launch_with_features env spec e snap resolved s)
       (\<lambda>err s. ignoring (mgr_cleanup_epoch env e s) (\<lambda>s. fail err (republish_retained env s)))
       (\<lambda>plan s.
     matching (dns_deactivate_for_plan env plan s)
       (\<lambda>err s. ignoring (mgr_cleanup_epoch env e s) (\<lambda>s. fail err (republish_retained env s)))
       (\<lambda>_ s.
     and_do (retire_current env (publish env
         (CSwitching (map_option (in_epoch \<circ> ac_instance) (ms_current s)) e) (Some plan) s)) (\<lambda>r s.
     case r of
       Inl (retired, err) \<Rightarrow> ignoring (mgr_cleanup_epoch env e s) (\<lambda>s.
         if is_stop_unconfirmed err then latch_quarantine env retired err s
         else fail err (publish_terminal_error env err s))
     | Inr None \<Rightarrow> None
     | Inr (Some old) \<Rightarrow>
         matching (mgr_cleanup_epoch env (plan_epoch old) s)
           (\<lambda>err s. fail err (publish_terminal_error env err s))
           (\<lambda>_ s. start_prepared env plan s)))))"

section \<open>The graceful switch\<close>

record prepared_graceful =
  pg_plan :: epoch_plan
  pg_full_staged :: staged
  pg_restoration :: "(config_patch \<times> runtime_projection) option"

definition prepare_graceful ::
  "env \<Rightarrow> instance_spec \<Rightarrow> epoch \<Rightarrow> config_snapshot \<Rightarrow> resolved_features \<Rightarrow> mgr
     \<Rightarrow> prepared_graceful result" where
  "prepare_graceful env spec e snap resolved s =
     and_do (prepare_document env spec e snap resolved False s) (\<lambda>full s.
     and_do (prepare_document env spec e snap resolved True s) (\<lambda>bootstrap s.
     if pc_controller full \<noteq> pc_controller bootstrap then
       fail (InvalidConfig ''full and bootstrap configs resolved different controllers'') s
     else case restoration_patch (ev_ext env) (pc_document bootstrap) (pc_document full) of
       Inl err \<Rightarrow> fail err s
     | Inr restoration \<Rightarrow>
         and_do (stage_checked env spec e (pc_bytes full) s) (\<lambda>full_staged s.
         matching (and_do (stage_checked env spec e (pc_bytes bootstrap) s) (\<lambda>sg s.
             in_store (commit_new (ev_store env) sg e) s))
           (\<lambda>err s. drop_in_mgr env full_staged (fail err) s)
           (\<lambda>path s. ok \<lparr>pg_plan = make_plan env spec full resolved snap e 1 (path_show path)
                (path_show (st_dir (ms_store s), pid_path e)),
              pg_full_staged = full_staged, pg_restoration = restoration\<rparr> s))))"

text \<open>The old epoch could not be retired: the new one is stopped too.\<close>

definition graceful_retire_failed ::
  "env \<Rightarrow> runtime_instance \<Rightarrow> epoch \<Rightarrow> epoch \<Rightarrow> error \<Rightarrow> mgr \<Rightarrow> 'a result" where
  "graceful_retire_failed env inst e retired err s =
     matching (stop_and_confirm_dead env inst s)
       (\<lambda>new_err s. latch_quarantine env e (StopUnconfirmed (''old epoch stop failed: ''
            @ error_to_string err @ ''; new bootstrap stop also failed: '' @ error_to_string new_err))
          (if is_stop_unconfirmed err then record_quarantine retired (error_to_string err) s else s))
       (\<lambda>_ s. ignoring (mgr_cleanup_epoch env e s) (\<lambda>s.
          if is_stop_unconfirmed err then latch_quarantine env retired err s
          else fail err (publish_terminal_error env err s)))"

text \<open>The full document could not be committed after the old epoch is gone.\<close>

definition graceful_commit_failed :: "env \<Rightarrow> runtime_instance \<Rightarrow> epoch \<Rightarrow> error \<Rightarrow> mgr \<Rightarrow> 'a result" where
  "graceful_commit_failed env inst e err s =
     matching (stop_and_confirm_dead env inst s)
       (\<lambda>new_err s. latch_quarantine env e (StopUnconfirmed (''full runtime commit failed: ''
          @ error_to_string err @ ''; bootstrap stop also failed: '' @ error_to_string new_err)) s)
       (\<lambda>_ s. ignoring (mgr_cleanup_epoch env e s) (\<lambda>s.
          if is_stop_unconfirmed err then latch_quarantine env e err s
          else fail err (publish_terminal_error env err s)))"

text \<open>A candidate that is rejected while the old epoch keeps running.\<close>

definition graceful_reject ::
  "env \<Rightarrow> runtime_instance \<Rightarrow> epoch \<Rightarrow> error \<Rightarrow> string \<Rightarrow> mgr \<Rightarrow> 'a result" where
  "graceful_reject env inst e err text s =
     matching (stop_and_confirm_dead env inst s)
       (\<lambda>stop_err s. latch_quarantine env e
          (StopUnconfirmed (error_to_string err @ text @ error_to_string stop_err)) s)
       (\<lambda>_ s. ignoring (mgr_cleanup_epoch env e s) (\<lambda>s. fail err (republish_retained env s)))"

definition spawn_replacement :: "env \<Rightarrow> epoch_plan \<Rightarrow> mgr \<Rightarrow> runtime_instance result" where
  "spawn_replacement env plan s =
     and_do (dns_deactivate_for_plan env plan s) (\<lambda>_ s.
     and_do (dns_activate_for_plan env plan s) (\<lambda>_ s.
     and_do (spawn_instance env plan s) (\<lambda>inst s.
     matching (call (\<lambda>n. ev_wait_ready env n inst) s)
       (\<lambda>err s. matching (stop_and_confirm_dead env inst s)
          (\<lambda>stop_err s. fail (StopUnconfirmed (error_to_string err
             @ ''; failed to stop rejected replacement: '' @ error_to_string stop_err)) s)
          (\<lambda>_ s. fail err s))
       (\<lambda>_ s. ok inst s))))"

text \<open>The patch did not bring the new epoch to its full document: it is replaced in place.\<close>

definition graceful_replace ::
  "env \<Rightarrow> runtime_instance \<Rightarrow> epoch_plan \<Rightarrow> epoch \<Rightarrow> mgr \<Rightarrow> switch_outcome result" where
  "graceful_replace env inst launch old_epoch s =
     (let e = plan_epoch launch in
      matching (stop_and_confirm_dead env inst s)
        (\<lambda>err s. if is_stop_unconfirmed err then latch_quarantine env e err s
           else fail err (publish_terminal_error env err s))
        (\<lambda>_ s.
      matching (spawn_replacement env launch s)
        (\<lambda>err s. if is_stop_unconfirmed err then latch_quarantine env e err s
           else ignoring (mgr_cleanup_epoch env e s) (\<lambda>s. fail err (publish_terminal_error env err s)))
        (\<lambda>replacement s.
      and_do (mgr_cleanup_epoch env old_epoch (install replacement launch
          (publish_instance env replacement (CRunning e (pid_or_default env replacement s)) launch
            (tick s)))) (\<lambda>_ s.
      ok (Hard PatchFailed) s))))"

definition graceful_commit ::
  "env \<Rightarrow> runtime_instance \<Rightarrow> prepared_graceful \<Rightarrow> epoch \<Rightarrow> mgr \<Rightarrow> switch_outcome result" where
  "graceful_commit env inst prepared old_epoch s =
     (let launch = pg_plan prepared; e = plan_epoch launch in
      matching (in_store (commit_replace (ev_store env) (pg_full_staged prepared) e) s)
        (\<lambda>err s. graceful_commit_failed env inst e err s)
        (\<lambda>commit s.
      mapping_result (\<lambda>r. with_switch_durability_result r (durability_warning commit))
       (and_do (within_reconcile_timeout env (case pg_restoration prepared of
            Some (patch, projection) \<Rightarrow> patch_and_verify env inst patch projection s
          | None \<Rightarrow> ask (\<lambda>n. is_healthy (ev_probe_now env n inst)) s)) (\<lambda>reconciled s.
        if reconciled then
          and_do (mgr_cleanup_epoch env old_epoch (install inst launch
              (publish_instance env inst (CRunning e (pid_or_default env inst s)) launch (tick s))))
            (\<lambda>_ s. ok Graceful s)
        else graceful_replace env inst launch old_epoch s))))"

definition graceful_switch ::
  "env \<Rightarrow> instance_spec \<Rightarrow> config_snapshot \<Rightarrow> resolved_features \<Rightarrow> mgr \<Rightarrow> switch_outcome result" where
  "graceful_switch env spec snap resolved s =
     (let old_epoch = map_option (in_epoch \<circ> ac_instance) (ms_current s) in
      and_do (epochs_next s) (\<lambda>e s.
      matching (prepare_graceful env spec e snap resolved s)
        (\<lambda>err s. ignoring (mgr_cleanup_epoch env e s) (\<lambda>s. fail err (republish_retained env s)))
        (\<lambda>prepared s. let launch = pg_plan prepared; full = pg_full_staged prepared in
      matching (dns_activate_for_plan env launch s)
        (\<lambda>err s. ignoring (dns_converge env s) (drop_in_mgr env full (\<lambda>s.
           ignoring (mgr_cleanup_epoch env e s) (\<lambda>s. fail err (republish_retained env s)))))
        (\<lambda>_ s.
      matching (spawn_instance env launch (publish env (CSwitching old_epoch e) (Some launch) s))
        (\<lambda>err s. drop_in_mgr env full (\<lambda>s.
           ignoring (mgr_cleanup_epoch env e s) (\<lambda>s. fail err (republish_retained env s))) s)
        (\<lambda>inst s.
      matching (call (\<lambda>n. ev_wait_ready env n inst) s)
        (\<lambda>err s. drop_in_mgr env full (graceful_reject env inst e err
           ''; failed to stop rejected graceful bootstrap: '') s)
        (\<lambda>_ s.
      matching (dns_deactivate_for_plan env launch s)
        (\<lambda>err s. drop_in_mgr env full (graceful_reject env inst e err
           ''; failed to stop graceful bootstrap after DNS restore failure: '') s)
        (\<lambda>_ s.
      and_do (retire_current env s) (\<lambda>r s. case r of
          Inl (retired, err) \<Rightarrow> drop_in_mgr env full (graceful_retire_failed env inst e retired err) s
        | Inr None \<Rightarrow> None
        | Inr (Some old) \<Rightarrow> graceful_commit env inst prepared (plan_epoch old) s))))))))"

section \<open>The switch transaction\<close>

definition has_http :: "mapping \<Rightarrow> bool" where
  "has_http doc \<longleftrightarrow> list_ex (\<lambda>field. is_some_and (Option.bind (mapping_get doc field) as_str) (\<lambda>v. v \<noteq> []))
     [''external-controller'', ''external-controller-tls'']"

definition switch_locked :: "env \<Rightarrow> instance_spec \<Rightarrow> mgr \<Rightarrow> switch_outcome result" where
  "switch_locked env spec s =
     and_do (runtime_alive env s) (\<lambda>running s.
     if \<not> running then
       and_do (discard_stale env s) (\<lambda>_ s.
       and_do (start_locked env spec s) (\<lambda>_ s. ok (Hard NotRunning) s))
     else
       and_do (load_snapshot env (sp_config_path spec) s) (\<lambda>snap s.
       and_do (validate_launchable env spec s) (\<lambda>_ s.
       and_do (mgr_resolve_features env spec s) (\<lambda>resolved s.
       let http_listener = (is_some_and (ms_current s) (\<lambda>a. has_http (pl_effective_document (ac_plan a)))
             \<or> lis_keep_http_controller (spec_local_ipc_settings env spec) \<and> has_http (sn_document snap))
       in if ev_native_dir env \<noteq> None then
            and_do (hard_switch env spec snap resolved s) (\<lambda>_ s. ok (Hard NativeStoreShared) s)
          else case graceful_degrade_reason (LocalIpc \<in> set (rf_runtime resolved) \<and> \<not> http_listener)
               (co_kind (sp_core spec)) (Config.overlap_block (sn_document snap)) of
            Some reason \<Rightarrow> and_do (hard_switch env spec snap resolved s) (\<lambda>_ s. ok (Hard reason) s)
          | None \<Rightarrow> graceful_switch env spec snap resolved s))))"

definition switch :: "env \<Rightarrow> instance_spec \<Rightarrow> mgr \<Rightarrow> switch_outcome result" where
  "switch env spec s =
     and_do (reject_quarantine s) (\<lambda>_ s. finish_dns_converge env (switch_locked env spec s))"

definition restart :: "env \<Rightarrow> mgr \<Rightarrow> switch_outcome result" where
  "restart env s =
     and_do (reject_quarantine s) (\<lambda>_ s. case ms_last_spec s of
         None \<Rightarrow> fail NotStarted s
       | Some spec \<Rightarrow> finish_dns_converge env (switch_locked env spec s))"

end
