(* ===== verification/Apply.thy ===== *)
theory Apply
  imports Switching
begin

text \<open>
  Applying a configuration to a running core, with its compensations (\<open>manager/apply.rs\<close>), and the
  convergence entry point (\<open>manager/reconcile.rs\<close>).
\<close>

datatype apply_outcome =
    Started config_revision
  | OutcomeNoop config_revision
  | Patched config_revision
  | Reloaded config_revision
  | Restarted config_revision
  | Switched config_revision
  | RolledBack config_revision string
  | ApplyDurabilityUncertain apply_outcome string

definition with_durability_warning :: "apply_outcome \<Rightarrow> string option \<Rightarrow> apply_outcome" where
  "with_durability_warning outcome warning = (case warning of
     Some w \<Rightarrow> ApplyDurabilityUncertain outcome w | None \<Rightarrow> outcome)"

definition with_durability_result :: "error + apply_outcome \<Rightarrow> string option \<Rightarrow> error + apply_outcome" where
  "with_durability_result result warning = (case (result, warning) of
       (Inr outcome, warning) \<Rightarrow> Inr (with_durability_warning outcome warning)
     | (Inl e, Some w) \<Rightarrow> Inl (DurabilityUncertain e w)
     | (Inl e, None) \<Rightarrow> Inl e)"

section \<open>Preparing\<close>

record prepared_apply =
  pa_plan :: epoch_plan
  pa_staged :: staged

definition prepare_apply ::
  "env \<Rightarrow> active \<Rightarrow> instance_spec \<Rightarrow> config_snapshot \<Rightarrow> mgr \<Rightarrow> prepared_apply result" where
  "prepare_apply env current input snap s =
     (let e = plan_epoch (ac_plan current) in
      and_do (validate_launchable env input s) (\<lambda>_ s.
      and_do (mgr_resolve_features env input s) (\<lambda>resolved s.
      and_do (prepare_document env input e snap resolved False s) (\<lambda>prepared s.
      and_do (rebase_native env input prepared s) (\<lambda>prepared s.
      and_do (stage_checked env input e (pc_bytes prepared) s) (\<lambda>sg s.
      ok \<lparr>pa_plan = make_plan env input prepared resolved snap e
            (cr_generation (pl_revision (ac_plan current)) + 1)
            (cr_runtime_path (pl_revision (ac_plan current)))
            (path_show (st_dir (ms_store s), pid_path e)),
          pa_staged = sg\<rparr> s))))))"

definition reconcile_in_place ::
  "env \<Rightarrow> active \<Rightarrow> config_change \<Rightarrow> epoch_plan \<Rightarrow> mgr \<Rightarrow> bool result" where
  "reconcile_in_place env current change desired s = (case change of
       Patch patch projection \<Rightarrow> patch_and_verify env (ac_instance current) patch projection s
     | Switch \<Rightarrow> ok False s
     | Noop \<Rightarrow> ok True s
     | Reload \<Rightarrow>
         matching (call (\<lambda>n. ev_control_client env n (in_controller (ac_instance current))) s)
           (\<lambda>_ s. ok False s)
           (\<lambda>_ s. matching (call (\<lambda>n. ev_update_config env n (ac_instance current)
               (cr_runtime_path (pl_revision desired))) s)
             (\<lambda>_ s. ok False s)
             (\<lambda>_ s. ask (\<lambda>n. is_healthy (ev_probe_now env n (ac_instance current))) s)))"

section \<open>Compensation\<close>

definition install_and_publish :: "env \<Rightarrow> runtime_instance \<Rightarrow> epoch_plan \<Rightarrow> mgr \<Rightarrow> mgr" where
  "install_and_publish env inst plan s =
     (let pid = pid_or_default env inst s
      in publish_active env \<lparr>ac_instance = inst, ac_plan = plan\<rparr> (CRunning (plan_epoch plan) pid)
           (install inst plan (tick s)))"

text \<open>Relaunching the old plan after the desired one was rejected; shared by both compensations.\<close>

definition rollback_to ::
  "env \<Rightarrow> epoch_plan \<Rightarrow> string \<Rightarrow> string \<Rightarrow> (mgr \<Rightarrow> mgr option) \<Rightarrow> mgr \<Rightarrow> apply_outcome result" where
  "rollback_to env old apply_text what after s =
     matching (spawn_replacement env old
         (publish env (CRestarting (plan_epoch old) 0) (Some old) s))
       (\<lambda>err s. if is_stop_unconfirmed err then
            latch_quarantine env (plan_epoch old) (StopUnconfirmed (''desired '' @ what @ '' failed (''
              @ apply_text @ ''); rollback replacement '' @ error_to_string err)) s
          else let e = ApplyRollbackFailed apply_text (error_to_string err)
            in fail e (publish_terminal_error env e s))
       (\<lambda>inst s. Option.bind (after (install_and_publish env inst old s)) (\<lambda>s.
          ok (RolledBack (pl_revision old) apply_text) s))"

definition forget_backup :: "env \<Rightarrow> config_backup \<Rightarrow> mgr \<Rightarrow> mgr option" where
  "forget_backup env b s = map_option snd (in_store (remove_backup (ev_store env) b) s)"

definition restart_with_compensation ::
  "env \<Rightarrow> epoch_plan \<Rightarrow> config_backup \<Rightarrow> mgr \<Rightarrow> apply_outcome result" where
  "restart_with_compensation env desired bk s =
     and_do (dns_deactivate_for_plan env desired s) (\<lambda>_ s.
     and_do (retire_current env s) (\<lambda>r s. case r of
         Inl (retired, err) \<Rightarrow>
           if is_stop_unconfirmed err then latch_quarantine env retired err s
           else let e = ApplyFailed (''failed to stop current epoch for reconcile: ''
                  @ error_to_string err)
             in fail e (publish_terminal_error env e s)
       | Inr None \<Rightarrow> None
       | Inr (Some old) \<Rightarrow>
           matching (spawn_replacement env desired
               (publish env (CRestarting (plan_epoch desired) 0) (Some desired) s))
             (\<lambda>err s. if is_stop_unconfirmed err then latch_quarantine env (plan_epoch desired) err s
                else let apply_text = error_to_string err in
                  matching (in_store (restore (ev_store env) bk) s)
                    (\<lambda>restore_err s.
                       let e = ApplyRollbackFailed apply_text
                         (''runtime restore failed: '' @ error_to_string restore_err)
                       in fail e (publish_terminal_error env e s))
                    (\<lambda>restored s. mapping_result
                       (\<lambda>r. with_durability_result r (durability_warning restored))
                       (rollback_to env old apply_text ''apply'' (forget_backup env bk) s)))
             (\<lambda>inst s. Option.bind (forget_backup env bk (install_and_publish env inst desired s))
                (\<lambda>s. ok (Restarted (pl_revision desired)) s))))"

definition switch_with_compensation ::
  "env \<Rightarrow> instance_spec \<Rightarrow> config_snapshot \<Rightarrow> mgr \<Rightarrow> apply_outcome result" where
  "switch_with_compensation env input snap s =
     and_do (epochs_next s) (\<lambda>e s.
     and_do (prepare_launch env input e snap s) (\<lambda>desired s.
     matching (dns_deactivate_for_plan env desired s)
       (\<lambda>err s. ignoring (mgr_cleanup_epoch env e s) (fail err))
       (\<lambda>_ s.
     and_do (retire_current env s) (\<lambda>r s. case r of
         Inl (retired, err) \<Rightarrow> ignoring (mgr_cleanup_epoch env e s) (\<lambda>s.
           if is_stop_unconfirmed err then latch_quarantine env retired err s
           else let e = ApplyFailed (''failed to stop current epoch for switch: '' @ error_to_string err)
             in fail e (publish_terminal_error env e s))
       | Inr None \<Rightarrow> None
       | Inr (Some old) \<Rightarrow>
           matching (spawn_replacement env desired
               (publish env (CSwitching (Some (plan_epoch old)) (plan_epoch desired)) (Some desired) s))
             (\<lambda>err s. if is_stop_unconfirmed err then latch_quarantine env (plan_epoch desired) err s
                else ignoring (mgr_cleanup_epoch env e s) (\<lambda>s.
                  rollback_to env old (error_to_string err) ''switch'' Some s))
             (\<lambda>inst s. ignoring (mgr_cleanup_epoch env (plan_epoch old)
                  (install_and_publish env inst desired s)) (\<lambda>s.
                ok (Switched (pl_revision desired)) s))))))"

section \<open>The apply transaction\<close>

definition retain_spec :: "instance_spec \<Rightarrow> mgr \<Rightarrow> mgr" where
  "retain_spec input s = s\<lparr>ms_current := map_option (\<lambda>a. a\<lparr>ac_plan := (ac_plan a)\<lparr>pl_source_spec := input\<rparr>\<rparr>)
       (ms_current s), ms_last_spec := Some input\<rparr>"

definition apply_reconciled ::
  "env \<Rightarrow> active \<Rightarrow> config_change \<Rightarrow> epoch_plan \<Rightarrow> config_backup \<Rightarrow> config_commit \<Rightarrow> mgr \<Rightarrow> apply_outcome result"
where
  "apply_reconciled env current change desired bk commit s =
     (let active = current\<lparr>ac_plan := desired\<rparr>; revision = pl_revision desired;
          pid = pid_or_default env (ac_instance current) s;
          s = publish_active env active (CRunning (cr_epoch revision) pid)
            (tick (s\<lparr>ms_current := Some active\<rparr>));
          s = s\<lparr>ms_last_spec := Some (pl_source_spec desired)\<rparr>
      in Option.bind (forget_backup env bk s) (\<lambda>s. case change of
           Patch _ _ \<Rightarrow> ok (with_durability_warning (Patched revision) (durability_warning commit)) s
         | Reload \<Rightarrow> ok (with_durability_warning (Reloaded revision) (durability_warning commit)) s
         | _ \<Rightarrow> None))"

definition apply_in_place ::
  "env \<Rightarrow> active \<Rightarrow> prepared_apply \<Rightarrow> config_change \<Rightarrow> config_backup \<Rightarrow> mgr \<Rightarrow> apply_outcome result" where
  "apply_in_place env current prepared change bk s =
     (let desired = pa_plan prepared; drop_prepared = drop_in_mgr env (pa_staged prepared) in
      matching (dns_deactivate_for_plan env desired s)
        (\<lambda>err s. Option.bind (forget_backup env bk s) (drop_prepared (fail err)))
        (\<lambda>_ s.
      matching (dns_activate_for_plan env desired s)
        (\<lambda>err s. ignoring (dns_converge env s) (\<lambda>s.
           Option.bind (forget_backup env bk s) (drop_prepared (fail err))))
        (\<lambda>_ s.
      matching (in_store (commit_replace (ev_store env) (pa_staged prepared) (plan_epoch desired)) s)
        (\<lambda>err s. ignoring (dns_converge env s) (\<lambda>s.
           Option.bind (forget_backup env bk s) (fail err)))
        (\<lambda>commit s.
      and_do (within_reconcile_timeout env (reconcile_in_place env current change desired s)) (\<lambda>reconciled s.
      if reconciled then apply_reconciled env current change desired bk commit s
      else mapping_result (\<lambda>r. with_durability_result r (durability_warning commit))
             (restart_with_compensation env desired bk s))))))"

definition apply_locked ::
  "env \<Rightarrow> instance_spec \<Rightarrow> revision_id option \<Rightarrow> mgr \<Rightarrow> apply_outcome result" where
  "apply_locked env input expected s = (case ms_current s of
       None \<Rightarrow> fail NotStarted s
     | Some current \<Rightarrow>
         and_do (ask (\<lambda>n. is_terminal (is_state (ev_state env n (ac_instance current)))) s) (\<lambda>terminal s.
         if terminal then fail NotStarted s
         else let actual = revision_id_of (pl_revision (ac_plan current)) in
           if expected \<noteq> None \<and> expected \<noteq> Some actual then
             fail (RevisionConflict (the expected) (Some actual)) s
           else
             and_do (load_snapshot env (sp_config_path input) s) (\<lambda>snap s.
             and_do (prepare_apply env current input snap s) (\<lambda>prepared s.
             let drop_prepared = drop_in_mgr env (pa_staged prepared) in
             case classify (ev_ext env) (classification_view (ac_plan current))
                    (classification_view (pa_plan prepared)) of
               Inl err \<Rightarrow> drop_prepared (fail err) s
             | Inr Noop \<Rightarrow> drop_prepared (ok (OutcomeNoop (pl_revision (ac_plan current)))) (retain_spec input s)
             | Inr Switch \<Rightarrow> drop_prepared (switch_with_compensation env input snap) s
             | Inr change \<Rightarrow>
                 matching (in_store (backup (ev_store env) (plan_epoch (ac_plan current))
                     (cr_generation (pl_revision (pa_plan prepared)))) s)
                   (\<lambda>err s. drop_prepared (fail err) s)
                   (\<lambda>b s. apply_in_place env current prepared change b s)))))"

definition apply_config :: "env \<Rightarrow> instance_spec \<Rightarrow> revision_id option \<Rightarrow> mgr \<Rightarrow> apply_outcome result" where
  "apply_config env input expected s =
     and_do (reject_quarantine s) (\<lambda>_ s. finish_dns_converge env (apply_locked env input expected s))"

section \<open>Reconcile\<close>

definition reconcile_locked ::
  "env \<Rightarrow> instance_spec \<Rightarrow> revision_id option \<Rightarrow> mgr \<Rightarrow> apply_outcome result" where
  "reconcile_locked env spec expected s =
     and_do (runtime_alive env s) (\<lambda>running s.
     if running then apply_locked env spec expected s
     else case expected of
       Some x \<Rightarrow> fail (RevisionConflict x None) s
     | None \<Rightarrow>
         and_do (discard_stale env s) (\<lambda>_ s.
         and_do (start_locked env spec s) (\<lambda>_ s. case ms_current s of
             None \<Rightarrow> None
           | Some active \<Rightarrow> ok (Started (pl_revision (ac_plan active))) s)))"

definition reconcile :: "env \<Rightarrow> instance_spec \<Rightarrow> revision_id option \<Rightarrow> mgr \<Rightarrow> apply_outcome result" where
  "reconcile env spec expected s =
     and_do (reject_quarantine s) (\<lambda>_ s. finish_dns_converge env (reconcile_locked env spec expected s))"

end
