(* ===== verification/Digits.thy ===== *)
theory Digits
  imports Config
begin

text \<open>
  Numbers in text: \<open>str::parse::<u32>\<close>, and the lower case hexadecimal digits of operation identities,
  digests and process records.
\<close>

definition parse_u32 :: "string \<Rightarrow> u32 option" where
  "parse_u32 s = Option.bind (parse_u64 s) (\<lambda>n. if unat n < 2 ^ 32 then Some (ucast n) else None)"

lemma parse_u32_show_nat [simp]: "parse_u32 (show_nat (unat (w :: u32))) = Some w"
proof -
  have small: "unat w < 2 ^ 32" using unsigned_less [of w] by simp
  then have eq: "unat (ucast w :: u64) = unat w" by (simp add: unsigned_ucast_eq take_bit_nat_eq_self_iff)
  then have "parse_u64 (show_nat (unat w)) = Some (ucast w)"
    using parse_u64_show_nat [of "ucast w :: u64"] by simp
  moreover have "ucast (ucast w :: u64) = w" by (rule bit_word_eqI) (simp add: bit_simps)
  ultimately show ?thesis using small eq by (simp add: parse_u32_def)
qed

text \<open>A number padded with zeros to a width, as the format \<open>{:0width}\<close> prints it.\<close>

definition pad_zeros :: "nat \<Rightarrow> string \<Rightarrow> string" where
  "pad_zeros width s = replicate (width - length s) (CHR ''0'') @ s"

lemma digits_value_zeros: "digits_value (replicate n (CHR ''0'') @ s) = digits_value s"
  by (induction n) (simp_all add: digits_value_def)

lemma pad_zeros_digits: "list_all is_digit s \<Longrightarrow> list_all is_digit (pad_zeros width s)"
  by (auto simp: pad_zeros_def list_all_iff is_digit_def)

definition as_bytes :: "string \<Rightarrow> bytes" where
  "as_bytes s = map (\<lambda>c. of_nat (of_char c)) s"

definition is_lower_hex :: "char \<Rightarrow> bool" where
  "is_lower_hex c \<longleftrightarrow> is_digit c \<or> 97 \<le> (of_char c :: nat) \<and> (of_char c :: nat) \<le> 102"

definition hex_value :: "char \<Rightarrow> nat" where
  "hex_value c = (if is_digit c then of_char c - 48 else of_char c - 87)"

lemma hex_digit_lower: "n < 16 \<Longrightarrow> is_lower_hex (hex_digit n) \<and> hex_value (hex_digit n) = n"
proof -
  assume "n < 16"
  then have "n \<in> {0, 1, 2, 3, 4, 5, 6, 7, 8, 9, 10, 11, 12, 13, 14, 15}" unfolding insert_iff empty_iff by arith
  then show ?thesis
    by (elim insertE emptyE) (simp_all add: hex_digit_def is_lower_hex_def hex_value_def is_digit_def)
qed

lemma lower_hex_digit:
  assumes "is_lower_hex c"
  shows "hex_value c < 16 \<and> hex_digit (hex_value c) = c"
proof -
  have "c = char_of (of_char c :: nat)" by simp
  moreover have "(of_char c :: nat) \<in> {48, 49, 50, 51, 52, 53, 54, 55, 56, 57, 97, 98, 99, 100, 101, 102}"
    using assms unfolding is_lower_hex_def is_digit_def insert_iff empty_iff by arith
  ultimately show ?thesis
    by (elim insertE emptyE) (auto simp: hex_value_def hex_digit_def is_digit_def char_of_def bit_Suc_0_iff)
qed

end
