(* ===== verification/Operations.thy ===== *)
theory Operations
  imports Apply Digits
begin

text \<open>
  Commands of the control plane and the registry of operations (\<open>control/mod.rs\<close>,
  \<open>control/executor.rs\<close>): operation identities and their text, the digest that makes a command
  idempotent, and the bounded table that answers re-submitted and queried operations. A channel that
  watches an operation is the state stored in its entry.
\<close>

section \<open>Operation identities\<close>

record operation_id =
  oi_nanos :: u64
  oi_pid :: u32
  oi_counter :: u32

fun hex_width :: "nat \<Rightarrow> nat \<Rightarrow> string" where
  "hex_width 0 n = []"
| "hex_width (Suc w) n = hex_width w (n div 16) @ [hex_digit (n mod 16)]"

definition operation_id_show :: "operation_id \<Rightarrow> string" where
  "operation_id_show i = hex_width 16 (unat (oi_nanos i)) @ ''-'' @ hex_width 8 (unat (oi_pid i)) @ ''-''
     @ hex_width 8 (unat (oi_counter i))"

text \<open>\<open>from_str_radix\<close> with base 16 on text that is known to have lower case digits or dashes.\<close>

definition from_hex :: "string \<Rightarrow> nat option" where
  "from_hex s = (if s \<noteq> [] \<and> list_all is_lower_hex s then Some (foldl (\<lambda>v c. v * 16 + hex_value c) 0 s) else None)"

definition operation_id_parse :: "string \<Rightarrow> operation_id option" where
  "operation_id_parse value =
     Option.bind (split_once ''-'' value) (\<lambda>(nanos, rest).
     Option.bind (split_once ''-'' rest) (\<lambda>(pid, counter).
     if length nanos \<noteq> 16 \<or> length pid \<noteq> 8 \<or> length counter \<noteq> 8
        \<or> \<not> list_all (\<lambda>c. c = CHR ''-'' \<or> is_lower_hex c) value then None
     else Option.bind (from_hex nanos) (\<lambda>nanos.
       Option.bind (from_hex pid) (\<lambda>pid.
       map_option (\<lambda>counter. \<lparr>oi_nanos = of_nat nanos, oi_pid = of_nat pid, oi_counter = of_nat counter\<rparr>)
         (from_hex counter)))))"

section \<open>Commands\<close>

definition payload_digest :: "bytes \<Rightarrow> string" where
  "payload_digest bytes = hex16 (fnv1a bytes)"

datatype config_input = Inline (ci_bytes: bytes) (ci_expected_digest: "string option")

record reconcile_request =
  rq_core :: core_spec
  rq_config :: config_input
  rq_options :: instance_options
  rq_expected :: "revision_id option"

datatype core_command = CmdReconcile reconcile_request | CmdStop | CmdRecover | CmdShutdown

definition nul :: string where
  "nul = [CHR 0x00]"

definition policy_debug :: "local_ipc_policy \<Rightarrow> string" where
  "policy_debug p = (case p of Force \<Rightarrow> ''Force'' | Prefer \<Rightarrow> ''Prefer'' | Disable \<Rightarrow> ''Disable'')"

definition local_ipc_debug :: "local_ipc_settings option \<Rightarrow> string" where
  "local_ipc_debug s = (case s of
       None \<Rightarrow> ''None''
     | Some l \<Rightarrow> ''Some(LocalIpcSettings { policy: '' @ policy_debug (lis_policy l) @ '', keep_http_controller: ''
         @ (if lis_keep_http_controller l then ''true'' else ''false'') @ '' })'')"

definition reconcile_identity :: "reconcile_request \<Rightarrow> string" where
  "reconcile_identity rq =
     ''reconcile'' @ nul @ core_kind_as_ref (co_kind (rq_core rq)) @ nul @ co_binary_path (rq_core rq) @ nul
     @ (case co_version (rq_core rq) of None \<Rightarrow> [] | Some v \<Rightarrow> v) @ nul
     @ concat (map (\<lambda>feature. feature @ nul) (co_features (rq_core rq)))
     @ (case rq_expected rq of None \<Rightarrow> [] | Some x \<Rightarrow> revision_show x)
     @ nul @ ''controller:'' @ local_ipc_debug (io_local_ipc (rq_options rq)) @ nul"

definition command_digest :: "core_command \<Rightarrow> string" where
  "command_digest command = (case command of
       CmdReconcile rq \<Rightarrow> payload_digest (as_bytes (reconcile_identity rq) @ ci_bytes (rq_config rq)
         @ as_bytes (nul @ ''digest:'') @ as_bytes (case ci_expected_digest (rq_config rq) of None \<Rightarrow> [] | Some d \<Rightarrow> d))
     | CmdStop \<Rightarrow> payload_digest (as_bytes ''stop'')
     | CmdRecover \<Rightarrow> payload_digest (as_bytes ''recover'')
     | CmdShutdown \<Rightarrow> payload_digest (as_bytes ''shutdown''))"

section \<open>Results\<close>

datatype operation_output = OutReconciled apply_outcome | OutStopped | OutRecovered | OutShutDown

record core_error =
  ce_kind :: "core_error_kind option"
  ce_message :: string
  ce_retryable :: bool
  ce_operation :: "operation_id option"

definition core_error_new :: "core_error_kind \<Rightarrow> string \<Rightarrow> bool \<Rightarrow> core_error" where
  "core_error_new kind message retryable =
     \<lparr>ce_kind = Some kind, ce_message = message, ce_retryable = retryable, ce_operation = None\<rparr>"

definition from_domain :: "error \<Rightarrow> operation_id option \<Rightarrow> core_error" where
  "from_domain err operation =
     \<lparr>ce_kind = error_kind err, ce_message = error_to_string err,
      ce_retryable = (case error_kind err of None \<Rightarrow> False | Some k \<Rightarrow> default_retryable k),
      ce_operation = operation\<rparr>"

definition with_operation :: "operation_id \<Rightarrow> core_error \<Rightarrow> core_error" where
  "with_operation i e = e\<lparr>ce_operation := Some i\<rparr>"

datatype operation_state = OpQueued | OpRunning | OpSucceeded operation_output | OpFailed core_error

definition op_terminal :: "operation_state \<Rightarrow> bool" where
  "op_terminal state \<longleftrightarrow> (case state of OpSucceeded _ \<Rightarrow> True | OpFailed _ \<Rightarrow> True | _ \<Rightarrow> False)"

lemma op_terminal_simps [simp]:
  "\<not> op_terminal OpQueued" "\<not> op_terminal OpRunning" "op_terminal (OpSucceeded out)" "op_terminal (OpFailed e)"
  by (simp_all add: op_terminal_def)

section \<open>The registry\<close>

record registered =
  ro_digest :: string
  ro_sequence :: u64
  ro_state :: operation_state

record registry =
  rg_operations :: "(operation_id \<times> registered) list"
  rg_order :: "operation_id list"
  rg_next_sequence :: u64

definition registry_new :: registry where
  "registry_new = \<lparr>rg_operations = [], rg_order = [], rg_next_sequence = 0\<rparr>"

definition rg_get :: "operation_id \<Rightarrow> registry \<Rightarrow> registered option" where
  "rg_get i r = map_of (rg_operations r) i"

definition rg_remove :: "operation_id \<Rightarrow> registry \<Rightarrow> registry" where
  "rg_remove i r = r\<lparr>rg_operations := filter (\<lambda>p. fst p \<noteq> i) (rg_operations r)\<rparr>"

definition rg_insert :: "operation_id \<Rightarrow> registered \<Rightarrow> registry \<Rightarrow> registry" where
  "rg_insert i op r = r\<lparr>rg_operations := (i, op) # filter (\<lambda>p. fst p \<noteq> i) (rg_operations r)\<rparr>"

text \<open>\<open>Registry::set\<close>, \<open>Registry::get\<close>.\<close>

definition rg_set :: "operation_id \<Rightarrow> operation_state \<Rightarrow> registry \<Rightarrow> registry" where
  "rg_set i state r = r\<lparr>rg_operations := map (\<lambda>(j, op). (j, if j = i then op\<lparr>ro_state := state\<rparr> else op)) (rg_operations r)\<rparr>"

definition rg_state :: "operation_id \<Rightarrow> registry \<Rightarrow> operation_state option" where
  "rg_state i r = map_option ro_state (rg_get i r)"

definition evictable :: "registry \<Rightarrow> operation_id \<Rightarrow> bool" where
  "evictable r i \<longleftrightarrow> (case rg_get i r of None \<Rightarrow> False | Some op \<Rightarrow> op_terminal (ro_state op))"

text \<open>The eviction loop: the oldest terminal entries go until there is room or none is left.\<close>

function evict :: "nat \<Rightarrow> registry \<Rightarrow> registry" where
  "evict capacity r =
     (if length (rg_operations r) < capacity then r
      else case List.extract (evictable r) (rg_order r) of
        None \<Rightarrow> r
      | Some (before, i, after) \<Rightarrow> evict capacity (rg_remove i (r\<lparr>rg_order := before @ after\<rparr>)))"
  by auto
termination
  by (relation "measure (\<lambda>(_, r). length (rg_order r))") (auto simp: rg_remove_def extract_Some_iff)

declare evict.simps [simp del]

datatype send_error = QueueFullError | QueueClosedError

text \<open>\<open>Admission\<close>: whether the entry is new, its sequence number and its state.\<close>

record admitted =
  ad_new :: bool
  ad_sequence :: u64
  ad_state :: operation_state

definition admit ::
  "nat \<Rightarrow> operation_id \<Rightarrow> string \<Rightarrow> send_error option \<Rightarrow> registry \<Rightarrow> (core_error + admitted) \<times> registry" where
  "admit capacity i digest enqueue r = (case rg_get i r of
       Some existing \<Rightarrow>
         if ro_digest existing = digest
         then (Inr \<lparr>ad_new = False, ad_sequence = ro_sequence existing, ad_state = ro_state existing\<rparr>, r)
         else (Inl (with_operation i (core_error_new KOperationConflict
             (''operation '' @ operation_id_show i @ '' was already submitted with a different payload'') False)), r)
     | None \<Rightarrow>
         let r = evict capacity r; sequence = rg_next_sequence r;
             op = \<lparr>ro_digest = digest, ro_sequence = sequence, ro_state = OpQueued\<rparr>;
             r' = (rg_insert i op r)\<lparr>rg_order := rg_order r @ [i], rg_next_sequence := sequence + 1\<rparr>
         in case enqueue of
              None \<Rightarrow> (Inr \<lparr>ad_new = True, ad_sequence = sequence, ad_state = OpQueued\<rparr>, r')
            | Some err \<Rightarrow> (Inl (with_operation i (case err of
                  QueueFullError \<Rightarrow> core_error_new KQueueFull ''the operation queue is full'' True
                | QueueClosedError \<Rightarrow> core_error_new KInternal ''the control executor is gone'' False)),
                (rg_remove i r')\<lparr>rg_order := butlast (rg_order r')\<rparr>))"

definition live_registry_capacity :: "nat \<Rightarrow> nat \<Rightarrow> nat" where
  "live_registry_capacity registry_capacity queue_capacity =
     max registry_capacity (min (queue_capacity + 1) (2 ^ 64 - 1))"

section \<open>Identities are read back\<close>

lemma length_hex_width [simp]: "length (hex_width w n) = w"
  by (induction w arbitrary: n) simp_all

lemma hex_width_lower: "list_all is_lower_hex (hex_width w n)"
  by (induction w arbitrary: n) (simp_all add: hex_digit_lower)

lemma foldl_hex_width: "foldl (\<lambda>v c. v * 16 + hex_value c) 0 (hex_width w n) = n mod 16 ^ w"
proof (induction w arbitrary: n)
  case (Suc w)
  have "n mod 16 ^ Suc w = (n div 16) mod 16 ^ w * 16 + n mod 16"
    by (simp add: mod_mult2_eq mult.commute)
  with Suc show ?case by (simp add: hex_digit_lower)
qed simp

lemma from_hex_width: "w \<noteq> 0 \<Longrightarrow> n < 16 ^ w \<Longrightarrow> from_hex (hex_width w n) = Some n"
  by (cases w) (auto simp: from_hex_def hex_width_lower [unfolded list_all_iff] list_all_iff foldl_hex_width
      simp flip: hex_width.simps(2) dest: arg_cong [of _ _ length])

lemma hex_width_foldl:
  "list_all is_lower_hex s \<Longrightarrow> hex_width (length s) (foldl (\<lambda>v c. v * 16 + hex_value c) 0 s) = s
     \<and> foldl (\<lambda>v c. v * 16 + hex_value c) 0 s < 16 ^ length s"
proof (induction s rule: rev_induct)
  case (snoc c s)
  then show ?case using lower_hex_digit [of c] by simp
qed simp

lemma hex_width_from:
  assumes "from_hex s = Some n"
  shows "hex_width (length s) n = s" "n < 16 ^ length s"
  using assms hex_width_foldl [of s] by (auto simp: from_hex_def split: if_splits)

lemma split_once_dash: "CHR ''-'' \<notin> set a \<Longrightarrow> split_once ''-'' (a @ CHR ''-'' # b) = Some (a, b)"
  by (induction a) (auto simp: starts_with_def)

lemma lower_hex_not_dash: "list_all is_lower_hex s \<Longrightarrow> CHR ''-'' \<notin> set s"
  by (auto simp: list_all_iff is_lower_hex_def is_digit_def)

lemma operation_id_parse_show: "operation_id_parse (operation_id_show i) = Some i"
proof -
  have "list_all (\<lambda>c. c = CHR ''-'' \<or> is_lower_hex c) (operation_id_show i)"
    using hex_width_lower by (auto simp: operation_id_show_def list_all_iff)
  moreover have "unat (oi_nanos i) < 16 ^ 16" "unat (oi_pid i) < 16 ^ 8" "unat (oi_counter i) < 16 ^ 8"
    using unsigned_less [of "oi_nanos i"] unsigned_less [of "oi_pid i"] unsigned_less [of "oi_counter i"] by simp_all
  ultimately show ?thesis
    unfolding operation_id_parse_def
    by (simp add: operation_id_show_def split_once_dash [OF lower_hex_not_dash [OF hex_width_lower]] from_hex_width)
qed

text \<open>An operation identity is read from exactly the texts that printing produces: printing and reading
  are inverse, upper case digits, other widths and stray signs are refused.\<close>

theorem operation_id_roundtrip: "operation_id_parse s = Some i \<longleftrightarrow> s = operation_id_show i"
proof
  assume "s = operation_id_show i"
  then show "operation_id_parse s = Some i" by (simp add: operation_id_parse_show)
next
  assume "operation_id_parse s = Some i"
  then obtain a b c n p k where s: "s = a @ ''-'' @ b @ ''-'' @ c" "length a = 16" "length b = 8" "length c = 8"
    and hex: "from_hex a = Some n" "from_hex b = Some p" "from_hex c = Some k"
    and i: "i = \<lparr>oi_nanos = of_nat n, oi_pid = of_nat p, oi_counter = of_nat k\<rparr>"
    by (fastforce simp: operation_id_parse_def bind_eq_Some_conv split: if_splits dest!: split_once_Some)
  have "n < 2 ^ 64" "p < 2 ^ 32" "k < 2 ^ 32"
    using hex_width_from(2) [OF hex(1)] hex_width_from(2) [OF hex(2)] hex_width_from(2) [OF hex(3)] s by simp_all
  then have "unat (of_nat n :: u64) = n" "unat (of_nat p :: u32) = p" "unat (of_nat k :: u32) = k"
    by (simp_all add: unat_of_nat)
  then show "s = operation_id_show i"
    using hex_width_from(1) [OF hex(1)] hex_width_from(1) [OF hex(2)] hex_width_from(1) [OF hex(3)] s i
    by (simp add: operation_id_show_def)
qed

section \<open>What the registry keeps\<close>

definition rg_wf :: "registry \<Rightarrow> bool" where
  "rg_wf r \<longleftrightarrow> distinct (rg_order r) \<and> distinct (map fst (rg_operations r))
     \<and> set (rg_order r) = fst ` set (rg_operations r)"

lemma rg_wf_new [simp]: "rg_wf registry_new"
  by (simp add: rg_wf_def registry_new_def)

lemma rg_get_simps [simp]:
  "rg_get j (rg_remove i r) = (if j = i then None else rg_get j r)"
  "rg_get j (rg_insert i op r) = (if j = i then Some op else rg_get j r)"
  "rg_get j (r\<lparr>rg_order := xs\<rparr>) = rg_get j r"
  "rg_get j (r\<lparr>rg_next_sequence := n\<rparr>) = rg_get j r"
  "rg_get j registry_new = None"
  by (simp_all add: rg_get_def rg_remove_def rg_insert_def registry_new_def map_of_filter_key)

lemma rg_get_set [simp]:
  "rg_get j (rg_set i st r) = (if j = i then map_option (\<lambda>op. op\<lparr>ro_state := st\<rparr>) (rg_get j r) else rg_get j r)"
proof -
  have "map_of (map (\<lambda>(j, op). (j, if j = i then op\<lparr>ro_state := st\<rparr> else op)) xs) j =
      (if j = i then map_option (\<lambda>op. op\<lparr>ro_state := st\<rparr>) (map_of xs j) else map_of xs j)" for xs
    by (induction xs) auto
  from this [of "rg_operations r"] show ?thesis by (simp add: rg_get_def rg_set_def)
qed

lemma rg_set_wf [simp]: "rg_wf (rg_set i st r) = rg_wf r"
  by (auto simp: rg_wf_def rg_set_def comp_def case_prod_beta image_image)

lemma rg_set_length [simp]: "length (rg_operations (rg_set i st r)) = length (rg_operations r)"
  by (simp add: rg_set_def)

lemma rg_set_next [simp]: "rg_next_sequence (rg_set i st r) = rg_next_sequence r"
  by (simp add: rg_set_def)

lemma rg_remove_wf:
  assumes "rg_wf r" "rg_order r = xs @ i # ys"
  shows "rg_wf (rg_remove i (r\<lparr>rg_order := xs @ ys\<rparr>))"
  using assms by (auto simp: rg_wf_def rg_remove_def distinct_map_filter)

lemma rg_get_iff: "rg_wf r \<Longrightarrow> rg_get j r \<noteq> None \<longleftrightarrow> j \<in> set (rg_order r)"
  by (simp add: rg_wf_def rg_get_def map_of_eq_None_iff)

definition evicted :: "registry \<Rightarrow> registry \<Rightarrow> bool" where
  "evicted r r' \<longleftrightarrow> rg_wf r' \<and> rg_next_sequence r' = rg_next_sequence r
     \<and> length (rg_operations r') \<le> length (rg_operations r)
     \<and> (\<forall>j. rg_get j r' = rg_get j r \<or> rg_get j r' = None \<and> evictable r j)"

lemma evict_spec:
  "rg_wf r \<Longrightarrow> evicted r (evict capacity r)
     \<and> (length (rg_operations (evict capacity r)) < capacity \<or> (\<forall>j. \<not> evictable (evict capacity r) j))"
proof (induction capacity r rule: evict.induct)
  case (1 capacity r)
  show ?case
  proof (cases "length (rg_operations r) < capacity")
    case True
    then show ?thesis using "1.prems" by (simp add: evict.simps [of capacity r] evicted_def)
  next
    case full: False
    show ?thesis
    proof (cases "List.extract (evictable r) (rg_order r)")
      case None
      then have "\<not> evictable r j" for j
        using rg_get_iff [OF "1.prems", of j] by (auto simp: extract_None_iff evictable_def split: option.splits)
      then show ?thesis using full None "1.prems" by (simp add: evict.simps [of capacity r] evicted_def)
    next
      case (Some p)
      obtain xs i ys where p: "p = (xs, i, ys)" by (cases p)
      let ?r = "rg_remove i (r\<lparr>rg_order := xs @ ys\<rparr>)"
      have order: "rg_order r = xs @ i # ys" "evictable r i"
        using Some p by (auto simp: extract_Some_iff)
      have wf: "rg_wf ?r" by (rule rg_remove_wf [OF "1.prems" order(1)])
      have "evict capacity r = evict capacity ?r"
        using full Some p by (simp add: evict.simps [of capacity r])
      moreover have "evicted r ?r"
        using wf order(2) by (auto simp: evicted_def rg_remove_def [of i] rg_get_def map_of_filter_key)
      moreover have "evictable ?r j \<Longrightarrow> evictable r j" for j by (auto simp: evictable_def split: if_splits)
      ultimately show ?thesis
        using "1.IH" [OF full Some, of xs "(i, ys)" i ys] p wf by (auto simp: evicted_def) metis+
    qed
  qed
qed

end
