(* ===== verification/Frames.thy ===== *)
theory Frames
  imports Apply
begin

text \<open>
  Which operations leave which part of the manager's state alone. A part is a function \<open>view\<close> of the
  state; the locale \<open>quiet_view\<close> asks that it does not depend on the runtime directory, the DNS record,
  the version cache and the call counter, and proves for every such part that the preparation, DNS
  and verification steps do not panic and keep it. It is interpreted on the core state, which
  decides safety, and on the core state together with what is published.
\<close>

named_theorems keeps_rules \<open>operations that leave the core state alone\<close>
named_theorems total_rules \<open>store operations that do not panic\<close>

section \<open>Totality of the store\<close>

definition total :: "((error + 'a) \<times> store) option \<Rightarrow> bool" where
  "total m \<longleftrightarrow> m \<noteq> None"

lemma total_Some [total_rules]: "total (Some x)"
  by (simp add: total_def)

lemma total_io [total_rules]: "total (io env act s)"
  by (simp add: total_def io_def Let_def split: option.splits)

lemma total_and_do [total_rules]: "total m \<Longrightarrow> (\<And>x s. total (f x s)) \<Longrightarrow> total (and_do m f)"
  by (auto simp: total_def and_do_def split: sum.splits)

lemma total_bind [total_rules]: "total m \<Longrightarrow> (\<And>r s. total (f (r, s))) \<Longrightarrow> total (Option.bind m f)"
  by (auto simp: total_def)

lemma total_if [total_rules]: "total a \<Longrightarrow> total b \<Longrightarrow> total (if c then a else b)"
  by simp

lemma total_case_option [total_rules]:
  "total a \<Longrightarrow> (\<And>x. total (b x)) \<Longrightarrow> total (case m of None \<Rightarrow> a | Some x \<Rightarrow> b x)"
  by (cases m) auto

lemma total_case_sum [total_rules]:
  "(\<And>e. total (a e)) \<Longrightarrow> (\<And>x. total (b x)) \<Longrightarrow> total (case m of Inl e \<Rightarrow> a e | Inr x \<Rightarrow> b x)"
  by (cases m) auto

lemma total_case_prod [total_rules]: "(\<And>a b. total (f a b)) \<Longrightarrow> total (case p of (a, b) \<Rightarrow> f a b)"
  by (cases p) auto

lemma total_case_node [total_rules]:
  "(\<And>c. total (a c)) \<Longrightarrow> total b \<Longrightarrow> total c \<Longrightarrow> total d \<Longrightarrow>
     total (case n of Regular x \<Rightarrow> a x | Symlink \<Rightarrow> b | Socket \<Rightarrow> c | Directory \<Rightarrow> d)"
  by (cases n) auto

lemma drop_staged_total: "drop_staged env sg s \<noteq> None"
  by (simp add: drop_staged_def remove_file_def io_def Let_def split: option.splits)

lemma total_or_drop [total_rules]: "total m \<Longrightarrow> total (or_drop env sg m)"
  using drop_staged_total [of env sg]
  by (auto simp: total_def or_drop_def split: sum.splits)

lemmas store_prims = symlink_metadata_def remove_file_def read_file_def create_new_def write_all_def
  hard_link_def sync_dir_def validate_absent_regular_target_def
  validate_existing_regular_target_def remove_regular_file_def atomic_move_new_def atomic_replace_def
  read_dir_def

lemma total_stage [total_rules]: "total (stage env e c s)"
  unfolding stage_def Let_def store_prims by (intro total_rules)

lemma total_validate_staged [total_rules]: "total (validate_staged env sg e s)"
  unfolding validate_staged_def store_prims by (intro total_rules)

lemma total_commit_new [total_rules]: "total (commit_new env sg e s)"
  unfolding commit_new_def store_prims by (intro total_rules)

lemma total_commit_replace [total_rules]: "total (commit_replace env sg e s)"
  unfolding commit_replace_def store_prims by (intro total_rules)

lemma total_backup [total_rules]: "total (backup env e g s)"
  unfolding backup_def store_prims by (intro total_rules)

lemma total_restore [total_rules]: "total (restore env b s)"
  unfolding restore_def replace_def store_prims by (intro total_rules)

lemma total_remove_backup [total_rules]: "total (remove_backup env b s)"
  unfolding remove_backup_def store_prims by (intro total_rules)

lemma total_sweep [total_rules]: "total (sweep env d names s)"
  by (induction env d names s rule: sweep.induct)
     (auto simp: store_prims intro!: total_rules)

lemma total_cleanup_epoch [total_rules]: "total (cleanup_epoch env e s)"
  unfolding cleanup_epoch_def cleanup_artifacts_def remove_socket_artifact_def store_prims
  by (intro total_rules)

lemma total_write_record [total_rules]: "total (write_record env c s)"
  unfolding write_record_def publish_record_def create_file_def try_exists_def store_prims
  by (intro total_rules)

lemma total_clear_record [total_rules]: "total (clear_record env s)"
  unfolding clear_record_def store_prims by (intro total_rules)

section \<open>Keeping a part of the state\<close>

definition keeps_view :: "(mgr \<Rightarrow> 'v) \<Rightarrow> mgr \<Rightarrow> 'a result \<Rightarrow> bool" where
  "keeps_view view s m \<longleftrightarrow> returns m (\<lambda>_ t. view t = view s)"

text \<open>An operation that keeps the part and whose value, if any, satisfies \<open>P\<close>.\<close>

definition yields_view :: "(mgr \<Rightarrow> 'v) \<Rightarrow> mgr \<Rightarrow> 'a result \<Rightarrow> ('a \<Rightarrow> bool) \<Rightarrow> bool" where
  "yields_view view s m P \<longleftrightarrow>
     returns m (\<lambda>r t. view t = view s \<and> (case r of Inl _ \<Rightarrow> True | Inr x \<Rightarrow> P x))"

definition plan_for :: "instance_spec \<Rightarrow> epoch \<Rightarrow> nat \<Rightarrow> epoch_plan \<Rightarrow> bool" where
  "plan_for spec e g plan \<longleftrightarrow> pl_source_spec plan = spec \<and> plan_epoch plan = e
     \<and> cr_generation (pl_revision plan) = g"

lemma make_plan_plan_for [simp]: "plan_for spec e g (make_plan env spec p r snap e g path pid)"
  by (simp add: plan_for_def make_plan_def)

locale quiet_view =
  fixes view :: "mgr \<Rightarrow> 'v"
  assumes view_tick [simp]: "view (tick s) = view s"
    and view_store [simp]: "view (s\<lparr>ms_store := sto\<rparr>) = view s"
    and view_dns [simp]: "view (s\<lparr>ms_dns_record := r\<rparr>) = view s"
    and view_cache [simp]: "view (s\<lparr>ms_version_cache := c\<rparr>) = view s"
begin

lemma keeps_ok [keeps_rules]: "view t = view s \<Longrightarrow> keeps_view view s (ok x t)"
  by (simp add: keeps_view_def ok_def)

lemma keeps_fail [keeps_rules]: "view t = view s \<Longrightarrow> keeps_view view s (fail e t)"
  by (simp add: keeps_view_def fail_def)

lemma keeps_Some [keeps_rules]: "view t = view s \<Longrightarrow> keeps_view view s (Some (r, t))"
  by (simp add: keeps_view_def)

lemma keeps_ask [keeps_rules]: "view t = view s \<Longrightarrow> keeps_view view s (ask f t)"
  by (simp add: keeps_view_def ask_def ok_def)

lemma keeps_call [keeps_rules]: "view t = view s \<Longrightarrow> keeps_view view s (call f t)"
  by (simp add: keeps_view_def call_def)

lemma keeps_in_store [keeps_rules]:
  "view t = view s \<Longrightarrow> total (op (ms_store t)) \<Longrightarrow> keeps_view view s (in_store op t)"
  by (auto simp: keeps_view_def in_store_def total_def)

lemma keeps_and_do [keeps_rules]:
  "keeps_view view s m \<Longrightarrow> (\<And>x t. view t = view s \<Longrightarrow> keeps_view view s (f x t)) \<Longrightarrow> keeps_view view s (and_do m f)"
  unfolding keeps_view_def by (rule returns_and_doI)

lemma keeps_bind [keeps_rules]:
  "keeps_view view s m \<Longrightarrow> (\<And>r t. view t = view s \<Longrightarrow> keeps_view view s (f (r, t))) \<Longrightarrow> keeps_view view s (Option.bind m f)"
  unfolding keeps_view_def by (rule returns_bindI)

lemma keeps_matching [keeps_rules]:
  "keeps_view view s m \<Longrightarrow> (\<And>e t. view t = view s \<Longrightarrow> keeps_view view s (g e t)) \<Longrightarrow> (\<And>x t. view t = view s \<Longrightarrow> keeps_view view s (f x t)) \<Longrightarrow>
     keeps_view view s (matching m g f)"
  unfolding matching_def by (rule keeps_bind) (auto split: sum.splits)

lemma keeps_ignoring [keeps_rules]:
  "keeps_view view s m \<Longrightarrow> (\<And>t. view t = view s \<Longrightarrow> keeps_view view s (f t)) \<Longrightarrow> keeps_view view s (ignoring m f)"
  unfolding ignoring_def by (rule keeps_bind) auto

lemma keeps_if [keeps_rules]:
  "(c \<Longrightarrow> keeps_view view s a) \<Longrightarrow> (\<not> c \<Longrightarrow> keeps_view view s b) \<Longrightarrow> keeps_view view s (if c then a else b)"
  by simp

lemma keeps_case_option [keeps_rules]:
  "(m = None \<Longrightarrow> keeps_view view s a) \<Longrightarrow> (\<And>x. m = Some x \<Longrightarrow> keeps_view view s (b x)) \<Longrightarrow>
     keeps_view view s (case m of None \<Rightarrow> a | Some x \<Rightarrow> b x)"
  by (cases m) auto

lemma keeps_case_sum [keeps_rules]:
  "(\<And>e. m = Inl e \<Longrightarrow> keeps_view view s (a e)) \<Longrightarrow> (\<And>x. m = Inr x \<Longrightarrow> keeps_view view s (b x)) \<Longrightarrow>
     keeps_view view s (case m of Inl e \<Rightarrow> a e | Inr x \<Rightarrow> b x)"
  by (cases m) auto

lemma keeps_case_prod [keeps_rules]:
  "(\<And>a b. p = (a, b) \<Longrightarrow> keeps_view view s (f a b)) \<Longrightarrow> keeps_view view s (case p of (a, b) \<Rightarrow> f a b)"
  by (cases p) auto

lemma keeps_case_node [keeps_rules]:
  "(\<And>x. keeps_view view s (a x)) \<Longrightarrow> keeps_view view s b \<Longrightarrow> keeps_view view s c \<Longrightarrow> keeps_view view s d \<Longrightarrow>
     keeps_view view s (case n of Regular x \<Rightarrow> a x | Symlink \<Rightarrow> b | Socket \<Rightarrow> c | Directory \<Rightarrow> d)"
  by (cases n) auto

lemma keeps_prefixed [keeps_rules]: "keeps_view view s m \<Longrightarrow> keeps_view view s (prefixed text m)"
  unfolding keeps_view_def prefixed_def by (auto elim!: returnsE)

lemma keeps_map_option [keeps_rules]:
  "keeps_view view s m \<Longrightarrow> keeps_view view s (map_option (\<lambda>(r, t). (f r, t)) m)"
  unfolding keeps_view_def by (auto elim!: returnsE)

lemma keeps_runtime_alive [keeps_rules]: "view t = view s \<Longrightarrow> keeps_view view s (runtime_alive env t)"
  unfolding runtime_alive_def by (intro keeps_rules)

lemma keeps_cleanup_controller [keeps_rules]: "view t = view s \<Longrightarrow> keeps_view view s (cleanup_controller env e t)"
  unfolding cleanup_controller_def by (intro keeps_rules)

lemma keeps_cleanup_epoch [keeps_rules]: "view t = view s \<Longrightarrow> keeps_view view s (mgr_cleanup_epoch env e t)"
  unfolding mgr_cleanup_epoch_def by (intro keeps_rules total_rules)

lemma keeps_persist_dns_record [keeps_rules]: "view t = view s \<Longrightarrow> keeps_view view s (persist_dns_record env r t)"
proof -
  assume st: "view t = view s"
  have "keeps_view view s (in_store (case r of Some entry \<Rightarrow> write_record (ev_store env) (ev_record_bytes env entry)
      | None \<Rightarrow> clear_record (ev_store env)) t)"
    by (rule keeps_in_store [OF st]) (auto intro: total_rules split: option.splits)
  then show ?thesis
    unfolding persist_dns_record_def by (rule keeps_and_do) (auto intro!: keeps_rules)
qed

lemma keeps_dns_restore [keeps_rules]: "view t = view s \<Longrightarrow> keeps_view view s (dns_restore env t)"
  unfolding dns_restore_def by (intro keeps_rules)

lemma keeps_dns_activate [keeps_rules]: "view t = view s \<Longrightarrow> keeps_view view s (dns_activate_for_plan env p t)"
  unfolding dns_activate_for_plan_def Let_def by (intro keeps_rules)

lemma keeps_dns_deactivate [keeps_rules]: "view t = view s \<Longrightarrow> keeps_view view s (dns_deactivate_for_plan env p t)"
  unfolding dns_deactivate_for_plan_def by (intro keeps_rules)

lemma keeps_dns_apply_current [keeps_rules]: "view t = view s \<Longrightarrow> keeps_view view s (dns_apply_current env i e t)"
  unfolding dns_apply_current_def Let_def by (intro keeps_rules)

lemma keeps_dns_converge [keeps_rules]: "view t = view s \<Longrightarrow> keeps_view view s (dns_converge env t)"
  unfolding dns_converge_def by (intro keeps_rules)

lemma keeps_resolve_features [keeps_rules]: "view t = view s \<Longrightarrow> keeps_view view s (mgr_resolve_features env spec t)"
  unfolding mgr_resolve_features_def Let_def by (intro keeps_rules) (auto split: prod.splits)

lemma keeps_validate_launchable [keeps_rules]: "view t = view s \<Longrightarrow> keeps_view view s (validate_launchable env spec t)"
  unfolding validate_launchable_def by (intro keeps_rules)

lemma keeps_load_snapshot [keeps_rules]: "view t = view s \<Longrightarrow> keeps_view view s (load_snapshot env p t)"
  unfolding load_snapshot_def by (intro keeps_rules)

lemma keeps_prepare_document [keeps_rules]:
  "view t = view s \<Longrightarrow> keeps_view view s (prepare_document env spec e snap resolved z t)"
  using prepare_no_panic unfolding prepare_document_def keeps_view_def
  by (fastforce simp: returns_def)

lemma keeps_rebase_native [keeps_rules]: "view t = view s \<Longrightarrow> keeps_view view s (rebase_native env spec p t)"
  unfolding rebase_native_def by (intro keeps_rules)

lemma keeps_drop_in_mgr [keeps_rules]:
  "view t = view s \<Longrightarrow> (\<And>u. view u = view s \<Longrightarrow> keeps_view view s (f u)) \<Longrightarrow> keeps_view view s (drop_in_mgr env sg f t)"
  using drop_staged_total [of "ev_store env" sg "ms_store t"] by (auto simp: drop_in_mgr_def)

lemma keeps_stage_checked [keeps_rules]: "view t = view s \<Longrightarrow> keeps_view view s (stage_checked env spec e c t)"
proof -
  assume "view t = view s"
  moreover have "keeps_view view s (Option.bind (drop_staged (ev_store env) sg (ms_store u))
      (\<lambda>st. fail err (u\<lparr>ms_store := st\<rparr>)))" if "view u = view s" for u sg err
    using drop_staged_total [of "ev_store env" sg "ms_store u"] that by (auto intro!: keeps_rules)
  ultimately show ?thesis
    unfolding stage_checked_def by (intro keeps_rules total_rules)
qed

lemma keeps_patch_and_verify [keeps_rules]: "view t = view s \<Longrightarrow> keeps_view view s (patch_and_verify env i p q t)"
  unfolding patch_and_verify_def by (intro keeps_rules)

lemma keeps_within_timeout [keeps_rules]: "keeps_view view s m \<Longrightarrow> keeps_view view s (within_reconcile_timeout env m)"
  unfolding within_reconcile_timeout_def by (intro keeps_rules)

lemma keeps_reconcile_in_place [keeps_rules]:
  "view t = view s \<Longrightarrow> keeps_view view s (reconcile_in_place env a c d t)"
  unfolding reconcile_in_place_def by (cases c) (auto intro!: keeps_rules)

lemma forget_backup_Some:
  "\<exists>u. forget_backup env b t = Some u \<and> view u = view t"
  using total_remove_backup [of "ev_store env" b "ms_store t"]
  by (auto simp: forget_backup_def in_store_def total_def)

lemma returns_forget_backup:
  "(\<And>u. view u = view t \<Longrightarrow> returns (f u) Q) \<Longrightarrow> returns (Option.bind (forget_backup env b t) f) Q"
  using forget_backup_Some [of env b t] by auto

lemma returns_drop_in_mgr:
  "(\<And>u. view u = view t \<Longrightarrow> returns (f u) Q) \<Longrightarrow> returns (drop_in_mgr env sg f t) Q"
  using drop_staged_total [of "ev_store env" sg "ms_store t"] by (auto simp: drop_in_mgr_def)

lemma returns_keeps: "keeps_view view s m \<Longrightarrow> returns m A \<Longrightarrow> returns m (\<lambda>r t. view t = view s \<and> A r t)"
  unfolding keeps_view_def by (rule returns_conj)

lemma yields_and_do:
  "keeps_view view s m \<Longrightarrow> (\<And>x t. view t = view s \<Longrightarrow> yields_view view s (f x t) P) \<Longrightarrow> yields_view view s (and_do m f) P"
  unfolding keeps_view_def yields_view_def by (erule returns_and_doI) auto

lemma yields_ok: "view t = view s \<Longrightarrow> P x \<Longrightarrow> yields_view view s (ok x t) P"
  by (simp add: yields_view_def ok_def)

lemma yields_prepare_launch_with_features:
  "view t = view s \<Longrightarrow> yields_view view s (prepare_launch_with_features env spec e snap resolved t) (plan_for spec e 1)"
  unfolding prepare_launch_with_features_def
  by (intro yields_and_do yields_ok keeps_rules total_rules) simp_all

lemma yields_prepare_launch:
  "view t = view s \<Longrightarrow> yields_view view s (prepare_launch env spec e snap t) (plan_for spec e 1)"
  unfolding prepare_launch_def
  by (intro yields_and_do keeps_rules yields_prepare_launch_with_features)

lemma yields_prepare_apply:
  "view t = view s \<Longrightarrow> yields_view view s (prepare_apply env a spec snap t)
     (\<lambda>p. plan_for spec (plan_epoch (ac_plan a)) (cr_generation (pl_revision (ac_plan a)) + 1) (pa_plan p))"
  unfolding prepare_apply_def Let_def
  by (intro yields_and_do yields_ok keeps_rules) simp_all

lemma yields_fail: "view t = view s \<Longrightarrow> yields_view view s (fail e t) P"
  by (simp add: yields_view_def fail_def)

lemma yields_dropping:
  fixes P :: "'c \<Rightarrow> bool"
  assumes "keeps_view view s m" "\<And>p u. P (f p u)"
  shows "yields_view view s (matching m (\<lambda>err u. drop_in_mgr env sg (fail err) u) (\<lambda>p u. ok (f p u) u)) P"
proof -
  from assms(1) obtain r u where m: "m = Some (r, u)" "view u = view s"
    unfolding keeps_view_def by (rule returnsE)
  show ?thesis
  proof (cases r)
    case (Inl err)
    have "keeps_view view s (drop_in_mgr env sg (fail err) u :: 'c result)"
      using m(2) by (intro keeps_rules)
    moreover have "returns (drop_in_mgr env sg (fail err) u) (\<lambda>r t. \<not> is_ok (r :: error + 'c))"
      by (rule returns_drop_in_mgr) (simp add: fail_def)
    ultimately have "returns (drop_in_mgr env sg (fail err) u)
        (\<lambda>r t. view t = view s \<and> \<not> is_ok (r :: error + 'c))"
      by (rule returns_keeps)
    then show ?thesis
      using m(1) Inl unfolding yields_view_def matching_def
      by (auto elim!: returns_mono split: sum.splits)
  qed (use m assms(2) in \<open>simp add: matching_def yields_view_def ok_def\<close>)
qed

lemma yields_prepare_graceful:
  assumes "view t = view s"
  shows "yields_view view s (prepare_graceful env spec e snap resolved t) (\<lambda>p. plan_for spec e 1 (pg_plan p))"
proof -
  have tail: "yields_view view s (and_do (stage_checked env spec e (pc_bytes full) u) (\<lambda>full_staged s.
         matching (and_do (stage_checked env spec e (pc_bytes bootstrap) s) (\<lambda>sg s.
             in_store (commit_new (ev_store env) sg e) s))
           (\<lambda>err s. drop_in_mgr env full_staged (fail err) s)
           (\<lambda>path s. ok \<lparr>pg_plan = make_plan env spec full resolved snap e 1 (path_show path)
                (path_show (st_dir (ms_store s), pid_path e)),
              pg_full_staged = full_staged, pg_restoration = restoration\<rparr> s)))
      (\<lambda>p. plan_for spec e 1 (pg_plan p))" if "view u = view s" for u full bootstrap restoration
    using that by (intro yields_and_do yields_dropping keeps_rules total_rules) simp_all
  show ?thesis
    unfolding prepare_graceful_def
    by (intro yields_and_do keeps_rules assms)
       (auto split: sum.splits intro: yields_fail tail simp del: One_nat_def)
qed

end

section \<open>The core state and the published state\<close>

definition core_view :: "mgr \<Rightarrow> active option \<times> quarantined_epoch list \<times> runtime_instance list \<times> u64 \<times> instance_spec option" where
  "core_view s = (ms_current s, ms_quarantine s, ms_live s, ms_epochs_last s, ms_last_spec s)"

definition public_view :: "mgr \<Rightarrow> (active option \<times> quarantined_epoch list \<times> runtime_instance list \<times> u64 \<times> instance_spec option)
    \<times> core_status \<times> effective_config_snapshot option" where
  "public_view s = (core_view s, ms_status s, ms_config_commit s)"

interpretation core: quiet_view core_view
  by unfold_locales (simp_all add: core_view_def tick_def)

interpretation public: quiet_view public_view
  by unfold_locales (simp_all add: public_view_def core_view_def tick_def)

abbreviation same_core :: "mgr \<Rightarrow> mgr \<Rightarrow> bool" where
  "same_core s t \<equiv> core_view t = core_view s"

abbreviation keeps :: "mgr \<Rightarrow> 'a result \<Rightarrow> bool" where
  "keeps \<equiv> keeps_view core_view"

abbreviation yields :: "mgr \<Rightarrow> 'a result \<Rightarrow> ('a \<Rightarrow> bool) \<Rightarrow> bool" where
  "yields \<equiv> yields_view core_view"

lemma core_publish [simp]:
  "core_view (publish env st p t) = core_view t"
  "core_view (publish_instance env i st q t) = core_view t"
  "core_view (publish_active env a st t) = core_view t"
  "core_view (publish_terminal_error env e t) = core_view t"
  "core_view (publish_epoch_status env ep x t) = core_view t"
  "core_view (republish_retained env t) = core_view t"
  by (simp_all add: core_view_def tick_def publish_def publish_instance_def publish_active_def
      publish_terminal_error_def publish_epoch_status_def republish_retained_def Let_def
      split: option.splits)

lemma public_core: "public_view t = public_view s \<Longrightarrow> same_core s t"
  by (simp add: public_view_def)

end
