(* ===== verification/Manager_Safety.thy ===== *)
theory Manager_Safety
  imports Frames
begin

text \<open>
  Safety of the manager: every runtime whose death is unproven is the current one or belongs to a
  quarantined epoch, under every behaviour of the environment. One exception is in the code: a launch
  that fails without confirming the death of what it launched (\<open>orphan\<close>) is cleaned up as if nothing
  was left. The invariant \<open>minv X\<close> allows the runtimes \<open>X\<close> a transaction still holds in its hands;
  between transactions \<open>X\<close> is empty. Each operation that touches the core state gets one lemma, and
  each transaction one preservation lemma.
\<close>

section \<open>The invariant\<close>

abbreviation qepochs :: "mgr \<Rightarrow> epoch set" where
  "qepochs s \<equiv> qe_epoch ` set (ms_quarantine s)"

text \<open>The launch of this runtime failed, and the failure says that its death is unconfirmed.\<close>

definition orphan :: "env \<Rightarrow> runtime_instance \<Rightarrow> bool" where
  "orphan env i \<longleftrightarrow> (\<exists>plan err. plan_epoch plan = in_epoch i \<and> ev_launch env (in_handle i) plan = Inl err
     \<and> is_stop_unconfirmed err)"

definition minv :: "env \<Rightarrow> runtime_instance list \<Rightarrow> mgr \<Rightarrow> bool" where
  "minv env X s \<longleftrightarrow>
     (\<forall>i \<in> set (ms_live s). i \<in> set X \<or> (\<exists>a. ms_current s = Some a \<and> ac_instance a = i)
        \<or> in_epoch i \<in> qepochs s \<or> orphan env i)
   \<and> (\<forall>i \<in> set (ms_live s) \<union> set X. epoch_get (in_epoch i) \<le> ms_epochs_last s)
   \<and> (\<forall>a. ms_current s = Some a \<longrightarrow> in_epoch (ac_instance a) = plan_epoch (ac_plan a)
        \<and> plan_epoch (ac_plan a) \<notin> qepochs s \<and> epoch_get (plan_epoch (ac_plan a)) \<le> ms_epochs_last s)
   \<and> (\<forall>e \<in> qepochs s. epoch_get e \<le> ms_epochs_last s)
   \<and> distinct (map qe_epoch (ms_quarantine s))
   \<and> (\<forall>q \<in> set (ms_quarantine s). qe_death_proven q \<longrightarrow>
        (\<forall>i \<in> set (ms_live s) \<union> set X. in_epoch i \<noteq> qe_epoch q))"

definition same_ctrl :: "mgr \<Rightarrow> mgr \<Rightarrow> bool" where
  "same_ctrl s t \<longleftrightarrow> ms_current t = ms_current s \<and> ms_quarantine t = ms_quarantine s
     \<and> ms_epochs_last t = ms_epochs_last s \<and> ms_last_spec t = ms_last_spec s"

lemma same_core_ctrl: "same_core s t \<Longrightarrow> same_ctrl s t"
  by (simp add: core_view_def same_ctrl_def)

lemma minv_same_core: "same_core s t \<Longrightarrow> minv env X t \<longleftrightarrow> minv env X s"
  by (simp add: core_view_def minv_def)

lemma minv_updates [simp]:
  "minv env' X (tick t) = minv env' X t" "minv env' X (publish env st p t) = minv env' X t"
  "minv env' X (publish_instance env i st q t) = minv env' X t" "minv env' X (publish_active env ac st t) = minv env' X t"
  "minv env' X (publish_terminal_error env e t) = minv env' X t" "minv env' X (republish_retained env t) = minv env' X t"
  by (rule minv_same_core, simp)+

lemma core_proj [simp]:
  "ms_current (tick t) = ms_current t" "ms_quarantine (tick t) = ms_quarantine t" "ms_live (tick t) = ms_live t" "ms_epochs_last (tick t) = ms_epochs_last t" "ms_last_spec (tick t) = ms_last_spec t"
  "ms_current (publish env st p t) = ms_current t" "ms_quarantine (publish env st p t) = ms_quarantine t" "ms_live (publish env st p t) = ms_live t" "ms_epochs_last (publish env st p t) = ms_epochs_last t" "ms_last_spec (publish env st p t) = ms_last_spec t"
  "ms_current (publish_instance env i st q t) = ms_current t" "ms_quarantine (publish_instance env i st q t) = ms_quarantine t" "ms_live (publish_instance env i st q t) = ms_live t" "ms_epochs_last (publish_instance env i st q t) = ms_epochs_last t" "ms_last_spec (publish_instance env i st q t) = ms_last_spec t"
  "ms_current (publish_active env ac st t) = ms_current t" "ms_quarantine (publish_active env ac st t) = ms_quarantine t" "ms_live (publish_active env ac st t) = ms_live t" "ms_epochs_last (publish_active env ac st t) = ms_epochs_last t" "ms_last_spec (publish_active env ac st t) = ms_last_spec t"
  "ms_current (publish_terminal_error env e t) = ms_current t" "ms_quarantine (publish_terminal_error env e t) = ms_quarantine t" "ms_live (publish_terminal_error env e t) = ms_live t" "ms_epochs_last (publish_terminal_error env e t) = ms_epochs_last t" "ms_last_spec (publish_terminal_error env e t) = ms_last_spec t"
  "ms_current (republish_retained env t) = ms_current t" "ms_quarantine (republish_retained env t) = ms_quarantine t" "ms_live (republish_retained env t) = ms_live t" "ms_epochs_last (republish_retained env t) = ms_epochs_last t" "ms_last_spec (republish_retained env t) = ms_last_spec t"
  by (simp_all add: tick_def publish_def publish_instance_def publish_active_def
      publish_terminal_error_def republish_retained_def Let_def split: option.splits)

section \<open>Stepping through a transaction\<close>

lemma returns_matchingI:
  "returns m A \<Longrightarrow> (\<And>e t. A (Inl e) t \<Longrightarrow> returns (g e t) Q) \<Longrightarrow> (\<And>x t. A (Inr x) t \<Longrightarrow> returns (f x t) Q)
   \<Longrightarrow> returns (matching m g f) Q"
  unfolding matching_def by (erule returns_bindI) (auto split: sum.splits)

lemma keeps_matchingI:
  "keeps s m \<Longrightarrow> (\<And>e t. same_core s t \<Longrightarrow> returns (g e t) Q) \<Longrightarrow> (\<And>x t. same_core s t \<Longrightarrow> returns (f x t) Q)
   \<Longrightarrow> returns (matching m g f) Q"
  unfolding keeps_view_def by (erule returns_matchingI)

lemma keeps_ignoringI:
  "keeps s m \<Longrightarrow> (\<And>t. same_core s t \<Longrightarrow> returns (f t) Q) \<Longrightarrow> returns (ignoring m f) Q"
  unfolding keeps_view_def ignoring_def by (erule returns_bindI) auto

lemma keeps_and_doI:
  "keeps s m \<Longrightarrow> (\<And>e t. same_core s t \<Longrightarrow> Q (Inl e) t) \<Longrightarrow> (\<And>x t. same_core s t \<Longrightarrow> returns (f x t) Q)
   \<Longrightarrow> returns (and_do m f) Q"
  unfolding keeps_view_def by (erule returns_and_doI)

lemma yields_matchingI:
  "yields s m P \<Longrightarrow> (\<And>e t. same_core s t \<Longrightarrow> returns (g e t) Q)
   \<Longrightarrow> (\<And>x t. same_core s t \<Longrightarrow> P x \<Longrightarrow> returns (f x t) Q) \<Longrightarrow> returns (matching m g f) Q"
  unfolding yields_view_def by (erule returns_matchingI) auto

lemma yields_and_doI:
  "yields s m P \<Longrightarrow> (\<And>e t. same_core s t \<Longrightarrow> Q (Inl e) t)
   \<Longrightarrow> (\<And>x t. same_core s t \<Longrightarrow> P x \<Longrightarrow> returns (f x t) Q) \<Longrightarrow> returns (and_do m f) Q"
  unfolding yields_view_def by (erule returns_and_doI) auto

lemma returns_ok [simp]: "returns (ok x s) Q \<longleftrightarrow> Q (Inr x) s"
  by (simp add: ok_def)

lemma returns_fail [simp]: "returns (fail e s) Q \<longleftrightarrow> Q (Inl e) s"
  by (simp add: fail_def)

section \<open>Holding a state\<close>

text \<open>From \<open>s\<close> on, the current runtime has become \<open>c\<close>, the transaction holds \<open>X\<close>, and the rest of the
  core state is that of \<open>s\<close>.\<close>

definition held ::
  "env \<Rightarrow> runtime_instance list \<Rightarrow> active option \<Rightarrow> mgr \<Rightarrow> mgr \<Rightarrow> bool" where
  "held env X c s t \<longleftrightarrow> minv env X t \<and> ms_current t = c \<and> ms_quarantine t = ms_quarantine s
     \<and> ms_epochs_last t = ms_epochs_last s"

lemma held_refl: "minv env X s \<Longrightarrow> held env X (ms_current s) s s"
  by (simp add: held_def)

lemma held_same_core: "held env X c s t \<Longrightarrow> same_core t u \<Longrightarrow> held env X c s u"
  using minv_same_core [of u t env X] by (simp add: held_def core_view_def)

lemma held_publish [simp]:
  "held env X c s (tick t) = held env X c s t" "held env X c s (publish env' st p t) = held env X c s t"
  "held env X c s (publish_instance env' i st q t) = held env X c s t"
  "held env X c s (publish_active env' ac st t) = held env X c s t"
  "held env X c s (publish_terminal_error env' e t) = held env X c s t"
  "held env X c s (republish_retained env' t) = held env X c s t"
  by (simp_all add: held_def)

lemma held_matching:
  "held env X c s t \<Longrightarrow> keeps t m \<Longrightarrow> (\<And>e u. held env X c s u \<Longrightarrow> returns (g e u) Q)
   \<Longrightarrow> (\<And>x u. held env X c s u \<Longrightarrow> returns (f x u) Q) \<Longrightarrow> returns (matching m g f) Q"
  unfolding keeps_view_def by (erule returns_matchingI) (auto dest: held_same_core)

lemma held_ignoring:
  "held env X c s t \<Longrightarrow> keeps t m \<Longrightarrow> (\<And>u. held env X c s u \<Longrightarrow> returns (f u) Q)
   \<Longrightarrow> returns (ignoring m f) Q"
  unfolding keeps_view_def ignoring_def by (erule returns_bindI) (auto dest: held_same_core)

lemma held_and_do:
  "held env X c s t \<Longrightarrow> keeps t m \<Longrightarrow> (\<And>e u. held env X c s u \<Longrightarrow> Q (Inl e) u)
   \<Longrightarrow> (\<And>x u. held env X c s u \<Longrightarrow> returns (f x u) Q) \<Longrightarrow> returns (and_do m f) Q"
  unfolding keeps_view_def by (erule returns_and_doI) (auto dest: held_same_core)

lemma held_yields_matching:
  "held env X c s t \<Longrightarrow> yields t m P \<Longrightarrow> (\<And>e u. held env X c s u \<Longrightarrow> returns (g e u) Q)
   \<Longrightarrow> (\<And>x u. held env X c s u \<Longrightarrow> P x \<Longrightarrow> returns (f x u) Q) \<Longrightarrow> returns (matching m g f) Q"
  unfolding yields_view_def by (erule returns_matchingI) (auto dest: held_same_core)

lemma held_yields_and_do:
  "held env X c s t \<Longrightarrow> yields t m P \<Longrightarrow> (\<And>e u. held env X c s u \<Longrightarrow> Q (Inl e) u)
   \<Longrightarrow> (\<And>x u. held env X c s u \<Longrightarrow> P x \<Longrightarrow> returns (f x u) Q) \<Longrightarrow> returns (and_do m f) Q"
  unfolding yields_view_def by (erule returns_and_doI) (auto dest: held_same_core)

lemma held_drop:
  "held env X c s t \<Longrightarrow> (\<And>u. held env X c s u \<Longrightarrow> returns (f u) Q)
   \<Longrightarrow> returns (drop_in_mgr env' sg f t) Q"
  by (rule core.returns_drop_in_mgr) (blast dest: held_same_core)

lemma held_forget:
  "held env X c s t \<Longrightarrow> (\<And>u. held env X c s u \<Longrightarrow> returns (f u) Q)
   \<Longrightarrow> returns (Option.bind (forget_backup env' b t) f) Q"
  by (rule core.returns_forget_backup) (blast dest: held_same_core)

section \<open>Operations on the core state\<close>

lemma epochs_next_spec:
  assumes "minv env X s" "ms_epochs_last s \<noteq> - 1"
  shows "returns (epochs_next s) (\<lambda>r t. minv env X t \<and> ms_current t = ms_current s
     \<and> ms_quarantine t = ms_quarantine s \<and> ms_epochs_last s < ms_epochs_last t
     \<and> (\<exists>e. r = Inr e \<and> epoch_get e = ms_epochs_last t))"
proof -
  let ?n = "ms_epochs_last s + 1"
  have lt: "ms_epochs_last s < ?n" using assms(2) by (rule word_less_Suc_nonmax)
  have "checked_add (ms_epochs_last s) 1 = Some ?n"
    using assms(2) by (simp add: checked_add_one)
  moreover have "epoch_new ?n = Some (Epoch ?n)"
    using lt by (auto simp: epoch_new_def)
  moreover have "minv env X (s\<lparr>ms_epochs_last := ?n\<rparr>)"
    using assms(1) lt unfolding minv_def by (auto intro: order_less_imp_le order_le_less_trans)
  ultimately show ?thesis using lt by (simp add: epochs_next_def)
qed

text \<open>A fresh epoch is no one's: neither the current runtime's nor a quarantined one.\<close>

definition fresh :: "epoch \<Rightarrow> active option \<Rightarrow> mgr \<Rightarrow> bool" where
  "fresh e c s \<longleftrightarrow> epoch_get e \<le> ms_epochs_last s \<and> e \<notin> qepochs s
     \<and> (\<forall>a. c = Some a \<longrightarrow> plan_epoch (ac_plan a) \<noteq> e)"

lemma fresh_None: "fresh e c s \<Longrightarrow> fresh e None s"
  by (simp add: fresh_def)

lemma fresh_current:
  "minv env X s \<Longrightarrow> ms_current s = Some a \<Longrightarrow> fresh (plan_epoch (ac_plan a)) None s"
  by (simp add: fresh_def minv_def)

lemma returns_epochs_next:
  assumes "minv env X s" "ms_epochs_last s \<noteq> - 1"
    and "\<And>e t. held env X (ms_current s) t t \<Longrightarrow> fresh e (ms_current s) t
           \<Longrightarrow> ms_epochs_last s < ms_epochs_last t \<Longrightarrow> epoch_get e = ms_epochs_last t
           \<Longrightarrow> returns (f e t) Q"
  shows "returns (and_do (epochs_next s) f) Q"
proof (rule returns_and_doI [OF epochs_next_spec [OF assms(1,2)]])
  fix e t
  assume t: "minv env X t \<and> ms_current t = ms_current s \<and> ms_quarantine t = ms_quarantine s
     \<and> ms_epochs_last s < ms_epochs_last t \<and> (\<exists>e'. Inr e = Inr e' \<and> epoch_get e' = ms_epochs_last t)"
  then have "\<forall>a. ms_current s = Some a \<longrightarrow> epoch_get (plan_epoch (ac_plan a)) < epoch_get e"
    "\<forall>e' \<in> qepochs s. epoch_get e' < epoch_get e"
    using assms(1) by (auto simp: minv_def intro: order_le_less_trans)
  then have "fresh e (ms_current s) t" using t by (auto simp: fresh_def)
  then show "returns (f e t) Q" using t held_refl [of env X t] by (intro assms(3)) auto
qed auto

lemma spawn_spec:
  assumes "held env X c s t" "fresh (plan_epoch plan) None s"
  shows "returns (spawn_instance env plan t) (\<lambda>r u. case r of
     Inr i \<Rightarrow> in_epoch i = plan_epoch plan \<and> in_controller i = pl_controller plan \<and> held env (i # X) c s u
   | Inl e \<Rightarrow> held env X c s u)"
proof -
  let ?i = "\<lparr>in_handle = ms_tick t, in_epoch = plan_epoch plan, in_controller = pl_controller plan\<rparr>"
  let ?t = "t\<lparr>ms_live := ?i # ms_live t\<rparr>"
  have live: "held env (?i # X) c s (tick ?t)"
    using assms by (auto simp: minv_def held_def fresh_def)
  have dead: "held env X c s (tick ?t)" if "ev_launch env (ms_tick t) plan = Inl err" "is_stop_unconfirmed err" for err
  proof -
    have "orphan env ?i" using that by (auto simp: orphan_def)
    then show ?thesis using assms by (auto simp: minv_def held_def fresh_def)
  qed
  show ?thesis
    using live dead assms(1)
    unfolding spawn_instance_def Let_def by (auto simp: ok_def fail_def split: sum.splits)
qed

lemma stop_spec:
  assumes "held env (i # X) c s t"
  shows "returns (stop_and_confirm_dead env' i t) (\<lambda>r u. case r of
     Inr _ \<Rightarrow> held env X c s u
   | Inl e \<Rightarrow> held env (i # X) c s u \<and> (if is_stop_unconfirmed e then True else held env X c s u))"
  using assms
  by (auto simp: stop_and_confirm_dead_def ok_def fail_def held_def minv_def tick_def
      split: sum.splits)

lemma record_entry_epochs:
  "qe_epoch ` set (record_entry e r qs) = insert e (qe_epoch ` set qs)"
  by (induction qs) auto

lemma record_entry_distinct:
  "distinct (map qe_epoch qs) \<Longrightarrow> distinct (map qe_epoch (record_entry e r qs))"
proof (induction qs)
  case (Cons q qs)
  then show ?case using record_entry_epochs [of e r qs] by auto
qed simp

lemma record_entry_proven:
  "q \<in> set (record_entry e r qs) \<Longrightarrow> qe_death_proven q \<Longrightarrow>
     \<exists>q' \<in> set qs. qe_death_proven q' \<and> qe_epoch q' = qe_epoch q"
  by (induction qs) (auto split: if_splits)

lemma record_entry_nonempty [simp]: "record_entry e r qs \<noteq> []"
  by (cases qs) auto

lemma record_quarantine_inv:
  assumes "minv env Y t" "\<And>i. i \<in> set Y \<Longrightarrow> i \<in> set X \<or> in_epoch i = e"
    and "set X \<subseteq> set Y" "epoch_get e \<le> ms_epochs_last t"
    and "\<And>a. ms_current t = Some a \<Longrightarrow> plan_epoch (ac_plan a) \<noteq> e"
  shows "minv env X (record_quarantine e r t)"
proof -
  have "\<forall>q \<in> set (record_entry e r (ms_quarantine t)). qe_death_proven q \<longrightarrow>
      (\<forall>i \<in> set (ms_live t) \<union> set X. in_epoch i \<noteq> qe_epoch q)"
    using assms(1,3) record_entry_proven [of _ e r "ms_quarantine t"] unfolding minv_def
    by (metis (no_types, lifting) UnCI UnE subsetD)
  then show ?thesis
    using assms record_entry_epochs [of e r "ms_quarantine t"]
      record_entry_distinct [of "ms_quarantine t" e r]
    unfolding minv_def record_quarantine_def by auto blast
qed

lemma latch_spec:
  assumes "minv env Y t" "\<And>i. i \<in> set Y \<Longrightarrow> in_epoch i = e"
    and "epoch_get e \<le> ms_epochs_last t"
    and "\<And>a. ms_current t = Some a \<Longrightarrow> plan_epoch (ac_plan a) \<noteq> e"
  shows "returns (latch_quarantine env' e err t) (\<lambda>r u. r = Inl err \<and> minv env [] u
     \<and> ms_current u = ms_current t \<and> ms_epochs_last u = ms_epochs_last t \<and> e \<in> qepochs u)"
proof -
  let ?t = "record_quarantine e (error_to_string err) t"
  obtain q where q: "quarantine_error ?t = Some q"
    by (cases "ms_quarantine ?t") (auto simp: quarantine_error_def record_quarantine_def)
  have "minv env [] (publish_terminal_error env' q ?t)"
    using record_quarantine_inv [of env Y t "[]" e] assms by simp
  moreover have "ms_current ?t = ms_current t" "ms_epochs_last ?t = ms_epochs_last t" "e \<in> qepochs ?t"
    by (auto simp: record_quarantine_def record_entry_epochs)
  ultimately show ?thesis by (simp add: latch_quarantine_def q)
qed

lemma retire_spec:
  assumes "held env X (Some a) s t"
  shows "returns (retire_current env' t) (\<lambda>r u. case r of
      Inr (Inr p) \<Rightarrow> p = Some (ac_plan a) \<and> held env X None s u
    | Inr (Inl (e, err)) \<Rightarrow> e = plan_epoch (ac_plan a) \<and> in_epoch (ac_instance a) = e
        \<and> held env (ac_instance a # X) None s u
        \<and> (if is_stop_unconfirmed err then True else held env X None s u)
    | Inl _ \<Rightarrow> False)"
proof -
  have t: "ms_current t = Some a" using assms by (simp add: held_def)
  have i: "held env (ac_instance a # X) None s (t\<lparr>ms_current := None\<rparr>)"
    and e: "in_epoch (ac_instance a) = plan_epoch (ac_plan a)"
    using assms by (auto simp: minv_def held_def)
  show ?thesis
    unfolding retire_current_def t option.case
    by (rule returns_matchingI [OF stop_spec [OF i]]) (use e in \<open>auto split: if_splits\<close>)
qed

lemma install_inv:
  assumes "held env [i] None s t" "in_epoch i = plan_epoch plan" "fresh (plan_epoch plan) None s"
  shows "minv env [] (install i plan t)"
  using assms by (auto simp: minv_def install_def held_def fresh_def)

lemma returns_ifI: "(b \<Longrightarrow> returns m Q) \<Longrightarrow> (\<not> b \<Longrightarrow> returns n Q) \<Longrightarrow> returns (if b then m else n) Q"
  by simp

section \<open>Steps that touch a runtime\<close>

lemma held_spawn:
  assumes "held env X c s t" "same_core t t'" "fresh (plan_epoch plan) None s"
    and "\<And>e u. held env X c s u \<Longrightarrow> returns (g e u) Q"
    and "\<And>i u. in_epoch i = plan_epoch plan \<Longrightarrow> held env (i # X) c s u \<Longrightarrow> returns (f i u) Q"
  shows "returns (matching (spawn_instance env plan t') g f) Q"
  by (rule returns_matchingI [OF spawn_spec [OF held_same_core [OF assms(1,2)] assms(3)]])
     (use assms(4,5) in auto)

lemma held_stop:
  assumes "held env (i # X) c s t" "same_core t t'"
    and "\<And>e u. held env (i # X) c s u \<Longrightarrow> (\<not> is_stop_unconfirmed e \<Longrightarrow> held env X c s u)
           \<Longrightarrow> returns (g e u) Q"
    and "\<And>x u. held env X c s u \<Longrightarrow> returns (f x u) Q"
  shows "returns (matching (stop_and_confirm_dead env' i t') g f) Q"
  by (rule returns_matchingI [OF stop_spec [OF held_same_core [OF assms(1,2)]]])
     (use assms(3,4) in \<open>auto split: if_splits\<close>)

lemma held_retire:
  assumes "held env X (Some a) s t" "same_core t t'"
    and "\<And>err u. held env (ac_instance a # X) None s u \<Longrightarrow> in_epoch (ac_instance a) = plan_epoch (ac_plan a)
           \<Longrightarrow> (\<not> is_stop_unconfirmed err \<Longrightarrow> held env X None s u)
           \<Longrightarrow> returns (f (Inl (plan_epoch (ac_plan a), err)) u) Q"
    and "\<And>u. held env X None s u \<Longrightarrow> returns (f (Inr (Some (ac_plan a))) u) Q"
  shows "returns (and_do (retire_current env' t') f) Q"
  by (rule returns_and_doI [OF retire_spec [OF held_same_core [OF assms(1,2)]]])
     (use assms(3,4) in \<open>auto split: sum.splits prod.splits if_splits\<close>)

section \<open>How a transaction ends\<close>

text \<open>The plan is the one that runs, and that is what is published.\<close>

definition running_plan :: "epoch_plan \<Rightarrow> mgr \<Rightarrow> bool" where
  "running_plan plan s \<longleftrightarrow> (\<exists>i pid. ms_current s = Some \<lparr>ac_instance = i, ac_plan = plan\<rparr>
     \<and> cs_state (ms_status s) = CRunning (plan_epoch plan) pid
     \<and> cs_revision (ms_status s) = Some (pl_revision plan)
     \<and> ms_last_spec s = Some (pl_source_spec plan))"

lemma running_plan_public: "public_view t = public_view s \<Longrightarrow> running_plan plan t \<longleftrightarrow> running_plan plan s"
  by (simp add: running_plan_def public_view_def core_view_def)

lemma publish_instance_status [simp]:
  "cs_state (ms_status (publish_instance env i st plan s)) = st"
  "cs_revision (ms_status (publish_instance env i st plan s)) = Some (pl_revision plan)"
  by (simp_all add: publish_instance_def set_status_def tick_def Let_def)

lemma install_running:
  "running_plan plan (install i plan (publish_instance env i (CRunning (plan_epoch plan) pid) plan s))"
  by (simp add: running_plan_def install_def)

text \<open>A transaction that began at \<open>s\<close> ends with the invariant and, if it succeeds, with \<open>P\<close>.\<close>

definition ends :: "env \<Rightarrow> mgr \<Rightarrow> ('a \<Rightarrow> mgr \<Rightarrow> bool) \<Rightarrow> error + 'a \<Rightarrow> mgr \<Rightarrow> bool" where
  "ends env s P r t \<longleftrightarrow> minv env [] t \<and> ms_epochs_last s \<le> ms_epochs_last t
     \<and> (case r of Inl _ \<Rightarrow> True | Inr x \<Rightarrow> P x t)"

lemma ends_Inl: "held env [] c s t \<Longrightarrow> ends env s P (Inl e) t"
  by (simp add: ends_def held_def)

lemma ends_weaken:
  "returns m (ends env t P) \<Longrightarrow> ms_epochs_last s \<le> ms_epochs_last t \<Longrightarrow> (\<And>x u. P x u \<Longrightarrow> Q x u)
     \<Longrightarrow> returns m (ends env s Q)"
  by (erule returns_mono) (auto simp: ends_def split: sum.splits)

lemma ends_later:
  "ms_epochs_last s0 \<le> ms_epochs_last s \<Longrightarrow> returns m (ends env s P) \<Longrightarrow> returns m (ends env s0 P)"
  by (erule returns_mono) (auto simp: ends_def)

lemma ends_ok: "returns m (ends env s P) \<Longrightarrow> (\<And>x t. P x t \<Longrightarrow> Q y t)
   \<Longrightarrow> returns (and_do m (\<lambda>_ t. ok y t)) (ends env s Q)"
  by (erule returns_and_doI) (auto simp: ends_def)

lemma ends_latch:
  assumes "held env Y c s t" "\<And>i. i \<in> set Y \<Longrightarrow> in_epoch i = e"
    and "epoch_get e \<le> ms_epochs_last s" "\<And>a. c = Some a \<Longrightarrow> plan_epoch (ac_plan a) \<noteq> e"
  shows "returns (latch_quarantine env' e err t) (ends env s P)"
proof -
  have t: "minv env Y t" "ms_epochs_last t = ms_epochs_last s" "ms_current t = c"
    using assms(1) by (auto simp: held_def)
  show ?thesis
    by (rule returns_mono [OF latch_spec [where e = e, OF t(1)]])
       (use assms t in \<open>auto simp: ends_def\<close>)
qed

lemma ends_cleanup:
  "held env [] c s t \<Longrightarrow> returns (ignoring (mgr_cleanup_epoch env' e t)
     (\<lambda>s. fail err (publish_terminal_error env'' err' s))) (ends env s P)"
  by (erule held_ignoring, intro keeps_rules refl) (simp add: ends_Inl)

lemma ends_cleanup_republish:
  "held env [] c s t \<Longrightarrow> returns (ignoring (mgr_cleanup_epoch env' e t)
     (\<lambda>s. fail err (republish_retained env'' s))) (ends env s P)"
  by (erule held_ignoring, intro keeps_rules refl) (simp add: ends_Inl)

lemma ends_restore_cleanup:
  "held env [] c s t \<Longrightarrow> returns (ignoring (dns_restore env1 t) (\<lambda>s. ignoring (mgr_cleanup_epoch env' e s)
     (\<lambda>s. fail err (publish_terminal_error env'' err' s)))) (ends env s P)"
  by (erule held_ignoring, intro keeps_rules refl) (rule ends_cleanup)

text \<open>What holds of the published state survives the steps that only touch disk and DNS.\<close>

definition public_stable :: "('a \<Rightarrow> mgr \<Rightarrow> bool) \<Rightarrow> bool" where
  "public_stable P \<longleftrightarrow> (\<forall>x s t. public_view t = public_view s \<longrightarrow> P x s \<longrightarrow> P x t)"

lemma ends_public:
  "ends env s P r t \<Longrightarrow> public_stable P \<Longrightarrow> public_view u = public_view t \<Longrightarrow> ends env s P r u"
  using minv_same_core [of u t env "[]"]
  by (auto simp: ends_def public_stable_def public_view_def core_view_def split: sum.splits)

lemma ends_Inl_public: "ends env s P r t \<Longrightarrow> public_view u = public_view t \<Longrightarrow> ends env s P (Inl e) u"
  using minv_same_core [of u t env "[]"] by (auto simp: ends_def public_view_def core_view_def)

lemma ends_finish_dns:
  assumes "returns m (ends env s P)" "public_stable P"
  shows "returns (finish_dns_converge env' m) (ends env s P)"
proof -
  have keeps: "keeps_view public_view u (if b then dns_converge env' u else ok () u)" for u b
    by (intro keeps_rules refl)
  have alive: "keeps_view public_view u (runtime_alive env' u)" for u
    by (intro keeps_rules refl)
  show ?thesis
    unfolding finish_dns_converge_def
    apply (rule returns_bindI [OF assms(1)])
    apply (simp only: prod.case)
    apply (rule returns_and_doI [OF alive [unfolded keeps_view_def]])
     apply (erule ends_Inl_public, assumption)
    apply (rule returns_bindI [OF keeps [unfolded keeps_view_def]])
    apply (auto intro: ends_Inl_public ends_public [OF _ assms(2)] split: sum.splits)
    done
qed

end
