(* ===== verification/Manager_Runs.thy ===== *)
theory Manager_Runs
  imports Manager_Safety
begin

text \<open>
  Every transaction of the manager keeps the safety invariant, does not panic while epoch numbers
  last, and leaves what its outcome claims: a success means that the plan of the requested spec runs
  and is published, a rollback that the old plan does.
\<close>

section \<open>Starting\<close>

lemma start_prepared_ends:
  assumes "held env [] None s t" "fresh (plan_epoch plan) None s"
  shows "returns (start_prepared env plan t) (ends env s (\<lambda>_. running_plan plan))"
proof -
  have e: "epoch_get (plan_epoch plan) \<le> ms_epochs_last s" using assms(2) by (simp add: fresh_def)
  have fin: "ends env s (\<lambda>_. running_plan plan) (Inr ()) (install i plan
      (publish_instance env i (CRunning (plan_epoch plan) pid) plan (tick u)))"
    if "held env [i] None s u" "in_epoch i = plan_epoch plan" for i u pid
    using install_inv [of env i s _ plan] that assms(2)
    by (simp add: ends_def install_running) (simp add: install_def held_def)
  show ?thesis
    unfolding start_prepared_def Let_def
    apply (rule held_matching [OF assms(1)], intro keeps_rules refl)
     apply (erule ends_restore_cleanup)
    apply (erule held_matching, intro keeps_rules refl)
     apply (erule ends_cleanup)
    apply (erule held_spawn, simp, rule assms(2))
     apply (erule ends_restore_cleanup)
    apply (erule held_matching, intro keeps_rules refl)
     apply (erule held_stop, rule refl)
      apply (erule ends_latch, simp, rule e, simp)
     apply (erule ends_restore_cleanup)
    apply (simp only: returns_ok)
    apply (erule fin, assumption)
    done
qed

text \<open>A new epoch runs this spec.\<close>

definition launched :: "instance_spec \<Rightarrow> mgr \<Rightarrow> mgr \<Rightarrow> bool" where
  "launched spec s t \<longleftrightarrow> (\<exists>plan. running_plan plan t \<and> pl_source_spec plan = spec
     \<and> cr_generation (pl_revision plan) = 1 \<and> ms_epochs_last s < epoch_get (plan_epoch plan))"

lemma launched_stable: "public_stable (\<lambda>_. launched spec s)"
  unfolding public_stable_def launched_def using running_plan_public by blast

lemma ends_launched:
  assumes "returns m (ends env t (\<lambda>_. running_plan plan))" "plan_for spec e 1 plan"
    and "ms_epochs_last s < ms_epochs_last t" "epoch_get e = ms_epochs_last t"
  shows "returns m (ends env s (\<lambda>_. launched spec s))"
  using assms(1)
  by (rule returns_mono)
     (use assms(2-) in \<open>auto simp: ends_def launched_def plan_for_def split: sum.splits\<close>)

lemma start_locked_ends:
  assumes "minv env [] s" "ms_current s = None" "ms_epochs_last s \<noteq> - 1"
  shows "returns (start_locked env spec s) (ends env s (\<lambda>_. launched spec s))"
  unfolding start_locked_def
proof (rule returns_epochs_next [OF assms(1,3)])
  fix e t
  assume h: "held env [] (ms_current s) t t" "fresh e (ms_current s) t"
    and t: "ms_epochs_last s < ms_epochs_last t" "epoch_get e = ms_epochs_last t"
  then have h': "held env [] None t t" "fresh e None t" using assms(2) by (simp_all add: fresh_None)
  note later = ends_later [OF order_less_imp_le [OF t(1)]]
  show "returns (matching (load_snapshot env (sp_config_path spec) t)
       (\<lambda>err s. fail err (publish_terminal_error env err s))
       (\<lambda>snap s. matching (prepare_launch env spec e snap s)
         (\<lambda>err s. ignoring (mgr_cleanup_epoch env e s) (\<lambda>s. fail err (publish_terminal_error env err s)))
         (\<lambda>plan s. start_prepared env plan s))) (ends env s (\<lambda>_. launched spec s))"
    apply (rule held_matching [OF h'(1)], intro keeps_rules refl)
     apply (rule later, simp add: ends_Inl)
    apply (erule held_yields_matching, rule core.yields_prepare_launch, rule refl)
     apply (rule later, erule ends_cleanup)
    apply (rule ends_launched [OF start_prepared_ends _ t], assumption)
     apply (use h'(2) in \<open>simp add: plan_for_def\<close>)
    apply assumption
    done
qed

lemma discard_stale_ends:
  assumes "minv env [] s"
  shows "returns (discard_stale env s) (ends env s (\<lambda>_. held env [] None s))"
proof (cases "ms_current s")
  case None
  then show ?thesis
    using assms by (simp add: discard_stale_def retire_current_def ok_def ends_def held_def)
next
  case (Some a)
  have h: "held env [] (Some a) s s" using held_refl [OF assms] Some by simp
  have e: "epoch_get (plan_epoch (ac_plan a)) \<le> ms_epochs_last s"
    using assms Some by (simp add: minv_def)
  show ?thesis
    unfolding discard_stale_def
    apply (rule held_retire [OF h refl]; simp only: sum.case prod.case option.case)
     apply (rule returns_ifI)
      apply (erule ends_latch, simp, rule e, simp)
     apply (simp add: ends_Inl)
    apply (rule returns_mono [OF core.keeps_cleanup_epoch [OF refl, unfolded keeps_view_def]])
    apply (drule held_same_core, assumption)
    apply (simp add: ends_def held_def split: sum.splits)
    done
qed

lemma launched_later:
  "ms_epochs_last s \<le> ms_epochs_last s' \<Longrightarrow> launched spec s' t \<Longrightarrow> launched spec s t"
  by (auto simp: launched_def)

lemma returns_reject_quarantine:
  "(\<And>e. Q (Inl e) s) \<Longrightarrow> (ms_quarantine s = [] \<Longrightarrow> returns (f () s) Q)
     \<Longrightarrow> returns (and_do (reject_quarantine s) f) Q"
  by (auto simp: reject_quarantine_def quarantine_error_def ok_def fail_def split: list.splits)

lemma returns_runtime_alive:
  assumes "\<And>alive t. public_view t = public_view s \<Longrightarrow> (alive \<Longrightarrow> ms_current s \<noteq> None)
             \<Longrightarrow> returns (f alive t) Q"
  shows "returns (and_do (runtime_alive env s) f) Q"
  using assms by (auto simp: runtime_alive_def ask_def ok_def split: option.splits)

lemma minv_public: "public_view t = public_view s \<Longrightarrow> minv env X s \<Longrightarrow> minv env X t"
  using minv_same_core [of t s env X] by (simp add: public_view_def)

lemma public_proj:
  "public_view t = public_view s \<Longrightarrow> ms_current t = ms_current s \<and> ms_epochs_last t = ms_epochs_last s
     \<and> ms_quarantine t = ms_quarantine s \<and> ms_last_spec t = ms_last_spec s"
  by (simp add: public_view_def core_view_def)

text \<open>A stale epoch is discarded, then the new one starts.\<close>

lemma discard_then_ends:
  assumes "minv env [] s"
    and "\<And>t. held env [] None s t \<Longrightarrow> returns (f () t) (ends env s P)"
  shows "returns (and_do (discard_stale env s) f) (ends env s P)"
  by (rule returns_and_doI [OF discard_stale_ends [OF assms(1)]])
     (use assms(2) in \<open>auto simp: ends_def\<close>)

lemma start_locked_held:
  assumes "held env [] None s t" "ms_epochs_last s \<noteq> - 1"
  shows "returns (start_locked env spec t) (ends env s (\<lambda>_. launched spec s))"
proof (rule ends_weaken)
  show "returns (start_locked env spec t) (ends env t (\<lambda>_. launched spec t))"
    by (rule start_locked_ends) (use assms in \<open>simp_all add: held_def\<close>)
qed (use assms(1) in \<open>simp_all add: held_def launched_def\<close>)

text \<open>A transaction that starts from a state equal to \<open>s\<close> in what is published.\<close>

lemma ends_from_public:
  assumes "public_view t = public_view s" "returns m (ends env t P)" "\<And>x u. P x u \<Longrightarrow> Q x u"
  shows "returns m (ends env s Q)"
  by (rule ends_weaken [OF assms(2)]) (use public_proj [OF assms(1)] assms(3) in auto)

lemma launched_public:
  assumes "public_view t = public_view s"
  shows "launched spec t = launched spec s"
  using public_proj [OF assms] by (simp add: launched_def fun_eq_iff)

lemma start_ends:
  assumes "minv env [] s" "ms_epochs_last s \<noteq> - 1"
  shows "returns (start env spec s) (ends env s (\<lambda>_. launched spec s))"
  unfolding start_def
proof (rule returns_reject_quarantine)
  fix e show "ends env s (\<lambda>_. launched spec s) (Inl e) s"
    by (rule ends_Inl [OF held_refl [OF assms(1)]])
next
  show "returns (and_do (runtime_alive env s) (\<lambda>running t.
      if running then fail AlreadyRunning t
      else and_do (discard_stale env t) (\<lambda>_ t. finish_dns_converge env (start_locked env spec t))))
    (ends env s (\<lambda>_. launched spec s))"
  proof (rule returns_runtime_alive)
    fix alive t assume t: "public_view t = public_view s"
    note inv = minv_public [OF t assms(1)]
    have last: "ms_epochs_last t \<noteq> - 1" using assms(2) public_proj [OF t] by simp
    have "returns (if alive then fail AlreadyRunning t
      else and_do (discard_stale env t) (\<lambda>_ t. finish_dns_converge env (start_locked env spec t)))
      (ends env t (\<lambda>_. launched spec t))"
    proof (rule returns_ifI)
      show "returns (fail AlreadyRunning t) (ends env t (\<lambda>_. launched spec t))"
        using ends_Inl [OF held_refl [OF inv]] by simp
      show "returns (and_do (discard_stale env t) (\<lambda>_ t. finish_dns_converge env (start_locked env spec t)))
        (ends env t (\<lambda>_. launched spec t))"
        by (intro discard_then_ends [OF inv] ends_finish_dns start_locked_held last launched_stable)
    qed
    then show "returns (if alive then fail AlreadyRunning t
      else and_do (discard_stale env t) (\<lambda>_ t. finish_dns_converge env (start_locked env spec t)))
      (ends env s (\<lambda>_. launched spec s))"
      by (rule ends_from_public [OF t]) (simp add: launched_public [OF t])
  qed
qed

section \<open>Stopping\<close>

definition user_stopped :: "mgr \<Rightarrow> bool" where
  "user_stopped t \<longleftrightarrow> ms_current t = None \<and> cs_state (ms_status t) = CStopped (Some User)
     \<and> cs_revision (ms_status t) = None"

lemma publish_status [simp]:
  "cs_state (ms_status (publish env st p s)) = st"
  "cs_revision (ms_status (publish env st p s)) = map_option pl_revision p"
  by (simp_all add: publish_def set_status_def tick_def Let_def)

lemma held_take:
  assumes "held env X (Some a) s t"
  shows "held env (ac_instance a # X) None s (t\<lparr>ms_current := None\<rparr>)"
    and "in_epoch (ac_instance a) = plan_epoch (ac_plan a)"
    and "fresh (plan_epoch (ac_plan a)) None s"
  using assms by (auto simp: minv_def held_def fresh_def)

lemma stop_taken_ends:
  assumes "held env [ac_instance a] None s t" "epoch_get (in_epoch (ac_instance a)) \<le> ms_epochs_last s"
  shows "returns (stop_taken env a t) (ends env s (\<lambda>_. user_stopped))"
  unfolding stop_taken_def Let_def
  apply (rule held_stop [OF assms(1)], simp)
   apply (rule returns_ifI)
    apply (erule ends_latch, simp, rule assms(2), simp)
   apply (simp add: ends_Inl)
  apply (erule held_matching, intro keeps_rules refl)
   apply (simp add: ends_Inl)
  apply (simp add: ends_def held_def user_stopped_def)
  done

lemma stop_terminal_ends:
  assumes "held env [ac_instance a] None s t" "epoch_get (in_epoch (ac_instance a)) \<le> ms_epochs_last s"
  shows "returns (stop_terminal env a captured t) (ends env s (\<lambda>_. user_stopped))"
  unfolding stop_terminal_def Let_def
  apply (rule held_stop [OF assms(1)], simp)
   apply (rule returns_ifI)
    apply (erule ends_latch, simp, rule assms(2), simp)
   apply (simp add: ends_Inl)
  apply (erule held_matching, intro keeps_rules refl)
   apply (simp_all add: ends_Inl)
  done

lemma stop_ends:
  assumes "minv env [] s"
  shows "returns (stop env s) (ends env s (\<lambda>_. user_stopped))"
  unfolding stop_def
proof (rule held_and_do [OF held_refl [OF assms]])
  show "keeps s (dns_restore env s)" by (intro keeps_rules refl)
next
  fix x t assume t: "held env [] (ms_current s) s t"
  show "returns (case ms_current t of
         None \<Rightarrow> fail NotStarted t
       | Some active \<Rightarrow>
           and_do (ask (\<lambda>n. is_state (ev_state env n (ac_instance active))) (t\<lparr>ms_current := None\<rparr>))
             (\<lambda>captured s. if is_terminal captured then stop_terminal env active captured s
                else stop_taken env active s)) (ends env s (\<lambda>_. user_stopped))"
  proof (cases "ms_current t")
    case None
    then show ?thesis using t by (simp add: ends_Inl)
  next
    case (Some a)
    then have "held env [] (Some a) s t" using t by (simp add: held_def)
    note h = held_take [OF this]
    show ?thesis
      unfolding Some option.case
      using h by (auto simp: ask_def ok_def fresh_def intro!: stop_terminal_ends stop_taken_ends)
  qed
qed (rule ends_Inl)

lemma shutdown_ends:
  assumes "minv env [] s"
  shows "returns (shutdown env s) (ends env s (\<lambda>_ t. ms_current t = None))"
  unfolding shutdown_def
proof (rule held_and_do [OF held_refl [OF assms]])
  show "keeps s (dns_restore env s)" by (intro keeps_rules refl)
next
  fix x t assume t: "held env [] (ms_current s) s t"
  show "returns (case ms_current t of None \<Rightarrow> ok () t
       | Some active \<Rightarrow> stop_taken env active (t\<lparr>ms_current := None\<rparr>))
     (ends env s (\<lambda>_ t. ms_current t = None))"
  proof (cases "ms_current t")
    case None
    then show ?thesis using t by (simp add: ends_def held_def)
  next
    case (Some a)
    then have "held env [] (Some a) s t" using t by (simp add: held_def)
    note h = held_take [OF this]
    have "returns (stop_taken env a (t\<lparr>ms_current := None\<rparr>)) (ends env s (\<lambda>_. user_stopped))"
      using h by (intro stop_taken_ends) (simp_all add: fresh_def)
    then show ?thesis
      unfolding Some option.case by (rule ends_weaken) (simp_all add: user_stopped_def)
  qed
qed (rule ends_Inl)

section \<open>Recovering from quarantine\<close>

lemma mark_entry_epochs [simp]: "map qe_epoch (mark_entry e qs) = map qe_epoch qs"
  by (induction qs) auto

lemma mark_entry_other: "q \<in> set qs \<Longrightarrow> qe_epoch q \<noteq> e \<Longrightarrow> q \<in> set (mark_entry e qs)"
  by (induction qs) auto

lemma mark_entry_proven:
  "q \<in> set (mark_entry e qs) \<Longrightarrow> qe_death_proven q \<Longrightarrow> qe_epoch q = e \<or> q \<in> set qs"
  by (induction qs) (auto split: if_splits)

lemma qepochs_mark_dead [simp]: "qepochs (mark_dead e s) = qepochs s"
  by (simp add: mark_dead_def flip: set_map)

text \<open>In the middle of a recovery: \<open>qs\<close> are the entries still to be visited.\<close>

definition recovering :: "env \<Rightarrow> mgr \<Rightarrow> quarantined_epoch list \<Rightarrow> string list \<Rightarrow> mgr \<Rightarrow> bool" where
  "recovering env s qs failures t \<longleftrightarrow> minv env [] t \<and> ms_current t = ms_current s
     \<and> ms_epochs_last t = ms_epochs_last s
     \<and> (\<forall>q \<in> set qs. qe_epoch q \<in> qepochs t
          \<and> (qe_death_proven q \<longrightarrow> (\<forall>i \<in> set (ms_live t). in_epoch i \<noteq> qe_epoch q)))
     \<and> distinct (map qe_epoch qs)
     \<and> (if failures = [] then qepochs t \<subseteq> qe_epoch ` set qs else \<not> qepochs t \<subseteq> qe_epoch ` set qs)"

lemma recovering_same_core:
  "same_core t u \<Longrightarrow> recovering env s qs failures t \<Longrightarrow> recovering env s qs failures u"
  using minv_same_core [of u t env "[]"] by (simp add: recovering_def core_view_def)

lemma epochs_filter [simp]:
  "qe_epoch ` {x \<in> A. qe_epoch x \<noteq> e} = qe_epoch ` A - {e}"
  by auto

lemma drop_entry_inv:
  assumes "minv env [] t" "\<forall>i \<in> set (ms_live t). in_epoch i \<noteq> e"
  shows "minv env [] (t\<lparr>ms_quarantine := filter (\<lambda>x. qe_epoch x \<noteq> e) (ms_quarantine t)\<rparr>)"
  using assms unfolding minv_def by (auto simp: distinct_map_filter)

lemma recovering_failed:
  assumes "recovering env s (q # qs) failures t"
  shows "recovering env s qs (failures @ [f]) t"
  using assms by (auto simp: recovering_def split: if_splits)

lemma recovering_dropped:
  assumes "recovering env s (q # qs) failures t" "\<forall>i \<in> set (ms_live t). in_epoch i \<noteq> qe_epoch q"
  shows "recovering env s qs failures
    (t\<lparr>ms_quarantine := filter (\<lambda>x. qe_epoch x \<noteq> qe_epoch q) (ms_quarantine t)\<rparr>)"
proof -
  let ?e = "qe_epoch q"
  let ?t = "t\<lparr>ms_quarantine := filter (\<lambda>x. qe_epoch x \<noteq> ?e) (ms_quarantine t)\<rparr>"
  have t: "minv env [] t" "distinct (map qe_epoch (q # qs))"
    "\<forall>x \<in> set qs. qe_epoch x \<in> qepochs t
       \<and> (qe_death_proven x \<longrightarrow> (\<forall>i \<in> set (ms_live t). in_epoch i \<noteq> qe_epoch x))"
    using assms(1) by (simp_all add: recovering_def)
  have e: "qepochs ?t = qepochs t - {?e}" by simp
  have other: "\<forall>x \<in> set qs. qe_epoch x \<in> qepochs ?t"
  proof
    fix x assume "x \<in> set qs"
    then have "qe_epoch x \<in> qepochs t" "qe_epoch x \<in> qe_epoch ` set qs" using t(3) by simp_all
    moreover have "?e \<notin> qe_epoch ` set qs" using t(2) by simp
    ultimately show "qe_epoch x \<in> qepochs ?t" unfolding e by (metis DiffI singletonD)
  qed
  have left: "if failures = [] then qepochs ?t \<subseteq> qe_epoch ` set qs else \<not> qepochs ?t \<subseteq> qe_epoch ` set qs"
    unfolding e using assms(1) by (auto simp: recovering_def simp del: epochs_filter split: if_splits)
  show ?thesis
    unfolding recovering_def
    using drop_entry_inv [OF t(1) assms(2)] other left t(2,3) assms(1)
    by (simp add: recovering_def del: epochs_filter)
qed

lemma mark_dead_inv:
  assumes "minv env [] t" "\<forall>i \<in> set (ms_live t). in_epoch i \<noteq> e"
  shows "minv env [] (mark_dead e t)"
proof -
  have "\<forall>q \<in> set (mark_entry e (ms_quarantine t)). qe_death_proven q \<longrightarrow>
      (\<forall>i \<in> set (ms_live t). in_epoch i \<noteq> qe_epoch q)"
    using assms mark_entry_proven [of _ e "ms_quarantine t"] by (fastforce simp: minv_def)
  moreover have "qe_epoch ` set (mark_entry e (ms_quarantine t)) = qepochs t"
    using qepochs_mark_dead [of e t] by (simp add: mark_dead_def)
  ultimately show ?thesis
    using assms(1) by (simp add: minv_def mark_dead_def)
qed

lemma recovering_marked:
  assumes "recovering env s qs failures t" "\<forall>i \<in> set (ms_live t). in_epoch i \<noteq> e"
  shows "recovering env s qs failures (mark_dead e t)"
proof -
  have "minv env [] (mark_dead e t)"
    using mark_dead_inv assms by (simp add: recovering_def)
  then show ?thesis
    using assms qepochs_mark_dead [of e t] by (auto simp: recovering_def mark_dead_def)
qed

lemma recovering_reaped:
  assumes "recovering env s qs failures t"
  shows "recovering env s qs failures
    (tick (t\<lparr>ms_live := filter (\<lambda>i. in_epoch i \<noteq> e) (ms_live t)\<rparr>))"
proof -
  have "minv env [] (t\<lparr>ms_live := filter (\<lambda>i. in_epoch i \<noteq> e) (ms_live t)\<rparr>)"
    using assms by (auto simp: recovering_def minv_def) blast
  then show ?thesis using assms by (auto simp: recovering_def)
qed

definition recovered :: "env \<Rightarrow> mgr \<Rightarrow> quarantined_epoch list \<Rightarrow> string list \<Rightarrow> error + string option \<Rightarrow> mgr \<Rightarrow> bool" where
  "recovered env s qs failures r t \<longleftrightarrow> (case r of
     Inr (Some f) \<Rightarrow> recovering env s qs (failures @ [f]) t
   | Inr None \<Rightarrow> recovering env s qs failures t
   | Inl _ \<Rightarrow> False)"

lemma recover_cleanup_ends:
  assumes "recovering env s (q # qs) failures t" "\<forall>i \<in> set (ms_live t). in_epoch i \<noteq> qe_epoch q"
  shows "returns (recover_cleanup env q t) (recovered env s qs failures)"
proof -
  have "recovering env s (q # qs) failures u \<and> (\<forall>i \<in> set (ms_live u). in_epoch i \<noteq> qe_epoch q)"
    if "same_core t u" for u
    using recovering_same_core [OF that assms(1)] that assms(2) by (simp add: core_view_def)
  then show ?thesis
    unfolding recover_cleanup_def
    by (intro keeps_matchingI [of t] keeps_rules refl)
       (auto simp: recovered_def intro: recovering_failed recovering_dropped)
qed

lemma recover_entry_ends:
  assumes "recovering env s (q # qs) failures t"
  shows "returns (recover_entry env q t) (recovered env s qs failures)"
proof (cases "qe_death_proven q")
  case True
  then show ?thesis
    unfolding recover_entry_def
    using recover_cleanup_ends [OF assms] assms by (simp add: recovering_def)
next
  case False
  let ?e = "qe_epoch q"
  let ?u = "tick (t\<lparr>ms_live := filter (\<lambda>i. in_epoch i \<noteq> ?e) (ms_live t)\<rparr>)"
  have u: "recovering env s (q # qs) failures (mark_dead ?e ?u)"
    by (rule recovering_marked [OF recovering_reaped [OF assms]]) simp
  have "returns (recover_cleanup env q (mark_dead ?e ?u)) (recovered env s qs failures)"
    by (rule recover_cleanup_ends [OF u]) (simp add: mark_dead_def)
  moreover have "recovered env s qs failures (Inr (Some f)) (tick t)" for f
    using recovering_same_core [OF _ recovering_failed [OF assms, of f], of "tick t"] by (simp add: recovered_def)
  ultimately show ?thesis
    using False
    by (auto simp: recover_entry_def reap_epoch_pid_file_def matching_def ok_def fail_def
        split: sum.splits reap_outcome.splits)
qed

lemma recover_entries_ends:
  assumes "recovering env s qs failures t"
  shows "returns (recover_entries env qs failures t)
    (\<lambda>r u. \<exists>fs. r = Inr fs \<and> recovering env s [] fs u)"
  using assms
proof (induction qs arbitrary: failures t)
  case (Cons q qs)
  show ?case
    unfolding recover_entries.simps
    by (rule returns_and_doI [OF recover_entry_ends [OF Cons.prems]])
       (auto simp: recovered_def intro: Cons.IH split: option.splits)
qed (simp add: ok_def)

lemma recover_quarantine_ends:
  assumes "minv env [] s"
  shows "returns (recover_quarantine env s) (ends env s (\<lambda>_ t. ms_quarantine t = [] \<and> ms_current t = ms_current s))"
proof (cases "ms_quarantine s = []")
  case True
  then show ?thesis using assms by (simp add: recover_quarantine_def ok_def ends_def)
next
  case False
  have start: "recovering env s (ms_quarantine s) [] s"
    using assms by (auto simp: recovering_def minv_def)
  have "returns (recover_quarantine env s) (\<lambda>r t. minv env [] t \<and> ms_epochs_last t = ms_epochs_last s
      \<and> (case r of Inl _ \<Rightarrow> True | Inr _ \<Rightarrow> ms_quarantine t = [] \<and> ms_current t = ms_current s))"
    unfolding recover_quarantine_def if_not_P [OF False]
    apply (rule returns_and_doI [OF recover_entries_ends [OF start]], simp)
    apply (rule returns_ifI)
     apply (auto simp: recovering_def split: list.splits if_splits)[1]
    apply (elim exE conjE)
    apply (rule keeps_and_doI, rule core.keeps_dns_restore, rule refl)
     apply (drule recovering_same_core, assumption, simp add: recovering_def)
    apply (drule recovering_same_core, assumption, simp add: recovering_def)
    done
  then show ?thesis by (rule returns_mono) (auto simp: ends_def split: sum.splits)
qed

end
