(* ===== verification/Manager_Switch.thy ===== *)
theory Manager_Switch
  imports Manager_Runs
begin

text \<open>
  The switch transactions, hard and graceful, end with the invariant and, on success, with a new
  epoch that runs the requested spec.
\<close>

section \<open>Replacements\<close>

lemma held_set: "held env X c s t \<Longrightarrow> set X = set Y \<Longrightarrow> held env Y c s t"
  unfolding held_def minv_def by auto

text \<open>What a failed launch leaves in the hands of the transaction.\<close>

definition leftover :: "env \<Rightarrow> epoch \<Rightarrow> error \<Rightarrow> mgr \<Rightarrow> mgr \<Rightarrow> bool" where
  "leftover env e err s t \<longleftrightarrow> (if is_stop_unconfirmed err
     then \<exists>Y. held env Y None s t \<and> (\<forall>i \<in> set Y. in_epoch i = e) else held env [] None s t)"

lemma leftover_idle: "held env [] None s t \<Longrightarrow> leftover env e err s t"
  by (auto simp: leftover_def intro!: exI [of _ "[]"])

lemma leftover_latch:
  assumes "leftover env e err s t" "is_stop_unconfirmed err" "fresh e None s"
  shows "returns (latch_quarantine env' e err' t) (ends env s P)"
proof -
  obtain Y where "held env Y None s t" "\<forall>i \<in> set Y. in_epoch i = e"
    using assms(1,2) by (auto simp: leftover_def)
  then show ?thesis using assms(3) by (intro ends_latch) (auto simp: fresh_def)
qed

lemma leftover_dead: "leftover env e err s t \<Longrightarrow> \<not> is_stop_unconfirmed err \<Longrightarrow> held env [] None s t"
  by (simp add: leftover_def)

lemma leftover_same_core: "leftover env e err s t \<Longrightarrow> same_core t u \<Longrightarrow> leftover env e err s u"
  unfolding leftover_def by (auto intro: held_same_core split: if_splits)

lemma leftover_ignoring:
  "leftover env e err s t \<Longrightarrow> keeps t m \<Longrightarrow> (\<And>u. leftover env e err s u \<Longrightarrow> returns (f u) Q)
     \<Longrightarrow> returns (ignoring m f) Q"
  unfolding keeps_view_def ignoring_def by (erule returns_bindI) (auto dest: leftover_same_core)

lemma ends_leftover:
  assumes "leftover env e err s t" "fresh e None s"
  shows "returns (if is_stop_unconfirmed err then latch_quarantine env' e err1 t
    else fail err2 (publish_terminal_error env' err3 t)) (ends env s P)"
proof (cases "is_stop_unconfirmed err")
  case False
  then have "held env [] None s t" using leftover_dead [OF assms(1)] by simp
  then show ?thesis using False by (simp add: ends_Inl)
qed (use leftover_latch [OF assms(1) _ assms(2)] in simp)

lemma leftover_retire:
  assumes "held env [] (Some a) s t" "same_core t t'"
    and "\<And>err u. leftover env (plan_epoch (ac_plan a)) err s u
           \<Longrightarrow> returns (f (Inl (plan_epoch (ac_plan a), err)) u) Q"
    and "\<And>u. held env [] None s u \<Longrightarrow> returns (f (Inr (Some (ac_plan a))) u) Q"
  shows "returns (and_do (retire_current env' t') f) Q"
proof (rule held_retire [OF assms(1,2)])
  fix err u
  assume "held env [ac_instance a] None s u" "in_epoch (ac_instance a) = plan_epoch (ac_plan a)"
    "\<not> is_stop_unconfirmed err \<Longrightarrow> held env [] None s u"
  then have "leftover env (plan_epoch (ac_plan a)) err s u"
    by (auto simp: leftover_def intro!: exI [of _ "[ac_instance a]"])
  then show "returns (f (Inl (plan_epoch (ac_plan a), err)) u) Q" by (rule assms(3))
qed (rule assms(4))

lemma spawn_replacement_spec:
  assumes "held env [] None s t" "fresh (plan_epoch plan) None s"
  shows "returns (spawn_replacement env plan t) (\<lambda>r u. case r of
     Inl err \<Rightarrow> leftover env (plan_epoch plan) err s u
   | Inr i \<Rightarrow> in_epoch i = plan_epoch plan \<and> held env [i] None s u)" (is "returns _ ?Q")
proof -
  have stop: "returns (matching (stop_and_confirm_dead env i u)
      (\<lambda>stop_err s. fail (StopUnconfirmed (error_to_string err @ msg @ error_to_string stop_err)) s)
      (\<lambda>_ s. fail err s)) ?Q"
    if "held env [i] None s u" "in_epoch i = plan_epoch plan" for i u err msg
    by (rule held_stop [OF that(1) refl])
       (use that(2) in \<open>auto simp: leftover_idle, auto simp: leftover_def intro!: exI [of _ "[i]"]\<close>)
  have spawn: "returns (and_do (spawn_instance env plan u) f) ?Q"
    if "held env [] None s u" "\<And>i u. in_epoch i = plan_epoch plan \<Longrightarrow> held env [i] None s u \<Longrightarrow> returns (f i u) ?Q"
    for u f
    by (rule returns_and_doI [OF spawn_spec [OF that(1) assms(2)]]) (use that(2) in \<open>auto simp: leftover_idle\<close>)
  show ?thesis
    unfolding spawn_replacement_def
    apply (rule held_and_do [OF assms(1)], intro keeps_rules refl, simp add: leftover_idle)
    apply (erule held_and_do, intro keeps_rules refl, simp add: leftover_idle)
    apply (erule spawn)
    apply (erule held_matching, intro keeps_rules refl)
     apply (erule stop, assumption)
    apply simp
    done
qed

lemma held_replacement:
  assumes "held env [] None s t" "same_core t t'" "fresh (plan_epoch plan) None s"
    and "\<And>err u. leftover env (plan_epoch plan) err s u \<Longrightarrow> returns (g err u) Q"
    and "\<And>i u. held env [i] None s u \<Longrightarrow> in_epoch i = plan_epoch plan \<Longrightarrow> returns (f i u) Q"
  shows "returns (matching (spawn_replacement env plan t') g f) Q"
  by (rule returns_matchingI [OF spawn_replacement_spec [OF held_same_core [OF assms(1,2)] assms(3)]])
     (use assms(4,5) in auto)

section \<open>The hard switch\<close>

lemma hard_switch_ends:
  assumes "minv env [] s" "ms_current s = Some a" "ms_epochs_last s \<noteq> - 1"
  shows "returns (hard_switch env spec snap resolved s) (ends env s (\<lambda>_. launched spec s))"
  unfolding hard_switch_def
  apply (rule returns_epochs_next [OF assms(1,3)])
  subgoal premises p for e t
  proof -
    note later = ends_later [OF order_less_imp_le [OF p(3)]]
    have f: "fresh e None t" using p(2) by (rule fresh_None)
    have old: "fresh (plan_epoch (ac_plan a)) None t"
      using held_take(3) [of env "[]" a] p(1) assms(2) by simp
    show ?thesis
      apply (rule held_yields_matching [OF p(1)], rule core.yields_prepare_launch_with_features, rule refl)
       apply (rule later, erule ends_cleanup_republish)
      apply (erule held_matching, intro keeps_rules refl)
       apply (rule later, erule ends_cleanup_republish)
      apply (simp only: assms(2))
      apply (erule leftover_retire, simp; simp only: sum.case prod.case option.case)
       apply (erule leftover_ignoring, intro keeps_rules refl)
       apply (rule later, erule ends_leftover, rule old)
      apply (erule held_matching, intro keeps_rules refl)
       apply (rule later, simp add: ends_Inl)
      apply (rule ends_launched [OF start_prepared_ends _ p(3,4)], assumption)
       apply (use f in \<open>simp add: plan_for_def\<close>)
      apply assumption
      done
  qed
  done

section \<open>The graceful switch\<close>

lemma ends_installed:
  assumes "held env [i] None s u" "in_epoch i = plan_epoch plan" "fresh (plan_epoch plan) None s"
  shows "ends env s (\<lambda>_. running_plan plan) (Inr x) (install i plan
      (publish_instance env i (CRunning (plan_epoch plan) pid) plan (tick u)))"
  using install_inv [of env i s "publish_instance env i (CRunning (plan_epoch plan) pid) plan (tick u)" plan] assms
  by (simp add: ends_def install_running) (simp add: install_def held_def)

lemma ends_then_cleanup:
  assumes "ends env s P (Inr y) t" "public_stable P" "\<And>u. P y u \<Longrightarrow> Q x u"
  shows "returns (and_do (mgr_cleanup_epoch env' e t) (\<lambda>_ u. ok x u)) (ends env s Q)"
proof -
  have "keeps_view public_view t (mgr_cleanup_epoch env' e t)" by (intro keeps_rules refl)
  then show ?thesis
    unfolding keeps_view_def
  proof (rule returns_and_doI)
    fix u assume u: "public_view u = public_view t"
    show "ends env s Q (Inl err) u" for err
      using ends_Inl_public [OF assms(1) u] by (simp add: ends_def)
    show "returns (ok x u) (ends env s Q)" 
      using ends_public [OF assms(1,2) u] assms(3) by (auto simp: ends_def)
  qed
qed

lemma running_stable: "public_stable (\<lambda>_. running_plan plan)"
  unfolding public_stable_def using running_plan_public by blast

lemma ends_switch_durability:
  assumes "returns m (ends env s (\<lambda>_. R))"
  shows "returns (mapping_result (\<lambda>r. with_switch_durability_result r w) m) (ends env s (\<lambda>_. R))"
  using assms
  by (auto simp: mapping_result_def with_switch_durability_result_def ends_def
      elim!: returnsE split: sum.splits option.splits)

lemma graceful_replace_ends:
  assumes "held env [i] None s t" "in_epoch i = plan_epoch launch" "fresh (plan_epoch launch) None s"
  shows "returns (graceful_replace env i launch old t) (ends env s (\<lambda>_. running_plan launch))"
proof -
  have e: "epoch_get (plan_epoch launch) \<le> ms_epochs_last s" using assms(3) by (simp add: fresh_def)
  show ?thesis
    unfolding graceful_replace_def Let_def
    apply (rule held_stop [OF assms(1) refl])
     apply (rule returns_ifI)
      apply (erule ends_latch, simp add: assms(2), rule e, simp)
     apply (simp add: ends_Inl)
    apply (erule held_replacement, rule refl, rule assms(3))
     apply (rule returns_ifI)
      apply (erule leftover_latch, assumption, rule assms(3))
     apply (drule leftover_dead, assumption, erule ends_cleanup)
    apply (rule ends_then_cleanup [OF ends_installed running_stable], assumption, assumption, rule assms(3))
    apply assumption
    done
qed

lemma graceful_commit_failed_ends:
  assumes "held env [i] None s t" "in_epoch i = e" "fresh e None s"
  shows "returns (graceful_commit_failed env i e err t) (ends env s P)"
proof -
  have e: "epoch_get e \<le> ms_epochs_last s" using assms(3) by (simp add: fresh_def)
  show ?thesis
    unfolding graceful_commit_failed_def
    apply (rule held_stop [OF assms(1) refl])
     apply (erule ends_latch, simp add: assms(2), rule e, simp)
    apply (erule held_ignoring, intro keeps_rules refl)
    apply (rule ends_leftover [OF leftover_idle assms(3)], assumption)
    done
qed

text \<open>Verification answers yes or no; it has no error of its own.\<close>

definition answers :: "'a result \<Rightarrow> bool" where
  "answers m \<longleftrightarrow> returns m (\<lambda>r _. is_ok r)"

lemma answers_ok [simp]: "answers (ok x t)" "answers (ask f t)"
  by (simp_all add: answers_def ask_def ok_def)

lemma answers_matching:
  assumes "m \<noteq> None" "\<And>e u. answers (g e u)" "\<And>x u. answers (f x u)"
  shows "answers (matching m g f)"
  using assms by (auto simp: matching_def split: sum.splits)

lemma call_Some [simp]: "call f t \<noteq> None"
  by (simp add: call_def)

lemma patch_and_verify_answers: "answers (patch_and_verify env i p q t)"
  unfolding patch_and_verify_def
  by (intro answers_matching) (auto simp: ignoring_def call_def intro!: answers_matching)

lemma reconcile_in_place_answers: "answers (reconcile_in_place env a c d t)"
  unfolding reconcile_in_place_def
  by (cases c) (auto simp: call_def intro!: patch_and_verify_answers answers_matching)

lemma within_timeout_answers: "answers m \<Longrightarrow> answers (within_reconcile_timeout env m)"
  unfolding answers_def within_reconcile_timeout_def
  by (erule returns_and_doI) (auto simp: ask_def ok_def)

lemma held_answer:
  assumes "held env X c s t" "keeps t m" "answers m"
    and "\<And>x u. held env X c s u \<Longrightarrow> returns (f x u) Q"
  shows "returns (and_do m f) Q"
  by (rule returns_and_doI [OF core.returns_keeps [OF assms(2) assms(3) [unfolded answers_def]]])
     (use assms(1,4) in \<open>auto dest: held_same_core\<close>)

lemma graceful_commit_ends:
  assumes "held env [i] None s t" "in_epoch i = plan_epoch (pg_plan prepared)"
    and "fresh (plan_epoch (pg_plan prepared)) None s"
  shows "returns (graceful_commit env i prepared old t) (ends env s (\<lambda>_. running_plan (pg_plan prepared)))"
  unfolding graceful_commit_def Let_def
  apply (rule held_matching [OF assms(1)], intro keeps_rules refl total_rules)
   apply (erule graceful_commit_failed_ends, rule assms(2), rule assms(3))
  apply (rule ends_switch_durability)
  apply (erule held_answer, intro keeps_rules refl)
   apply (rule within_timeout_answers)
   apply (auto intro: patch_and_verify_answers split: option.splits)[1]
  apply (rule returns_ifI)
   apply (rule ends_then_cleanup [OF ends_installed running_stable], assumption, rule assms(2), rule assms(3))
   apply assumption
  apply (erule graceful_replace_ends, rule assms(2), rule assms(3))
  done

lemma graceful_reject_ends:
  assumes "held env [i] c s t" "in_epoch i = e" "fresh e c s"
  shows "returns (graceful_reject env i e err msg t) (ends env s P)"
proof -
  have e: "epoch_get e \<le> ms_epochs_last s" using assms(3) by (simp add: fresh_def)
  show ?thesis
    unfolding graceful_reject_def
    apply (rule held_stop [OF assms(1) refl])
     apply (erule ends_latch, simp add: assms(2), rule e)
     apply (use assms(3) in \<open>simp add: fresh_def\<close>)
    apply (erule ends_cleanup_republish)
    done
qed

lemma graceful_retire_failed_ends:
  assumes "held env [old, i] None s t" "in_epoch old = retired" "in_epoch i = e"
    and "fresh e None s" "epoch_get retired \<le> ms_epochs_last s" "fresh retired None s"
    and "\<not> is_stop_unconfirmed err \<Longrightarrow> held env [i] None s t"
  shows "returns (graceful_retire_failed env i e retired err t) (ends env s P)"
proof (cases "is_stop_unconfirmed err")
  case False
  have e: "epoch_get e \<le> ms_epochs_last s" using assms(4) by (simp add: fresh_def)
  have t: "held env [i] None s t" using assms(7) False by simp
  show ?thesis
    unfolding graceful_retire_failed_def if_not_P [OF False]
    apply (rule held_stop [OF t refl])
     apply (erule ends_latch, simp add: assms(3), rule e, simp)
    apply (erule ends_cleanup)
    done
next
  case True
  have t: "held env [i, old] None s t" by (rule held_set [OF assms(1)]) auto
  show ?thesis
    unfolding graceful_retire_failed_def if_P [OF True]
    apply (rule held_stop [OF t refl])
    subgoal for new_err u
    proof -
      assume u: "held env [i, old] None s u"
      let ?u = "record_quarantine retired (error_to_string err) u"
      have "minv env [i] ?u"
        by (rule record_quarantine_inv [where Y = "[i, old]"])
           (use u assms(2,5) in \<open>auto simp: held_def\<close>)
      moreover have "ms_current ?u = None" "ms_epochs_last ?u = ms_epochs_last s"
        using u by (simp_all add: held_def record_quarantine_def)
      ultimately show ?thesis
        using assms(3,4)
        by (intro returns_mono [OF latch_spec [where Y = "[i]"]]) (auto simp: ends_def fresh_def)
    qed
    apply (erule held_ignoring, intro keeps_rules refl)
    apply (erule ends_latch)
      apply (use assms(2,5) in auto)
    done
qed

lemma graceful_switch_ends:
  assumes "minv env [] s" "ms_current s = Some a" "ms_epochs_last s \<noteq> - 1"
  shows "returns (graceful_switch env spec snap resolved s) (ends env s (\<lambda>_. launched spec s))"
  unfolding graceful_switch_def Let_def
  apply (rule returns_epochs_next [OF assms(1,3)])
  subgoal premises p for e t
  proof -
    note later = ends_later [OF order_less_imp_le [OF p(3)]]
    have f: "fresh e None t" using p(2) by (rule fresh_None)
    have old: "fresh (plan_epoch (ac_plan a)) None t" "epoch_get (plan_epoch (ac_plan a)) \<le> ms_epochs_last t"
      using held_take(3) [of env "[]" a] p(1) assms(2) by (simp_all add: fresh_def)
    show ?thesis
      apply (rule held_yields_matching [OF p(1)], rule core.yields_prepare_graceful, rule refl)
       apply (rule later, erule ends_cleanup_republish)
      subgoal premises q for prepared u
      proof -
        have e: "plan_epoch (pg_plan prepared) = e" using q(2) by (simp add: plan_for_def)
        show ?thesis
          apply (rule held_matching [OF q(1)], intro keeps_rules refl)
           apply (erule held_ignoring, intro keeps_rules refl)
           apply (erule held_drop, rule later, erule ends_cleanup_republish)
          apply (erule held_spawn, simp, simp only: e, rule f)
           apply (erule held_drop, rule later, erule ends_cleanup_republish)
          apply (erule held_matching, intro keeps_rules refl)
           apply (erule held_drop, rule later, erule graceful_reject_ends, simp only: e, rule p(2))
          apply (erule held_matching, intro keeps_rules refl)
           apply (erule held_drop, rule later, erule graceful_reject_ends, simp only: e, rule p(2))
          apply (simp only: assms(2))
          apply (erule held_retire, rule refl; simp only: sum.case prod.case option.case)
           apply (rule core.returns_drop_in_mgr, rule later, rule graceful_retire_failed_ends)
                 apply (erule held_same_core, assumption)
                apply assumption
               apply (simp only: e)
              apply (rule f)
             apply (rule old)
            apply (rule old)
           apply (rule held_same_core, blast, assumption)
          apply (rule ends_launched [OF graceful_commit_ends _ p(3,4)], assumption, assumption)
           apply (simp only: e, rule f)
          apply (rule q(2))
          done
      qed
      done
  qed
  done

section \<open>The transactions\<close>

lemma switch_locked_ends:
  assumes "minv env [] s" "ms_epochs_last s \<noteq> - 1"
  shows "returns (switch_locked env spec s) (ends env s (\<lambda>_. launched spec s))"
  unfolding switch_locked_def
proof (rule returns_runtime_alive)
  fix alive t assume t: "public_view t = public_view s" and alive: "alive \<Longrightarrow> ms_current s \<noteq> None"
  note inv = minv_public [OF t assms(1)]
  have last: "ms_epochs_last t \<noteq> - 1" using assms(2) public_proj [OF t] by simp
  let ?P = "\<lambda>_. launched spec t"
  have idle: "returns (and_do (discard_stale env t) (\<lambda>_ s.
       and_do (start_locked env spec s) (\<lambda>_ s. ok (Hard NotRunning) s))) (ends env t ?P)"
    by (rule discard_then_ends [OF inv], rule ends_ok, rule start_locked_held [OF _ last]) auto
  have running: "returns (case graceful_degrade_reason b k (Config.overlap_block (sn_document snap)) of
        Some reason \<Rightarrow> and_do (hard_switch env spec snap resolved u) (\<lambda>_ s. ok (Hard reason) s)
      | None \<Rightarrow> graceful_switch env spec snap resolved u) (ends env t ?P)"
    "returns (and_do (hard_switch env spec snap resolved u) (\<lambda>_ s. ok (Hard reason) s)) (ends env t ?P)"
    if h: "held env [] (ms_current t) t u" "ms_current t \<noteq> None" for u b k snap resolved reason
  proof -
    obtain a where a: "ms_current t = Some a" using h(2) by auto
    have u: "minv env [] u" "ms_current u = Some a" "ms_epochs_last u \<noteq> - 1"
      "ms_epochs_last u = ms_epochs_last t"
      using h(1) a last by (simp_all add: held_def)
    have "returns (hard_switch env spec snap resolved u) (ends env t ?P)"
      by (rule ends_weaken [OF hard_switch_ends [OF u(1-3)]]) (simp_all add: u launched_def)
    moreover have "returns (graceful_switch env spec snap resolved u) (ends env t ?P)"
      by (rule ends_weaken [OF graceful_switch_ends [OF u(1-3)]]) (simp_all add: u launched_def)
    ultimately show "returns (case graceful_degrade_reason b k (Config.overlap_block (sn_document snap)) of
          Some reason \<Rightarrow> and_do (hard_switch env spec snap resolved u) (\<lambda>_ s. ok (Hard reason) s)
        | None \<Rightarrow> graceful_switch env spec snap resolved u) (ends env t ?P)"
      "returns (and_do (hard_switch env spec snap resolved u) (\<lambda>_ s. ok (Hard reason) s)) (ends env t ?P)"
      by (auto intro: ends_ok split: option.split)
  qed
  show "returns (if \<not> alive then
       and_do (discard_stale env t) (\<lambda>_ s.
       and_do (start_locked env spec s) (\<lambda>_ s. ok (Hard NotRunning) s))
     else
       and_do (load_snapshot env (sp_config_path spec) t) (\<lambda>snap s.
       and_do (validate_launchable env spec s) (\<lambda>_ s.
       and_do (mgr_resolve_features env spec s) (\<lambda>resolved s.
       let http_listener = (is_some_and (ms_current s) (\<lambda>a. has_http (pl_effective_document (ac_plan a)))
             \<or> lis_keep_http_controller (spec_local_ipc_settings env spec) \<and> has_http (sn_document snap))
       in if ev_native_dir env \<noteq> None then
            and_do (hard_switch env spec snap resolved s) (\<lambda>_ s. ok (Hard NativeStoreShared) s)
          else case graceful_degrade_reason (LocalIpc \<in> set (rf_runtime resolved) \<and> \<not> http_listener)
               (co_kind (sp_core spec)) (Config.overlap_block (sn_document snap)) of
            Some reason \<Rightarrow> and_do (hard_switch env spec snap resolved s) (\<lambda>_ s. ok (Hard reason) s)
          | None \<Rightarrow> graceful_switch env spec snap resolved s)))) (ends env s (\<lambda>_. launched spec s))"
    apply (rule ends_from_public [OF t, where P = ?P])
     apply (rule returns_ifI, rule idle)
     apply (rule held_and_do [OF held_refl [OF inv]], intro keeps_rules refl, erule ends_Inl)
     apply (erule held_and_do, intro keeps_rules refl, erule ends_Inl)
     apply (erule held_and_do, intro keeps_rules refl, erule ends_Inl)
     apply (unfold Let_def)
     apply (rule returns_ifI; rule running, assumption, use alive public_proj [OF t] in simp)
    apply (simp add: launched_public [OF t])
    done
qed

lemma switch_ends:
  assumes "minv env [] s" "ms_epochs_last s \<noteq> - 1"
  shows "returns (switch env spec s) (ends env s (\<lambda>_. launched spec s))"
  unfolding switch_def
  by (rule returns_reject_quarantine, rule ends_Inl [OF held_refl [OF assms(1)]])
     (intro ends_finish_dns switch_locked_ends assms launched_stable)

lemma restart_ends:
  assumes "minv env [] s" "ms_epochs_last s \<noteq> - 1"
  shows "returns (restart env s) (ends env s (\<lambda>_ t. \<exists>spec. ms_last_spec s = Some spec \<and> launched spec s t))"
proof (cases "ms_last_spec s")
  case None
  then show ?thesis
    unfolding restart_def
    by (intro returns_reject_quarantine) (auto intro: ends_Inl [OF held_refl [OF assms(1)]])
next
  case (Some spec)
  have "returns (finish_dns_converge env (switch_locked env spec s)) (ends env s (\<lambda>_. launched spec s))"
    by (intro ends_finish_dns switch_locked_ends assms launched_stable)
  then have "returns (finish_dns_converge env (switch_locked env spec s))
      (ends env s (\<lambda>_ t. \<exists>spec. ms_last_spec s = Some spec \<and> launched spec s t))"
    by (rule ends_weaken) (simp_all add: Some)
  then show ?thesis
    unfolding restart_def
    by (intro returns_reject_quarantine) (auto simp: Some intro: ends_Inl [OF held_refl [OF assms(1)]])
qed

end
