(* ===== verification/Manager_Apply.thy ===== *)
theory Manager_Apply
  imports Manager_Switch
begin

text \<open>
  Applying a configuration: every outcome describes the state it leaves. The compensations relaunch
  the old plan when the desired one is rejected, and never lose a runtime.
\<close>

section \<open>What an outcome claims\<close>

text \<open>\<open>a\<close> is what was active at the beginning, if anything was.\<close>

fun outcome_holds :: "instance_spec \<Rightarrow> active option \<Rightarrow> apply_outcome \<Rightarrow> mgr \<Rightarrow> bool" where
  "outcome_holds input a (ApplyDurabilityUncertain outcome w) t = outcome_holds input a outcome t"
| "outcome_holds input a (RolledBack revision w) t \<longleftrightarrow> (\<exists>old. a = Some old \<and> running_plan (ac_plan old) t
     \<and> pl_revision (ac_plan old) = revision)"
| "outcome_holds input a (OutcomeNoop revision) t \<longleftrightarrow> (\<exists>old. a = Some old
     \<and> ms_current t = Some (old\<lparr>ac_plan := (ac_plan old)\<lparr>pl_source_spec := input\<rparr>\<rparr>)
     \<and> ms_last_spec t = Some input \<and> pl_revision (ac_plan old) = revision)"
| "outcome_holds input a (Patched revision) t \<longleftrightarrow> (\<exists>old plan. a = Some old \<and> running_plan plan t
     \<and> pl_source_spec plan = input \<and> pl_revision plan = revision \<and> plan_epoch plan = plan_epoch (ac_plan old)
     \<and> cr_generation revision = cr_generation (pl_revision (ac_plan old)) + 1
     \<and> map_option ac_instance (ms_current t) = Some (ac_instance old))"
| "outcome_holds input a (Reloaded revision) t \<longleftrightarrow> (\<exists>old plan. a = Some old \<and> running_plan plan t
     \<and> pl_source_spec plan = input \<and> pl_revision plan = revision \<and> plan_epoch plan = plan_epoch (ac_plan old)
     \<and> cr_generation revision = cr_generation (pl_revision (ac_plan old)) + 1
     \<and> map_option ac_instance (ms_current t) = Some (ac_instance old))"
| "outcome_holds input a (Restarted revision) t \<longleftrightarrow> (\<exists>old plan. a = Some old \<and> running_plan plan t
     \<and> pl_source_spec plan = input \<and> pl_revision plan = revision \<and> plan_epoch plan = plan_epoch (ac_plan old)
     \<and> cr_generation revision = cr_generation (pl_revision (ac_plan old)) + 1)"
| "outcome_holds input a (Switched revision) t \<longleftrightarrow> (\<exists>old plan. a = Some old \<and> running_plan plan t
     \<and> pl_source_spec plan = input \<and> pl_revision plan = revision \<and> plan_epoch plan \<noteq> plan_epoch (ac_plan old)
     \<and> cr_generation revision = 1)"
| "outcome_holds input a (Started revision) t \<longleftrightarrow> (\<exists>plan. running_plan plan t
     \<and> pl_source_spec plan = input \<and> pl_revision plan = revision \<and> cr_generation revision = 1)"

lemma outcome_stable: "public_stable (outcome_holds input a)"
  unfolding public_stable_def
proof (intro allI impI)
  fix x s t assume v: "public_view t = public_view s" "outcome_holds input a x s"
  have "ms_current t = ms_current s" "ms_last_spec t = ms_last_spec s"
    using public_proj [OF v(1)] by simp_all
  then show "outcome_holds input a x t"
    using v(2) running_plan_public [OF v(1)] by (induction input a x s rule: outcome_holds.induct) simp_all
qed

lemma ends_durability:
  assumes "returns m (ends env s (outcome_holds input a))"
  shows "returns (mapping_result (\<lambda>r. with_durability_result r w) m) (ends env s (outcome_holds input a))"
  using assms
  by (auto simp: mapping_result_def with_durability_result_def with_durability_warning_def ends_def
      elim!: returnsE split: sum.splits option.splits)

section \<open>Compensation\<close>

lemma ends_install_and_publish:
  assumes "held env [i] None s u" "in_epoch i = plan_epoch plan" "fresh (plan_epoch plan) None s"
  shows "ends env s (\<lambda>_. running_plan plan) (Inr x) (install_and_publish env i plan u)"
proof -
  let ?t = "install i plan (tick u)"
  have "minv env [] ?t" by (rule install_inv [OF _ assms(2,3)]) (use assms(1) in simp)
  then have "minv env [] (install_and_publish env i plan u)"
    by (simp add: install_and_publish_def Let_def)
  moreover have "running_plan plan (install_and_publish env i plan u)"
    by (simp add: running_plan_def install_and_publish_def publish_active_def Let_def) (simp add: install_def)
  moreover have "ms_epochs_last (install_and_publish env i plan u) = ms_epochs_last s"
    using assms(1) by (simp add: install_and_publish_def Let_def) (simp add: install_def held_def)
  ultimately show ?thesis by (simp add: ends_def)
qed

text \<open>A last disk step after a success.\<close>

lemma ends_then_forget:
  assumes "ends env s P (Inr y) t" "public_stable P" "\<And>u. P y u \<Longrightarrow> Q x u"
  shows "returns (Option.bind (forget_backup env' b t) (\<lambda>u. ok x u)) (ends env s Q)"
  by (rule public.returns_forget_backup)
     (use ends_public [OF assms(1,2)] assms(3) in \<open>auto simp: ends_def\<close>)

definition quiet :: "(mgr \<Rightarrow> mgr option) \<Rightarrow> bool" where
  "quiet after \<longleftrightarrow> (\<forall>u. \<exists>v. after u = Some v \<and> public_view v = public_view u)"

lemma quiet_Some: "quiet Some"
  by (simp add: quiet_def)

lemma quiet_forget: "quiet (forget_backup env b)"
  using public.forget_backup_Some by (simp add: quiet_def)

lemma rollback_to_ends:
  assumes "held env [] None s t" "fresh (plan_epoch old) None s" "quiet after"
    and "\<And>u. running_plan old u \<Longrightarrow> P (RolledBack (pl_revision old) apply_text) u"
  shows "returns (rollback_to env old apply_text what after t) (ends env s P)"
proof -
  have fin: "returns (Option.bind (after (install_and_publish env i old u))
      (\<lambda>s. ok (RolledBack (pl_revision old) apply_text) s)) (ends env s P)"
    if "held env [i] None s u" "in_epoch i = plan_epoch old" for i u
  proof -
    obtain v where v: "after (install_and_publish env i old u) = Some v"
      "public_view v = public_view (install_and_publish env i old u)"
      using assms(3) by (auto simp: quiet_def)
    have "ends env s (\<lambda>_. running_plan old) (Inr ()) v"
      by (rule ends_public [OF ends_install_and_publish [OF that assms(2)] running_stable v(2)])
    then show ?thesis using assms(4) by (simp add: v(1) ends_def)
  qed
  show ?thesis
    unfolding rollback_to_def Let_def
    apply (rule held_replacement [OF assms(1)], simp, rule assms(2))
     apply (rule ends_leftover, assumption, rule assms(2))
    apply (erule fin, assumption)
    done
qed

lemma restart_with_compensation_ends:
  assumes "held env [] (Some a) s t"
    and "plan_for input (plan_epoch (ac_plan a)) (cr_generation (pl_revision (ac_plan a)) + 1) desired"
  shows "returns (restart_with_compensation env desired bk t) (ends env s (outcome_holds input (Some a)))"
proof -
  have f: "fresh (plan_epoch (ac_plan a)) None s" "fresh (plan_epoch desired) None s"
    "plan_epoch desired = plan_epoch (ac_plan a)"
    using held_take(3) [OF assms(1)] assms(2) by (simp_all add: plan_for_def)
  have ok: "outcome_holds input (Some a) (Restarted (pl_revision desired)) u" if "running_plan desired u" for u
    using that assms(2) by (auto simp: plan_for_def)
  show ?thesis
    unfolding restart_with_compensation_def Let_def
    apply (rule held_and_do [OF assms(1)], intro keeps_rules refl, erule ends_Inl)
    apply (erule leftover_retire, rule refl; simp only: sum.case prod.case option.case)
     apply (erule ends_leftover, rule f)
    apply (erule held_replacement, simp, rule f)
     apply (rule returns_ifI)
      apply (erule leftover_latch, assumption, rule f)
     apply (drule leftover_dead, assumption)
     apply (erule held_matching, intro keeps_rules refl total_rules)
      apply (simp add: ends_Inl)
     apply (rule ends_durability)
     apply (erule rollback_to_ends, rule f, rule quiet_forget, simp)
    apply (rule ends_then_forget [OF ends_install_and_publish running_stable], assumption, assumption, rule f)
    apply (erule ok)
    done
qed

lemma switch_with_compensation_ends:
  assumes "minv env [] s" "ms_current s = Some a" "ms_epochs_last s \<noteq> - 1"
  shows "returns (switch_with_compensation env input snap s) (ends env s (outcome_holds input (Some a)))"
  unfolding switch_with_compensation_def Let_def
  apply (rule returns_epochs_next [OF assms(1,3)])
  subgoal premises p for e t
  proof -
    note later = ends_later [OF order_less_imp_le [OF p(3)]]
    have f: "fresh e None t" using p(2) by (rule fresh_None)
    have old: "fresh (plan_epoch (ac_plan a)) None t" "plan_epoch (ac_plan a) \<noteq> e"
      using held_take(3) [of env "[]" a] p(1,2) assms(2) by (simp_all add: fresh_def)
    have fin: "returns (ignoring (mgr_cleanup_epoch env e' u) (\<lambda>s. ok (Switched (pl_revision desired)) s))
        (ends env t (outcome_holds input (Some a)))"
      if "ends env t (\<lambda>_. running_plan desired) (Inr ()) u" "plan_for input e 1 desired" for e' u desired
    proof -
      have "keeps_view public_view u (mgr_cleanup_epoch env e' u)" by (intro keeps_rules refl)
      then show ?thesis
        unfolding keeps_view_def ignoring_def
      proof (rule returns_bindI, clarsimp)
        fix v assume "public_view v = public_view u"
        then have "ends env t (\<lambda>_. running_plan desired) (Inr ()) v"
          by (rule ends_public [OF that(1) running_stable])
        then show "ends env t (outcome_holds input (Some a)) (Inr (Switched (pl_revision desired))) v"
          using that(2) old(2) by (auto simp: ends_def plan_for_def)
      qed
    qed
    show ?thesis
      apply (rule held_yields_and_do [OF p(1)], rule core.yields_prepare_launch, rule refl)
       apply (use p(3) in \<open>simp add: ends_def held_def\<close>)
      subgoal premises q for desired u
      proof -
        have d: "fresh (plan_epoch desired) None t" using q(2) f by (simp add: plan_for_def)
        show ?thesis
          apply (rule later)
          apply (rule held_matching [OF q(1)], intro keeps_rules refl)
           apply (erule held_ignoring, intro keeps_rules refl, simp add: ends_Inl)
          apply (simp only: assms(2))
          apply (erule leftover_retire, rule refl; simp only: sum.case prod.case option.case)
           apply (erule leftover_ignoring, intro keeps_rules refl)
           apply (erule ends_leftover, rule old)
          apply (erule held_replacement, simp, rule d)
           apply (rule returns_ifI)
            apply (erule leftover_latch, assumption, rule d)
           apply (drule leftover_dead, assumption)
           apply (erule held_ignoring, intro keeps_rules refl)
           apply (erule rollback_to_ends, rule old, rule quiet_Some, simp)
          apply (rule fin [OF ends_install_and_publish q(2)], assumption, assumption, rule d)
          done
      qed
      done
  qed
  done

section \<open>The apply transaction\<close>

lemma held_updated:
  assumes "held env [] (Some a) s t" "plan_epoch plan = plan_epoch (ac_plan a)"
  shows "minv env [] (t\<lparr>ms_current := Some (a\<lparr>ac_plan := plan\<rparr>)\<rparr>)"
  using assms by (auto simp: held_def minv_def)

lemma minv_last_spec [simp]: "minv env X (t\<lparr>ms_last_spec := x\<rparr>) = minv env X t"
  by (simp add: minv_def)

lemma apply_reconciled_ends:
  assumes "held env [] (Some a) s t"
    and "plan_for input (plan_epoch (ac_plan a)) (cr_generation (pl_revision (ac_plan a)) + 1) desired"
    and "change \<noteq> Noop" "change \<noteq> Switch"
  shows "returns (apply_reconciled env a change desired bk commit t) (ends env s (outcome_holds input (Some a)))"
proof -
  let ?a = "a\<lparr>ac_plan := desired\<rparr>"
  let ?u = "(publish_active env ?a (CRunning (plan_epoch desired) (pid_or_default env (ac_instance a) t))
     (tick (t\<lparr>ms_current := Some ?a\<rparr>)))\<lparr>ms_last_spec := Some (pl_source_spec desired)\<rparr>"
  have "minv env [] ?u"
    using held_updated [OF assms(1)] assms(2) by (simp add: plan_for_def)
  moreover have "running_plan desired ?u"
    unfolding running_plan_def by (cases a) (simp add: publish_active_def)
  moreover have "ms_epochs_last ?u = ms_epochs_last s" "ms_current ?u = Some ?a"
    using assms(1) by (simp_all add: held_def)
  ultimately have u: "ends env s (\<lambda>_ t. running_plan desired t \<and> ms_current t = Some ?a) (Inr ()) ?u"
    by (simp add: ends_def)
  have stable: "public_stable (\<lambda>_ t. running_plan desired t \<and> ms_current t = Some ?a)"
    unfolding public_stable_def
  proof (intro allI impI)
    fix s t assume "public_view t = public_view s" "running_plan desired s \<and> ms_current s = Some ?a"
    then show "running_plan desired t \<and> ms_current t = Some ?a"
      using running_plan_public [of t s desired] public_proj [of t s] by simp
  qed
  have fin: "ends env s (outcome_holds input (Some a)) (Inr x) v"
    if "public_view v = public_view ?u" "x \<in> {Patched (pl_revision desired), Reloaded (pl_revision desired),
      ApplyDurabilityUncertain (Patched (pl_revision desired)) w,
      ApplyDurabilityUncertain (Reloaded (pl_revision desired)) w}" for x v w
    using ends_public [OF u stable that(1)] that(2) assms(2) by (auto simp: ends_def plan_for_def)
  show ?thesis
    unfolding apply_reconciled_def Let_def
    by (rule public.returns_forget_backup, cases change; cases "durability_warning commit")
       (use assms(3,4) in \<open>auto simp: with_durability_warning_def intro: fin\<close>)
qed

lemma apply_in_place_ends:
  assumes "held env [] (Some a) s t"
    and "plan_for input (plan_epoch (ac_plan a)) (cr_generation (pl_revision (ac_plan a)) + 1) (pa_plan prepared)"
    and "change \<noteq> Noop" "change \<noteq> Switch"
  shows "returns (apply_in_place env a prepared change bk t) (ends env s (outcome_holds input (Some a)))"
proof -
  have drop: "returns (Option.bind (forget_backup env bk u) (drop_in_mgr env sg (fail err)))
      (ends env s (outcome_holds input (Some a)))" if "held env [] (Some a) s u" for u err sg
    using that by (elim held_forget held_drop) (simp add: ends_Inl)
  show ?thesis
    unfolding apply_in_place_def Let_def
    apply (rule held_matching [OF assms(1)], intro keeps_rules refl)
     apply (erule drop)
    apply (erule held_matching, intro keeps_rules refl)
     apply (erule held_ignoring, intro keeps_rules refl, erule drop)
    apply (erule held_matching, intro keeps_rules refl total_rules)
     apply (erule held_ignoring, intro keeps_rules refl, erule held_forget, simp add: ends_Inl)
    apply (erule held_answer, intro keeps_rules refl)
     apply (intro within_timeout_answers reconcile_in_place_answers)
    apply (rule returns_ifI)
     apply (erule apply_reconciled_ends, rule assms, rule assms, rule assms)
    apply (rule ends_durability, erule restart_with_compensation_ends, rule assms)
    done
qed

lemma retain_spec_ends:
  assumes "held env [] (Some a) s t"
  shows "ends env s (outcome_holds input (Some a)) (Inr (OutcomeNoop (pl_revision (ac_plan a)))) (retain_spec input t)"
proof -
  have c: "ms_current t = Some a" using assms by (simp add: held_def)
  have "minv env [] (retain_spec input t)"
    using held_updated [OF assms, of "(ac_plan a)\<lparr>pl_source_spec := input\<rparr>"]
    by (simp add: retain_spec_def c)
  then show ?thesis using assms by (simp add: ends_def retain_spec_def held_def)
qed

lemma classified_ends:
  assumes "held env [] (Some a) s t" "ms_epochs_last s \<noteq> - 1"
    and "plan_for input (plan_epoch (ac_plan a)) (cr_generation (pl_revision (ac_plan a)) + 1) (pa_plan prepared)"
  shows "returns (case classified of
       Inl err \<Rightarrow> drop_in_mgr env (pa_staged prepared) (fail err) t
     | Inr Noop \<Rightarrow> drop_in_mgr env (pa_staged prepared) (ok (OutcomeNoop (pl_revision (ac_plan a)))) (retain_spec input t)
     | Inr Switch \<Rightarrow> drop_in_mgr env (pa_staged prepared) (switch_with_compensation env input snap) t
     | Inr change \<Rightarrow> matching (in_store (backup (ev_store env) e g) t)
         (\<lambda>err s. drop_in_mgr env (pa_staged prepared) (fail err) s)
         (\<lambda>b s. apply_in_place env a prepared change b s)) (ends env s (outcome_holds input (Some a)))"
proof -
  have failed: "returns (drop_in_mgr env (pa_staged prepared) (fail err) u) (ends env s (outcome_holds input (Some a)))"
    if "held env [] (Some a) s u" for u err
    using that by (elim held_drop) (simp add: ends_Inl)
  have noop: "returns (drop_in_mgr env (pa_staged prepared) (ok (OutcomeNoop (pl_revision (ac_plan a))))
      (retain_spec input t)) (ends env s (outcome_holds input (Some a)))"
    by (rule public.returns_drop_in_mgr)
       (use ends_public [OF retain_spec_ends [OF assms(1)] outcome_stable] in simp)
  have switch: "returns (drop_in_mgr env (pa_staged prepared) (switch_with_compensation env input snap) t)
      (ends env s (outcome_holds input (Some a)))"
    using assms(1)
  proof (rule held_drop)
    fix u assume u: "held env [] (Some a) s u"
    show "returns (switch_with_compensation env input snap u) (ends env s (outcome_holds input (Some a)))"
      by (rule ends_weaken [OF switch_with_compensation_ends])
         (use u assms(2) in \<open>simp_all add: held_def\<close>)
  qed
  have in_place: "returns (matching (in_store (backup (ev_store env) e g) t)
         (\<lambda>err s. drop_in_mgr env (pa_staged prepared) (fail err) s)
         (\<lambda>b s. apply_in_place env a prepared change b s)) (ends env s (outcome_holds input (Some a)))"
    if "change \<noteq> Noop" "change \<noteq> Switch" for change
    by (rule held_matching [OF assms(1)], intro keeps_rules refl total_rules)
       (auto intro: failed apply_in_place_ends [OF _ assms(3) that])
  show ?thesis
    using failed [OF assms(1)] noop switch in_place by (simp split: sum.split config_change.split)
qed

lemma apply_locked_ends:
  assumes "minv env [] s" "ms_epochs_last s \<noteq> - 1"
  shows "returns (apply_locked env input expected s) (ends env s (outcome_holds input (ms_current s)))"
proof (cases "ms_current s")
  case None
  then show ?thesis
    using held_refl [OF assms(1)] by (simp add: apply_locked_def ends_Inl)
next
  case (Some a)
  have h: "held env [] (Some a) s s" using held_refl [OF assms(1)] Some by simp
  show ?thesis
    unfolding apply_locked_def Some option.case Let_def
    apply (rule held_and_do [OF h], intro keeps_rules refl, erule ends_Inl)
    apply (rule returns_ifI, simp add: ends_Inl)
    apply (rule returns_ifI, simp add: ends_Inl)
    apply (erule held_and_do, intro keeps_rules refl, erule ends_Inl)
    apply (erule held_yields_and_do, rule core.yields_prepare_apply, rule refl, erule ends_Inl)
    apply (erule classified_ends, rule assms(2), assumption)
    done
qed

lemma apply_config_ends:
  assumes "minv env [] s" "ms_epochs_last s \<noteq> - 1"
  shows "returns (apply_config env input expected s) (ends env s (outcome_holds input (ms_current s)))"
  unfolding apply_config_def
  by (rule returns_reject_quarantine, rule ends_Inl [OF held_refl [OF assms(1)]])
     (intro ends_finish_dns apply_locked_ends assms outcome_stable)

section \<open>Reconcile\<close>

lemma reconcile_locked_ends:
  assumes "minv env [] s" "ms_epochs_last s \<noteq> - 1"
  shows "returns (reconcile_locked env spec expected s) (ends env s (outcome_holds spec (ms_current s)))"
  unfolding reconcile_locked_def
proof (rule returns_runtime_alive)
  fix alive t assume t: "public_view t = public_view s"
  note inv = minv_public [OF t assms(1)]
  have proj: "ms_epochs_last t \<noteq> - 1" "ms_current t = ms_current s" using assms(2) public_proj [OF t] by simp_all
  let ?P = "outcome_holds spec (ms_current s)"
  have start: "returns (and_do (start_locked env spec u) (\<lambda>_ s. case ms_current s of
        None \<Rightarrow> None | Some active \<Rightarrow> ok (Started (pl_revision (ac_plan active))) s)) (ends env t ?P)"
    if "held env [] None t u" for u
    by (rule returns_and_doI [OF start_locked_held [OF that proj(1)]])
       (auto simp: ends_def launched_def running_plan_def)
  show "returns (if alive then apply_locked env spec expected t
     else case expected of
       Some x \<Rightarrow> fail (RevisionConflict x None) t
     | None \<Rightarrow>
         and_do (discard_stale env t) (\<lambda>_ s.
         and_do (start_locked env spec s) (\<lambda>_ s. case ms_current s of
             None \<Rightarrow> None
           | Some active \<Rightarrow> ok (Started (pl_revision (ac_plan active))) s)))
     (ends env s ?P)"
    apply (rule ends_from_public [OF t, where P = ?P])
     apply (rule returns_ifI)
      apply (use apply_locked_ends [OF inv proj(1)] proj(2) in simp)
     apply (cases expected; simp only: option.case)
      apply (rule discard_then_ends [OF inv], erule start)
     apply (simp add: ends_Inl [OF held_refl [OF inv]])
    apply assumption
    done
qed

lemma reconcile_ends:
  assumes "minv env [] s" "ms_epochs_last s \<noteq> - 1"
  shows "returns (reconcile env spec expected s) (ends env s (outcome_holds spec (ms_current s)))"
  unfolding reconcile_def
  by (rule returns_reject_quarantine, rule ends_Inl [OF held_refl [OF assms(1)]])
     (intro ends_finish_dns reconcile_locked_ends assms outcome_stable)

end
