(* ===== verification/Manager_Build.thy ===== *)
theory Manager_Build
  imports Manager_Apply
begin

text \<open>
  Construction of the manager (\<open>CoreManager::build_configured\<close> of \<open>manager/mod.rs\<close>, \<open>sweep_orphans\<close> of
  \<open>manager/quarantine.rs\<close>, \<open>RuntimeConfigStore::new\<close> and \<open>acquire_ownership\<close> of
  \<open>config/runtime_store.rs\<close>): options are validated, the runtime directory is opened and locked, what
  an earlier manager left there is reaped and removed, and the epoch counter starts above every
  number found. Also the read-only queries of the manager.
\<close>

section \<open>Opening the runtime directory\<close>

record dir_env =
  de_meta :: "nat \<Rightarrow> string \<Rightarrow> error + node option"
  de_create :: "string \<Rightarrow> error + unit"
  de_set_permissions :: "string \<Rightarrow> error + unit"
  de_canonicalize :: "string \<Rightarrow> error + string option"
  de_lock :: "string \<Rightarrow> error + unit"
  de_log_sink :: "string \<Rightarrow> error + unit"

definition validate_directory_metadata :: "string \<Rightarrow> node \<Rightarrow> error + unit" where
  "validate_directory_metadata path metadata =
     (if metadata \<noteq> Directory then Inl (UnsafeRuntimeArtifact path) else Inr ())"

text \<open>\<open>None\<close> from \<open>canonicalize\<close> is a path that is not UTF-8.\<close>

definition store_new :: "dir_env \<Rightarrow> string \<Rightarrow> error + string" where
  "store_new d dir =
     and_then (and_then (de_meta d 0 dir) (\<lambda>metadata. case metadata of
         Some metadata \<Rightarrow> validate_directory_metadata dir metadata
       | None \<Rightarrow> de_create d dir)) (\<lambda>_.
     and_then (de_set_permissions d dir) (\<lambda>_.
     and_then (de_canonicalize d dir) (\<lambda>canonical. case canonical of
         None \<Rightarrow> Inl (InvalidManagerOptions ''runtime directory is not UTF-8'')
       | Some dir \<Rightarrow>
           and_then (de_meta d 1 dir) (\<lambda>metadata. case metadata of
               None \<Rightarrow> Inl not_found
             | Some metadata \<Rightarrow>
                 and_then (validate_directory_metadata dir metadata) (\<lambda>_. Inr dir)))))"

definition validate_options :: "manager_options \<Rightarrow> error + unit" where
  "validate_options options =
     (case find (\<lambda>(name, timeout). timeout = 0)
         [(''control_timeout'', mo_control_timeout options), (''reconcile_timeout'', mo_reconcile_timeout options),
          (''stop_timeout'', mo_stop_timeout options), (''dns_timeout'', mo_dns_timeout options)] of
        Some (name, _) \<Rightarrow> Inl (InvalidManagerOptions (name @ '' must be greater than zero''))
      | None \<Rightarrow>
          if mo_log_max_bytes options = 0
          then Inl (InvalidManagerOptions ''log_max_bytes must be greater than zero'')
          else if mo_log_max_files options = 0
          then Inl (InvalidManagerOptions ''log_max_files must be greater than zero'')
          else Inr ())"

definition open_runtime :: "env \<Rightarrow> dir_env \<Rightarrow> error + string" where
  "open_runtime env d = (let options = ev_options env in
     and_then (case mo_runtime_dir options of
         None \<Rightarrow> Inl (InvalidManagerOptions ''runtime_dir is required'')
       | Some dir \<Rightarrow> store_new d dir) (\<lambda>dir.
     and_then (de_lock d (x_join (ev_ext env) dir ''.manager.lock'')) (\<lambda>_.
     and_then (validate_managed_endpoint (ev_ext env)
         (case mo_controller_dir options of Some c \<Rightarrow> c | None \<Rightarrow> dir) (mo_controller_template options)) (\<lambda>_.
     and_then (validate_options options) (\<lambda>_. Inr dir)))))"

section \<open>Sweeping\<close>

fun sweep_each :: "env \<Rightarrow> u64 list \<Rightarrow> mgr \<Rightarrow> unit result" where
  "sweep_each env [] s = ok () s"
| "sweep_each env (artifact # rest) s =
     and_do (in_store (try_exists (ev_store env) (artifact_pid_path artifact)) s) (\<lambda>exists s.
     and_do (if exists then and_do (call (\<lambda>n. ev_reap env n (artifact_pid_path artifact)) s) (\<lambda>_ s. ok () s)
             else ok () s) (\<lambda>_ s.
     and_do (case epoch_new artifact of Some e \<Rightarrow> cleanup_controller env e s | None \<Rightarrow> ok () s) (\<lambda>_ s.
     and_do (in_store (cleanup_artifacts (ev_store env) artifact) s) (\<lambda>_ s.
     sweep_each env rest s))))"

definition sweep_orphans :: "env \<Rightarrow> mgr \<Rightarrow> u64 result" where
  "sweep_orphans env s =
     and_do (in_store (artifact_epochs (ev_store env)) s) (\<lambda>discovered s.
     and_do (sweep_each env discovered s) (\<lambda>_ s. ok (foldr max discovered 0) s))"

section \<open>Building\<close>

text \<open>\<open>Ctrl::new\<close> and the rest of \<open>Inner\<close>, before anything ran.\<close>

definition ctrl_new :: "u64 \<Rightarrow> mgr \<Rightarrow> mgr" where
  "ctrl_new max_epoch s = s\<lparr>ms_epochs_last := max_epoch, ms_current := None, ms_last_spec := None,
     ms_quarantine := [], ms_dns_record := None\<rparr>"

definition blank :: "env \<Rightarrow> string \<Rightarrow> (string \<times> node) list \<Rightarrow> mgr" where
  "blank env dir files = \<lparr>ms_epochs_last = 0, ms_current = None, ms_last_spec = None, ms_quarantine = [],
     ms_dns_record = None, ms_status = core_status_initial (ev_now env 0), ms_config_commit = None,
     ms_store = \<lparr>st_dir = dir, st_files = files, st_calls = 0, st_temp_counter = 0\<rparr>,
     ms_version_cache = [], ms_tick = 0, ms_live = []\<rparr>"

definition build :: "env \<Rightarrow> dir_env \<Rightarrow> (string \<times> node) list \<Rightarrow> unit result" where
  "build env d files = (case open_runtime env d of
       Inl e \<Rightarrow> fail e (blank env [] files)
     | Inr dir \<Rightarrow>
         and_do (sweep_orphans env (blank env dir files)) (\<lambda>max_epoch s.
         Option.bind (reconcile_orphan_record env s) (\<lambda>s.
         if mo_log_sink_enabled (ev_options env)
         then (case de_log_sink d dir of Inl e \<Rightarrow> fail e s | Inr _ \<Rightarrow> ok () (ctrl_new max_epoch s))
         else ok () (ctrl_new max_epoch s))))"

section \<open>Queries\<close>

record api_access =
  ap_instance_id :: nat
  ap_controller :: resolved_controller

definition is_running_instance :: "instance_state \<Rightarrow> bool" where
  "is_running_instance state \<longleftrightarrow> (case state of IRunning _ \<Rightarrow> True | _ \<Rightarrow> False)"

definition api_connection :: "env \<Rightarrow> mgr \<Rightarrow> api_access option" where
  "api_connection env s = Option.bind (ms_current s) (\<lambda>active.
     let snapshot = ev_state env (ms_tick s) (ac_instance active) in
     if \<not> is_running_instance (is_state snapshot) then None
     else map_option (\<lambda>instance_id. \<lparr>ap_instance_id = instance_id,
       ap_controller = pl_controller (ac_plan active)\<rparr>) (is_instance_id snapshot))"

definition effective_config :: "env \<Rightarrow> mgr \<Rightarrow> effective_config_snapshot option" where
  "effective_config env s = Option.bind (ms_current s) (\<lambda>active.
     let snapshot = ev_state env (ms_tick s) (ac_instance active) in
     if \<not> is_running_instance (is_state snapshot) then None
     else map_option (effective_config_snapshot (ac_plan active)) (is_instance_id snapshot))"

section \<open>What a built manager has\<close>

text \<open>A sweep only removes files.\<close>

definition shrinks :: "store \<Rightarrow> store \<Rightarrow> bool" where
  "shrinks s t \<longleftrightarrow> (\<forall>n. lookup t n = lookup s n \<or> lookup t n = None)"

lemma shrinks_refl [simp]: "shrinks s s"
  by (simp add: shrinks_def)

lemma shrinks_trans: "shrinks s t \<Longrightarrow> shrinks t u \<Longrightarrow> shrinks s u"
  unfolding shrinks_def by metis

lemma shrinks_no_artifacts: "shrinks s t \<Longrightarrow> no_artifacts d s \<Longrightarrow> no_artifacts d t"
  unfolding shrinks_def no_artifacts_def by metis

definition swept_to :: "mgr \<Rightarrow> mgr \<Rightarrow> bool" where
  "swept_to s t \<longleftrightarrow> same_core s t \<and> shrinks (ms_store s) (ms_store t)"

lemma swept_to_refl [simp]: "swept_to s s" "swept_to s (tick s)"
  by (simp_all add: swept_to_def tick_def core_view_def)

lemma swept_to_tick [simp]: "swept_to s (tick t) = swept_to s t" "swept_to (tick s) t = swept_to s t"
  by (simp_all add: swept_to_def tick_def core_view_def)

lemma swept_to_trans: "swept_to s t \<Longrightarrow> swept_to t u \<Longrightarrow> swept_to s u"
  unfolding swept_to_def using shrinks_trans by metis

lemma swept_to_store:
  "shrinks (ms_store s) st \<Longrightarrow> swept_to s (s\<lparr>ms_store := st\<rparr>)"
  by (simp add: swept_to_def core_view_def)

lemma sweep_try_exists: "returns (in_store (try_exists env n) s) (\<lambda>_ t. swept_to s t)"
  by (auto simp: in_store_def try_exists_def io_def Let_def shrinks_def intro!: swept_to_store split: option.splits)

lemma sweep_controller: "returns (cleanup_controller env e s) (\<lambda>_ t. swept_to s t)"
  by (auto simp: cleanup_controller_def call_def and_do_def ok_def fail_def swept_to_def core_view_def
      tick_def split: option.splits sum.splits node.splits)

lemma sweep_cleanup:
  "returns (in_store (cleanup_artifacts (ev_store env) d) s)
     (\<lambda>r t. case r of Inl _ \<Rightarrow> True | Inr _ \<Rightarrow> swept_to s t \<and> no_artifacts d (ms_store t))"
proof -
  have sh: "shrinks a b" if "same_outside (owned d) a b" "no_artifacts d b" for a b
    using that unfolding shrinks_def same_outside_def no_artifacts_def by metis
  obtain r t where "cleanup_artifacts (ev_store env) d (ms_store s) = Some (r, t)"
    "same_outside (owned d) (ms_store s) t \<and> (case r of Inr _ \<Rightarrow> no_artifacts d t | Inl _ \<Rightarrow> True)"
    using cleanup_artifacts_spec [of "ev_store env" d "ms_store s"] by (rule returnsE)
  then show ?thesis
    by (auto simp: in_store_def intro: swept_to_store sh split: sum.splits)
qed

lemma sweep_each_spec:
  "returns (sweep_each env ds s) (\<lambda>r t. case r of Inl _ \<Rightarrow> True
     | Inr _ \<Rightarrow> swept_to s t \<and> (\<forall>d \<in> set ds. no_artifacts d (ms_store t)))"
proof (induction ds arbitrary: s)
  case (Cons d ds)
  have reap: "returns (if ex then and_do (call f t) (\<lambda>_ s. ok () s) else ok () t) (\<lambda>_ u. swept_to t u)" for ex f t
    by (auto simp: call_def and_do_def ok_def split: sum.splits)
  have ctl: "returns (case m of Some e \<Rightarrow> cleanup_controller env e t | None \<Rightarrow> ok () t) (\<lambda>_ u. swept_to t u)" for m t
    using sweep_controller by (auto simp: ok_def split: option.splits)
  show ?case
    unfolding sweep_each.simps
    apply (rule returns_and_doI [OF sweep_try_exists], simp)
    apply (rule returns_and_doI [OF reap], simp)
    apply (rule returns_and_doI [OF ctl], simp)
    apply (rule returns_and_doI [OF sweep_cleanup], simp)
    apply (rule returns_mono [OF Cons.IH])
    apply (auto simp: swept_to_def intro: shrinks_no_artifacts split: sum.splits)
    apply (meson shrinks_trans)
    done
qed (simp add: ok_def)

lemma foldr_max_ge: "d \<in> set ds \<Longrightarrow> d \<le> foldr max ds (0 :: u64)"
  by (induction ds) (auto simp: max_def intro: order_trans)

lemma reconcile_orphan_record_spec:
  "\<exists>t. reconcile_orphan_record env s = Some t \<and> swept_to s t"
proof -
  have rd: "returns (in_store (read_file (ev_store env) RECORD_FILE) s) (\<lambda>_ t. swept_to s t)"
    by (auto simp: in_store_def read_file_def io_def Let_def shrinks_def intro!: swept_to_store
        split: option.splits node.splits)
  have rm: "returns (in_store (remove_file (ev_store env) RECORD_FILE) t) (\<lambda>_ u. swept_to t u)" for t
    by (auto simp: in_store_def remove_file_def io_def Let_def shrinks_def intro!: swept_to_store
        split: option.splits node.splits)
  have "returns (and_do (in_store (read_file (ev_store env) RECORD_FILE) s) (\<lambda>contents s.
       case ev_record_parse env contents of
         Inl _ \<Rightarrow> ok () s
       | Inr record \<Rightarrow>
           if \<not> ev_dns env then ok () s
           else and_do (ask (\<lambda>n. ev_dns_restore env n record) s) (\<lambda>answer s. case answer of
               Some (Inr _) \<Rightarrow> ignoring (in_store (remove_file (ev_store env) RECORD_FILE) s) (ok ())
             | _ \<Rightarrow> ok () s))) (\<lambda>_ t. swept_to s t)"
    by (rule returns_and_doI [OF rd])
       (auto simp: ok_def ask_def ignoring_def intro!: returns_bindI [OF rm]
          intro: swept_to_trans split: sum.splits option.splits)
  then show ?thesis unfolding reconcile_orphan_record_def by (auto elim!: returnsE)
qed

lemma minv_idle: "ms_live t = [] \<Longrightarrow> ms_current t = None \<Longrightarrow> ms_quarantine t = [] \<Longrightarrow> minv env [] t"
  by (simp add: minv_def)

lemma sweep_orphans_spec:
  "returns (sweep_orphans env s) (\<lambda>r t. case r of Inl _ \<Rightarrow> True | Inr m \<Rightarrow> swept_to s t
     \<and> (\<forall>n d. lookup (ms_store s) n \<noteq> None \<longrightarrow> artifact_epoch n = Some d \<longrightarrow> d \<le> m \<and> no_artifacts d (ms_store t)))"
proof -
  have scan: "returns (in_store (artifact_epochs (ev_store env)) s) (\<lambda>r t. case r of Inl _ \<Rightarrow> True
      | Inr ds \<Rightarrow> swept_to s t \<and> set ds = {d. \<exists>n. lookup (ms_store s) n \<noteq> None \<and> artifact_epoch n = Some d})"
    using artifact_epochs_spec [of "ev_store env" "ms_store s"]
    by (auto simp: in_store_def shrinks_def intro!: swept_to_store elim!: returnsE split: sum.splits)
  show ?thesis
    unfolding sweep_orphans_def
    apply (rule returns_and_doI [OF scan], simp)
    apply (rule returns_and_doI [OF sweep_each_spec], simp)
    apply (auto intro: swept_to_trans foldr_max_ge)
    done
qed

lemma built_from:
  assumes "swept_to (blank env dir files) s" "swept_to s t"
    and "\<forall>n d. lookup (ms_store (blank env dir files)) n \<noteq> None \<longrightarrow> artifact_epoch n = Some d
           \<longrightarrow> d \<le> m \<and> no_artifacts d (ms_store s)"
  shows "minv env [] (ctrl_new m t) \<and> ms_live (ctrl_new m t) = []
     \<and> list_all (\<lambda>(name, _). case artifact_epoch name of None \<Rightarrow> True
          | Some n \<Rightarrow> n \<le> m \<and> no_artifacts n (ms_store t)) files"
proof -
  have live: "ms_live t = []"
    using assms(1,2) by (simp add: swept_to_def core_view_def blank_def)
  have "n \<le> m \<and> no_artifacts n (ms_store t)" if "(name, node) \<in> set files" "artifact_epoch name = Some n" for name node n
  proof -
    have "lookup (ms_store (blank env dir files)) name \<noteq> None"
      using weak_map_of_SomeI [OF that(1)] by (auto simp: blank_def lookup_def)
    then show ?thesis
      using assms(2,3) that(2) shrinks_no_artifacts by (metis swept_to_def)
  qed
  moreover have "minv env [] (ctrl_new m t)" by (rule minv_idle) (simp_all add: ctrl_new_def live)
  ultimately show ?thesis
    by (auto simp: ctrl_new_def live list_all_iff split: option.splits)
qed

lemma build_spec:
  "returns (build env d files) (\<lambda>r t. case r of Inl _ \<Rightarrow> True | Inr _ \<Rightarrow>
     minv env [] t \<and> ms_current t = None \<and> ms_quarantine t = [] \<and> ms_live t = []
     \<and> list_all (\<lambda>(name, _). case artifact_epoch name of None \<Rightarrow> True
          | Some n \<Rightarrow> n \<le> ms_epochs_last t \<and> no_artifacts n (ms_store t)) files)"
proof (cases "open_runtime env d")
  case (Inl e)
  then show ?thesis by (simp add: build_def)
next
  case (Inr dir)
  show ?thesis
    unfolding build_def Inr sum.case
  proof (rule returns_and_doI [OF sweep_orphans_spec], simp)
    fix m s assume s: "case Inr m of Inl _ \<Rightarrow> True | Inr m \<Rightarrow> swept_to (blank env dir files) s
      \<and> (\<forall>n d. lookup (ms_store (blank env dir files)) n \<noteq> None \<longrightarrow> artifact_epoch n = Some d
           \<longrightarrow> d \<le> m \<and> no_artifacts d (ms_store s))"
    obtain t where t: "reconcile_orphan_record env s = Some t" "swept_to s t"
      using reconcile_orphan_record_spec by blast
    have "minv env [] (ctrl_new m t) \<and> ms_live (ctrl_new m t) = []
     \<and> list_all (\<lambda>(name, _). case artifact_epoch name of None \<Rightarrow> True
          | Some n \<Rightarrow> n \<le> m \<and> no_artifacts n (ms_store t)) files"
      by (rule built_from [OF _ t(2)]) (use s in auto)
    then show "returns (Option.bind (reconcile_orphan_record env s) (\<lambda>s.
         if mo_log_sink_enabled (ev_options env)
         then (case de_log_sink d dir of Inl e \<Rightarrow> fail e s | Inr _ \<Rightarrow> ok () (ctrl_new m s))
         else ok () (ctrl_new m s))) (\<lambda>r t. case r of Inl _ \<Rightarrow> True | Inr _ \<Rightarrow>
     minv env [] t \<and> ms_current t = None \<and> ms_quarantine t = [] \<and> ms_live t = []
     \<and> list_all (\<lambda>(name, _). case artifact_epoch name of None \<Rightarrow> True
          | Some n \<Rightarrow> n \<le> ms_epochs_last t \<and> no_artifacts n (ms_store t)) files)"
      by (auto simp: t(1) ctrl_new_def list_all_iff split: sum.split option.splits)
  qed
qed


end
