(* ===== verification/Manager_Properties.thy ===== *)
theory Manager_Properties
  imports Manager_Build
begin

text \<open>
  The manager as a state machine: a built manager performs requests one at a time, as the control
  lock makes it, with the status forwarder of some epoch in between. The invariant holds in every
  reachable state, no request panics while epoch numbers last, and each answer is true of the state
  it leaves.
\<close>

section \<open>Requests\<close>

datatype request =
    Start instance_spec
  | Stop
  | Restart
  | SwitchTo instance_spec
  | ApplyConfig instance_spec "revision_id option"
  | Reconcile instance_spec "revision_id option"
  | RecoverQuarantine
  | Shutdown
  | ForwardStatus epoch instance_status

fun perform :: "env \<Rightarrow> request \<Rightarrow> mgr \<Rightarrow> mgr option" where
  "perform env (Start spec) s = map_option snd (start env spec s)"
| "perform env Stop s = map_option snd (stop env s)"
| "perform env Restart s = map_option snd (restart env s)"
| "perform env (SwitchTo spec) s = map_option snd (switch env spec s)"
| "perform env (ApplyConfig spec expected) s = map_option snd (apply_config env spec expected s)"
| "perform env (Reconcile spec expected) s = map_option snd (reconcile env spec expected s)"
| "perform env RecoverQuarantine s = map_option snd (recover_quarantine env s)"
| "perform env Shutdown s = map_option snd (shutdown env s)"
| "perform env (ForwardStatus e inst) s = Some (publish_epoch_status env e inst s)"

text \<open>The epoch counter of a state that is stepped from has not reached the last number.\<close>

inductive reachable :: "env \<Rightarrow> mgr \<Rightarrow> bool" for env where
  built: "build env d files = Some (Inr (), s) \<Longrightarrow> reachable env s"
| step: "reachable env s \<Longrightarrow> ms_epochs_last s \<noteq> - 1 \<Longrightarrow> perform env q s = Some t \<Longrightarrow> reachable env t"

inductive_cases reachableE: "reachable env s"

lemma returns_state:
  "returns m (ends env s P) \<Longrightarrow> \<exists>t. (\<exists>a. m = Some (a, t)) \<and> minv env [] t \<and> ms_epochs_last s \<le> ms_epochs_last t"
  by (auto simp: ends_def elim!: returnsE)

lemma perform_ends:
  assumes "minv env [] s" "ms_epochs_last s \<noteq> - 1"
  shows "\<exists>t. perform env q s = Some t \<and> minv env [] t \<and> ms_epochs_last s \<le> ms_epochs_last t"
proof (cases q)
  case (ForwardStatus e inst)
  have "minv env [] (publish_epoch_status env e inst s)"
    using assms(1) minv_same_core [of "publish_epoch_status env e inst s" s env "[]"] by simp
  then show ?thesis using ForwardStatus by (simp add: publish_epoch_status_def tick_def)
qed (use assms in \<open>auto intro: returns_state start_ends stop_ends restart_ends switch_ends apply_config_ends
      reconcile_ends recover_quarantine_ends shutdown_ends\<close>)

lemma build_minv:
  assumes "build env d files = Some (Inr (), s)"
  shows "minv env [] s"
  using build_spec [of env d files] assms by simp

lemma reachable_minv: "reachable env s \<Longrightarrow> minv env [] s"
proof (induction rule: reachable.induct)
  case (step s q t)
  then show ?case using perform_ends [of env s q] by auto
qed (rule build_minv)

section \<open>A sample environment\<close>

text \<open>A host on which every call succeeds at once; the launcher is a parameter.\<close>

definition sample_env :: "(nat \<Rightarrow> epoch_plan \<Rightarrow> error + unit) \<Rightarrow> env" where
  "sample_env launch = \<lparr>ev_options = manager_options_default\<lparr>mo_runtime_dir := Some ''/run'', mo_log_sink_enabled := False\<rparr>,
     ev_ext = plain_ext\<lparr>x_from_slice := \<lambda>_. Inr (Mapping [(String ''external-controller'', String ''127.0.0.1:9090'')])\<rparr>,
     ev_store = \<lparr>se_fault = \<lambda>_. None, se_process_id = 7\<rparr>, ev_now = int,
     ev_launch = launch, ev_wait_ready = \<lambda>_ _. Inr (), ev_stop = \<lambda>_ _. Inr (),
     ev_state = \<lambda>_ _. \<lparr>is_instance_id = Some 1, is_state = IRunning 9, is_health = None\<rparr>,
     ev_pid = \<lambda>_ _. Some 9, ev_probe_now = \<lambda>_ _. ProbeHealthy, ev_check_config = \<lambda>_ _. Inr (),
     ev_read = \<lambda>_ _. Inr [], ev_binary_exists = \<lambda>_ _. True, ev_modified = \<lambda>_ _. Inr 0,
     ev_probe_version = \<lambda>_ _. Inr ''1'', ev_semver = \<lambda>_. None, ev_local_ipc_available = True,
     ev_native_dir = None, ev_dns = False, ev_dns_desired = \<lambda>_. None,
     ev_dns_apply = \<lambda>_ _ _. None, ev_dns_restore = \<lambda>_ _. None, ev_dns_timeout_text = ''10s'',
     ev_record_bytes = \<lambda>_. Inr [], ev_record_parse = \<lambda>_. Inl NotStarted, ev_reap = \<lambda>_ _. Inr Killed,
     ev_control_client = \<lambda>_ _. Inr (), ev_patch_config = \<lambda>_ _ _. Inr (), ev_configs = \<lambda>_ _. Inr Null,
     ev_update_config = \<lambda>_ _ _. Inr (), ev_reconcile_elapsed = \<lambda>_. False,
     ev_controller_node = \<lambda>_ _. Inr None, ev_controller_remove = \<lambda>_ _. Inr ()\<rparr>"

definition sample_dir :: dir_env where
  "sample_dir = \<lparr>de_meta = \<lambda>_ _. Inr (Some Directory), de_create = \<lambda>_. Inr (), de_set_permissions = \<lambda>_. Inr (),
     de_canonicalize = \<lambda>p. Inr (Some p), de_lock = \<lambda>_. Inr (), de_log_sink = \<lambda>_. Inr ()\<rparr>"

definition sample_mgr :: mgr where
  "sample_mgr = (blank (sample_env (\<lambda>_ _. Inr ())) ''/run'' [])\<lparr>ms_store :=
     \<lparr>st_dir = ''/run'', st_files = [], st_calls = 3, st_temp_counter = 0\<rparr>\<rparr>"

lemma sample_open: "open_runtime (sample_env launch) sample_dir = Inr ''/run''"
proof -
  have "validate_managed_endpoint x ''/run'' None = Inr ()" for x
    by (simp add: validate_managed_endpoint_def render_endpoint_path_def validate_controller_template_def
        is_some_and_def)
  then show ?thesis
    by (simp add: open_runtime_def sample_env_def sample_dir_def manager_options_default_def
        store_new_def validate_directory_metadata_def validate_options_def)
qed

lemma sample_built: "build (sample_env (\<lambda>_ _. Inr ())) sample_dir [] = Some (Inr (), sample_mgr)"
  unfolding build_def sample_open
  by (simp add: sample_mgr_def blank_def sample_env_def sweep_orphans_def in_store_def artifact_epochs_def
      read_dir_def io_def Let_def reconcile_orphan_record_def read_file_def lookup_def ctrl_new_def ok_def)

lemma sample_reachable: "reachable (sample_env (\<lambda>_ _. Inr ())) sample_mgr"
  using sample_built by (rule reachable.built)

lemma sample_last: "ms_epochs_last sample_mgr \<noteq> - 1"
  by (simp add: sample_mgr_def blank_def)

section \<open>Safety\<close>

text \<open>C1. In every reachable state each runtime whose death is not proven is the current one, or its epoch
  is quarantined, or its own launch failed without confirming that nothing was left running. The
  current epoch is never quarantined, no epoch is quarantined twice, and an entry that is marked
  dead has no runtime left.\<close>

theorem manager_accounts_for_runtimes:
  assumes "reachable env s"
  shows "(\<forall>i \<in> set (ms_live s). map_option ac_instance (ms_current s) = Some i
        \<or> in_epoch i \<in> qe_epoch ` set (ms_quarantine s) \<or> orphan env i)
    \<and> (\<forall>a. ms_current s = Some a \<longrightarrow> in_epoch (ac_instance a) = plan_epoch (ac_plan a)
         \<and> plan_epoch (ac_plan a) \<notin> qe_epoch ` set (ms_quarantine s))
    \<and> distinct (map qe_epoch (ms_quarantine s))
    \<and> (\<forall>q \<in> set (ms_quarantine s). qe_death_proven q \<longrightarrow> (\<forall>i \<in> set (ms_live s). in_epoch i \<noteq> qe_epoch q))"
  using reachable_minv [OF assms] by (auto simp: minv_def)

theorem manager_accounts_for_runtimes_witness:
  "reachable (sample_env (\<lambda>_ _. Inr ())) sample_mgr \<and> distinct (map qe_epoch (ms_quarantine sample_mgr))"
  using sample_reachable manager_accounts_for_runtimes [OF sample_reachable] by simp



text \<open>C4. Starting: when \<open>start\<close> succeeds, an epoch newer than every earlier one runs the requested spec at
  generation 1, is published as running with its revision, and is what a restart would use.\<close>

theorem start_success_runs_spec:
  assumes "reachable env s" "ms_epochs_last s \<noteq> - 1"
  shows "returns (start env spec s) (\<lambda>r t. case r of Inl _ \<Rightarrow> True | Inr _ \<Rightarrow> launched spec s t)"
  using start_ends [OF reachable_minv [OF assms(1)] assms(2), of spec]
  by (rule returns_mono) (simp add: ends_def split: sum.splits)

theorem start_success_runs_spec_witness:
  "returns (start (sample_env (\<lambda>_ _. Inr ())) (sample_spec Mihomo) sample_mgr)
     (\<lambda>r t. case r of Inl _ \<Rightarrow> True | Inr _ \<Rightarrow> launched (sample_spec Mihomo) sample_mgr t)"
  by (rule start_success_runs_spec [OF sample_reachable sample_last])



text \<open>C3. Applying a configuration: every outcome is true of the state it is returned with. \<open>Patched\<close> and
  \<open>Reloaded\<close> keep the process and raise the generation, \<open>Restarted\<close> keeps the epoch, \<open>Switched\<close> has
  a new epoch, \<open>Noop\<close> keeps everything but the retained spec, and \<open>RolledBack\<close> means that the old plan
  runs again and is published.\<close>

theorem apply_outcome_true:
  assumes "reachable env s" "ms_epochs_last s \<noteq> - 1"
  shows "returns (apply_config env input expected s)
      (\<lambda>r t. case r of Inl _ \<Rightarrow> True | Inr outcome \<Rightarrow> outcome_holds input (ms_current s) outcome t)
    \<and> returns (reconcile env input expected s)
      (\<lambda>r t. case r of Inl _ \<Rightarrow> True | Inr outcome \<Rightarrow> outcome_holds input (ms_current s) outcome t)"
  using apply_config_ends [OF reachable_minv [OF assms(1)] assms(2), of input expected]
    reconcile_ends [OF reachable_minv [OF assms(1)] assms(2), of input expected]
  by (auto elim!: returns_mono simp: ends_def split: sum.splits)

theorem apply_outcome_true_witness:
  "returns (reconcile (sample_env (\<lambda>_ _. Inr ())) (sample_spec Mihomo) None sample_mgr)
     (\<lambda>r t. case r of Inl _ \<Rightarrow> True | Inr outcome \<Rightarrow> outcome_holds (sample_spec Mihomo) (ms_current sample_mgr) outcome t)"
  using apply_outcome_true [OF sample_reachable sample_last, of "sample_spec Mihomo" None] by simp

text \<open>Stopping: when \<open>stop\<close> succeeds nothing is current and the published state is stopped by the user;
  when recovery succeeds nothing is quarantined any more and the current runtime was not touched.\<close>

theorem stop_and_recover_success:
  assumes "reachable env s"
  shows "returns (stop env s) (\<lambda>r t. case r of Inl _ \<Rightarrow> True | Inr _ \<Rightarrow> user_stopped t)
    \<and> returns (recover_quarantine env s) (\<lambda>r t. case r of Inl _ \<Rightarrow> True
        | Inr _ \<Rightarrow> ms_quarantine t = [] \<and> ms_current t = ms_current s)"
  using stop_ends [OF reachable_minv [OF assms(1)]] recover_quarantine_ends [OF reachable_minv [OF assms(1)]]
  by (auto elim!: returns_mono simp: ends_def split: sum.splits)

theorem stop_and_recover_success_witness:
  "returns (stop (sample_env (\<lambda>_ _. Inr ())) sample_mgr) (\<lambda>r t. case r of Inl _ \<Rightarrow> True | Inr _ \<Rightarrow> user_stopped t)"
  using stop_and_recover_success [OF sample_reachable] by simp

section \<open>Refusals\<close>

text \<open>C6. While an epoch is quarantined, every request that could launch a runtime is refused with the
  quarantine error and changes nothing at all: no epoch number, no file, no DNS record, no published
  status.\<close>

theorem quarantine_refuses:
  "case ms_quarantine s of [] \<Rightarrow> True | q # _ \<Rightarrow> (\<exists>reason. let e = ManagerQuarantined (qe_epoch q) reason in
     start env spec s = Some (Inl e, s) \<and> switch env spec s = Some (Inl e, s)
     \<and> restart env s = Some (Inl e, s) \<and> apply_config env spec expected s = Some (Inl e, s)
     \<and> reconcile env spec expected s = Some (Inl e, s))"
  by (auto simp: start_def switch_def restart_def apply_config_def reconcile_def reject_quarantine_def
      quarantine_error_def fail_def split: list.splits)

definition refused :: "mgr \<Rightarrow> error + 'a \<Rightarrow> mgr \<Rightarrow> bool" where
  "refused s r t \<longleftrightarrow> \<not> is_ok r \<and> public_view t = public_view s"

lemma refused_finish_dns:
  assumes "returns m (refused s)"
  shows "returns (finish_dns_converge env m) (refused s)"
proof -
  have keeps: "keeps_view public_view u (if b then dns_converge env u else ok () u)" for u b
    by (intro keeps_rules refl)
  have alive: "keeps_view public_view u (runtime_alive env u)" for u
    by (intro keeps_rules refl)
  show ?thesis
    unfolding finish_dns_converge_def
    apply (rule returns_bindI [OF assms])
    apply (simp only: prod.case)
    apply (rule returns_and_doI [OF alive [unfolded keeps_view_def]], simp add: refused_def)
    apply (rule returns_bindI [OF keeps [unfolded keeps_view_def]])
    apply (auto simp: refused_def split: sum.splits)
    done
qed

lemma public_tick [simp]: "public_view (tick s) = public_view s"
  by (rule public.view_tick)

lemma apply_locked_refused:
  assumes "map_option (revision_id_of \<circ> pl_revision \<circ> ac_plan) (ms_current s) \<noteq> Some x"
  shows "returns (apply_locked env spec (Some x) s) (refused s)"
  using assms
  by (auto simp: apply_locked_def refused_def ask_def ok_def fail_def Let_def split: option.splits)

lemma reconcile_locked_refused:
  assumes "map_option (revision_id_of \<circ> pl_revision \<circ> ac_plan) (ms_current s) \<noteq> Some x"
  shows "returns (reconcile_locked env spec (Some x) s) (refused s)"
  unfolding reconcile_locked_def
proof (rule returns_runtime_alive)
  fix alive t assume t: "public_view t = public_view s"
  then have "returns (apply_locked env spec (Some x) t) (refused t)"
    using assms public_proj [OF t] by (intro apply_locked_refused) simp
  then have "returns (apply_locked env spec (Some x) t) (refused s)"
    by (rule returns_mono) (use t in \<open>simp add: refused_def\<close>)
  then show "returns (if alive then apply_locked env spec (Some x) t
     else case Some x of
       Some x \<Rightarrow> fail (RevisionConflict x None) t
     | None \<Rightarrow>
         and_do (discard_stale env t) (\<lambda>_ s.
         and_do (start_locked env spec s) (\<lambda>_ s. case ms_current s of
             None \<Rightarrow> None
           | Some active \<Rightarrow> ok (Started (pl_revision (ac_plan active))) s))) (refused s)"
    using t by (simp add: refused_def)
qed

lemma gate_refused:
  "returns (f () s) (refused s) \<Longrightarrow> returns (and_do (reject_quarantine s) f) (refused s)"
  by (rule returns_reject_quarantine) (simp_all add: refused_def)

text \<open>C7. A request that names a revision other than the one that runs is refused: nothing is launched,
  retired or quarantined, and the published state and the committed configuration stay as they
  were.\<close>

theorem revision_conflict_changes_nothing:
  "if map_option (revision_id_of \<circ> pl_revision \<circ> ac_plan) (ms_current s) = Some x then True
   else returns (reconcile env spec (Some x) s) (\<lambda>r t. \<not> is_ok r \<and> public_view t = public_view s)
     \<and> returns (apply_config env spec (Some x) s) (\<lambda>r t. \<not> is_ok r \<and> public_view t = public_view s)"
proof (cases "map_option (revision_id_of \<circ> pl_revision \<circ> ac_plan) (ms_current s) = Some x")
  case False
  then have "returns (reconcile env spec (Some x) s) (refused s)"
    "returns (apply_config env spec (Some x) s) (refused s)"
    unfolding reconcile_def apply_config_def
    by (intro gate_refused refused_finish_dns reconcile_locked_refused apply_locked_refused; assumption)+
  with False show ?thesis
    by (simp only: if_False refused_def [abs_def] simp_thms)
qed simp

end
