(* ===== verification/Transition_Systems.thy ===== *)
theory Transition_Systems
  imports Prelude
begin

text \<open>
  Reachability along a step relation and the two contracts the state machines of this development
  share: an inductive invariant, and a property that is stable along every run of invariant states.
\<close>

inductive reach :: "('s \<Rightarrow> bool) \<Rightarrow> ('s \<Rightarrow> 's \<Rightarrow> bool) \<Rightarrow> 's \<Rightarrow> bool" for init step where
  reach_init: "init s \<Longrightarrow> reach init step s"
| reach_step: "reach init step s \<Longrightarrow> step s t \<Longrightarrow> reach init step t"

lemma reach_rtranclp: "reach init step s \<Longrightarrow> step\<^sup>*\<^sup>* s t \<Longrightarrow> reach init step t"
  by (rotate_tac, induction rule: rtranclp_induct) (auto intro: reach_step)

locale invariant_system =
  fixes init :: "'s \<Rightarrow> bool" and step :: "'s \<Rightarrow> 's \<Rightarrow> bool" and I :: "'s \<Rightarrow> bool"
  assumes init_inv: "init s \<Longrightarrow> I s"
    and step_inv: "I s \<Longrightarrow> step s t \<Longrightarrow> I t"
begin

lemma reach_inv: "reach init step s \<Longrightarrow> I s"
  by (induction rule: reach.induct) (auto intro: init_inv step_inv)

lemma steps_inv: "step\<^sup>*\<^sup>* s t \<Longrightarrow> I s \<Longrightarrow> I t"
  by (induction rule: rtranclp_induct) (auto intro: step_inv)

end

text \<open>A state that satisfies a stable property keeps it along every run from an invariant state.\<close>

locale stable_property = invariant_system +
  fixes P :: "'s \<Rightarrow> bool"
  assumes stable: "I s \<Longrightarrow> P s \<Longrightarrow> step s t \<Longrightarrow> P t"
begin

lemma stays: "step\<^sup>*\<^sup>* s t \<Longrightarrow> I s \<Longrightarrow> P s \<Longrightarrow> I t \<and> P t"
  by (induction rule: rtranclp_induct) (auto intro: step_inv stable)

end

end
