(* ===== verification/Control.thy ===== *)
theory Control
  imports Operations Manager_Properties Transition_Systems
begin

text \<open>
  The control plane (\<open>control/mod.rs\<close>, \<open>control/executor.rs\<close>): callers admit operations into a bounded
  queue under the lock of the registry, one executor task takes them in order, runs each as a
  transaction of the manager and records how it ended. A step of the machine is one critical section
  of a caller or one turn of the executor; a caller may have read the closing latch long before it
  admits, so admission and the latch are steps of their own. Writing the configuration file is an
  oracle indexed by the number of calls, the manager is the model of its own theories.

  The fields \<open>ct_ran\<close> and \<open>ct_admitted\<close> are history: the sequence numbers of the operations that were
  started, in order, and the number of sequence numbers handed out.
\<close>

section \<open>State\<close>

record control_options =
  ctl_source_dir :: string
  ctl_working_dir :: string
  ctl_queue_capacity :: nat
  ctl_registry_capacity :: nat

definition control_options_new :: "string \<Rightarrow> string \<Rightarrow> control_options" where
  "control_options_new source_dir working_dir = \<lparr>ctl_source_dir = source_dir, ctl_working_dir = working_dir,
     ctl_queue_capacity = 16, ctl_registry_capacity = 64\<rparr>"

record control_env =
  cv_env :: env
  cv_options :: control_options
  cv_create_dir :: "nat \<Rightarrow> error + unit"
  cv_write :: "nat \<Rightarrow> string \<Rightarrow> bytes \<Rightarrow> error + unit"
  cv_panic :: "operation_id \<Rightarrow> string"

record work =
  wk_id :: operation_id
  wk_command :: core_command

datatype executor_exit = Clean | Died

datatype executor_phase = Idle | Busy work | Draining executor_exit | Exited executor_exit

record ctl =
  ct_registry :: registry
  ct_queue :: "work list"
  ct_permits :: nat
  ct_closing :: bool
  ct_open :: bool
  ct_executor :: executor_phase
  ct_manager :: mgr
  ct_calls :: nat
  ct_ran :: "nat list"
  ct_admitted :: nat

definition capacity :: "control_env \<Rightarrow> nat" where
  "capacity cv = live_registry_capacity (ctl_registry_capacity (cv_options cv)) (ctl_queue_capacity (cv_options cv))"

text \<open>\<open>mpsc::channel\<close> panics on an empty buffer and on one beyond the permits of its semaphore.\<close>

definition control_spawn :: "control_env \<Rightarrow> mgr \<Rightarrow> ctl option" where
  "control_spawn cv m =
     (let n = ctl_queue_capacity (cv_options cv) in
      if n = 0 \<or> (2 ^ 64 - 1) div 8 < n then None
      else Some \<lparr>ct_registry = registry_new, ct_queue = [], ct_permits = 0, ct_closing = False, ct_open = True,
        ct_executor = Idle, ct_manager = m, ct_calls = 0, ct_ran = [], ct_admitted = 0\<rparr>)"

definition ids :: "work list \<Rightarrow> operation_id list" where
  "ids ws = map wk_id ws"

definition sequence_of :: "registry \<Rightarrow> operation_id \<Rightarrow> nat" where
  "sequence_of r i = (case rg_get i r of None \<Rightarrow> 0 | Some op \<Rightarrow> unat (ro_sequence op))"

section \<open>Callers\<close>

definition try_send :: "control_env \<Rightarrow> ctl \<Rightarrow> send_error option" where
  "try_send cv s =
     (if \<not> ct_open s then Some QueueClosedError
      else if ctl_queue_capacity (cv_options cv) \<le> length (ct_queue s) + ct_permits s then Some QueueFullError
      else None)"

definition default_local_ipc :: "control_env \<Rightarrow> core_command \<Rightarrow> core_command" where
  "default_local_ipc cv command = (case command of
       CmdReconcile rq \<Rightarrow> CmdReconcile (rq\<lparr>rq_options := (rq_options rq)\<lparr>io_local_ipc :=
         Some (case io_local_ipc (rq_options rq) of Some l \<Rightarrow> l | None \<Rightarrow>
           \<lparr>lis_policy = mo_local_ipc_policy (ev_options (cv_env cv)), lis_keep_http_controller = False\<rparr>)\<rparr>\<rparr>)
     | _ \<Rightarrow> command)"

definition admit_work :: "control_env \<Rightarrow> send_error option \<Rightarrow> operation_id \<Rightarrow> core_command \<Rightarrow> ctl \<Rightarrow> (core_error + admitted) \<times> ctl" where
  "admit_work cv enqueue i command s =
     (case admit (capacity cv) i (command_digest command) enqueue (ct_registry s) of
        (Inl e, r) \<Rightarrow> (Inl e, s\<lparr>ct_registry := r,
           ct_admitted := ct_admitted s + (if rg_next_sequence r = rg_next_sequence (ct_registry s) then 0 else 1)\<rparr>)
      | (Inr a, r) \<Rightarrow> (Inr a,
          if ad_new a then s\<lparr>ct_registry := r, ct_queue := ct_queue s @ [\<lparr>wk_id = i, wk_command = command\<rparr>],
            ct_admitted := ct_admitted s + 1\<rparr>
          else s\<lparr>ct_registry := r\<rparr>))"

definition submit_admit :: "control_env \<Rightarrow> operation_id \<Rightarrow> core_command \<Rightarrow> ctl \<Rightarrow> (core_error + admitted) \<times> ctl" where
  "submit_admit cv i command s = admit_work cv (try_send cv s) i (default_local_ipc cv command) s"

definition latch :: "ctl \<Rightarrow> ctl" where
  "latch s = s\<lparr>ct_closing := True\<rparr>"

definition shutting_down :: "operation_id \<Rightarrow> string \<Rightarrow> core_error" where
  "shutting_down i message = with_operation i (core_error_new KShuttingDown message False)"

definition submit :: "control_env \<Rightarrow> operation_id \<Rightarrow> core_command \<Rightarrow> ctl \<Rightarrow> (core_error + admitted) \<times> ctl" where
  "submit cv i command s =
     (if ct_closing s then (Inl (shutting_down i ''the control plane is shutting down''), s)
      else case submit_admit cv i command s of
        (Inl e, s) \<Rightarrow> (Inl e, s)
      | (Inr a, s) \<Rightarrow> (Inr a, if ad_new a \<and> command = CmdShutdown then latch s else s))"

text \<open>\<open>CoreControl::shutdown\<close> latches, reserves a slot and admits with it; the permit is used or dropped.\<close>

definition reserve :: "ctl \<Rightarrow> ctl" where
  "reserve s = s\<lparr>ct_permits := ct_permits s + 1\<rparr>"

definition shutdown_admit :: "control_env \<Rightarrow> operation_id \<Rightarrow> ctl \<Rightarrow> (core_error + admitted) \<times> ctl" where
  "shutdown_admit cv i s = admit_work cv None i CmdShutdown (s\<lparr>ct_permits := ct_permits s - 1\<rparr>)"

section \<open>The executor\<close>

definition materialize ::
  "control_env \<Rightarrow> nat \<Rightarrow> string \<Rightarrow> config_input \<Rightarrow> operation_id \<Rightarrow> core_error + string" where
  "materialize cv n file_name config i =
     (case (case ci_expected_digest config of
         Some declared \<Rightarrow> if declared \<noteq> payload_digest (ci_bytes config) then Some declared else None
       | None \<Rightarrow> None) of
        Some declared \<Rightarrow> Inl (with_operation i (core_error_new KInvalidConfig
          (''config digest mismatch: declared '' @ declared @ '', computed '' @ payload_digest (ci_bytes config)) False))
      | None \<Rightarrow>
          and_then (map_err (\<lambda>e. from_domain e (Some i)) (cv_create_dir cv n)) (\<lambda>_.
          let path = x_join (ev_ext (cv_env cv)) (ctl_source_dir (cv_options cv)) file_name in
          and_then (map_err (\<lambda>e. from_domain e (Some i)) (cv_write cv (n + 1) path (ci_bytes config))) (\<lambda>_. Inr path)))"

definition exec_reconcile ::
  "control_env \<Rightarrow> nat \<Rightarrow> operation_id \<Rightarrow> reconcile_request \<Rightarrow> mgr \<Rightarrow> ((core_error + apply_outcome) \<times> mgr) option" where
  "exec_reconcile cv n i rq m =
     (case materialize cv n ''reconcile-source.yaml'' (rq_config rq) i of
        Inl e \<Rightarrow> Some (Inl e, m)
      | Inr path \<Rightarrow>
          map_option (\<lambda>(r, m). (map_err (\<lambda>e. from_domain e (Some i)) r, m))
            (reconcile (cv_env cv) \<lparr>sp_core = rq_core rq, sp_config_path = path,
               sp_working_dir = ctl_working_dir (cv_options cv), sp_pid_file = None, sp_options = rq_options rq\<rparr>
               (rq_expected rq) m))"

definition execute ::
  "control_env \<Rightarrow> nat \<Rightarrow> operation_id \<Rightarrow> core_command \<Rightarrow> mgr \<Rightarrow> ((core_error + operation_output) \<times> mgr) option" where
  "execute cv n i command m =
     (let finished = (\<lambda>out. map_option (\<lambda>(r, m). (map_ok (\<lambda>_. out) (map_err (\<lambda>e. from_domain e (Some i)) r), m))) in
      case command of
        CmdReconcile rq \<Rightarrow> map_option (\<lambda>(r, m). (map_ok OutReconciled r, m)) (exec_reconcile cv n i rq m)
      | CmdStop \<Rightarrow> finished OutStopped (stop (cv_env cv) m)
      | CmdRecover \<Rightarrow> finished OutRecovered (recover_quarantine (cv_env cv) m)
      | CmdShutdown \<Rightarrow> finished OutShutDown (shutdown (cv_env cv) m))"

text \<open>\<open>CoreControl::check\<close>: an advisory check of a file of its own, which is removed afterwards whatever happens.\<close>

definition check_source :: "config_input \<Rightarrow> operation_id \<Rightarrow> string" where
  "check_source config i = ''check-source-'' @ payload_digest (ci_bytes config) @ ''-'' @ operation_id_show i @ ''.yaml''"

definition control_check :: "control_env \<Rightarrow> nat \<Rightarrow> operation_id \<Rightarrow> core_spec \<Rightarrow> config_input \<Rightarrow> core_error + unit" where
  "control_check cv n i core config =
     and_then (materialize cv n (check_source config i) config i) (\<lambda>path.
     map_err (\<lambda>e. from_domain e None) (ev_check_config (cv_env cv) n \<lparr>sp_core = core, sp_config_path = path,
       sp_working_dir = ctl_working_dir (cv_options cv), sp_pid_file = None, sp_options = instance_options_default\<rparr>))"

definition record_state :: "operation_id \<Rightarrow> operation_state \<Rightarrow> ctl \<Rightarrow> ctl" where
  "record_state i state s = s\<lparr>ct_registry := rg_set i state (ct_registry s)\<rparr>"

definition exec_take :: "work \<Rightarrow> work list \<Rightarrow> ctl \<Rightarrow> ctl" where
  "exec_take w rest s =
     (let s = s\<lparr>ct_queue := rest\<rparr> in
      if wk_command w \<noteq> CmdShutdown \<and> ct_closing s
      then record_state (wk_id w) (OpFailed (shutting_down (wk_id w) ''the control plane is shutting down'')) s
      else (record_state (wk_id w) OpRunning s)\<lparr>ct_executor := Busy w,
        ct_ran := ct_ran s @ [sequence_of (ct_registry s) (wk_id w)]\<rparr>)"

definition begin_drain :: "executor_exit \<Rightarrow> ctl \<Rightarrow> ctl" where
  "begin_drain exit_kind s = s\<lparr>ct_executor := Draining exit_kind, ct_open := False\<rparr>"

definition exec_finish :: "control_env \<Rightarrow> work \<Rightarrow> ctl \<Rightarrow> ctl" where
  "exec_finish cv w s =
     (case execute cv (ct_calls s) (wk_id w) (wk_command w) (ct_manager s) of
        None \<Rightarrow> begin_drain Died (latch (record_state (wk_id w) (OpFailed (with_operation (wk_id w)
          (core_error_new KInternal (''the control operation panicked: '' @ cv_panic cv (wk_id w)) False))) s))
      | Some (r, m) \<Rightarrow>
          let s = (record_state (wk_id w) (case r of Inr out \<Rightarrow> OpSucceeded out | Inl e \<Rightarrow> OpFailed e) s)
                    \<lparr>ct_manager := m, ct_calls := ct_calls s + 2\<rparr>
          in if wk_command w = CmdShutdown then begin_drain Clean s else s\<lparr>ct_executor := Idle\<rparr>)"

definition drained_state :: "executor_exit \<Rightarrow> work \<Rightarrow> operation_state" where
  "drained_state exit_kind w = (case exit_kind of
       Died \<Rightarrow> OpFailed (with_operation (wk_id w) (core_error_new KInternal ''the control executor died'' False))
     | Clean \<Rightarrow> if wk_command w = CmdShutdown then OpSucceeded OutShutDown
         else OpFailed (shutting_down (wk_id w) ''the control plane shut down before this queued operation ran''))"

definition exec_drain :: "executor_exit \<Rightarrow> work \<Rightarrow> work list \<Rightarrow> ctl \<Rightarrow> ctl" where
  "exec_drain exit_kind w rest s = record_state (wk_id w) (drained_state exit_kind w) (s\<lparr>ct_queue := rest\<rparr>)"

inductive exec_step :: "control_env \<Rightarrow> ctl \<Rightarrow> ctl \<Rightarrow> bool" for cv where
  take: "ct_executor s = Idle \<Longrightarrow> ct_queue s = w # rest \<Longrightarrow> exec_step cv s (exec_take w rest s)"
| finish: "ct_executor s = Busy w \<Longrightarrow> exec_step cv s (exec_finish cv w s)"
| drain: "ct_executor s = Draining x \<Longrightarrow> ct_queue s = w # rest \<Longrightarrow> exec_step cv s (exec_drain x w rest s)"
| leave: "ct_executor s = Draining x \<Longrightarrow> ct_queue s = [] \<Longrightarrow> ct_permits s = 0 \<Longrightarrow>
    exec_step cv s (s\<lparr>ct_executor := Exited x\<rparr>)"

text \<open>The callers, the forwarders of the manager and the death of the last handle are the environment.\<close>

inductive ctl_step :: "control_env \<Rightarrow> ctl \<Rightarrow> ctl \<Rightarrow> bool" for cv where
  executor: "exec_step cv s t \<Longrightarrow> ctl_step cv s t"
| submits: "ctl_step cv s (snd (submit_admit cv i command s))"
| latches: "ctl_step cv s (latch s)"
| reserves: "ct_open s \<Longrightarrow> length (ct_queue s) + ct_permits s < ctl_queue_capacity (cv_options cv) \<Longrightarrow>
    ctl_step cv s (reserve s)"
| shuts_down: "0 < ct_permits s \<Longrightarrow> ctl_step cv s (snd (shutdown_admit cv i s))"
| abandons: "0 < ct_permits s \<Longrightarrow> ctl_step cv s (s\<lparr>ct_permits := ct_permits s - 1\<rparr>)"
| forwards: "ctl_step cv s (s\<lparr>ct_manager := publish_epoch_status (cv_env cv) e inst (ct_manager s)\<rparr>)"
| abandoned: "ct_executor s = Idle \<Longrightarrow> ct_queue s = [] \<Longrightarrow> ct_permits s = 0 \<Longrightarrow> ctl_step cv s (begin_drain Clean s)"

definition ctl_init :: "control_env \<Rightarrow> ctl \<Rightarrow> bool" where
  "ctl_init cv s \<longleftrightarrow> (\<exists>m. reachable (cv_env cv) m \<and> control_spawn cv m = Some s)"

inductive_cases exec_stepE: "exec_step cv s t"
inductive_cases ctl_stepE: "ctl_step cv s t"

section \<open>Admission\<close>

definition kept :: "registry \<Rightarrow> registry \<Rightarrow> operation_id \<Rightarrow> bool" where
  "kept r r' j \<longleftrightarrow> rg_get j r' = rg_get j r \<or> rg_get j r' = None \<and> evictable r j"

lemma admit_cases:
  assumes "rg_wf r"
  obtains (existing) a where "admit n i d enqueue r = (Inr a, r)" "\<not> ad_new a" "rg_get i r \<noteq> None"
  | (conflict) e where "admit n i d enqueue r = (Inl e, r)" "rg_get i r \<noteq> None"
  | (refused) e r' where "admit n i d enqueue r = (Inl e, r')" "rg_wf r'" "enqueue \<noteq> None"
      "\<forall>j. kept r r' j" "rg_next_sequence r' = rg_next_sequence r + 1"
      "length (rg_operations r') \<le> length (rg_operations r)"
  | (registered) a r' where "admit n i d enqueue r = (Inr a, r')" "ad_new a" "enqueue = None" "rg_wf r'"
      "rg_get i r = None" "rg_get i r' = Some \<lparr>ro_digest = d, ro_sequence = rg_next_sequence r, ro_state = OpQueued\<rparr>"
      "\<forall>j. j \<noteq> i \<longrightarrow> kept r r' j" "rg_next_sequence r' = rg_next_sequence r + 1"
      "length (rg_operations r') \<le> n \<or> (\<forall>j. \<not> evictable r' j)"
proof (cases "rg_get i r")
  case (Some op)
  show thesis
  proof (cases "ro_digest op = d")
    case True
    with Some show thesis by (intro existing) (auto simp: admit_def)
  next
    case False
    with Some show thesis by (intro conflict) (auto simp: admit_def)
  qed
next
  case None
  define r1 where "r1 = evict n r"
  define op where "op = \<lparr>ro_digest = d, ro_sequence = rg_next_sequence r1, ro_state = OpQueued\<rparr>"
  define r2 where "r2 = (rg_insert i op r1)\<lparr>rg_order := rg_order r1 @ [i], rg_next_sequence := rg_next_sequence r1 + 1\<rparr>"
  have ev: "evicted r r1" "length (rg_operations r1) < n \<or> (\<forall>j. \<not> evictable r1 j)"
    using evict_spec [OF assms, of n] by (simp_all add: r1_def)
  then have seq: "rg_next_sequence r1 = rg_next_sequence r" and wf1: "rg_wf r1"
    and i1: "rg_get i r1 = None" using None unfolding evicted_def by (auto, metis+)
  have new: "i \<notin> set (rg_order r1)" "i \<notin> fst ` set (rg_operations r1)"
    using rg_get_iff [OF wf1, of i] i1 wf1 by (auto simp: rg_wf_def)
  have ops2: "rg_operations r2 = (i, op) # rg_operations r1"
    using new(2) by (force simp: r2_def rg_insert_def filter_id_conv)
  have order2: "rg_order r2 = rg_order r1 @ [i]" by (simp add: r2_def)
  have wf2: "rg_wf r2" using wf1 new by (simp add: rg_wf_def ops2 order2)
  have get2: "rg_get j r2 = (if j = i then Some op else rg_get j r1)" for j by (simp add: r2_def)
  show thesis
  proof (cases enqueue)
    case (Some err)
    let ?r = "(rg_remove i r2)\<lparr>rg_order := butlast (rg_order r2)\<rparr>"
    have ops: "rg_operations ?r = rg_operations r1" and order: "rg_order ?r = rg_order r1"
      using new(2) by (force simp: rg_remove_def ops2 filter_id_conv order2)+
    have "rg_next_sequence ?r = rg_next_sequence r + 1" by (simp add: rg_remove_def r2_def seq)
    moreover have "rg_wf ?r" using wf1 by (simp add: rg_wf_def ops order)
    moreover have "kept r ?r j" for j using ev(1) i1 None by (auto simp: kept_def evicted_def get2)
    moreover have "length (rg_operations ?r) \<le> length (rg_operations r)" using ev(1) by (simp add: ops evicted_def)
    moreover have "\<exists>e. admit n i d enqueue r = (Inl e, ?r)"
      using None Some by (simp add: admit_def Let_def r1_def op_def r2_def)
    ultimately show thesis using Some refused by blast
  next
    case enq: None
    have "length (rg_operations r2) \<le> n \<or> (\<forall>j. \<not> evictable r2 j)"
      using ev(2) by (auto simp: ops2 evictable_def get2 op_def)
    moreover have "\<exists>a. admit n i d enqueue r = (Inr a, r2) \<and> ad_new a"
      using None enq by (simp add: admit_def Let_def r1_def op_def r2_def)
    moreover have "rg_get i r2 = Some \<lparr>ro_digest = d, ro_sequence = rg_next_sequence r, ro_state = OpQueued\<rparr>"
      by (simp add: get2 op_def seq)
    moreover have "j \<noteq> i \<longrightarrow> kept r r2 j" for j using ev(1) by (auto simp: kept_def evicted_def get2)
    moreover have "rg_next_sequence r2 = rg_next_sequence r + 1" by (simp add: r2_def seq)
    ultimately show thesis using registered None enq wf2 by blast
  qed
qed

section \<open>The invariant of the control plane\<close>

definition busy_with :: "executor_phase \<Rightarrow> operation_id \<Rightarrow> bool" where
  "busy_with phase i \<longleftrightarrow> (case phase of Busy w \<Rightarrow> wk_id w = i | _ \<Rightarrow> False)"

definition taking :: "executor_phase \<Rightarrow> bool" where
  "taking phase \<longleftrightarrow> (case phase of Idle \<Rightarrow> True | Busy _ \<Rightarrow> True | _ \<Rightarrow> False)"

lemma phase_simps [simp]:
  "\<not> busy_with Idle i" "busy_with (Busy w) i \<longleftrightarrow> wk_id w = i" "\<not> busy_with (Draining x) i" "\<not> busy_with (Exited x) i"
  "taking Idle" "taking (Busy w)" "\<not> taking (Draining x)" "\<not> taking (Exited x)"
  by (simp_all add: busy_with_def taking_def)

text \<open>The live entries of the registry are exactly the queued operations and the one that runs.\<close>

definition tracked :: "registry \<Rightarrow> work list \<Rightarrow> executor_phase \<Rightarrow> bool" where
  "tracked r queue phase \<longleftrightarrow> rg_wf r \<and> distinct (ids queue)
     \<and> (\<forall>i. rg_state i r = Some OpQueued \<longleftrightarrow> i \<in> set (ids queue))
     \<and> (\<forall>i. rg_state i r = Some OpRunning \<longleftrightarrow> busy_with phase i)"

definition ctl_inv :: "control_env \<Rightarrow> ctl \<Rightarrow> bool" where
  "ctl_inv cv s \<longleftrightarrow> tracked (ct_registry s) (ct_queue s) (ct_executor s)
     \<and> length (ct_queue s) + ct_permits s \<le> ctl_queue_capacity (cv_options cv)
     \<and> ctl_queue_capacity (cv_options cv) + 1 \<le> capacity cv
     \<and> length (rg_operations (ct_registry s)) \<le> capacity cv
     \<and> (ct_open s \<longleftrightarrow> taking (ct_executor s))
     \<and> (case ct_executor s of Exited _ \<Rightarrow> ct_queue s = [] \<and> ct_permits s = 0 | _ \<Rightarrow> True)"

lemma ids_simps [simp]: "ids [] = []" "ids (w # ws) = wk_id w # ids ws" "ids (ws @ vs) = ids ws @ ids vs"
  by (simp_all add: ids_def)

lemma rg_state_set [simp]:
  "rg_state j (rg_set i st r) = (if j = i then map_option (\<lambda>_. st) (rg_state j r) else rg_state j r)"
  by (simp add: rg_state_def option.map_comp comp_def)

lemma kept_live: "kept r r' j \<Longrightarrow> \<not> op_terminal st \<Longrightarrow> rg_state j r' = Some st \<longleftrightarrow> rg_state j r = Some st"
  by (auto simp: kept_def rg_state_def evictable_def split: option.splits)

lemma tracked_kept:
  "tracked r queue phase \<Longrightarrow> rg_wf r' \<Longrightarrow> \<forall>j. kept r r' j \<Longrightarrow> tracked r' queue phase"
  unfolding tracked_def by (metis kept_live op_terminal_simps(1,2))

lemma tracked_registered:
  assumes "tracked r queue phase" "rg_wf r'" "rg_get i r = None" "rg_get i r' = Some op" "ro_state op = OpQueued"
    and kept: "\<forall>j. j \<noteq> i \<longrightarrow> kept r r' j" and "wk_id w = i"
  shows "tracked r' (queue @ [w]) phase"
proof -
  have "rg_state i r = None" "rg_state i r' = Some OpQueued" using assms(3-5) by (simp_all add: rg_state_def)
  moreover have "rg_state j r' = Some st \<longleftrightarrow> rg_state j r = Some st" if "j \<noteq> i" "\<not> op_terminal st" for j st
    using kept_live kept that by blast
  ultimately show ?thesis
    using assms(1,2,7) unfolding tracked_def by (auto simp: distinct_append) (metis op_terminal_simps(1,2) option.inject option.distinct(1) operation_state.distinct(1))+
qed

lemma tracked_done:
  assumes "tracked r (w # rest) phase" "op_terminal st" "\<not> busy_with phase (wk_id w)"
  shows "tracked (rg_set (wk_id w) st r) rest phase"
  using assms by (auto simp: tracked_def)

lemma tracked_take:
  assumes "tracked r (w # rest) Idle"
  shows "tracked (rg_set (wk_id w) OpRunning r) rest (Busy w)"
proof -
  have "rg_state (wk_id w) r = Some OpQueued" using assms by (simp add: tracked_def)
  with assms show ?thesis by (auto simp: tracked_def)
qed

lemma tracked_finish:
  assumes "tracked r queue (Busy w)" "op_terminal st" "\<forall>i. \<not> busy_with phase i"
  shows "tracked (rg_set (wk_id w) st r) queue phase"
proof -
  have run: "rg_state (wk_id w) r = Some OpRunning" using assms(1) by (simp add: tracked_def)
  then have "rg_state (wk_id w) r \<noteq> Some OpQueued" by simp
  then have "wk_id w \<notin> set (ids queue)" using assms(1) unfolding tracked_def by blast
  with run assms show ?thesis by (auto simp: tracked_def)
qed

text \<open>A registry whose entries are all live is no larger than the queue and one running operation.\<close>

lemma tracked_full_length:
  assumes "tracked r queue phase" "\<forall>j. \<not> evictable r j"
  shows "length (rg_operations r) \<le> length queue + 1"
proof -
  have "fst ` set (rg_operations r) \<subseteq> set (ids queue) \<union> {i. busy_with phase i}"
  proof
    fix i assume "i \<in> fst ` set (rg_operations r)"
    then have "rg_get i r \<noteq> None" by (simp add: rg_get_def map_of_eq_None_iff)
    then obtain op where op: "rg_get i r = Some op" "\<not> op_terminal (ro_state op)"
      using assms(2) [rule_format, of i] by (auto simp: evictable_def)
    then have "rg_state i r = Some OpQueued \<or> rg_state i r = Some OpRunning"
      by (cases "ro_state op") (auto simp: rg_state_def)
    then show "i \<in> set (ids queue) \<union> {i. busy_with phase i}" using assms(1) by (auto simp: tracked_def)
  qed
  moreover have "finite {i. busy_with phase i}" "card {i. busy_with phase i} \<le> 1"
    by (cases phase; simp)+
  moreover have "card (fst ` set (rg_operations r)) = length (rg_operations r)"
    using assms(1) distinct_card [of "map fst (rg_operations r)"] by (simp add: tracked_def rg_wf_def)
  moreover have "card (set (ids queue)) \<le> length queue" using card_length [of "ids queue"] by (simp add: ids_def)
  ultimately show ?thesis
    by (metis (no_types, lifting) add_mono_thms_linordered_semiring(1) card_Un_le card_mono finite_Un List.finite_set order_trans)
qed

lemma admit_work_inv:
  assumes inv: "ctl_inv cv s" and room: "enqueue = None \<Longrightarrow>
      length (ct_queue s) + ct_permits s < ctl_queue_capacity (cv_options cv) \<and> \<not> (\<exists>x. ct_executor s = Exited x)"
  shows "ctl_inv cv (snd (admit_work cv enqueue i command s))"
proof -
  have tr: "tracked (ct_registry s) (ct_queue s) (ct_executor s)" and wf: "rg_wf (ct_registry s)"
    using inv by (simp_all add: ctl_inv_def tracked_def)
  show ?thesis
  proof (cases rule: admit_cases [OF wf, where n = "capacity cv" and i = i and d = "command_digest command" and enqueue = enqueue,
        case_names existing conflict refused registered])
    case (refused e r')
    then show ?thesis
      using inv tracked_kept [OF tr] by (auto simp: admit_work_def ctl_inv_def split: executor_phase.splits)
  next
    case (registered a r')
    let ?w = "\<lparr>wk_id = i, wk_command = command\<rparr>"
    have tr': "tracked r' (ct_queue s @ [?w]) (ct_executor s)"
      by (rule tracked_registered [OF tr registered(4-6) _ registered(7)]) simp_all
    have "length (rg_operations r') \<le> capacity cv"
    proof (cases "\<forall>j. \<not> evictable r' j")
      case True
      then show ?thesis
        using tracked_full_length [OF tr' True] room [OF registered(3)] inv by (simp add: ctl_inv_def)
    qed (use registered(9) in blast)
    then show ?thesis
      using inv tr' registered room by (auto simp: admit_work_def ctl_inv_def split: executor_phase.splits)
  qed (use inv in \<open>simp_all add: admit_work_def\<close>)
qed

lemma exec_step_inv:
  assumes inv: "ctl_inv cv s" and "exec_step cv s t"
  shows "ctl_inv cv t"
  using assms(2)
proof cases
  case (take w rest)
  then show ?thesis
    using inv tracked_take [of "ct_registry s" w rest] tracked_done [of "ct_registry s" w rest Idle]
    by (auto simp: ctl_inv_def exec_take_def record_state_def Let_def)
next
  case (finish w)
  then show ?thesis
    using inv tracked_finish [of "ct_registry s" "ct_queue s" w]
    by (auto simp: ctl_inv_def exec_finish_def record_state_def begin_drain_def latch_def Let_def
        split: option.split sum.split)
next
  case (drain x w rest)
  then show ?thesis
    using inv tracked_done [of "ct_registry s" w rest "Draining x"]
    by (auto simp: ctl_inv_def exec_drain_def record_state_def drained_state_def split: executor_exit.split)
next
  case (leave x)
  then show ?thesis using inv by (auto simp: ctl_inv_def tracked_def)
qed

lemma ctl_step_inv:
  assumes inv: "ctl_inv cv s" and "ctl_step cv s t"
  shows "ctl_inv cv t"
  using assms(2)
proof cases
  case executor
  then show ?thesis by (rule exec_step_inv [OF inv])
next
  case (submits i command)
  have "try_send cv s = None \<Longrightarrow> length (ct_queue s) + ct_permits s < ctl_queue_capacity (cv_options cv)
      \<and> \<not> (\<exists>x. ct_executor s = Exited x)"
    using inv by (auto simp: try_send_def ctl_inv_def split: if_splits)
  then show ?thesis using submits admit_work_inv [OF inv] by (simp add: submit_admit_def)
next
  case (shuts_down i)
  have "ctl_inv cv (s\<lparr>ct_permits := ct_permits s - 1\<rparr>)"
    using inv by (auto simp: ctl_inv_def split: executor_phase.splits)
  then have "ctl_inv cv (snd (admit_work cv None i CmdShutdown (s\<lparr>ct_permits := ct_permits s - 1\<rparr>)))"
    using inv shuts_down by (intro admit_work_inv) (auto simp: ctl_inv_def)
  then show ?thesis using shuts_down by (simp add: shutdown_admit_def)
next
  case reserves
  then show ?thesis using inv by (auto simp: ctl_inv_def reserve_def split: executor_phase.splits)
next
  case abandons
  then show ?thesis using inv by (auto simp: ctl_inv_def split: executor_phase.splits)
next
  case abandoned
  then show ?thesis using inv by (auto simp: ctl_inv_def begin_drain_def tracked_def)
qed (use inv in \<open>auto simp: ctl_inv_def latch_def split: executor_phase.splits\<close>)

lemma ctl_init_inv: "ctl_init cv s \<Longrightarrow> ctl_inv cv s"
  by (auto simp: ctl_init_def control_spawn_def ctl_inv_def tracked_def rg_state_def capacity_def
      live_registry_capacity_def registry_new_def rg_wf_def Let_def rg_get_def split: if_splits)

interpretation control: invariant_system "ctl_init cv" "ctl_step cv" "ctl_inv cv" for cv
  by unfold_locales (erule ctl_init_inv, erule ctl_step_inv)

end
