(* ===== verification/Control_Properties.thy ===== *)
theory Control_Properties
  imports Control
begin

text \<open>
  What the control plane promises its callers: every operation it knows is accounted for and ends,
  the states of an operation follow one life cycle, operations start in the order of their sequence
  numbers, a shutdown fences the queue, and the executor never dies of a panic.
\<close>

section \<open>A sample control plane\<close>

definition sample_control :: control_env where
  "sample_control = \<lparr>cv_env = sample_env (\<lambda>_ _. Inr ()), cv_options = control_options_new ''/src'' ''/work'',
     cv_create_dir = \<lambda>_. Inr (), cv_write = \<lambda>_ _ _. Inr (), cv_panic = \<lambda>_. []\<rparr>"

definition sample_plane :: ctl where
  "sample_plane = \<lparr>ct_registry = registry_new, ct_queue = [], ct_permits = 0, ct_closing = False, ct_open = True,
     ct_executor = Idle, ct_manager = sample_mgr, ct_calls = 0, ct_ran = [], ct_admitted = 0\<rparr>"

lemma sample_plane_init: "ctl_init sample_control sample_plane"
  using sample_reachable by (auto simp: ctl_init_def sample_control_def sample_plane_def control_spawn_def control_options_new_def)

lemmas sample_plane_reach = reach_init [of "ctl_init sample_control", OF sample_plane_init]

definition sample_id :: operation_id where
  "sample_id = \<lparr>oi_nanos = 1, oi_pid = 2, oi_counter = 3\<rparr>"

definition sample_queued :: ctl where
  "sample_queued = snd (submit_admit sample_control sample_id CmdStop sample_plane)"

lemma sample_queued_eq:
  "sample_queued = sample_plane\<lparr>ct_registry := \<lparr>rg_operations = [(sample_id,
       \<lparr>ro_digest = command_digest CmdStop, ro_sequence = 0, ro_state = OpQueued\<rparr>)], rg_order = [sample_id], rg_next_sequence = 1\<rparr>,
     ct_queue := [\<lparr>wk_id = sample_id, wk_command = CmdStop\<rparr>], ct_admitted := 1\<rparr>"
proof -
  have "evict 64 registry_new = registry_new" by (simp add: evict.simps registry_new_def)
  then show ?thesis
    by (simp add: sample_queued_def submit_admit_def admit_work_def admit_def Let_def sample_plane_def
        sample_control_def control_options_new_def capacity_def live_registry_capacity_def try_send_def
        default_local_ipc_def rg_insert_def registry_new_def rg_get_def)
qed

lemma sample_queued_reach: "reach (ctl_init sample_control) (ctl_step sample_control) sample_queued"
  unfolding sample_queued_def by (rule reach_step [OF sample_plane_reach]) (rule submits)

section \<open>Every operation is accounted for\<close>

lemma tracked_live:
  assumes "tracked r queue phase"
  shows "(case rg_state i r of None \<Rightarrow> False | Some st \<Rightarrow> \<not> op_terminal st) \<longleftrightarrow> i \<in> set (ids queue) \<or> busy_with phase i"
proof -
  have "(case rg_state i r of None \<Rightarrow> False | Some st \<Rightarrow> \<not> op_terminal st)
      \<longleftrightarrow> rg_state i r = Some OpQueued \<or> rg_state i r = Some OpRunning"
    by (auto simp: op_terminal_def split: option.splits operation_state.splits)
  then show ?thesis using assms unfolding tracked_def by blast
qed

text \<open>C24. The registry never outgrows its bound, an operation is live in it exactly as long as it waits in the
  queue or runs, so no live operation is ever evicted, and once the executor has exited every operation
  the registry knows has a result.\<close>

theorem control_accounts_for_operations:
  assumes "reach (ctl_init cv) (ctl_step cv) s"
  shows "length (rg_operations (ct_registry s)) \<le> capacity cv
    \<and> ((case rg_state i (ct_registry s) of None \<Rightarrow> False | Some st \<Rightarrow> \<not> op_terminal st)
         \<longleftrightarrow> i \<in> set (ids (ct_queue s)) \<or> busy_with (ct_executor s) i)
    \<and> (case ct_executor s of
         Exited _ \<Rightarrow> (case rg_state i (ct_registry s) of None \<Rightarrow> True | Some st \<Rightarrow> op_terminal st)
       | _ \<Rightarrow> True)"
proof -
  have inv: "ctl_inv cv s" by (rule control.reach_inv [OF assms])
  then show ?thesis
    using tracked_live [of "ct_registry s" "ct_queue s" "ct_executor s" i]
    by (auto simp: ctl_inv_def split: executor_phase.splits option.splits)
qed

theorem control_accounts_for_operations_witness:
  "case rg_state sample_id (ct_registry sample_queued) of None \<Rightarrow> False | Some st \<Rightarrow> \<not> op_terminal st"
  using control_accounts_for_operations [OF sample_queued_reach, of sample_id] by (simp add: sample_queued_eq)

section \<open>The executor finishes\<close>

definition exec_weight :: "ctl \<Rightarrow> nat" where
  "exec_weight s = 2 * length (ct_queue s)
     + (case ct_executor s of Idle \<Rightarrow> 1 | Busy _ \<Rightarrow> 2 | Draining _ \<Rightarrow> 1 | Exited _ \<Rightarrow> 0)"

lemma exec_step_weight: "exec_step cv s t \<Longrightarrow> exec_weight t < exec_weight s"
  by (erule exec_stepE)
    (auto simp: exec_weight_def exec_take_def exec_finish_def exec_drain_def record_state_def begin_drain_def
      latch_def Let_def split: option.split sum.split)

lemma exec_steps_weight: "(exec_step cv ^^ n) s t \<Longrightarrow> n + exec_weight t \<le> exec_weight s"
proof (induction n arbitrary: t)
  case (Suc n)
  then obtain u where "(exec_step cv ^^ n) s u" "exec_step cv u t" by auto
  then show ?case using Suc.IH [of u] exec_step_weight [of cv u t] by simp
qed simp

lemma exec_stuck:
  assumes "\<nexists>u. exec_step cv t u"
  shows "ct_queue t = [] \<and> (case ct_executor t of Busy _ \<Rightarrow> False | _ \<Rightarrow> True) \<or> (\<exists>x. ct_executor t = Exited x)"
proof (cases "ct_executor t")
  case Idle
  then show ?thesis using assms exec_step.take [of t _ _ cv] by (cases "ct_queue t") auto
next
  case (Busy w)
  then show ?thesis using assms exec_step.finish by blast
next
  case (Draining x)
  then show ?thesis using assms exec_step.drain [of t x _ _ cv] by (cases "ct_queue t") auto
qed simp

lemma exec_run_inv: "(exec_step cv ^^ n) s t \<Longrightarrow> ctl_inv cv s \<Longrightarrow> ctl_inv cv t"
proof (induction n arbitrary: t)
  case (Suc n)
  then show ?case by (auto intro: exec_step_inv)
qed simp

lemma exec_step_known:
  "exec_step cv s t \<Longrightarrow> rg_state i (ct_registry t) = None \<longleftrightarrow> rg_state i (ct_registry s) = None"
  by (erule exec_stepE)
    (auto simp: exec_take_def exec_finish_def exec_drain_def record_state_def begin_drain_def latch_def Let_def
      split: option.split sum.split)

lemma exec_run_known:
  "(exec_step cv ^^ n) s t \<Longrightarrow> rg_state i (ct_registry t) = None \<longleftrightarrow> rg_state i (ct_registry s) = None"
proof (induction n arbitrary: t)
  case (Suc n)
  then show ?case by (auto simp: exec_step_known)
qed simp

text \<open>C25. Left alone, the executor makes at most two turns per queued operation and two more, and when it can
  make no further turn every operation that the registry knew has a result there: no admitted operation
  is forgotten, whether it runs, is refused by the closing latch or is drained.\<close>

theorem control_executor_finishes:
  assumes "reach (ctl_init cv) (ctl_step cv) s" "(exec_step cv ^^ n) s t"
  shows "n \<le> 2 * length (ct_queue s) + 2
    \<and> ((\<exists>u. exec_step cv t u) \<or> (case rg_state i (ct_registry s) of None \<Rightarrow> True
         | Some _ \<Rightarrow> (case rg_state i (ct_registry t) of None \<Rightarrow> False | Some st \<Rightarrow> op_terminal st)))"
proof
  have "n + exec_weight t \<le> exec_weight s" by (rule exec_steps_weight [OF assms(2)])
  also have "exec_weight s \<le> 2 * length (ct_queue s) + 2" by (simp add: exec_weight_def split: executor_phase.split)
  finally show "n \<le> 2 * length (ct_queue s) + 2" by simp
next
  show "(\<exists>u. exec_step cv t u) \<or> (case rg_state i (ct_registry s) of None \<Rightarrow> True
      | Some _ \<Rightarrow> (case rg_state i (ct_registry t) of None \<Rightarrow> False | Some st \<Rightarrow> op_terminal st))"
  proof (cases "\<exists>u. exec_step cv t u")
    case False
    have inv: "ctl_inv cv t" by (rule exec_run_inv [OF assms(2) control.reach_inv [OF assms(1)]])
    then have "i \<notin> set (ids (ct_queue t)) \<and> \<not> busy_with (ct_executor t) i"
      using exec_stuck [OF False] by (auto simp: ctl_inv_def split: executor_phase.splits)
    moreover have "tracked (ct_registry t) (ct_queue t) (ct_executor t)" using inv by (simp add: ctl_inv_def)
    ultimately show ?thesis
      using tracked_live [of "ct_registry t" "ct_queue t" "ct_executor t" i] exec_run_known [OF assms(2), of i]
      by (auto split: option.splits)
  qed simp
qed

theorem control_executor_finishes_witness:
  "\<exists>t. (exec_step sample_control ^^ 1) sample_queued t \<and> 1 \<le> 2 * length (ct_queue sample_queued) + 2"
proof -
  have "(exec_step sample_control ^^ 1) sample_queued (exec_take \<lparr>wk_id = sample_id, wk_command = CmdStop\<rparr> [] sample_queued)"
    using exec_step.take [of sample_queued _ "[]" sample_control] by (simp add: sample_queued_eq sample_plane_def OO_def)
  then show ?thesis using control_executor_finishes [OF sample_queued_reach] by blast
qed

section \<open>The life cycle of an operation\<close>

text \<open>The abstract contract: what one step may do to what the registry says of one operation.\<close>

definition forward :: "operation_state \<Rightarrow> operation_state \<Rightarrow> bool" where
  "forward st st' \<longleftrightarrow> st' = st \<or> st = OpQueued \<and> st' = OpRunning \<or> \<not> op_terminal st \<and> op_terminal st'"

definition life_cycle :: "u64 \<Rightarrow> registered option \<Rightarrow> registered option \<Rightarrow> bool" where
  "life_cycle next e e' = (case (e, e') of
       (None, None) \<Rightarrow> True
     | (None, Some op) \<Rightarrow> ro_state op = OpQueued \<and> ro_sequence op = next
     | (Some op, None) \<Rightarrow> op_terminal (ro_state op)
     | (Some op, Some op') \<Rightarrow> ro_digest op' = ro_digest op \<and> ro_sequence op' = ro_sequence op
         \<and> forward (ro_state op) (ro_state op'))"

lemma life_cycle_refl [simp]: "life_cycle n e e"
  by (simp add: life_cycle_def forward_def split: option.split)

lemma life_cycle_kept: "kept r r' j \<Longrightarrow> life_cycle n (rg_get j r) (rg_get j r')"
  by (auto simp: kept_def life_cycle_def evictable_def forward_def split: option.splits)

lemma life_cycle_moved:
  "rg_state i r = Some st' \<Longrightarrow> forward st' st \<Longrightarrow> life_cycle n (rg_get i r) (map_option (ro_state_update (\<lambda>_. st)) (rg_get i r))"
  by (auto simp: life_cycle_def rg_state_def split: option.splits)

lemma admit_work_life_cycle:
  assumes "rg_wf (ct_registry s)"
  shows "life_cycle (rg_next_sequence (ct_registry s)) (rg_get j (ct_registry s))
     (rg_get j (ct_registry (snd (admit_work cv enqueue i command s))))"
proof (cases rule: admit_cases [OF assms, where n = "capacity cv" and i = i and d = "command_digest command" and enqueue = enqueue,
      case_names existing conflict refused registered])
  case (refused e r')
  then show ?thesis using life_cycle_kept [of "ct_registry s" r' j] by (simp add: admit_work_def)
next
  case (registered a r')
  then show ?thesis
    using life_cycle_kept [of "ct_registry s" r' j]
    by (cases "j = i") (simp_all add: admit_work_def life_cycle_def)
qed (simp_all add: admit_work_def)

lemma exec_step_life_cycle:
  assumes inv: "ctl_inv cv s" and "exec_step cv s t"
  shows "life_cycle n (rg_get j (ct_registry s)) (rg_get j (ct_registry t))"
  using assms(2)
proof cases
  case (take w rest)
  then have "rg_state (wk_id w) (ct_registry s) = Some OpQueued" using inv by (simp add: ctl_inv_def tracked_def)
  then show ?thesis using take by (auto simp: exec_take_def record_state_def Let_def forward_def intro!: life_cycle_moved)
next
  case (finish w)
  then have "rg_state (wk_id w) (ct_registry s) = Some OpRunning" using inv by (simp add: ctl_inv_def tracked_def)
  then show ?thesis
    using finish by (auto simp: exec_finish_def record_state_def begin_drain_def latch_def Let_def forward_def
        intro!: life_cycle_moved split: option.split sum.split)
next
  case (drain x w rest)
  then have "rg_state (wk_id w) (ct_registry s) = Some OpQueued" using inv by (simp add: ctl_inv_def tracked_def)
  then show ?thesis
    using drain by (auto simp: exec_drain_def record_state_def forward_def drained_state_def
        intro!: life_cycle_moved split: executor_exit.split)
qed simp

text \<open>C26. Every step of the control plane refines the life cycle of each operation: it is registered as queued
  under the next sequence number, starts to run or ends, keeps its digest and sequence number, never
  leaves a final state, and is forgotten only in a final state.\<close>

theorem control_refines_life_cycle:
  assumes "reach (ctl_init cv) (ctl_step cv) s" "ctl_step cv s t"
  shows "life_cycle (rg_next_sequence (ct_registry s)) (rg_get i (ct_registry s)) (rg_get i (ct_registry t))"
proof -
  have inv: "ctl_inv cv s" by (rule control.reach_inv [OF assms(1)])
  then have wf: "rg_wf (ct_registry s)" by (simp add: ctl_inv_def tracked_def)
  from assms(2) show ?thesis
  proof cases
    case executor
    then show ?thesis by (rule exec_step_life_cycle [OF inv])
  next
    case (submits j command)
    then show ?thesis using admit_work_life_cycle [OF wf, of i] by (simp add: submit_admit_def)
  next
    case (shuts_down j)
    then show ?thesis
      using admit_work_life_cycle [of "s\<lparr>ct_permits := ct_permits s - 1\<rparr>" i] wf by (simp add: shutdown_admit_def)
  qed (simp_all add: latch_def reserve_def begin_drain_def)
qed

theorem control_refines_life_cycle_witness:
  "life_cycle (rg_next_sequence (ct_registry sample_plane)) (rg_get sample_id (ct_registry sample_plane))
     (rg_get sample_id (ct_registry sample_queued))"
  unfolding sample_queued_def by (rule control_refines_life_cycle [OF sample_plane_reach]) (rule submits)

section \<open>Operations start in the order of their sequence numbers\<close>

definition sequences :: "ctl \<Rightarrow> nat list" where
  "sequences s = ct_ran s @ map (sequence_of (ct_registry s)) (ids (ct_queue s))"

definition rising :: "nat \<Rightarrow> nat list \<Rightarrow> bool" where
  "rising n xs \<longleftrightarrow> (n < 2 ^ 64 \<longrightarrow> sorted_wrt (<) xs \<and> (\<forall>x \<in> set xs. x < n))"

definition ordered :: "ctl \<Rightarrow> bool" where
  "ordered s \<longleftrightarrow> rg_next_sequence (ct_registry s) = of_nat (ct_admitted s) \<and> rising (ct_admitted s) (sequences s)"

lemma rising_Suc: "rising n xs \<Longrightarrow> rising (Suc n) xs"
  unfolding rising_def by (meson Suc_lessD less_SucI)

lemma rising_snoc: "rising n xs \<Longrightarrow> (n < 2 ^ 64 \<Longrightarrow> x = n) \<Longrightarrow> rising (Suc n) (xs @ [x])"
  unfolding rising_def by (auto simp: sorted_wrt_append dest: Suc_lessD intro: less_SucI)

lemma rising_drop: "rising n (xs @ y # ys) \<Longrightarrow> rising n (xs @ ys)"
  unfolding rising_def by (auto simp: sorted_wrt_append)

lemma sequence_of_set [simp]: "sequence_of (rg_set i st r) = sequence_of r"
  by (rule ext) (simp add: sequence_of_def split: option.split)

lemma kept_sequence:
  assumes "kept r r' j" "rg_state j r = Some OpQueued"
  shows "sequence_of r' j = sequence_of r j"
  using assms by (auto simp: kept_def evictable_def rg_state_def sequence_of_def split: option.splits)

lemma kept_sequences:
  assumes "tracked r queue phase" "\<forall>j \<in> set (ids queue). kept r r' j"
  shows "map (sequence_of r') (ids queue) = map (sequence_of r) (ids queue)"
  using assms kept_sequence by (fastforce simp: tracked_def)

lemma admit_work_ordered:
  assumes tr: "tracked (ct_registry s) (ct_queue s) (ct_executor s)" and ord: "ordered s"
  shows "ordered (snd (admit_work cv enqueue i command s))"
proof -
  have wf: "rg_wf (ct_registry s)" using tr by (simp add: tracked_def)
  show ?thesis
  proof (cases rule: admit_cases [OF wf, where n = "capacity cv" and i = i and d = "command_digest command" and enqueue = enqueue,
        case_names existing conflict refused registered])
    case (refused e r')
    then have kept: "map (sequence_of r') (ids (ct_queue s)) = map (sequence_of (ct_registry s)) (ids (ct_queue s))"
      using kept_sequences [OF tr] by blast
    show ?thesis
      using refused ord rising_Suc [of "ct_admitted s" "sequences s"]
      by (simp add: admit_work_def ordered_def sequences_def kept del: map_eq_conv)
  next
    case (registered a r')
    have "rg_state i (ct_registry s) \<noteq> Some OpQueued" using registered(5) by (simp add: rg_state_def)
    then have "i \<notin> set (ids (ct_queue s))" using tr unfolding tracked_def by blast
    then have kept: "map (sequence_of r') (ids (ct_queue s)) = map (sequence_of (ct_registry s)) (ids (ct_queue s))"
      using registered(7) by (intro kept_sequences [OF tr]) metis
    have "sequence_of r' i = ct_admitted s" if "ct_admitted s < 2 ^ 64"
      using registered(6) ord that by (simp add: sequence_of_def ordered_def unat_of_nat)
    then have "rising (Suc (ct_admitted s)) (sequences s @ [sequence_of r' i])"
      using ord by (intro rising_snoc) (simp_all add: ordered_def)
    then show ?thesis
      using registered ord by (simp add: admit_work_def ordered_def sequences_def kept del: map_eq_conv)
  qed (use ord in \<open>simp_all add: admit_work_def\<close>)
qed

lemma exec_step_ordered:
  assumes "exec_step cv s t" "ordered s"
  shows "ordered t"
  using assms(1)
proof cases
  case (take w rest)
  then show ?thesis
    using assms(2) rising_drop [of "ct_admitted s" "ct_ran s" "sequence_of (ct_registry s) (wk_id w)" "map (sequence_of (ct_registry s)) (ids rest)"]
    by (simp add: ordered_def sequences_def exec_take_def record_state_def Let_def)
next
  case (finish w)
  then show ?thesis
    using assms(2) by (simp add: ordered_def sequences_def exec_finish_def record_state_def begin_drain_def latch_def Let_def
        split: option.split sum.split)
next
  case (drain x w rest)
  then show ?thesis
    using assms(2) rising_drop [of "ct_admitted s" "ct_ran s" "sequence_of (ct_registry s) (wk_id w)" "map (sequence_of (ct_registry s)) (ids rest)"]
    by (simp add: ordered_def sequences_def exec_drain_def record_state_def)
qed (use assms(2) in \<open>simp add: ordered_def sequences_def\<close>)

lemma ctl_step_ordered:
  assumes inv: "ctl_inv cv s" and "ctl_step cv s t" and ord: "ordered s"
  shows "ordered t"
proof -
  have tr: "tracked (ct_registry s) (ct_queue s) (ct_executor s)" using inv by (simp add: ctl_inv_def)
  from assms(2) show ?thesis
  proof cases
    case executor
    then show ?thesis using ord by (rule exec_step_ordered)
  next
    case (submits j command)
    then show ?thesis using admit_work_ordered [OF tr ord] by (simp add: submit_admit_def)
  next
    case (shuts_down j)
    then show ?thesis
      using admit_work_ordered [of "s\<lparr>ct_permits := ct_permits s - 1\<rparr>"] tr ord
      by (simp add: shutdown_admit_def ordered_def sequences_def)
  qed (use ord in \<open>simp_all add: latch_def reserve_def begin_drain_def ordered_def sequences_def\<close>)
qed

interpretation ordering: invariant_system "ctl_init cv" "ctl_step cv" "\<lambda>s. ctl_inv cv s \<and> ordered s" for cv
proof
  show "ctl_inv cv s \<and> ordered s" if "ctl_init cv s" for s
    using that ctl_init_inv [OF that]
    by (auto simp: ctl_init_def control_spawn_def ordered_def sequences_def rising_def registry_new_def Let_def split: if_splits)
qed (blast intro: ctl_step_inv ctl_step_ordered)

text \<open>C27. As long as the 64-bit counter has not wrapped, the operations that the executor started, followed by
  those that wait in the queue, have strictly increasing sequence numbers: the number a caller is given
  is its place in the order in which transactions run.\<close>

theorem control_runs_in_sequence:
  assumes "reach (ctl_init cv) (ctl_step cv) s" "ct_admitted s < 2 ^ 64"
  shows "sorted_wrt (<) (ct_ran s @ map (sequence_of (ct_registry s)) (ids (ct_queue s)))"
  using ordering.reach_inv [OF assms(1)] assms(2) by (simp add: ordered_def sequences_def rising_def)

theorem control_runs_in_sequence_witness:
  "sorted_wrt (<) (ct_ran sample_queued @ map (sequence_of (ct_registry sample_queued)) (ids (ct_queue sample_queued)))"
  by (rule control_runs_in_sequence [OF sample_queued_reach]) (simp add: sample_queued_eq sample_plane_def)

section \<open>A shutdown fences the queue\<close>

text \<open>Nothing starts behind the latch but shutdowns; what ran when it went down may finish.\<close>

definition fenced :: "work option \<Rightarrow> ctl \<Rightarrow> bool" where
  "fenced running s \<longleftrightarrow> ct_closing s
     \<and> (case ct_executor s of Busy w \<Rightarrow> running = Some w \<or> wk_command w = CmdShutdown | _ \<Rightarrow> True)"

lemma admit_work_executor [simp]:
  "ct_executor (snd (admit_work cv enqueue i command s)) = ct_executor s"
  "ct_closing (snd (admit_work cv enqueue i command s)) = ct_closing s"
  "ct_manager (snd (admit_work cv enqueue i command s)) = ct_manager s"
  by (simp_all add: admit_work_def split: prod.split sum.split)

lemma ctl_step_fenced: "fenced running s \<Longrightarrow> ctl_step cv s t \<Longrightarrow> fenced running t"
  by (erule ctl_stepE; (erule exec_stepE)?)
    (auto simp: fenced_def exec_take_def exec_finish_def exec_drain_def record_state_def begin_drain_def latch_def
      reserve_def submit_admit_def shutdown_admit_def Let_def split: option.split sum.split executor_phase.splits)

interpretation fence: stable_property "ctl_init cv" "ctl_step cv" "ctl_inv cv" "fenced running" for cv running
  by unfold_locales (erule ctl_step_fenced, assumption)

text \<open>C28. Once the closing latch is down it stays down, and from then on the executor runs nothing but what was
  running at that moment and shutdowns: no queued operation starts behind a shutdown.\<close>

theorem control_shutdown_fences:
  assumes "reach (ctl_init cv) (ctl_step cv) s" "(ctl_step cv)\<^sup>*\<^sup>* (latch s) t"
  shows "ct_closing t \<and> (case ct_executor t of
      Busy w \<Rightarrow> wk_command w = CmdShutdown \<or> ct_executor s = Busy w | _ \<Rightarrow> True)"
proof -
  let ?running = "case ct_executor s of Busy w \<Rightarrow> Some w | _ \<Rightarrow> None"
  have "ctl_inv cv (latch s)" using ctl_step_inv [OF control.reach_inv [OF assms(1)] latches] .
  moreover have "fenced ?running (latch s)" by (simp add: fenced_def latch_def split: executor_phase.split)
  ultimately have "fenced ?running t" using fence.stays [OF assms(2)] by blast
  then show ?thesis by (auto simp: fenced_def split: executor_phase.splits)
qed

theorem control_shutdown_fences_witness:
  "ct_closing (latch sample_queued)"
  using control_shutdown_fences [OF sample_queued_reach rtranclp.rtrancl_refl] by blast

section \<open>The executor does not die\<close>

text \<open>The steps from states in which an epoch number is left, as for the manager.\<close>

definition epoch_step :: "control_env \<Rightarrow> ctl \<Rightarrow> ctl \<Rightarrow> bool" where
  "epoch_step cv s t \<longleftrightarrow> ms_epochs_last (ct_manager s) \<noteq> - 1 \<and> ctl_step cv s t"

definition manager_sound :: "control_env \<Rightarrow> ctl \<Rightarrow> bool" where
  "manager_sound cv s \<longleftrightarrow> reachable (cv_env cv) (ct_manager s)
     \<and> ct_executor s \<noteq> Draining Died \<and> ct_executor s \<noteq> Exited Died"

lemma execute_reachable:
  assumes "reachable (cv_env cv) m" "ms_epochs_last m \<noteq> - 1"
  shows "\<exists>r t. execute cv n i command m = Some (r, t) \<and> reachable (cv_env cv) t"
proof -
  have goes: "\<exists>r t. f = Some (r, t) \<and> reachable (cv_env cv) t"
    if "perform (cv_env cv) q m = map_option snd f" for q and f :: "('b \<times> mgr) option"
  proof -
    obtain t where "perform (cv_env cv) q m = Some t" using perform_ends [OF reachable_minv [OF assms(1)] assms(2)] by blast
    then show ?thesis using that reachable.step [OF assms, of q t] by auto
  qed
  show ?thesis
  proof (cases command)
    case (CmdReconcile rq)
    show ?thesis
    proof (cases "materialize cv n ''reconcile-source.yaml'' (rq_config rq) i")
      case (Inl e)
      then show ?thesis using CmdReconcile assms(1) by (simp add: execute_def exec_reconcile_def)
    next
      case (Inr path)
      let ?spec = "\<lparr>sp_core = rq_core rq, sp_config_path = path, sp_working_dir = ctl_working_dir (cv_options cv),
        sp_pid_file = None, sp_options = rq_options rq\<rparr>"
      from goes [of "Reconcile ?spec (rq_expected rq)" "reconcile (cv_env cv) ?spec (rq_expected rq) m"]
      show ?thesis using CmdReconcile Inr by (auto simp: execute_def exec_reconcile_def)
    qed
  next
    case CmdStop
    then show ?thesis using goes [of Stop "stop (cv_env cv) m"] by (auto simp: execute_def Let_def)
  next
    case CmdRecover
    then show ?thesis
      using goes [of RecoverQuarantine "recover_quarantine (cv_env cv) m"] by (auto simp: execute_def Let_def)
  next
    case CmdShutdown
    then show ?thesis using goes [of Shutdown "shutdown (cv_env cv) m"] by (auto simp: execute_def Let_def)
  qed
qed

lemma epoch_step_sound:
  assumes "manager_sound cv s" "epoch_step cv s t"
  shows "manager_sound cv t"
proof -
  have sound: "reachable (cv_env cv) (ct_manager s)" "ms_epochs_last (ct_manager s) \<noteq> - 1" "ctl_step cv s t"
    "ct_executor s \<noteq> Draining Died" "ct_executor s \<noteq> Exited Died"
    using assms by (simp_all add: manager_sound_def epoch_step_def)
  from sound(3) show ?thesis
  proof cases
    case executor
    then show ?thesis
    proof cases
      case (finish w)
      obtain r u where "execute cv (ct_calls s) (wk_id w) (wk_command w) (ct_manager s) = Some (r, u)"
        "reachable (cv_env cv) u" using execute_reachable [OF sound(1,2)] by blast
      then show ?thesis
        using finish by (simp add: manager_sound_def exec_finish_def Let_def begin_drain_def record_state_def)
    qed (use sound in \<open>auto simp: manager_sound_def exec_take_def exec_drain_def record_state_def Let_def\<close>)
  next
    case (forwards e inst)
    have "reachable (cv_env cv) (publish_epoch_status (cv_env cv) e inst (ct_manager s))"
      by (rule reachable.step [OF sound(1,2), of "ForwardStatus e inst"]) simp
    then show ?thesis using forwards sound by (simp add: manager_sound_def)
  qed (use sound in \<open>simp_all add: manager_sound_def submit_admit_def shutdown_admit_def latch_def reserve_def begin_drain_def\<close>)
qed

interpretation soundness: invariant_system "ctl_init cv" "epoch_step cv" "manager_sound cv" for cv
proof
  show "manager_sound cv s" if "ctl_init cv s" for s
    using that by (auto simp: ctl_init_def control_spawn_def manager_sound_def Let_def split: if_splits)
qed (rule epoch_step_sound)



section \<open>Submitting is idempotent\<close>

text \<open>A submit is a sequence of steps of the machine.\<close>

lemma submit_steps: "(ctl_step cv)\<^sup>*\<^sup>* s (snd (submit cv i command s))"
proof -
  have one: "ctl_step cv s (snd (submit_admit cv i command s))" by (rule submits)
  have "(ctl_step cv)\<^sup>*\<^sup>* s (latch (snd (submit_admit cv i command s)))"
    using one latches by (rule rtranclp_trans [OF r_into_rtranclp r_into_rtranclp])
  then show ?thesis using one by (auto simp: submit_def split: prod.split sum.split)
qed

lemma admit_known:
  "rg_get i r = Some op \<Longrightarrow> admit n i d enqueue r =
     (if ro_digest op = d then Inr \<lparr>ad_new = False, ad_sequence = ro_sequence op, ad_state = ro_state op\<rparr>
      else Inl (with_operation i (core_error_new KOperationConflict
        (''operation '' @ operation_id_show i @ '' was already submitted with a different payload'') False)), r)"
  by (simp add: admit_def)

lemma admit_accepted:
  assumes "admit n i d enqueue r = (Inr a, r')"
  shows "rg_get i r' = Some \<lparr>ro_digest = d, ro_sequence = ad_sequence a, ro_state = ad_state a\<rparr>"
  using assms by (auto simp: admit_def Let_def split: option.splits if_splits)

text \<open>An operation that was accepted can be submitted again, after a lost response for instance: the same
  command attaches to the operation, with its sequence number and state, and changes nothing; a command
  with another digest is refused as a conflict and changes nothing; behind the closing latch every
  submit is refused.\<close>

theorem submit_idempotent:
  "case submit cv i command s of (Inl _, _) \<Rightarrow> True | (Inr a, t) \<Rightarrow>
     if ct_closing t then (\<exists>e. submit cv i other t = (Inl e, t) \<and> ce_kind e = Some KShuttingDown)
     else if command_digest (default_local_ipc cv other) = command_digest (default_local_ipc cv command)
     then submit cv i other t = (Inr (a\<lparr>ad_new := False\<rparr>), t)
     else (\<exists>e. submit cv i other t = (Inl e, t) \<and> ce_kind e = Some KOperationConflict)"
proof (cases "submit cv i command s")
  case (Pair r t)
  show ?thesis
  proof (cases r)
    case (Inr a)
    then obtain u where "submit_admit cv i command s = (Inr a, u)" and t: "ct_registry t = ct_registry u"
      using Pair by (auto simp: submit_def latch_def split: if_splits prod.splits sum.splits)
    then have "rg_get i (ct_registry t) = Some \<lparr>ro_digest = command_digest (default_local_ipc cv command),
        ro_sequence = ad_sequence a, ro_state = ad_state a\<rparr>"
      by (auto simp: submit_admit_def admit_work_def dest!: admit_accepted split: prod.splits sum.splits if_splits)
    then show ?thesis
      using Pair Inr by (auto simp: submit_def shutting_down_def with_operation_def core_error_new_def submit_admit_def
          admit_work_def admit_known split: if_splits)
  qed (simp add: Pair)
qed

section \<open>Checks\<close>

text \<open>Concurrent checks of the same bytes never share a file.\<close>

lemma operation_id_show_length [simp]: "length (operation_id_show i) = 34"
  by (simp add: operation_id_show_def)

lemma check_source_inj:
  assumes "check_source config i = check_source config' j"
  shows "i = j"
proof -
  have "length (payload_digest b) = 16" for b by (simp add: payload_digest_def hex16_def)
  then have "operation_id_show i = operation_id_show j" using assms by (simp add: check_source_def)
  then show ?thesis using operation_id_parse_show option.inject by metis
qed

section \<open>A failed shutdown\<close>

text \<open>When the shutdown that ran fails, the shutdowns that wait behind it are answered as accomplished.\<close>

lemma failed_shutdown_masked:
  assumes "ct_executor s = Busy w" "wk_command w = CmdShutdown" "ct_queue s = v # rest" "wk_command v = CmdShutdown"
    "wk_id v \<noteq> wk_id w" "rg_state (wk_id w) (ct_registry s) = Some OpRunning" "rg_state (wk_id v) (ct_registry s) = Some OpQueued"
    "execute cv (ct_calls s) (wk_id w) CmdShutdown (ct_manager s) = Some (Inl e, m)"
  shows "\<exists>t. (exec_step cv ^^ 2) s t \<and> rg_state (wk_id w) (ct_registry t) = Some (OpFailed e)
    \<and> rg_state (wk_id v) (ct_registry t) = Some (OpSucceeded OutShutDown)"
proof -
  let ?u = "exec_finish cv w s" and ?t = "exec_drain Clean v rest (exec_finish cv w s)"
  have u: "ct_executor ?u = Draining Clean" "ct_queue ?u = v # rest"
    using assms by (simp_all add: exec_finish_def record_state_def begin_drain_def Let_def)
  have "(exec_step cv ^^ 2) s ?t"
    using exec_step.finish [OF assms(1), of cv] exec_step.drain [OF u, of cv]
    by (auto simp: numeral_2_eq_2)
  moreover have "rg_state (wk_id w) (ct_registry ?t) = Some (OpFailed e)"
    "rg_state (wk_id v) (ct_registry ?t) = Some (OpSucceeded OutShutDown)"
    using assms by (simp_all add: exec_finish_def exec_drain_def record_state_def begin_drain_def drained_state_def Let_def)
  ultimately show ?thesis by blast
qed

end
