(* ===== verification/Log_Text.thy ===== *)
theory Log_Text
  imports Core_Types Utf8
begin

text \<open>
  The text level of the log parser (\<open>log.rs\<close>): removal of terminal escapes, tokens, the logfmt scanner
  of mihomo records, the header layouts of clash-rs and clash premium, and bounded appending. The
  loops over byte indices are recursions on the bytes that remain. Where the source slices a \<open>str\<close> or
  unwraps, the model returns an option whose \<open>None\<close> is the panic.
\<close>

section \<open>Bounded text\<close>

text \<open>\<open>append_bounded\<close> and \<open>truncate_text\<close> return the text and whether something was left behind.\<close>

definition append_bounded :: "string \<Rightarrow> string \<Rightarrow> nat \<Rightarrow> string \<times> bool" where
  "append_bounded content line max_bytes =
     (if max_bytes \<le> length content then (content, True)
      else if line = [] then (content @ [CHR 0x0A], False)
      else let budget = max_bytes - length content - 1;
               n = floor_boundary line (min budget (length line))
           in if n = 0 then (content, True)
              else (content @ CHR 0x0A # take n line, n < length line))"

definition truncate_text :: "string \<Rightarrow> nat \<Rightarrow> string \<times> bool" where
  "truncate_text content max_bytes =
     (if length content \<le> max_bytes then (content, False)
      else (take (floor_boundary content max_bytes) content, True))"

section \<open>Escapes\<close>

function strip_escapes :: "string \<Rightarrow> string" where
  "strip_escapes [] = []"
| "strip_escapes (b # bs) =
     (if b \<noteq> CHR 0x1B then b # strip_escapes bs
      else case bs of
        [] \<Rightarrow> []
      | c # cs \<Rightarrow> if c = CHR ''['' then strip_escapes (drop 1 (dropWhile (\<lambda>b. \<not> within 0x40 0x7E b) cs))
          else strip_escapes bs)"
  by pat_completeness auto
termination
proof (relation "measure length")
  fix b :: char and bs c cs
  have "length (drop 1 (dropWhile (\<lambda>b. \<not> within 0x40 0x7E b) cs)) \<le> length cs"
    by (simp add: le_trans [OF diff_le_self length_dropWhile_le])
  moreover assume "bs = c # cs"
  ultimately show "(drop 1 (dropWhile (\<lambda>b. \<not> within 0x40 0x7E b) cs), b # bs) \<in> measure length"
    by simp
qed simp_all

definition strip_ansi :: "string \<Rightarrow> string option" where
  "strip_ansi line =
     (if CHR 0x1B \<notin> set line then Some line
      else let output = strip_escapes line in if utf8 output then Some output else None)"

section \<open>Tokens\<close>

definition take_token :: "string \<Rightarrow> (string \<times> string) option" where
  "take_token input =
     (let input = trim_start input
      in map_option (\<lambda>n. (take n input, trim_start (drop n input))) (find_ws input))"

definition str_get :: "string \<Rightarrow> nat \<Rightarrow> nat \<Rightarrow> string option" where
  "str_get s i j = (if i \<le> j \<and> j \<le> length s \<and> is_char_boundary s i \<and> is_char_boundary s j
     then Some (take (j - i) (drop i s)) else None)"

definition byte_at :: "string \<Rightarrow> nat \<Rightarrow> char option" where
  "byte_at s i = (if i < length s then Some (s ! i) else None)"

text \<open>\<open>u8::is_ascii_whitespace\<close> does not count the vertical tab.\<close>

definition is_ascii_whitespace :: "char \<Rightarrow> bool" where
  "is_ascii_whitespace c \<longleftrightarrow> byte c \<in> {9, 10, 12, 13, 32}"

section \<open>Logfmt\<close>

text \<open>The bytes of a quoted value up to its closing quote, and what follows the quote; \<open>None\<close> when a
  backslash ends the line or no quote closes the value.\<close>

fun quoted_value :: "string \<Rightarrow> (string \<times> string) option" where
  "quoted_value [] = None"
| "quoted_value (b # bs) =
     (if b = CHR 0x22 then Some ([], bs)
      else if b = CHR 0x5C then (case bs of
          [] \<Rightarrow> None
        | e # rest \<Rightarrow> map_option (\<lambda>(value, after).
            ((if e = CHR 0x22 \<or> e = CHR 0x5C then [e] else if e = CHR ''n'' then [CHR 0x0A]
              else if e = CHR ''r'' then [CHR 0x0D] else if e = CHR ''t'' then [CHR 0x09]
              else [CHR 0x5C, e]) @ value, after)) (quoted_value rest))
      else map_option (\<lambda>(value, after). (b # value, after)) (quoted_value bs))"

definition scan_value :: "string \<Rightarrow> (string \<times> string) option" where
  "scan_value rest =
     (if byte_at rest 0 = Some CHR 0x22
      then Option.bind (quoted_value (drop 1 rest)) (\<lambda>(value, after).
        if (case after of c # _ \<Rightarrow> \<not> is_ascii_whitespace c | [] \<Rightarrow> False) then None
        else if utf8 value then Some (value, after) else None)
      else let n = length (takeWhile (\<lambda>c. \<not> is_ascii_whitespace c) rest)
        in map_option (\<lambda>value. (value, drop n rest)) (str_get rest 0 n))"

text \<open>The key runs to the first equals sign, before any white space.\<close>

definition scan_key :: "string \<Rightarrow> (string \<times> string) option" where
  "scan_key s =
     (let n = length (takeWhile (\<lambda>c. c \<noteq> CHR ''='' \<and> \<not> is_ascii_whitespace c) s)
      in if byte_at s n \<noteq> Some CHR ''='' \<or> n = 0 then None
         else map_option (\<lambda>key. (key, drop (n + 1) s)) (str_get s 0 n))"

lemma quoted_value_length: "quoted_value s = Some (v, t) \<Longrightarrow> length t < length s"
  by (induction s arbitrary: v t rule: quoted_value.induct) (fastforce split: if_splits list.splits)+

lemma scan_value_length: "scan_value s = Some (v, t) \<Longrightarrow> length t \<le> length s"
  by (cases s) (auto simp: scan_value_def bind_eq_Some_conv Let_def split: if_splits
      dest!: quoted_value_length)

lemma scan_key_length: "scan_key s = Some (k, t) \<Longrightarrow> length t < length s"
  by (cases s) (auto simp: scan_key_def Let_def split: if_splits)

function scan_logfmt :: "string \<Rightarrow> (string \<times> string) list option" where
  "scan_logfmt line =
     (let line = dropWhile is_ascii_whitespace line in
      if line = [] then Some []
      else case scan_key line of
        None \<Rightarrow> None
      | Some (key, rest) \<Rightarrow> (case scan_value rest of
          None \<Rightarrow> None
        | Some (value, rest) \<Rightarrow> map_option (\<lambda>fields. (key, value) # fields) (scan_logfmt rest)))"
  by auto
termination
proof (relation "measure length")
  fix line l k r v r' and p q :: "string \<times> string"
  assume l: "l = dropWhile is_ascii_whitespace line" "l \<noteq> []" "scan_key l = Some p" "(k, r) = p"
    "scan_value r = Some q" "(v, r') = q"
  then have "length r < length l" "length r' \<le> length r"
    by (auto dest: scan_key_length scan_value_length)
  moreover have "length l \<le> length line" using l(1) by (simp add: length_dropWhile_le)
  ultimately show "(r', line) \<in> measure length" by simp
qed simp

declare scan_logfmt.simps [simp del]

section \<open>The header of clash-rs\<close>

definition clash_rs_timestamp_end :: "string \<Rightarrow> nat option" where
  "clash_rs_timestamp_end line =
     (if \<not> list_all (\<lambda>(index, separator). byte_at line index = Some separator)
            [(2, CHR ''-''), (5, CHR ''-''), (8, CHR '' ''), (11, CHR '':''), (14, CHR '':''), (17, CHR '':'')]
         \<or> \<not> list_all (\<lambda>(i, j). list_all is_digit (take (j - i) (drop i line)))
            [(0, 2), (3, 5), (6, 8), (9, 11), (12, 14), (15, 17)]
      then None
      else let digits = length (takeWhile is_digit (drop 18 line))
        in if 1 \<le> digits \<and> digits \<le> 9 \<and> byte_at line (18 + digits) = Some CHR '' ''
           then Some (18 + digits) else None)"

definition match_indices :: "string \<Rightarrow> string \<Rightarrow> nat list" where
  "match_indices p s = filter (\<lambda>i. starts_with p (drop i s)) [0..<length s]"

definition rfind_char :: "char \<Rightarrow> string \<Rightarrow> nat option" where
  "rfind_char c s = find (\<lambda>i. s ! i = c) (rev [0..<length s])"

text \<open>The loop over the separators; the outer \<open>None\<close> is the panic of a slice inside a character.\<close>

fun source_from :: "string \<Rightarrow> nat list \<Rightarrow> (string \<times> string) option option" where
  "source_from rest [] = Some None"
| "source_from rest (separator # others) =
     (let head = take separator rest in case rfind_char CHR '':'' head of
        None \<Rightarrow> source_from rest others
      | Some colon \<Rightarrow>
          if drop (colon + 1) head = [] \<or> \<not> list_all is_digit (drop (colon + 1) head)
          then source_from rest others
          else let start = (case rfind_ws (take colon head) of None \<Rightarrow> 0 | Some index \<Rightarrow> index + 1)
            in if start = colon then source_from rest others
               else if is_char_boundary head start
               then Some (Some (drop start head, drop (separator + 2) rest))
               else None)"

text \<open>Two separators cannot overlap, so every index where the pattern stands is a match.\<close>

definition clash_rs_source :: "string \<Rightarrow> (string \<times> string) option option" where
  "clash_rs_source rest = source_from rest (match_indices '': '' rest)"

section \<open>The header of clash premium\<close>

definition premium_target :: "string \<Rightarrow> string option \<times> string" where
  "premium_target body =
     (case Option.bind (strip_prefix ''['' body) (split_once ''] '') of
        Some (tag, message) \<Rightarrow>
          if tag \<noteq> [] \<and> CHR '' '' \<notin> set tag then (Some tag, message) else (None, body)
      | None \<Rightarrow> (None, body))"

section \<open>Escapes are removed whole\<close>

lemma strip_escapes_simps [simp]:
  "b \<noteq> CHR 0x1B \<Longrightarrow> strip_escapes (b # bs) = b # strip_escapes bs"
  "strip_escapes [CHR 0x1B] = []"
  "strip_escapes (CHR 0x1B # CHR ''['' # cs) = strip_escapes (drop 1 (dropWhile (\<lambda>b. \<not> within 0x40 0x7E b) cs))"
  "c \<noteq> CHR ''['' \<Longrightarrow> strip_escapes (CHR 0x1B # c # cs) = strip_escapes (c # cs)"
  by simp_all

declare strip_escapes.simps(2) [simp del]

lemma strip_escapes_char:
  "CHR 0x1B \<notin> set c \<Longrightarrow> strip_escapes (c @ t) = c @ strip_escapes t"
  by (induction c) auto

lemma utf8_drop_final:
  assumes "utf8 s"
  shows "utf8 (drop 1 (dropWhile (\<lambda>b. \<not> within 0x40 0x7E b) s))"
  using assms
proof (induction s rule: utf8_induct)
  case (char c t)
  from char.hyps(1) show ?case
  proof (cases rule: is_char_cases)
    case (ascii a)
    with char show ?thesis by simp
  next
    case multi
    then have "dropWhile (\<lambda>b. \<not> within 0x40 0x7E b) (c @ t) = dropWhile (\<lambda>b. \<not> within 0x40 0x7E b) t"
      by (intro dropWhile_append2) (auto simp: within_def list_all_iff)
    with char.IH show ?thesis by simp
  qed
qed simp

lemma is_char_escape: "is_char c \<Longrightarrow> CHR 0x1B \<in> set c \<Longrightarrow> c = [CHR 0x1B]"
  by (erule is_char_cases) (auto simp: list_all_iff)

lemma utf8_strip_escapes: "utf8 s \<Longrightarrow> utf8 (strip_escapes s)"
proof (induction s rule: length_induct)
  case (1 s)
  from "1.prems" show ?case
  proof (cases rule: utf8_cases)
    case (char c t)
    then have shorter: "length t < length s" by (auto simp: is_char_def)
    show ?thesis
    proof (cases "CHR 0x1B \<in> set c")
      case False
      with char shorter "1.IH" show ?thesis by (simp add: strip_escapes_char)
    next
      case True
      with char have s: "s = CHR 0x1B # t" by (auto dest: is_char_escape)
      show ?thesis
      proof (cases t)
        case (Cons d u)
        show ?thesis
        proof (cases "d = CHR ''[''")
          case True
          then have "utf8 u" using char(3) Cons by simp
          moreover have "length (drop 1 (dropWhile (\<lambda>b. \<not> within 0x40 0x7E b) u)) < length s"
            using s Cons by (simp add: le_imp_less_Suc le_SucI le_trans [OF diff_le_self length_dropWhile_le])
          ultimately show ?thesis
            using s Cons True "1.IH" utf8_drop_final by simp
        next
          case False
          then have "strip_escapes s = strip_escapes t" using s Cons by simp
          then show ?thesis using shorter char(3) "1.IH" by simp
        qed
      qed (use s in simp)
    qed
  qed simp
qed

lemma strip_escapes_clean: "CHR 0x1B \<notin> set (strip_escapes s)"
proof (induction s rule: strip_escapes.induct)
  case (2 b bs)
  then show ?case
    by (cases "b = CHR 0x1B"; cases bs; cases "hd bs = CHR ''[''") auto
qed simp

lemma subseq_strip_escapes: "subseq (strip_escapes s) s"
proof (induction s rule: strip_escapes.induct)
  case (2 b bs)
  have "subseq (drop 1 (dropWhile P xs)) xs" for P and xs :: string
    by (rule suffix_imp_subseq) (metis suffix_dropWhile suffix_drop suffix_order.trans)
  then have skip: "subseq xs (drop 1 (dropWhile P ys)) \<Longrightarrow> subseq xs (a # b # ys)" for P a b and xs ys :: string
    by (metis subseq_order.trans list_emb_Cons)
  with 2 show ?case
    by (cases "b = CHR 0x1B"; cases bs; cases "hd bs = CHR ''[''") auto
qed simp

text \<open>Removing terminal escapes from valid text always succeeds (the conversion back to a string
  cannot fail), leaves no escape byte, invents nothing and keeps the text valid.\<close>

theorem strip_ansi_total:
  assumes "utf8 line"
  shows "\<exists>out. strip_ansi line = Some out \<and> utf8 out \<and> CHR 0x1B \<notin> set out \<and> subseq out line"
  using assms utf8_strip_escapes strip_escapes_clean subseq_strip_escapes
  by (auto simp: strip_ansi_def)

theorem strip_ansi_total_witness:
  "utf8 (CHR 0x1B # ''[2mok'') \<and> (\<exists>out. strip_ansi (CHR 0x1B # ''[2mok'') = Some out \<and> utf8 out
     \<and> CHR 0x1B \<notin> set out \<and> subseq out (CHR 0x1B # ''[2mok''))"
proof -
  have "utf8 (CHR 0x1B # ''[2mok'')" by (rule utf8_ascii) simp
  with strip_ansi_total [OF this] show ?thesis by blast
qed

section \<open>Logfmt is read back\<close>

text \<open>How logrus prints a field: the value quoted, with quotes, backslashes and line breaks escaped, or
  bare when nothing in it needs quoting.\<close>

definition escape_byte :: "char \<Rightarrow> string" where
  "escape_byte c = (if c = CHR 0x22 \<or> c = CHR 0x5C then [CHR 0x5C, c]
     else if c = CHR 0x0A then [CHR 0x5C, CHR ''n''] else if c = CHR 0x0D then [CHR 0x5C, CHR ''r'']
     else if c = CHR 0x09 then [CHR 0x5C, CHR ''t''] else [c])"

definition print_field :: "bool \<times> string \<times> string \<Rightarrow> string" where
  "print_field = (\<lambda>(quoted, key, value). key @ ''='' @
     (if quoted then CHR 0x22 # concat (map escape_byte value) @ [CHR 0x22] else value))"

definition printable :: "bool \<times> string \<times> string \<Rightarrow> bool" where
  "printable = (\<lambda>(quoted, key, value). utf8 key \<and> key \<noteq> [] \<and> utf8 value
     \<and> list_all (\<lambda>c. c \<noteq> CHR ''='' \<and> \<not> is_ascii_whitespace c) key
     \<and> (quoted \<or> list_all (\<lambda>c. \<not> is_ascii_whitespace c) value \<and> byte_at value 0 \<noteq> Some CHR 0x22))"

lemma quoted_value_escape:
  "quoted_value (concat (map escape_byte v) @ CHR 0x22 # t) = Some (v, t)"
  by (induction v) (simp_all add: escape_byte_def)

lemma str_get_ascii:
  "t = [] \<or> (\<exists>c u. t = c # u \<and> byte c < 0x80) \<Longrightarrow> str_get (s @ t) 0 (length s) = Some s"
  by (auto simp: str_get_def is_char_boundary_iff nth_append continuation_def within_def)

lemma scan_key_print:
  assumes "key \<noteq> []" "list_all (\<lambda>c. c \<noteq> CHR ''='' \<and> \<not> is_ascii_whitespace c) key"
  shows "scan_key (key @ CHR ''='' # t) = Some (key, t)"
proof -
  have "takeWhile (\<lambda>c. c \<noteq> CHR ''='' \<and> \<not> is_ascii_whitespace c) (key @ CHR ''='' # t) = key"
    using assms(2) by (subst takeWhile_append2) (auto simp: list_all_iff)
  then show ?thesis
    using assms(1) str_get_ascii [of "CHR ''='' # t" key]
    by (simp add: scan_key_def Let_def byte_at_def nth_append)
qed

lemma scan_value_quoted:
  assumes "utf8 v" "t = [] \<or> (\<exists>u. t = CHR '' '' # u)"
  shows "scan_value (CHR 0x22 # concat (map escape_byte v) @ CHR 0x22 # t) = Some (v, t)"
  using assms
  by (auto simp: scan_value_def byte_at_def quoted_value_escape is_ascii_whitespace_def)

lemma scan_value_bare:
  assumes "list_all (\<lambda>c. \<not> is_ascii_whitespace c) v" "byte_at v 0 \<noteq> Some CHR 0x22"
    and t: "t = [] \<or> (\<exists>u. t = CHR '' '' # u)"
  shows "scan_value (v @ t) = Some (v, t)"
proof -
  have a: "takeWhile (\<lambda>c. \<not> is_ascii_whitespace c) (v @ t) = v"
    using assms(1) t by (subst takeWhile_append2) (auto simp: list_all_iff is_ascii_whitespace_def)
  have b: "byte_at (v @ t) 0 \<noteq> Some CHR 0x22"
    using assms(2) t by (cases v) (auto simp: byte_at_def)
  have "byte (CHR '' '') < 0x80" by simp
  with t have c: "str_get (v @ t) 0 (length v) = Some v"
    by (intro str_get_ascii) blast
  show ?thesis unfolding scan_value_def Let_def a if_not_P [OF b] c option.map prod.inject by simp
qed

lemma scan_logfmt_field:
  assumes "printable (q, k, v)" "t = [] \<or> (\<exists>u. t = CHR '' '' # u)"
  shows "scan_logfmt (print_field (q, k, v) @ t) = map_option (\<lambda>fs. (k, v) # fs) (scan_logfmt t)"
proof -
  let ?line = "print_field (q, k, v) @ t"
  from assms(1) obtain c k' where k: "k = c # k'" "\<not> is_ascii_whitespace c"
    by (cases k) (auto simp: printable_def)
  then have "dropWhile is_ascii_whitespace ?line = ?line" "?line \<noteq> []"
    by (simp_all add: print_field_def)
  moreover have "scan_key ?line = Some (k, (if q then CHR 0x22 # concat (map escape_byte v) @ [CHR 0x22] else v) @ t)"
    using assms(1) scan_key_print [of k] by (simp add: print_field_def printable_def)
  moreover have "scan_value ((if q then CHR 0x22 # concat (map escape_byte v) @ [CHR 0x22] else v) @ t) = Some (v, t)"
    using assms scan_value_quoted [of v t] scan_value_bare [of v t] by (auto simp: printable_def)
  ultimately show ?thesis
    by (subst scan_logfmt.simps) (simp only: Let_def if_False option.case prod.case refl)
qed

lemma scan_logfmt_blank [simp]: "scan_logfmt (CHR '' '' # t) = scan_logfmt t"
  by (subst (1 2) scan_logfmt.simps) (simp add: is_ascii_whitespace_def)

lemma scan_logfmt_Nil [simp]: "scan_logfmt [] = Some []"
  by (subst scan_logfmt.simps) simp

text \<open>The logfmt scanner reads back every record a logrus core prints, quoted or bare, with the fields
  in their order and every escaped byte restored.\<close>

theorem scan_logfmt_roundtrip:
  assumes "list_all printable items"
  shows "scan_logfmt (join_with '' '' (map print_field items)) = Some (map snd items)"
proof -
  have tail: "scan_logfmt (concat (map (\<lambda>f. '' '' @ print_field f) fs)) = Some (map snd fs)"
    if "list_all printable fs" for fs
    using that
  proof (induction fs)
    case (Cons f fs)
    then show ?case
      using scan_logfmt_field [of "fst f" "fst (snd f)" "snd (snd f)"
          "concat (map (\<lambda>f. '' '' @ print_field f) fs)"]
      by (cases fs) auto
  qed simp
  show ?thesis
  proof (cases items)
    case (Cons f fs)
    with assms tail [of fs]
      scan_logfmt_field [of "fst f" "fst (snd f)" "snd (snd f)" "concat (map (\<lambda>f. '' '' @ print_field f) fs)"]
    show ?thesis by (cases fs) (auto simp: join_with_def comp_def)
  qed (simp add: join_with_def)
qed

theorem scan_logfmt_roundtrip_witness:
  "scan_logfmt (join_with '' '' (map print_field [(False, ''level'', ''info''), (True, ''msg'', [CHR ''a'', CHR 0x22, CHR 0x0A])]))
     = Some [(''level'', ''info''), (''msg'', [CHR ''a'', CHR 0x22, CHR 0x0A])]"
proof -
  have "utf8 ''level''" "utf8 ''info''" "utf8 ''msg''" "utf8 [CHR ''a'', CHR 0x22, CHR 0x0A]"
    by (rule utf8_ascii, simp)+
  then show ?thesis
    using scan_logfmt_roundtrip [of "[(False, ''level'', ''info''), (True, ''msg'', [CHR ''a'', CHR 0x22, CHR 0x0A])]"]
    by (simp add: printable_def is_ascii_whitespace_def byte_at_def)
qed

end
