(* ===== verification/Log_Parser.thy ===== *)
theory Log_Parser
  imports Log_Text Digits
begin

text \<open>
  Normalization of core console output (\<open>log.rs\<close>; the frame is \<open>chimera-core-metadata/src/log.rs\<close>). The
  calendar of \<open>chrono\<close> is a parameter: a date is a day number, a time of day and an offset are opaque
  integers, and the record \<open>chrono\<close> has the conversions the parser calls. A push returns the two slots of
  \<open>ParsedFrames\<close> and the parser; \<open>None\<close> is a panic.
\<close>

section \<open>Frames\<close>

datatype log_level = LTrace | LDebug | LInfo | LWarning | LError | LFatal

fun level_rank :: "log_level \<Rightarrow> nat" where
  "level_rank LTrace = 0" | "level_rank LDebug = 1" | "level_rank LInfo = 2"
| "level_rank LWarning = 3" | "level_rank LError = 4" | "level_rank LFatal = 5"

lemma level_rank_inject: "level_rank a = level_rank b \<Longrightarrow> a = b"
  by (cases a; cases b) simp_all

instantiation log_level :: linorder
begin

definition less_eq_log_level :: "log_level \<Rightarrow> log_level \<Rightarrow> bool" where
  "less_eq_log_level a b \<longleftrightarrow> level_rank a \<le> level_rank b"

definition less_log_level :: "log_level \<Rightarrow> log_level \<Rightarrow> bool" where
  "less_log_level a b \<longleftrightarrow> level_rank a < level_rank b"

instance
  by standard (auto simp: less_eq_log_level_def less_log_level_def dest: level_rank_inject)

end

datatype log_stream = Stdout | Stderr

record log_timestamp =
  lt_raw :: string
  lt_unix_ms :: "int option"
  lt_inferred :: bool

record log_field =
  lf_key :: string
  lf_value :: string

record log_frame =
  fr_at :: int
  fr_epoch :: u64
  fr_kind :: core_kind
  fr_stream :: log_stream
  fr_level :: log_level
  fr_timestamp :: "log_timestamp option"
  fr_target :: "string option"
  fr_message :: string
  fr_fields :: "log_field list"
  fr_raw :: string
  fr_truncated :: bool

record parsed_line =
  pl_timestamp :: "log_timestamp option"
  pl_level :: log_level
  pl_target :: "string option"
  pl_message :: string
  pl_fields :: "log_field list"

record pending =
  pe_frame :: log_frame
  pe_continuations :: nat

definition MAX_CONTINUATION_LINES :: nat where "MAX_CONTINUATION_LINES = 16"
definition MAX_LOG_TEXT_BYTES :: nat where "MAX_LOG_TEXT_BYTES = 16 * 1024"
definition MAX_LOG_TARGET_BYTES :: nat where "MAX_LOG_TARGET_BYTES = 2048"
definition MAX_LOG_TIMESTAMP_RAW_BYTES :: nat where "MAX_LOG_TIMESTAMP_RAW_BYTES = 256"
definition MAX_LOG_FIELDS :: nat where "MAX_LOG_FIELDS = 64"
definition MAX_LOG_FIELD_TEXT_BYTES :: nat where "MAX_LOG_FIELD_TEXT_BYTES = 1024"

definition pending_append :: "string \<Rightarrow> pending \<Rightarrow> pending" where
  "pending_append line p =
     (if pe_continuations p = MAX_CONTINUATION_LINES
      then p\<lparr>pe_frame := (pe_frame p)\<lparr>fr_truncated := True\<rparr>\<rparr>
      else let (raw, cut_raw) = append_bounded (fr_raw (pe_frame p)) line MAX_LOG_TEXT_BYTES;
               (message, cut_message) = append_bounded (fr_message (pe_frame p)) line MAX_LOG_TEXT_BYTES;
               frame = (pe_frame p)\<lparr>fr_raw := raw, fr_message := message\<rparr>
           in if cut_raw \<or> cut_message
              then p\<lparr>pe_frame := frame\<lparr>fr_truncated := True\<rparr>, pe_continuations := MAX_CONTINUATION_LINES\<rparr>
              else p\<lparr>pe_frame := frame, pe_continuations := pe_continuations p + 1\<rparr>)"

definition bound_field :: "log_field \<Rightarrow> log_field \<times> bool" where
  "bound_field field =
     (let (key, cut_key) = truncate_text (lf_key field) MAX_LOG_FIELD_TEXT_BYTES;
          (value, cut_value) = truncate_text (lf_value field) MAX_LOG_FIELD_TEXT_BYTES
      in (\<lparr>lf_key = key, lf_value = value\<rparr>, cut_key \<or> cut_value))"

definition bound_frame :: "log_frame \<Rightarrow> log_frame" where
  "bound_frame frame =
     (let (message, cut_message) = truncate_text (fr_message frame) MAX_LOG_TEXT_BYTES;
          (raw, cut_raw) = truncate_text (fr_raw frame) MAX_LOG_TEXT_BYTES;
          (target, cut_target) = (case fr_target frame of
              None \<Rightarrow> (None, False)
            | Some t \<Rightarrow> map_prod Some id (truncate_text t MAX_LOG_TARGET_BYTES));
          (timestamp, cut_timestamp) = (case fr_timestamp frame of
              None \<Rightarrow> (None, False)
            | Some t \<Rightarrow> map_prod (\<lambda>raw. Some (t\<lparr>lt_raw := raw\<rparr>)) id
                (truncate_text (lt_raw t) MAX_LOG_TIMESTAMP_RAW_BYTES));
          kept = take MAX_LOG_FIELDS (fr_fields frame);
          cut_count = (MAX_LOG_FIELDS < length (fr_fields frame));
          bounded = map bound_field kept
      in frame\<lparr>fr_message := message, fr_raw := raw, fr_target := target, fr_timestamp := timestamp,
           fr_fields := map fst bounded,
           fr_truncated := fr_truncated frame \<or> cut_message \<or> cut_raw \<or> cut_target \<or> cut_timestamp
             \<or> cut_count \<or> list_ex snd bounded\<rparr>)"

section \<open>Headers\<close>

record chrono =
  ch_rfc3339_ms :: "string \<Rightarrow> int option"
  ch_parse_hms :: "string \<Rightarrow> int option"
  ch_ymd :: "int \<Rightarrow> u32 \<Rightarrow> u32 \<Rightarrow> int option"
  ch_hms_nano :: "u32 \<Rightarrow> u32 \<Rightarrow> u32 \<Rightarrow> u32 \<Rightarrow> int option"
  ch_succ :: "int \<Rightarrow> int option"
  ch_pred :: "int \<Rightarrow> int option"
  ch_since :: "int \<Rightarrow> int \<Rightarrow> int"
  ch_local_ms :: "int \<Rightarrow> int \<Rightarrow> int \<Rightarrow> int option"

record instant =
  ob_ms :: int
  ob_date :: int
  ob_time :: int
  ob_offset :: int

definition half_day :: int where
  "half_day = 12 * 3600 * 1000000000"

definition parse_level :: "string \<Rightarrow> log_level option" where
  "parse_level level =
     (if level \<in> {''trace'', ''TRC'', ''TRACE''} then Some LTrace
      else if level \<in> {''debug'', ''DBG'', ''DEBUG''} then Some LDebug
      else if level \<in> {''info'', ''INF'', ''INFO''} then Some LInfo
      else if level \<in> {''warn'', ''warning'', ''WRN'', ''WARN''} then Some LWarning
      else if level \<in> {''error'', ''ERR'', ''ERROR''} then Some LError
      else if level \<in> {''fatal'', ''panic'', ''FTL'', ''PNC''} then Some LFatal
      else if level = ''???'' then Some LInfo
      else None)"

definition local_unix_ms :: "chrono \<Rightarrow> int \<Rightarrow> int \<Rightarrow> int \<Rightarrow> int option" where
  "local_unix_ms ch date time offset = ch_local_ms ch date time offset"

definition parse_rfc3339_ms :: "chrono \<Rightarrow> string \<Rightarrow> int option" where
  "parse_rfc3339_ms ch raw = ch_rfc3339_ms ch raw"

fun mihomo_fields ::
  "(string \<times> string) list \<Rightarrow> string option \<Rightarrow> log_level option \<Rightarrow> string option \<Rightarrow> log_field list
   \<Rightarrow> string option \<times> log_level option \<times> string option \<times> log_field list" where
  "mihomo_fields [] time level msg others = (time, level, msg, others)"
| "mihomo_fields ((key, value) # rest) time level msg others =
     (if key = ''time'' then mihomo_fields rest (Some value) level msg others
      else if key = ''level'' then mihomo_fields rest time (parse_level value) msg others
      else if key = ''msg'' then mihomo_fields rest time level (Some value) others
      else mihomo_fields rest time level msg (others @ [\<lparr>lf_key = key, lf_value = value\<rparr>]))"

definition parse_mihomo :: "chrono \<Rightarrow> string \<Rightarrow> parsed_line option" where
  "parse_mihomo ch line = Option.bind (scan_logfmt line) (\<lambda>pairs.
     case mihomo_fields pairs None None None [] of
       (Some raw_time, Some level, Some message, others) \<Rightarrow>
         Some \<lparr>pl_timestamp = Some \<lparr>lt_raw = raw_time, lt_unix_ms = parse_rfc3339_ms ch raw_time, lt_inferred = False\<rparr>,
           pl_level = level, pl_target = None, pl_message = message, pl_fields = others\<rparr>
     | _ \<Rightarrow> None)"

definition parse_meow :: "chrono \<Rightarrow> string \<Rightarrow> parsed_line option" where
  "parse_meow ch line =
     Option.bind (take_token line) (\<lambda>(raw_time, rest).
     Option.bind (take_token rest) (\<lambda>(level, rest).
     Option.bind (parse_level level) (\<lambda>level.
     Option.bind (split_once '': '' rest) (\<lambda>(target, message).
     if target = [] then None
     else Some \<lparr>pl_timestamp = Some \<lparr>lt_raw = raw_time, lt_unix_ms = parse_rfc3339_ms ch raw_time, lt_inferred = False\<rparr>,
       pl_level = level, pl_target = Some target, pl_message = message, pl_fields = []\<rparr>))))"

definition clash_rs_number :: "string \<Rightarrow> nat \<Rightarrow> nat \<Rightarrow> u32 option" where
  "clash_rs_number raw i j = Option.bind (str_get raw i j) parse_u32"

definition clash_rs_nanos :: "string \<Rightarrow> u32 option" where
  "clash_rs_nanos raw =
     Option.bind (str_get raw 18 (length raw)) (\<lambda>subsecond.
     map_option (\<lambda>n. n * 10 ^ (9 - length subsecond)) (parse_u32 subsecond))"

definition clash_rs_unix_ms :: "chrono \<Rightarrow> string \<Rightarrow> int \<Rightarrow> int option" where
  "clash_rs_unix_ms ch raw offset =
     Option.bind (clash_rs_nanos raw) (\<lambda>nanos.
     Option.bind (clash_rs_number raw 0 2) (\<lambda>year.
     Option.bind (clash_rs_number raw 3 5) (\<lambda>month.
     Option.bind (clash_rs_number raw 6 8) (\<lambda>day.
     Option.bind (ch_ymd ch (2000 + int (unat year)) month day) (\<lambda>date.
     Option.bind (clash_rs_number raw 9 11) (\<lambda>hour.
     Option.bind (clash_rs_number raw 12 14) (\<lambda>minute.
     Option.bind (clash_rs_number raw 15 17) (\<lambda>second.
     Option.bind (ch_hms_nano ch hour minute second nanos) (\<lambda>time.
     local_unix_ms ch date time offset)))))))))"

definition parse_clash_rs :: "chrono \<Rightarrow> string \<Rightarrow> instant \<Rightarrow> parsed_line option option" where
  "parse_clash_rs ch line observed_at =
     (case Option.bind (clash_rs_timestamp_end line) (\<lambda>n.
         Option.bind (str_get line 0 n) (\<lambda>raw_time.
         Option.bind (str_get line n (length line)) (\<lambda>rest.
         Option.bind (take_token rest) (\<lambda>(level, rest).
         map_option (\<lambda>level. (raw_time, level, rest)) (parse_level level))))) of
        None \<Rightarrow> Some None
      | Some (raw_time, level, rest) \<Rightarrow>
          map_option (map_option (\<lambda>(target, message).
            \<lparr>pl_timestamp = Some \<lparr>lt_raw = raw_time,
                lt_unix_ms = clash_rs_unix_ms ch raw_time (ob_offset observed_at), lt_inferred = True\<rparr>,
              pl_level = level, pl_target = Some target, pl_message = message, pl_fields = []\<rparr>))
            (clash_rs_source rest))"

text \<open>The clock is left as it was when the calendar has no such day.\<close>

definition premium_unix_ms ::
  "chrono \<Rightarrow> int \<Rightarrow> instant \<Rightarrow> (int \<times> int) option \<Rightarrow> int option \<times> (int \<times> int) option" where
  "premium_unix_ms ch time observed_at clock =
     (case (case clock of
         Some (date, previous) \<Rightarrow> if half_day < ch_since ch previous time then ch_succ ch date else Some date
       | None \<Rightarrow> if half_day < ch_since ch time (ob_time observed_at)
           then ch_pred ch (ob_date observed_at) else Some (ob_date observed_at)) of
        None \<Rightarrow> (None, clock)
      | Some date \<Rightarrow> (local_unix_ms ch date time (ob_offset observed_at), Some (date, time)))"

definition parse_premium ::
  "chrono \<Rightarrow> string \<Rightarrow> instant \<Rightarrow> (int \<times> int) option \<Rightarrow> parsed_line option \<times> (int \<times> int) option" where
  "parse_premium ch line observed_at clock =
     (if byte_at line 8 \<noteq> Some CHR '' '' \<or> byte_at line 12 \<noteq> Some CHR '' '' then (None, clock)
      else case Option.bind (str_get line 0 8) (\<lambda>raw_time.
          Option.bind (ch_parse_hms ch raw_time) (\<lambda>time.
          Option.bind (str_get line 9 12) (\<lambda>level.
          Option.bind (parse_level level) (\<lambda>level.
          map_option (\<lambda>body. (raw_time, time, level, body)) (str_get line 13 (length line)))))) of
        None \<Rightarrow> (None, clock)
      | Some (raw_time, time, level, body) \<Rightarrow>
          let (target, message) = premium_target body;
              (unix_ms, clock) = premium_unix_ms ch time observed_at clock
          in (Some \<lparr>pl_timestamp = Some \<lparr>lt_raw = raw_time, lt_unix_ms = unix_ms, lt_inferred = True\<rparr>,
               pl_level = level, pl_target = target, pl_message = message, pl_fields = []\<rparr>, clock))"

section \<open>The parser\<close>

record log_parser =
  lp_kind :: core_kind
  lp_epoch :: u64
  lp_clock :: "(int \<times> int) option"
  lp_pending :: "log_stream \<Rightarrow> pending option"
  lp_newest :: "log_stream option"

type_synonym parsed_frames = "log_frame option \<times> log_frame option"

definition log_parser_new :: "core_kind \<Rightarrow> u64 \<Rightarrow> log_parser" where
  "log_parser_new kind epoch = \<lparr>lp_kind = kind, lp_epoch = epoch, lp_clock = None,
     lp_pending = (\<lambda>_. None), lp_newest = None\<rparr>"

definition parse_header ::
  "chrono \<Rightarrow> string \<Rightarrow> instant \<Rightarrow> log_parser \<Rightarrow> (parsed_line option \<times> log_parser) option" where
  "parse_header ch line observed_at p = (case lp_kind p of
       Mihomo \<Rightarrow> Some (parse_mihomo ch line, p)
     | Meow \<Rightarrow> Some (parse_meow ch line, p)
     | ClashPremium \<Rightarrow> (let (parsed, clock) = parse_premium ch line observed_at (lp_clock p)
         in Some (parsed, p\<lparr>lp_clock := clock\<rparr>))
     | _ \<Rightarrow> map_option (\<lambda>parsed. (parsed, p)) (parse_clash_rs ch line observed_at))"

definition emit :: "log_stream \<Rightarrow> log_frame \<Rightarrow> bool \<Rightarrow> log_parser \<Rightarrow> parsed_frames \<times> log_parser" where
  "emit stream frame hold p =
     (let flushed = map_option pe_frame (lp_pending p stream) in
      if hold then ((flushed, None), p\<lparr>lp_newest := Some stream,
          lp_pending := (lp_pending p)(stream := Some \<lparr>pe_frame = frame, pe_continuations = 0\<rparr>)\<rparr>)
      else ((flushed, Some frame), p\<lparr>lp_pending := (lp_pending p)(stream := None)\<rparr>))"

definition root_level :: "bool \<Rightarrow> bool \<Rightarrow> log_stream \<Rightarrow> log_level" where
  "root_level error_root warning_root stream =
     (if error_root then LError else if warning_root then LWarning
      else case stream of Stdout \<Rightarrow> LInfo | Stderr \<Rightarrow> LWarning)"

definition push_at ::
  "chrono \<Rightarrow> log_stream \<Rightarrow> string \<Rightarrow> instant \<Rightarrow> log_parser \<Rightarrow> (parsed_frames \<times> log_parser) option" where
  "push_at ch stream line observed_at p =
     Option.bind (strip_ansi line) (\<lambda>line.
     Option.bind (parse_header ch line observed_at p) (\<lambda>(parsed, p). case parsed of
       Some parsed \<Rightarrow>
         let frame = bound_frame \<lparr>fr_at = ob_ms observed_at, fr_epoch = lp_epoch p, fr_kind = lp_kind p,
               fr_stream = stream, fr_level = pl_level parsed, fr_timestamp = pl_timestamp parsed,
               fr_target = pl_target parsed, fr_message = pl_message parsed, fr_fields = pl_fields parsed,
               fr_raw = line, fr_truncated = False\<rparr>
         in Some (emit stream frame (LError \<le> pl_level parsed) p)
     | None \<Rightarrow>
         let error_root = starts_with ''Error:'' line; warning_root = starts_with ''warning:'' line in
         case (if \<not> error_root \<and> \<not> warning_root then lp_pending p stream else None) of
           Some pending \<Rightarrow>
             Some ((None, None), p\<lparr>lp_pending := (lp_pending p)(stream := Some (pending_append line pending))\<rparr>)
         | None \<Rightarrow>
             let frame = bound_frame \<lparr>fr_at = ob_ms observed_at, fr_epoch = lp_epoch p, fr_kind = lp_kind p,
                   fr_stream = stream, fr_level = root_level error_root warning_root stream,
                   fr_timestamp = None, fr_target = None, fr_message = line, fr_fields = [],
                   fr_raw = line, fr_truncated = False\<rparr>
             in Some (emit stream frame (error_root \<and> stream = Stderr) p)))"

definition finish :: "log_parser \<Rightarrow> parsed_frames \<times> log_parser" where
  "finish p =
     (let stdout = map_option pe_frame (lp_pending p Stdout); stderr = map_option pe_frame (lp_pending p Stderr)
      in ((if lp_newest p = Some Stdout then (stderr, stdout) else (stdout, stderr)),
          p\<lparr>lp_pending := (\<lambda>_. None), lp_newest := None\<rparr>))"

section \<open>Summaries\<close>

definition error_summary :: "log_frame list \<Rightarrow> string option" where
  "error_summary frames =
     (case filter (\<lambda>level. LWarning \<le> level) (map fr_level frames) of
        [] \<Rightarrow> None
      | l # ls \<Rightarrow> map_option fr_message (find (\<lambda>frame. fr_level frame = foldl max l ls) (rev frames)))"

definition format_tail :: "log_frame list \<Rightarrow> string" where
  "format_tail frames = join_with [CHR 0x0A] (map fr_raw frames)"

record captured_output =
  out_stdout :: string
  out_stderr :: string

definition frames_of :: "parsed_frames \<Rightarrow> log_frame list" where
  "frames_of fs = (case fst fs of Some f \<Rightarrow> [f] | None \<Rightarrow> []) @ (case snd fs of Some f \<Rightarrow> [f] | None \<Rightarrow> [])"

text \<open>The loop that feeds lines: what is emitted, in order, and the parser it leaves.\<close>

fun feed ::
  "chrono \<Rightarrow> (log_stream \<times> string \<times> instant) list \<Rightarrow> log_parser \<Rightarrow> (log_frame list \<times> log_parser) option" where
  "feed ch [] p = Some ([], p)"
| "feed ch ((stream, line, at) # rest) p =
     Option.bind (push_at ch stream line at p) (\<lambda>(fs, p).
     map_option (\<lambda>(more, p). (frames_of fs @ more, p)) (feed ch rest p))"

definition verbatim_output :: "captured_output \<Rightarrow> string" where
  "verbatim_output output =
     (let content = join_with [CHR 0x0A] (filter (\<lambda>t. t \<noteq> []) [trim (out_stdout output), trim (out_stderr output)])
      in if content = [] then ''core reported no output'' else content)"

definition summarize_output ::
  "chrono \<Rightarrow> (nat \<Rightarrow> instant) \<Rightarrow> core_kind \<Rightarrow> captured_output \<Rightarrow> string option" where
  "summarize_output ch now kind output =
     (let lines = map (Pair Stdout) (str_lines (out_stdout output)) @ map (Pair Stderr) (str_lines (out_stderr output));
          timed = map (\<lambda>(i, stream, line). (stream, line, now i)) (zip [0..<length lines] lines)
      in map_option (\<lambda>(frames, p). case error_summary (frames @ frames_of (fst (finish p))) of
           Some summary \<Rightarrow> summary
         | None \<Rightarrow> verbatim_output output) (feed ch timed (log_parser_new kind 0)))"

section \<open>Caps\<close>

lemma truncate_text_length: "length (fst (truncate_text s n)) \<le> n"
  using floor_boundary_le [of s n] by (simp add: truncate_text_def min.coboundedI2)

lemma truncate_text_uncut: "\<not> snd (truncate_text s n) \<Longrightarrow> fst (truncate_text s n) = s"
  by (simp add: truncate_text_def split: if_splits)

lemma append_bounded_length:
  "length s \<le> n \<Longrightarrow> length (fst (append_bounded s line n)) \<le> n"
  using floor_boundary_le [of line "min (n - length s - 1) (length line)"]
  by (auto simp: append_bounded_def Let_def)

lemma append_bounded_uncut:
  "\<not> snd (append_bounded s line n) \<Longrightarrow> fst (append_bounded s line n) = s @ CHR 0x0A # line"
  by (auto simp: append_bounded_def Let_def split: if_splits)

definition frame_bounded :: "log_frame \<Rightarrow> bool" where
  "frame_bounded f \<longleftrightarrow> length (fr_message f) \<le> MAX_LOG_TEXT_BYTES \<and> length (fr_raw f) \<le> MAX_LOG_TEXT_BYTES
     \<and> (case fr_target f of None \<Rightarrow> True | Some t \<Rightarrow> length t \<le> MAX_LOG_TARGET_BYTES)
     \<and> (case fr_timestamp f of None \<Rightarrow> True | Some t \<Rightarrow> length (lt_raw t) \<le> MAX_LOG_TIMESTAMP_RAW_BYTES)
     \<and> length (fr_fields f) \<le> MAX_LOG_FIELDS
     \<and> list_all (\<lambda>x. length (lf_key x) \<le> MAX_LOG_FIELD_TEXT_BYTES
          \<and> length (lf_value x) \<le> MAX_LOG_FIELD_TEXT_BYTES) (fr_fields f)"

lemma bound_field_bounded:
  "length (lf_key (fst (bound_field x))) \<le> MAX_LOG_FIELD_TEXT_BYTES"
  "length (lf_value (fst (bound_field x))) \<le> MAX_LOG_FIELD_TEXT_BYTES"
  by (simp_all add: bound_field_def case_prod_beta truncate_text_length)

lemma bound_frame_bounded: "frame_bounded (bound_frame f)"
  by (auto simp: frame_bounded_def bound_frame_def Let_def case_prod_beta truncate_text_length
      bound_field_bounded list_all_iff split: option.split)

lemma bound_frame_uncut:
  "\<not> fr_truncated (bound_frame f) \<Longrightarrow> fr_raw (bound_frame f) = fr_raw f"
  by (simp add: bound_frame_def Let_def case_prod_beta truncate_text_uncut)

lemma bound_frame_stream [simp]: "fr_stream (bound_frame f) = fr_stream f"
  by (simp add: bound_frame_def Let_def case_prod_beta)

lemma pending_append_bounded:
  "frame_bounded (pe_frame p) \<Longrightarrow> frame_bounded (pe_frame (pending_append line p))"
  by (simp add: pending_append_def Let_def case_prod_beta frame_bounded_def append_bounded_length)

lemma pending_append_stream [simp]: "fr_stream (pe_frame (pending_append line p)) = fr_stream (pe_frame p)"
  by (simp add: pending_append_def Let_def case_prod_beta)

lemma pending_append_uncut:
  assumes "\<not> fr_truncated (pe_frame (pending_append line p))"
  shows "fr_raw (pe_frame (pending_append line p)) = fr_raw (pe_frame p) @ CHR 0x0A # line"
    and "\<not> fr_truncated (pe_frame p)"
  using assms
  by (simp_all add: pending_append_def Let_def case_prod_beta append_bounded_uncut split: if_splits)

section \<open>One line at a time\<close>

definition held :: "log_stream \<Rightarrow> log_parser \<Rightarrow> log_frame list" where
  "held st p = (case lp_pending p st of None \<Rightarrow> [] | Some pe \<Rightarrow> [pe_frame pe])"

definition on_stream :: "log_stream \<Rightarrow> log_frame list \<Rightarrow> log_frame list" where
  "on_stream st fs = filter (\<lambda>f. fr_stream f = st) fs"

definition parser_inv :: "log_parser \<Rightarrow> bool" where
  "parser_inv p \<longleftrightarrow> (\<forall>st. list_all (\<lambda>f. frame_bounded f \<and> fr_stream f = st) (held st p))"

text \<open>A push either opens a record with the line or appends the line to the record that is held.\<close>

definition opens :: "log_stream \<Rightarrow> string \<Rightarrow> log_parser \<Rightarrow> log_frame list \<Rightarrow> log_parser \<Rightarrow> bool" where
  "opens st line p fs q \<longleftrightarrow> (\<exists>f. frame_bounded f \<and> fr_stream f = st \<and> (\<not> fr_truncated f \<longrightarrow> fr_raw f = line)
     \<and> fs @ held st q = held st p @ [f] \<and> set fs \<subseteq> insert f (set (held st p)))"

definition continues :: "log_stream \<Rightarrow> string \<Rightarrow> log_parser \<Rightarrow> log_frame list \<Rightarrow> log_parser \<Rightarrow> bool" where
  "continues st line p fs q \<longleftrightarrow> fs = [] \<and> (\<exists>pe. lp_pending p st = Some pe
     \<and> lp_pending q st = Some (pending_append line pe))"

lemma emit_opens:
  assumes "emit st f hold p = (fs, q)" "frame_bounded f" "fr_stream f = st" "\<not> fr_truncated f \<longrightarrow> fr_raw f = line"
  shows "opens st line p (frames_of fs) q" and "\<forall>st'. st' \<noteq> st \<longrightarrow> lp_pending q st' = lp_pending p st'"
proof -
  show "opens st line p (frames_of fs) q"
    unfolding opens_def
    using assms by (intro exI [of _ f]; cases "lp_pending p st"; cases hold)
      (auto simp: emit_def held_def frames_of_def Let_def)
  show "\<forall>st'. st' \<noteq> st \<longrightarrow> lp_pending q st' = lp_pending p st'"
    using assms(1) by (auto simp: emit_def Let_def split: if_splits)
qed

lemma parse_header_pending:
  "parse_header ch line at p = Some (parsed, q) \<Longrightarrow> lp_pending q = lp_pending p"
  by (auto simp: parse_header_def case_prod_beta Let_def split: core_kind.splits)

lemma opens_pending_cong: "lp_pending p = lp_pending p' \<Longrightarrow> opens st line p fs q = opens st line p' fs q"
  by (simp add: opens_def held_def)

lemma push_at_step:
  assumes "push_at ch st line at p = Some (fs, q)"
  obtains out where "strip_ansi line = Some out"
    "opens st out p (frames_of fs) q \<or> continues st out p (frames_of fs) q"
    "\<forall>st'. st' \<noteq> st \<longrightarrow> lp_pending q st' = lp_pending p st'"
proof -
  from assms obtain out parsed p' where out: "strip_ansi line = Some out"
    and header: "parse_header ch out at p = Some (parsed, p')"
    and push: "push_at ch st line at p = Some (fs, q)"
    by (auto simp: push_at_def bind_eq_Some_conv)
  have same: "lp_pending p' = lp_pending p" by (rule parse_header_pending [OF header])
  consider (emits) f hold where "emit st (bound_frame f) hold p' = (fs, q)" "fr_stream f = st" "fr_raw f = out"
    | (appends) pe where "lp_pending p' st = Some pe" "fs = (None, None)"
        "q = p'\<lparr>lp_pending := (lp_pending p')(st := Some (pending_append out pe))\<rparr>"
    using assms out header
    by (auto simp: push_at_def Let_def split: option.splits if_splits)
  then show thesis
  proof cases
    case emits
    then have "opens st out p' (frames_of fs) q" "\<forall>st'. st' \<noteq> st \<longrightarrow> lp_pending q st' = lp_pending p' st'"
      using emit_opens [OF emits(1) bound_frame_bounded, of out] bound_frame_uncut [of f] by auto
    then show thesis using that [OF out] same opens_pending_cong [OF same] by simp
  next
    case appends
    then show thesis
      using that [OF out] same by (simp add: continues_def frames_of_def)
  qed
qed

lemma push_at_inv:
  assumes "push_at ch st line at p = Some (fs, q)" "parser_inv p"
  shows "parser_inv q \<and> list_all frame_bounded (frames_of fs)"
proof -
  obtain out where step: "opens st out p (frames_of fs) q \<or> continues st out p (frames_of fs) q"
    and other: "\<forall>st'. st' \<noteq> st \<longrightarrow> lp_pending q st' = lp_pending p st'"
    by (rule push_at_step [OF assms(1)]) blast
  have ok: "list_all (\<lambda>f. frame_bounded f \<and> fr_stream f = st) (held st p)"
    using assms(2) by (simp add: parser_inv_def)
  have "list_all (\<lambda>f. frame_bounded f \<and> fr_stream f = st) (frames_of fs @ held st q)"
    using step
  proof
    assume "opens st out p (frames_of fs) q"
    then obtain f where "frame_bounded f" "fr_stream f = st" "frames_of fs @ held st q = held st p @ [f]"
      by (auto simp: opens_def)
    with ok show ?thesis by simp
  next
    assume "continues st out p (frames_of fs) q"
    with ok show ?thesis by (auto simp: continues_def held_def pending_append_bounded)
  qed
  moreover have "held st' q = held st' p" if "st' \<noteq> st" for st'
    using other that by (simp add: held_def)
  ultimately show ?thesis
    using assms(2) unfolding parser_inv_def by (metis (mono_tags, lifting) list_all_append list.pred_mono_strong)
qed

lemma feed_inv:
  "feed ch inputs p = Some (fs, q) \<Longrightarrow> parser_inv p \<Longrightarrow> parser_inv q \<and> list_all frame_bounded fs"
proof (induction inputs arbitrary: p fs)
  case (Cons input inputs)
  obtain st line at where "input = (st, line, at)" by (cases input)
  with Cons.prems(1) obtain gs p' hs where push: "push_at ch st line at p = Some (gs, p')"
    and rest: "feed ch inputs p' = Some (hs, q)" "fs = frames_of gs @ hs"
    by (auto simp: bind_eq_Some_conv)
  from push_at_inv [OF push Cons.prems(2)] Cons.IH [OF rest(1)] rest(2) show ?case by simp
qed auto

lemma parser_inv_new [simp]: "parser_inv (log_parser_new kind epoch)"
  by (simp add: parser_inv_def held_def log_parser_new_def)

lemma set_finish: "set (frames_of (fst (finish p))) = set (held Stdout p) \<union> set (held Stderr p)"
  by (cases "lp_pending p Stdout"; cases "lp_pending p Stderr")
     (simp_all add: finish_def frames_of_def held_def Let_def insert_commute)

text \<open>C17. Whatever a core prints, every frame the parser ever emits, those released at the end included,
  respects all the caps: 16 KiB of message and of raw text, 2 KiB of target, 64 fields of 1 KiB each,
  256 bytes of timestamp.\<close>

theorem parser_frames_bounded:
  "case feed ch inputs (log_parser_new kind epoch) of
     None \<Rightarrow> True
   | Some (fs, p) \<Rightarrow> list_all frame_bounded (fs @ frames_of (fst (finish p)))"
proof (cases "feed ch inputs (log_parser_new kind epoch)")
  case (Some r)
  obtain fs p where r: "r = (fs, p)" by (cases r)
  with Some have "parser_inv p" "list_all frame_bounded fs" using feed_inv [of ch inputs] by auto
  then have "list_all frame_bounded (frames_of (fst (finish p)))"
    by (auto simp: list_all_iff set_finish parser_inv_def)
  with Some r \<open>list_all frame_bounded fs\<close> show ?thesis by simp
qed simp

section \<open>No line is lost\<close>

abbreviation newline :: string where
  "newline \<equiv> [CHR 0x0A]"

definition raw_text :: "log_frame list \<Rightarrow> string" where
  "raw_text fs = concat (map (\<lambda>f. fr_raw f @ newline) fs)"

definition plain_lines :: "log_stream \<Rightarrow> (log_stream \<times> string \<times> instant) list \<Rightarrow> string" where
  "plain_lines st inputs = concat (map (\<lambda>(_, line, _). the (strip_ansi line) @ newline)
     (filter (\<lambda>(st', _). st' = st) inputs))"

lemma raw_text_append [simp]: "raw_text (xs @ ys) = raw_text xs @ raw_text ys"
  by (simp add: raw_text_def)

lemma on_stream_append [simp]: "on_stream st (xs @ ys) = on_stream st xs @ on_stream st ys"
  by (simp add: on_stream_def)

lemma held_on_stream: "parser_inv p \<Longrightarrow> on_stream st (held st p) = held st p"
  by (auto simp: parser_inv_def on_stream_def list_all_iff filter_id_conv)

lemma on_stream_push:
  assumes "push_at ch st line at p = Some (fs, q)" "parser_inv p"
  shows "on_stream st' (frames_of fs) = (if st' = st then frames_of fs else [])"
proof -
  obtain out where "opens st out p (frames_of fs) q \<or> continues st out p (frames_of fs) q"
    by (rule push_at_step [OF assms(1)]) blast
  then have "\<forall>f \<in> set (frames_of fs). fr_stream f = st"
    using assms(2) by (auto simp: opens_def continues_def parser_inv_def list_all_iff)
  then show ?thesis by (auto simp: on_stream_def filter_empty_conv filter_id_conv)
qed

text \<open>What one push does to the text of a stream, as far as nothing was cut.\<close>

lemma push_at_text:
  fixes st' :: log_stream
  assumes push: "push_at ch st line at p = Some (fs, q)" and inv: "parser_inv p"
  defines "u \<equiv> on_stream st' (frames_of fs)"
  shows "list_ex fr_truncated (held st' p) \<Longrightarrow> list_ex fr_truncated (u @ held st' q)"
    and "\<not> list_ex fr_truncated (u @ held st' q) \<Longrightarrow>
      raw_text (u @ held st' q) = raw_text (held st' p) @ plain_lines st' [(st, line, at)]"
proof -
  obtain out where out: "strip_ansi line = Some out"
    and step: "opens st out p (frames_of fs) q \<or> continues st out p (frames_of fs) q"
    and other: "\<forall>st'. st' \<noteq> st \<longrightarrow> lp_pending q st' = lp_pending p st'"
    by (rule push_at_step [OF push]) blast
  have u: "u = (if st' = st then frames_of fs else [])"
    unfolding u_def by (rule on_stream_push [OF push inv])
  show "list_ex fr_truncated (held st' p) \<Longrightarrow> list_ex fr_truncated (u @ held st' q)"
  proof (cases "st' = st")
    case True
    assume cut: "list_ex fr_truncated (held st' p)"
    from step show ?thesis
    proof
      assume "opens st out p (frames_of fs) q"
      then obtain f where "frames_of fs @ held st q = held st p @ [f]" by (auto simp: opens_def)
      with cut True u show ?thesis by (metis list_ex_append)
    next
      assume "continues st out p (frames_of fs) q"
      with cut True u show ?thesis
        using pending_append_uncut(2) by (fastforce simp: continues_def held_def)
    qed
  qed (use u other in \<open>simp add: held_def\<close>)
  show "\<not> list_ex fr_truncated (u @ held st' q) \<Longrightarrow>
      raw_text (u @ held st' q) = raw_text (held st' p) @ plain_lines st' [(st, line, at)]"
  proof (cases "st' = st")
    case True
    assume uncut: "\<not> list_ex fr_truncated (u @ held st' q)"
    from step show ?thesis
    proof
      assume "opens st out p (frames_of fs) q"
      then obtain f where f: "frames_of fs @ held st q = held st p @ [f]" "\<not> fr_truncated f \<longrightarrow> fr_raw f = out"
        by (auto simp: opens_def)
      then have "\<not> fr_truncated f" using uncut True u by (auto simp: list_ex_iff)
      with f True u out show ?thesis by (simp add: plain_lines_def raw_text_def)
    next
      assume "continues st out p (frames_of fs) q"
      then obtain pe where pe: "frames_of fs = []" "lp_pending p st = Some pe"
        "lp_pending q st = Some (pending_append out pe)" by (auto simp: continues_def)
      with uncut True u have "\<not> fr_truncated (pe_frame (pending_append out pe))" by (simp add: held_def)
      with pe True u out show ?thesis
        by (simp add: held_def plain_lines_def raw_text_def pending_append_uncut(1))
    qed
  qed (use u other in \<open>simp add: held_def plain_lines_def\<close>)
qed

lemma plain_lines_Cons: "plain_lines st (x # xs) = plain_lines st [x] @ plain_lines st xs"
  by (simp add: plain_lines_def)

lemma feed_text:
  assumes "feed ch inputs p = Some (fs, q)" "parser_inv p"
  shows "(list_ex fr_truncated (held st p) \<longrightarrow> list_ex fr_truncated (on_stream st fs @ held st q))
    \<and> (\<not> list_ex fr_truncated (on_stream st fs @ held st q) \<longrightarrow>
      raw_text (on_stream st fs @ held st q) = raw_text (held st p) @ plain_lines st inputs)"
  using assms
proof (induction inputs arbitrary: p fs)
  case (Cons input inputs)
  obtain st' line at where input: "input = (st', line, at)" by (cases input)
  with Cons.prems obtain gs p' hs where push: "push_at ch st' line at p = Some (gs, p')"
    and rest: "feed ch inputs p' = Some (hs, q)" "fs = frames_of gs @ hs" and inv: "parser_inv p"
    by (auto simp: bind_eq_Some_conv)
  have inv': "parser_inv p'" using push_at_inv [OF push inv] ..
  note step = push_at_text [OF push inv, of st] and more = Cons.IH [OF rest(1) inv']
  have "raw_text (on_stream st fs @ held st q) = raw_text (held st p) @ plain_lines st (input # inputs)"
    if "\<not> list_ex fr_truncated (on_stream st fs @ held st q)"
  proof -
    from that have cut: "\<not> list_ex fr_truncated (on_stream st (frames_of gs))"
      "\<not> list_ex fr_truncated (on_stream st hs @ held st q)" using rest(2) by auto
    with more have "\<not> list_ex fr_truncated (on_stream st (frames_of gs) @ held st p')" by auto
    from step(2) [OF this] more cut(2) show ?thesis
      using rest(2) input plain_lines_Cons [of st input inputs] by (metis append.assoc raw_text_append on_stream_append)
  qed
  moreover have "list_ex fr_truncated (held st p) \<longrightarrow> list_ex fr_truncated (on_stream st fs @ held st q)"
    using step(1) more rest(2) by auto
  ultimately show ?case by blast
qed (simp add: on_stream_def plain_lines_def)

lemma on_stream_finish:
  assumes "parser_inv p"
  shows "on_stream st (frames_of (fst (finish p))) = held st p"
proof -
  have "list_all (\<lambda>f. fr_stream f = Stdout) (held Stdout p)" "list_all (\<lambda>f. fr_stream f = Stderr) (held Stderr p)"
    using assms by (auto simp: parser_inv_def list_all_iff)
  then show ?thesis
    by (cases st; cases "lp_pending p Stdout"; cases "lp_pending p Stderr")
       (auto simp: finish_def frames_of_def held_def on_stream_def Let_def)
qed

text \<open>C16. Normalization loses nothing: unless a frame says it was truncated, the raw texts of the frames
  of a stream, in the order they were emitted and with the records released at the end, are exactly
  the lines the core printed on that stream with their escapes removed. Records of the other stream
  never mix in.\<close>

theorem parser_conserves_lines:
  "case feed ch inputs (log_parser_new kind epoch) of
     None \<Rightarrow> True
   | Some (fs, p) \<Rightarrow> let all = on_stream st (fs @ frames_of (fst (finish p))) in
       if list_ex fr_truncated all then True else raw_text all = plain_lines st inputs"
proof (cases "feed ch inputs (log_parser_new kind epoch)")
  case (Some r)
  obtain fs p where r: "r = (fs, p)" by (cases r)
  with Some have p: "feed ch inputs (log_parser_new kind epoch) = Some (fs, p)" "parser_inv p"
    using feed_inv [of ch inputs] by auto
  have "held st (log_parser_new kind epoch) = []" by (simp add: held_def log_parser_new_def)
  with feed_text [OF p(1) parser_inv_new, of st] Some r p(2) show ?thesis
    by (simp add: on_stream_finish Let_def raw_text_def)
qed simp

section \<open>The worst recent record\<close>

lemma find_rev_last:
  "\<forall>y \<in> set ys. \<not> P y \<Longrightarrow> P x \<Longrightarrow> find P (rev (xs @ x # ys)) = Some x"
proof (induction ys rule: rev_induct)
  case (snoc y ys)
  then show ?case by simp
qed simp

lemma foldl_max: "foldl max l ls \<in> set (l # ls) \<and> (\<forall>x \<in> set (l # ls). x \<le> foldl max l ls)"
  for l :: "'a::linorder"
proof (induction ls arbitrary: l)
  case (Cons a ls)
  from Cons [of "max l a"] show ?case by (auto simp: max_def split: if_splits)
qed simp

text \<open>A failure is summarised by the latest of the most severe records at or above a warning; without
  one there is no summary.\<close>

theorem error_summary_spec:
  "case error_summary frames of
     None \<Rightarrow> list_all (\<lambda>f. fr_level f < LWarning) frames
   | Some m \<Rightarrow> \<exists>before f after. frames = before @ f # after \<and> fr_message f = m \<and> LWarning \<le> fr_level f
       \<and> list_all (\<lambda>g. fr_level g \<le> fr_level f) before \<and> list_all (\<lambda>g. fr_level g < fr_level f) after"
proof (cases "filter (\<lambda>level. LWarning \<le> level) (map fr_level frames)")
  case Nil
  then have "list_all (\<lambda>f. fr_level f < LWarning) frames"
    by (auto simp: list_all_iff filter_empty_conv not_le)
  with Nil show ?thesis by (simp add: error_summary_def)
next
  case (Cons l ls)
  define top where "top = foldl max l ls"
  have "top \<in> set (l # ls)" and above: "\<And>x. x \<in> set (l # ls) \<Longrightarrow> x \<le> top"
    using foldl_max [of l ls] unfolding top_def by blast+
  then have "top \<in> set (filter (\<lambda>level. LWarning \<le> level) (map fr_level frames))" using Cons by simp
  then obtain g where g: "g \<in> set frames" "fr_level g = top" "LWarning \<le> top" by auto
  have le: "fr_level h \<le> top" if "h \<in> set frames" for h
  proof (cases "LWarning \<le> fr_level h")
    case True
    with that have "fr_level h \<in> set (l # ls)"
      unfolding Cons [symmetric] by simp
    then show ?thesis by (rule above)
  next
    case False
    then show ?thesis using g(3) by simp
  qed
  obtain before f after where split: "frames = before @ f # after" "fr_level f = top"
    "\<forall>h \<in> set after. fr_level h \<noteq> top"
    using split_list_last_prop [of frames "\<lambda>h. fr_level h = top"] g by blast
  have "find (\<lambda>frame. fr_level frame = top) (rev frames) = Some f"
    unfolding split(1) by (rule find_rev_last) (use split in simp_all)
  then have "error_summary frames = Some (fr_message f)"
    using Cons by (simp add: error_summary_def top_def)
  moreover have "list_all (\<lambda>h. fr_level h \<le> fr_level f) before" "list_all (\<lambda>h. fr_level h < fr_level f) after"
    using split le by (auto simp: list_all_iff less_le)
  ultimately show ?thesis using split g(3) by auto
qed

section \<open>Panics\<close>

abbreviation ascii :: "string \<Rightarrow> bool" where
  "ascii s \<equiv> list_all (\<lambda>c. byte c < 0x80) s"

lemma ascii_boundary: "ascii s \<Longrightarrow> i \<le> length s \<Longrightarrow> is_char_boundary s i"
  by (auto simp: is_char_boundary_def list_all_length le_less not_le)

lemma rfind_ws_less: "rfind_ws s = Some i \<Longrightarrow> i < length s"
  by (auto simp: rfind_ws_def find_Some_iff rev_nth)

lemma rfind_char_less: "rfind_char c s = Some i \<Longrightarrow> i < length s"
  by (auto simp: rfind_char_def find_Some_iff rev_nth)

lemma source_from_ascii: "ascii rest \<Longrightarrow> source_from rest seps \<noteq> None"
proof (induction seps)
  case (Cons separator seps)
  have "is_char_boundary (take separator rest) (Suc i)"
    if "rfind_char CHR '':'' (take separator rest) = Some colon" "rfind_ws (take colon (take separator rest)) = Some i"
    for colon i
    using Cons.prems rfind_char_less [OF that(1)] rfind_ws_less [OF that(2)]
    by (intro ascii_boundary) (auto simp: list_all_iff dest: in_set_takeD)
  moreover have "is_char_boundary (take separator rest) 0" by (simp add: is_char_boundary_def)
  ultimately show ?case
    using Cons by (auto simp: Let_def split: option.split)
qed simp

lemma take_token_set: "take_token s = Some (a, b) \<Longrightarrow> set b \<subseteq> set s"
proof -
  assume "take_token s = Some (a, b)"
  then obtain n where "b = trim_start (drop n (trim_start s))" by (auto simp: take_token_def Let_def)
  moreover have "set (trim_start t) \<subseteq> set t" for t
    using trim_start_suffix [of t] by (metis set_append Un_upper2)
  ultimately show ?thesis by (meson order.trans set_drop_subset)
qed

lemma parse_clash_rs_ascii:
  assumes "ascii line"
  shows "parse_clash_rs ch line at \<noteq> None"
proof -
  have "clash_rs_source rest \<noteq> None" if "set rest \<subseteq> set line" for rest
    using that assms unfolding clash_rs_source_def by (intro source_from_ascii) (auto simp: list_all_iff)
  moreover have "set rest \<subseteq> set line"
    if "str_get line n (length line) = Some part" "take_token part = Some (level, rest)" for n part level rest
    using that take_token_set [of part] set_drop_subset [of n line]
    by (auto simp: str_get_def split: if_splits)
  ultimately show ?thesis
    by (auto simp: parse_clash_rs_def bind_eq_Some_conv split: option.split)
qed

lemma ascii_strip: "ascii line \<Longrightarrow> strip_ansi line = Some out \<Longrightarrow> ascii out"
  using subseq_strip_escapes [of line]
  by (auto simp: strip_ansi_def Let_def list_all_iff dest: subseq_order.trans list_emb_set split: if_splits)

lemma push_at_total:
  assumes "utf8 line" "ascii line \<or> lp_kind p \<notin> {ClashRust, ChimeraClient}"
  shows "\<exists>fs q. push_at ch st line at p = Some (fs, q) \<and> lp_kind q = lp_kind p"
proof -
  obtain out where out: "strip_ansi line = Some out"
    using assms(1) utf8_strip_escapes [of line] by (fastforce simp: strip_ansi_def)
  have "ascii line \<Longrightarrow> parse_clash_rs ch out at \<noteq> None"
    using ascii_strip [OF _ out] parse_clash_rs_ascii by blast
  with assms(2) obtain parsed p' where "parse_header ch out at p = Some (parsed, p')" "lp_kind p' = lp_kind p"
    by (cases "lp_kind p") (auto simp: parse_header_def case_prod_beta Let_def)
  with out show ?thesis
    by (auto simp: push_at_def emit_def Let_def split: option.split)
qed

text \<open>C18. On valid text the parser never panics for mihomo, meow and clash premium, and for the clash-rs
  layout it never panics on ASCII lines: every line of a run is turned into frames or held.\<close>

theorem parser_total:
  assumes "list_all (\<lambda>(_, line, _). utf8 line \<and> (ascii line \<or> kind \<notin> {ClashRust, ChimeraClient})) inputs"
  shows "\<exists>fs q. feed ch inputs (log_parser_new kind epoch) = Some (fs, q)"
proof -
  have "\<exists>fs q. feed ch inputs p = Some (fs, q)" if "lp_kind p = kind" for p
    using assms that
  proof (induction inputs arbitrary: p)
    case (Cons input inputs)
    obtain st line at where input: "input = (st, line, at)" by (cases input)
    with Cons.prems push_at_total [of line p ch st at] obtain gs p' where
      push: "push_at ch st line at p = Some (gs, p')" "lp_kind p' = kind" by auto
    with Cons.IH [of p'] Cons.prems obtain hs q where "feed ch inputs p' = Some (hs, q)" by auto
    with push input show ?case by auto
  qed simp
  then show ?thesis by (simp add: log_parser_new_def)
qed

theorem parser_total_witness:
  "\<exists>fs q. feed \<lparr>ch_rfc3339_ms = (\<lambda>_. None), ch_parse_hms = (\<lambda>_. None), ch_ymd = (\<lambda>_ _ _. None),
      ch_hms_nano = (\<lambda>_ _ _ _. None), ch_succ = Some, ch_pred = Some, ch_since = (-), ch_local_ms = (\<lambda>_ _ _. None)\<rparr>
     [(Stderr, ''Error: no such file'', \<lparr>ob_ms = 1, ob_date = 0, ob_time = 0, ob_offset = 0\<rparr>)]
     (log_parser_new ClashRust 1) = Some (fs, q)"
proof (rule parser_total)
  have "ascii ''Error: no such file''" by simp
  then show "list_all (\<lambda>(_, line, _). utf8 line \<and> (ascii line \<or> ClashRust \<notin> {ClashRust, ChimeraClient}))
     [(Stderr, ''Error: no such file'', \<lparr>ob_ms = 1, ob_date = 0, ob_time = 0, ob_offset = 0\<rparr>)]"
    using utf8_ascii [of "''Error: no such file''"] by simp
qed

text \<open>The line \<open>26-07-29 00:00:00:1 INFO x a:1: m\<close> with an ideographic space before \<open>a\<close>.\<close>

definition wide_space_source :: string where
  "wide_space_source = ''x'' @ [CHR 0xE3, CHR 0x80, CHR 0x80] @ ''a:1: m''"

definition wide_space_line :: string where
  "wide_space_line = ''26-07-29 00:00:00:1 INFO '' @ wide_space_source"

lemma wide_space_utf8: "utf8 wide_space_line"
  by code_simp

lemma wide_space_end: "clash_rs_timestamp_end wide_space_line = Some 19"
  by code_simp

lemma wide_space_time: "str_get wide_space_line 0 19 = Some ''26-07-29 00:00:00:1''"
  by code_simp

lemma wide_space_rest: "str_get wide_space_line 19 (length wide_space_line) = Some ('' INFO '' @ wide_space_source)"
  by code_simp

lemma wide_space_token: "take_token ('' INFO '' @ wide_space_source) = Some (''INFO'', wide_space_source)"
proof -
  have "ws_head wide_space_source = 0" "ws_head (''INFO '' @ wide_space_source) = 0"
    "ws_head ('' '' @ wide_space_source) = 1" "ws_head ('' INFO '' @ wide_space_source) = 1"
    by code_simp+
  then have "trim_start wide_space_source = wide_space_source"
    "trim_start ('' '' @ wide_space_source) = trim_start wide_space_source"
    "trim_start ('' INFO '' @ wide_space_source) = trim_start (''INFO '' @ wide_space_source)"
    "trim_start (''INFO '' @ wide_space_source) = ''INFO '' @ wide_space_source"
    by (subst trim_start.simps, simp)+
  moreover have "find_ws (''INFO '' @ wide_space_source) = Some 4" by code_simp
  ultimately show ?thesis by (simp add: take_token_def Let_def)
qed

lemma wide_space_level: "parse_level ''INFO'' = Some LInfo"
  by code_simp

lemma wide_space_anchor: "clash_rs_source wide_space_source = None"
  by code_simp

lemmas wide_space_facts = wide_space_utf8 wide_space_end wide_space_time wide_space_rest wide_space_token
  wide_space_level wide_space_anchor

text \<open>C19. The parser panics on a valid clash-rs record whose header has no source anchor before a wide white
  space character: the scan for the anchor adds one byte to the position of a character of three and
  slices inside it.\<close>

theorem clash_rs_wide_space_panics:
  "utf8 wide_space_line \<and> push_at ch st wide_space_line at (log_parser_new ClashRust epoch) = None"
proof -
  have "strip_ansi wide_space_line = Some wide_space_line" by code_simp
  moreover have "parse_clash_rs ch wide_space_line at = None"
    by (simp only: parse_clash_rs_def wide_space_facts Option.bind.simps option.map option.case prod.case)
  ultimately show ?thesis
    by (simp add: push_at_def parse_header_def log_parser_new_def wide_space_facts(1))
qed

section \<open>Subseconds\<close>

lemma digits_value_less: "list_all is_digit s \<Longrightarrow> digits_value s < 10 ^ length s"
proof (induction s rule: rev_induct)
  case (snoc c s)
  then have "digits_value s * 10 + 9 < 10 * 10 ^ length s" "byte c - 48 \<le> 9"
    by (auto simp: is_digit_def)
  then show ?case by (simp add: digits_value_snoc)
qed (simp add: digits_value_def)

text \<open>The subsecond of a clash-rs timestamp that the header scan accepts is always a number of
  nanoseconds below one second: the 32-bit multiplication by a power of ten cannot overflow.\<close>

theorem clash_rs_nanos_exact:
  "case clash_rs_timestamp_end line of
     None \<Rightarrow> True
   | Some n \<Rightarrow> \<exists>d. clash_rs_nanos (take n line) = Some d
       \<and> unat d = digits_value (drop 18 (take n line)) * 10 ^ (27 - n) \<and> unat d < 10 ^ 9"
proof (cases "clash_rs_timestamp_end line")
  case (Some n)
  define ds where "ds = takeWhile is_digit (drop 18 line)"
  from Some have n: "n = 18 + length ds" "1 \<le> length ds" "length ds \<le> 9" "n < length line"
    by (auto simp: clash_rs_timestamp_end_def Let_def ds_def byte_at_def split: if_splits)
  have digits: "list_all is_digit ds" by (auto simp: ds_def list_all_iff dest: set_takeWhileD)
  have "take (length ds) (drop 18 line) = ds"
    unfolding ds_def by (rule takeWhile_eq_take [symmetric])
  then have sub: "drop 18 (take n line) = ds" using n by (simp add: drop_take)
  let ?v = "digits_value ds"
  have v: "?v < 10 ^ length ds" using digits by (rule digits_value_less)
  also have "\<dots> \<le> 10 ^ 9" using n(3) by (intro power_increasing) simp_all
  finally have small: "?v < 10 ^ 9" .
  obtain c cs where ds: "ds = c # cs" using n(2) by (cases ds) auto
  have "is_digit c" using digits ds by simp
  then have "c \<noteq> CHR ''+''" by (auto simp: is_digit_def)
  with small digits ds have "parse_u64 ds = Some (of_nat ?v)"
    by (simp add: parse_u64_def Let_def)
  moreover have "ucast (of_nat ?v :: u64) = (of_nat ?v :: u32)"
    using small by (intro word_unat_eq_iff [THEN iffD2]) (simp add: unsigned_ucast_eq take_bit_nat_eq_self unat_of_nat)
  ultimately have "parse_u32 ds = Some (of_nat ?v)"
    using small by (simp add: parse_u32_def unat_of_nat)
  moreover have "str_get (take n line) 18 n = Some ds"
  proof -
    have "18 < length (take n line)" using n ds by simp
    then have "take n line ! 18 = c"
      using sub ds hd_drop_conv_nth [of 18 "take n line"] by simp
    then have "\<not> continuation (take n line ! 18)"
      using \<open>is_digit c\<close> by (simp add: is_digit_def continuation_def within_def)
    then show ?thesis using n sub by (simp add: str_get_def is_char_boundary_iff min_def)
  qed
  ultimately have nanos: "clash_rs_nanos (take n line) = Some (of_nat ?v * 10 ^ (9 - length ds))"
    using n by (simp add: clash_rs_nanos_def min_def)
  have "?v * 10 ^ (9 - length ds) < 10 ^ length ds * 10 ^ (9 - length ds)" using v by simp
  also have "\<dots> = 10 ^ 9" using n(3) by (simp flip: power_add)
  finally have bound: "?v * 10 ^ (9 - length ds) < 10 ^ 9" .
  have "unat (of_nat ?v * 10 ^ (9 - length ds) :: u32) = ?v * 10 ^ (9 - length ds)"
  proof -
    have "(of_nat ?v * 10 ^ (9 - length ds) :: u32) = of_nat (?v * 10 ^ (9 - length ds))" by simp
    then show ?thesis using bound by (simp only: unat_of_nat) simp
  qed
  moreover have "27 - n = 9 - length ds" using n by simp
  ultimately show ?thesis using Some nanos bound sub by simp
qed simp

end
