(* ===== verification/Supervisor.thy ===== *)
theory Supervisor
  imports Specs Transition_Systems
begin

text \<open>
  The process supervisor (\<open>chimera-utils/src/process/supervisor.rs\<close>). The supervision task is a state
  machine: it watches one child, waits out a backoff, prepares, spawns again, or ends. A step of the
  machine is what the task does between two points where it waits; cancellation of the token, death of
  the child and acknowledgements of readiness come from outside and interleave with it. Instants and
  durations are nanoseconds; what the operating system answers (the next pid, the exit payload, the
  entropy of the jitter) is part of the step. The events emitted so far are part of the state.
\<close>

section \<open>Policies and backoff\<close>

record storm_policy =
  so_max_failures :: u32
  so_window :: nat

definition storm_policy_new :: "u32 \<Rightarrow> nat \<Rightarrow> storm_policy" where
  "storm_policy_new max_failures window =
     \<lparr>so_max_failures = max max_failures 1, so_window = max window (10 ^ 6)\<rparr>"

definition storm_policy_default :: storm_policy where
  "storm_policy_default = storm_policy_new 5 (5 * 60 * 10 ^ 9)"

definition duration_max :: nat where
  "duration_max = (2 ^ 64 - 1) * 10 ^ 9 + 999999999"

definition backoff_base :: "backoff \<Rightarrow> u32 \<Rightarrow> nat" where
  "backoff_base b attempt =
     min (min (bo_initial b * min (2 ^ min (unat attempt) 30) (2 ^ 32 - 1)) duration_max) (bo_max b)"

definition delay_for :: "backoff \<Rightarrow> u32 \<Rightarrow> u64 \<Rightarrow> nat" where
  "delay_for b attempt entropy =
     (let base = backoff_base b attempt in
      if \<not> bo_jitter b then base
      else let base_ns = (of_nat (max base 1) :: u64);
               span = base_ns div 2;
               offset = entropy mod max span 1
           in unat (base_ns - span div 2 + offset))"

text \<open>The mixing of the clock and the call counter that the jitter draws from.\<close>

definition time_entropy :: "u64 \<Rightarrow> u64 \<Rightarrow> u64" where
  "time_entropy nanos counter =
     (let z = nanos + counter * 0x9E3779B97F4A7C15 + 0x9E3779B97F4A7C15;
          z = (z XOR drop_bit 30 z) * 0xBF58476D1CE4E5B9;
          z = (z XOR drop_bit 27 z) * 0x94D049BB133111EB
      in z XOR drop_bit 31 z)"

section \<open>Events and state\<close>

record terminated_payload =
  tp_code :: "int option"
  tp_signal :: "int option"

datatype supervisor_event =
    EvStarted u32
  | EvReady
  | EvExited terminated_payload
  | EvRestarting u32 nat
  | EvGaveUp
  | EvPreparationFailed string
  | EvStopped

datatype readiness_probe = AliveAfter nat | Acknowledged

record sup_config =
  sc_policy :: restart_policy
  sc_backoff :: backoff
  sc_readiness :: readiness_probe
  sc_storm :: storm_policy

text \<open>Where the task waits: on its child (is readiness still pending, has it seen the cancellation), on
  the backoff, or on the way to the next spawn.\<close>

datatype sup_phase = Watching bool bool | Backing_off | Preparing | Spawning | Ended

record child =
  cd_pid :: u32
  cd_alive :: bool

record sup =
  su_phase :: sup_phase
  su_attempt :: u32
  su_abnormal :: "nat list"
  su_current :: "child option"
  su_ready_pending :: u32
  su_ready_queue :: "u32 list"
  su_cancelled :: bool
  su_events :: "supervisor_event list"
  su_exits :: "nat list"

definition emit :: "supervisor_event \<Rightarrow> sup \<Rightarrow> sup" where
  "emit event s = s\<lparr>su_events := su_events s @ [event]\<rparr>"

definition finish_with :: "supervisor_event \<Rightarrow> sup \<Rightarrow> sup" where
  "finish_with event s = (emit event s)\<lparr>su_phase := Ended\<rparr>"

definition is_current :: "u32 \<Rightarrow> sup \<Rightarrow> bool" where
  "is_current pid s \<longleftrightarrow> (case su_current s of None \<Rightarrow> False | Some c \<Rightarrow> cd_pid c = pid \<and> cd_alive c)"

section \<open>The operations\<close>

datatype process_error = PIo string | PSpawn string string | PTimeout nat | PAlreadyExited | PStdinUnavailable
  | PEngine string

datatype stop_strategy = Graceful | Kill

text \<open>\<open>stop_process\<close> with the answers of the graceful request and of the kill.\<close>

definition stop_process :: "stop_strategy \<Rightarrow> (process_error + unit) \<Rightarrow> (process_error + unit) \<Rightarrow> process_error + unit" where
  "stop_process strategy graceful killed =
     (if strategy = Graceful \<and> is_ok graceful then Inr ()
      else case killed of Inl PAlreadyExited \<Rightarrow> Inr () | _ \<Rightarrow> killed)"

text \<open>\<open>Supervisor::stop\<close>: the failure of the task itself comes before the answer of the stop.\<close>

definition sup_stop ::
  "stop_strategy \<Rightarrow> (process_error + unit) \<Rightarrow> (process_error + unit) \<Rightarrow> (string + unit) \<Rightarrow> sup \<Rightarrow> (process_error + unit) \<times> sup" where
  "sup_stop strategy graceful killed joined s =
     (let stop_result = (if su_current s = None then Inr () else stop_process strategy graceful killed);
          s = s\<lparr>su_cancelled := True, su_current := None\<rparr>
      in ((case joined of Inl error \<Rightarrow> Inl (PEngine (''supervisor task failed: '' @ error)) | Inr _ \<Rightarrow> stop_result), s))"

definition acknowledge_ready :: "bool \<Rightarrow> u32 \<Rightarrow> sup \<Rightarrow> bool \<times> sup" where
  "acknowledge_ready open pid s =
     (if \<not> is_current pid s \<or> su_ready_pending s \<noteq> pid then (False, s)
      else if open then (True, s\<lparr>su_ready_pending := 0, su_ready_queue := su_ready_queue s @ [pid]\<rparr>)
      else (False, s))"

text \<open>The first spawn happens before the task starts; its failure is returned.\<close>

definition sup_spawn ::
  "sup_config \<Rightarrow> bool \<Rightarrow> (string + unit) \<Rightarrow> bool \<Rightarrow> (string + u32) \<Rightarrow> string + sup" where
  "sup_spawn cfg cancelled_before prepared cancelled_after spawned =
     (if cancelled_before then Inl ''supervisor started with cancelled token''
      else and_then prepared (\<lambda>_.
        if cancelled_after then Inl ''spawn preparation cancelled''
        else and_then spawned (\<lambda>pid.
          Inr (emit (EvStarted pid) \<lparr>su_phase = Watching True False, su_attempt = 0, su_abnormal = [],
            su_current = Some \<lparr>cd_pid = pid, cd_alive = True\<rparr>,
            su_ready_pending = (if sc_readiness cfg = Acknowledged then pid else 0),
            su_ready_queue = [], su_cancelled = False, su_events = [], su_exits = []\<rparr>))))"

definition see_cancel :: "sup \<Rightarrow> sup" where
  "see_cancel s = s\<lparr>su_phase := Watching False True, su_current := None\<rparr>"

definition ready_timer :: "bool \<Rightarrow> sup \<Rightarrow> sup" where
  "ready_timer seen s =
     (let s' = s\<lparr>su_phase := Watching False seen\<rparr> in
      if (case su_current s of None \<Rightarrow> False | Some c \<Rightarrow> cd_alive c) \<and> \<not> su_cancelled s
      then emit EvReady (s'\<lparr>su_attempt := 0\<rparr>) else s')"

definition ready_received :: "u32 \<Rightarrow> bool \<Rightarrow> sup \<Rightarrow> sup" where
  "ready_received pid seen s =
     (if is_current pid s \<and> \<not> su_cancelled s
      then emit EvReady (s\<lparr>su_phase := Watching False seen, su_attempt := 0\<rparr>) else s)"

text \<open>From the restart budget to the backoff.\<close>

definition plan_restart :: "sup_config \<Rightarrow> u64 \<Rightarrow> sup \<Rightarrow> sup" where
  "plan_restart cfg entropy s =
     (let s = s\<lparr>su_attempt := su_attempt s + 1\<rparr> in case sc_policy cfg of
        Never \<Rightarrow> s\<lparr>su_phase := Ended\<rparr>
      | OnFailure max_restarts \<Rightarrow>
          if max_restarts < su_attempt s then finish_with EvGaveUp s
          else (emit (EvRestarting (su_attempt s) (delay_for (sc_backoff cfg) (su_attempt s - 1) entropy)) s)
                 \<lparr>su_phase := Backing_off\<rparr>)"

definition drop_stale :: "nat \<Rightarrow> nat \<Rightarrow> nat list \<Rightarrow> nat list" where
  "drop_stale now window xs = dropWhile (\<lambda>at. window < now - at) xs"

definition child_exited :: "sup_config \<Rightarrow> terminated_payload \<Rightarrow> nat \<Rightarrow> bool \<Rightarrow> u64 \<Rightarrow> sup \<Rightarrow> sup" where
  "child_exited cfg payload now seen entropy s =
     (let s = emit (EvExited payload) (s\<lparr>su_current := None, su_ready_pending := 0\<rparr>) in
      if seen \<or> su_cancelled s then finish_with EvStopped s
      else if tp_code payload = Some 0 \<or> sc_policy cfg = Never then s\<lparr>su_phase := Ended\<rparr>
      else let abnormal = drop_stale now (so_window (sc_storm cfg)) (su_abnormal s @ [now]);
               s = s\<lparr>su_abnormal := abnormal, su_exits := su_exits s @ [now]\<rparr>
           in if unat (so_max_failures (sc_storm cfg)) \<le> length abnormal then finish_with EvGaveUp s
              else plan_restart cfg entropy s)"

definition backoff_elapsed :: "sup \<Rightarrow> sup" where
  "backoff_elapsed s = (if su_cancelled s then finish_with EvStopped s else s\<lparr>su_phase := Preparing\<rparr>)"

definition prepared_next :: "string + unit \<Rightarrow> sup \<Rightarrow> sup" where
  "prepared_next result s = (case result of
       Inl error \<Rightarrow> finish_with (if su_cancelled s then EvStopped else EvPreparationFailed error) s
     | Inr _ \<Rightarrow> if su_cancelled s then finish_with EvStopped s else s\<lparr>su_phase := Spawning\<rparr>)"

definition spawned_next :: "sup_config \<Rightarrow> u32 option \<Rightarrow> u64 \<Rightarrow> sup \<Rightarrow> sup" where
  "spawned_next cfg result entropy s = (case result of
       Some pid \<Rightarrow>
         let s = s\<lparr>su_current := Some \<lparr>cd_pid = pid, cd_alive = True\<rparr>, su_phase := Watching True False\<rparr>
         in if su_cancelled s then s
            else emit (EvStarted pid) (if sc_readiness cfg = Acknowledged then s\<lparr>su_ready_pending := pid\<rparr> else s)
     | None \<Rightarrow> if su_cancelled s then finish_with EvStopped s else plan_restart cfg entropy s)"

inductive sup_step :: "sup_config \<Rightarrow> sup \<Rightarrow> sup \<Rightarrow> bool" for cfg where
  cancel: "sup_step cfg s (s\<lparr>su_cancelled := True\<rparr>)"
| dies: "su_current s = Some c \<Longrightarrow> sup_step cfg s (s\<lparr>su_current := Some (c\<lparr>cd_alive := False\<rparr>)\<rparr>)"
| acknowledge: "sup_step cfg s (snd (acknowledge_ready open pid s))"
| taken: "su_cancelled s \<Longrightarrow> sup_step cfg s (s\<lparr>su_current := None\<rparr>)"
| see_cancel: "su_phase s = Watching pending False \<Longrightarrow> su_cancelled s \<Longrightarrow> sup_step cfg s (see_cancel s)"
| timer: "su_phase s = Watching True seen \<Longrightarrow> sc_readiness cfg \<noteq> Acknowledged \<Longrightarrow>
    sup_step cfg s (ready_timer seen s)"
| ready_closed: "su_phase s = Watching True seen \<Longrightarrow> sc_readiness cfg = Acknowledged \<Longrightarrow> su_cancelled s \<Longrightarrow>
    sup_step cfg s (s\<lparr>su_phase := Watching False seen\<rparr>)"
| ready: "su_phase s = Watching True seen \<Longrightarrow> sc_readiness cfg = Acknowledged \<Longrightarrow> su_ready_queue s = pid # rest \<Longrightarrow>
    sup_step cfg s (ready_received pid seen (s\<lparr>su_ready_queue := rest\<rparr>))"
| exited: "su_phase s = Watching pending seen \<Longrightarrow> list_all (\<lambda>at. at \<le> now) (su_exits s) \<Longrightarrow>
    sup_step cfg s (child_exited cfg payload now seen entropy s)"
| backoff_cancelled: "su_phase s = Backing_off \<Longrightarrow> su_cancelled s \<Longrightarrow> sup_step cfg s (finish_with EvStopped s)"
| backoff: "su_phase s = Backing_off \<Longrightarrow> sup_step cfg s (backoff_elapsed s)"
| prepared: "su_phase s = Preparing \<Longrightarrow> sup_step cfg s (prepared_next result s)"
| spawned: "su_phase s = Spawning \<Longrightarrow> sup_step cfg s (spawned_next cfg spawn entropy s)"

definition sup_init :: "sup_config \<Rightarrow> sup \<Rightarrow> bool" where
  "sup_init cfg s \<longleftrightarrow> (\<exists>before prepared after spawned. sup_spawn cfg before prepared after spawned = Inr s)"

inductive_cases sup_stepE: "sup_step cfg s t"

section \<open>The language of events\<close>

text \<open>What a subscriber may see: a child is started, is ready at most once and exits; between children
  there is at least one announced restart; after the last word nothing follows. A child whose start
  was cancelled exits unannounced, and then only \<open>EvStopped\<close> follows.\<close>

datatype trace_state = TFresh | TRunning bool | TExited | TWaiting | TStopping | TClosed

fun trace_next :: "trace_state \<Rightarrow> supervisor_event \<Rightarrow> trace_state option" where
  "trace_next TFresh (EvStarted _) = Some (TRunning False)"
| "trace_next (TRunning False) EvReady = Some (TRunning True)"
| "trace_next (TRunning _) (EvExited _) = Some TExited"
| "trace_next TExited (EvRestarting _ _) = Some TWaiting"
| "trace_next TExited EvGaveUp = Some TClosed"
| "trace_next TExited EvStopped = Some TClosed"
| "trace_next TWaiting (EvStarted _) = Some (TRunning False)"
| "trace_next TWaiting (EvRestarting _ _) = Some TWaiting"
| "trace_next TWaiting EvGaveUp = Some TClosed"
| "trace_next TWaiting EvStopped = Some TClosed"
| "trace_next TWaiting (EvPreparationFailed _) = Some TClosed"
| "trace_next TWaiting (EvExited _) = Some TStopping"
| "trace_next TStopping EvStopped = Some TClosed"
| "trace_next _ _ = None"

definition trace_of :: "supervisor_event list \<Rightarrow> trace_state option" where
  "trace_of events = foldl (\<lambda>g e. Option.bind g (\<lambda>g. trace_next g e)) (Some TFresh) events"

lemma trace_of_snoc [simp]: "trace_of (events @ [e]) = Option.bind (trace_of events) (\<lambda>g. trace_next g e)"
  by (simp add: trace_of_def)

lemma trace_of_Nil [simp]: "trace_of [] = Some TFresh"
  by (simp add: trace_of_def)

fun phase_matches :: "sup_phase \<Rightarrow> bool \<Rightarrow> trace_state \<Rightarrow> bool" where
  "phase_matches (Watching pending seen) cancelled g \<longleftrightarrow>
     g = TRunning False \<or> g = TRunning True \<and> \<not> pending \<or> g = TWaiting \<and> cancelled"
| "phase_matches Ended cancelled g \<longleftrightarrow> g = TClosed \<or> g = TExited"
| "phase_matches _ cancelled g \<longleftrightarrow> g = TWaiting"

definition restarts_since_ready :: "supervisor_event list \<Rightarrow> nat" where
  "restarts_since_ready events =
     foldl (\<lambda>n e. case e of EvRestarting _ _ \<Rightarrow> Suc n | EvReady \<Rightarrow> 0 | _ \<Rightarrow> n) 0 events"

lemma restarts_since_ready_simps [simp]:
  "restarts_since_ready [] = 0"
  "restarts_since_ready (es @ [e]) = (case e of
     EvRestarting _ _ \<Rightarrow> Suc (restarts_since_ready es) | EvReady \<Rightarrow> 0 | _ \<Rightarrow> restarts_since_ready es)"
  by (simp_all add: restarts_since_ready_def split: supervisor_event.split)

lemma restarts_since_ready_two [simp]:
  "restarts_since_ready (es @ [d, e]) = (case e of
     EvRestarting _ _ \<Rightarrow> Suc (restarts_since_ready (es @ [d])) | EvReady \<Rightarrow> 0 | _ \<Rightarrow> restarts_since_ready (es @ [d]))"
  using restarts_since_ready_simps(2) [of "es @ [d]" e] by simp

section \<open>Invariants\<close>

definition traced :: "sup_config \<Rightarrow> sup \<Rightarrow> bool" where
  "traced cfg s \<longleftrightarrow> (\<exists>g. trace_of (su_events s) = Some g \<and> phase_matches (su_phase s) (su_cancelled s) g
     \<and> (g = TWaiting \<longrightarrow> sc_policy cfg \<noteq> Never))"

lemma sup_initE:
  assumes "sup_init cfg s"
  obtains pid where "su_phase s = Watching True False" "su_attempt s = 0" "su_abnormal s = []" "su_exits s = []"
    "su_events s = [EvStarted pid]" "su_current s = Some \<lparr>cd_pid = pid, cd_alive = True\<rparr>" "\<not> su_cancelled s"
  using assms by (auto simp: sup_init_def sup_spawn_def and_then_Inr emit_def split: if_splits)

lemma traced_init: "sup_init cfg s \<Longrightarrow> traced cfg s"
  by (erule sup_initE) (simp add: traced_def trace_of_def)

lemma emit_simps [simp]:
  "su_events (emit e s) = su_events s @ [e]" "su_phase (emit e s) = su_phase s"
  "su_cancelled (emit e s) = su_cancelled s" "su_attempt (emit e s) = su_attempt s"
  "su_abnormal (emit e s) = su_abnormal s" "su_exits (emit e s) = su_exits s"
  by (simp_all add: emit_def)

lemma traced_finish:
  "trace_of (su_events s) = Some g \<Longrightarrow> trace_next g e = Some TClosed \<Longrightarrow> traced cfg (finish_with e s)"
  by (simp add: traced_def finish_with_def)

lemma traced_plan_restart:
  assumes "trace_of (su_events s) = Some g" "g = TExited \<or> g = TWaiting \<and> sc_policy cfg \<noteq> Never"
  shows "traced cfg (plan_restart cfg entropy s)"
  using assms
  by (auto simp: plan_restart_def Let_def traced_def finish_with_def split: restart_policy.split)

lemma traced_child_exited:
  assumes "traced cfg s" "su_phase s = Watching pending seen"
  shows "traced cfg (child_exited cfg payload now seen entropy s)"
proof -
  let ?s = "emit (EvExited payload) (s\<lparr>su_current := None, su_ready_pending := 0\<rparr>)"
  obtain g where g: "trace_of (su_events s) = Some g" "phase_matches (Watching pending seen) (su_cancelled s) g"
    using assms by (auto simp: traced_def)
  then have exited: "trace_of (su_events ?s) = Some (if g = TWaiting then TStopping else TExited)" by auto
  show ?thesis
  proof (cases "seen \<or> su_cancelled s")
    case True
    then show ?thesis
      using traced_finish [OF exited, of EvStopped cfg] by (simp add: child_exited_def Let_def)
  next
    case False
    with g have "g \<noteq> TWaiting" by auto
    with exited have t: "trace_of (su_events ?s) = Some TExited" by simp
    let ?t = "?s\<lparr>su_abnormal := drop_stale now (so_window (sc_storm cfg)) (su_abnormal s @ [now]),
      su_exits := su_exits s @ [now]\<rparr>"
    have u: "trace_of (su_events ?t) = Some TExited" using t by simp
    have "traced cfg (?s\<lparr>su_phase := Ended\<rparr>)" using t by (simp add: traced_def)
    moreover have "traced cfg (finish_with EvGaveUp ?t)" by (rule traced_finish [OF u]) simp
    moreover have "traced cfg (plan_restart cfg entropy ?t)" by (rule traced_plan_restart [OF u]) simp
    ultimately show ?thesis
      using False by (simp add: child_exited_def Let_def)
  qed
qed

lemma traced_spawned:
  assumes "traced cfg s" "su_phase s = Spawning"
  shows "traced cfg (spawned_next cfg result entropy s)"
proof -
  have g: "trace_of (su_events s) = Some TWaiting" "sc_policy cfg \<noteq> Never"
    using assms by (auto simp: traced_def)
  show ?thesis
  proof (cases result)
    case None
    with g show ?thesis
      using traced_finish [OF g(1), of EvStopped cfg] traced_plan_restart [OF g(1)]
      by (simp add: spawned_next_def)
  next
    case (Some pid)
    with g show ?thesis by (simp add: spawned_next_def traced_def Let_def)
  qed
qed

lemma traced_step:
  assumes "traced cfg s" "sup_step cfg s t"
  shows "traced cfg t"
  using assms(2)
proof cases
  case cancel
  with assms(1) show ?thesis by (cases "su_phase s") (auto simp: traced_def)
next
  case (exited pending seen now payload entropy)
  with traced_child_exited [OF assms(1)] show ?thesis by simp
next
  case (spawned result entropy)
  with traced_spawned [OF assms(1)] show ?thesis by simp
next
  case (prepared result)
  with assms(1) show ?thesis by (auto simp: traced_def prepared_next_def finish_with_def split: sum.split)
qed (use assms(1) in \<open>auto simp: traced_def acknowledge_ready_def see_cancel_def ready_timer_def ready_received_def
  backoff_elapsed_def finish_with_def Let_def split: option.split\<close>)

interpretation sup_traced: invariant_system "sup_init cfg" "sup_step cfg" "traced cfg" for cfg
  by unfold_locales (erule traced_init, erule traced_step)


text \<open>C20. The supervisor speaks a regular language: a child is announced, ready at most once and exits;
  a restart is announced before every further child; once it stopped, gave up or could not prepare,
  it says nothing more, whatever the interleaving of exits, cancellations and acknowledgements.\<close>

theorem supervisor_trace_ok:
  assumes "reach (sup_init cfg) (sup_step cfg) s"
  shows "\<exists>g. trace_of (su_events s) = Some g \<and> phase_matches (su_phase s) (su_cancelled s) g"
  using sup_traced.reach_inv [OF assms] by (auto simp: traced_def)

section \<open>Restart budgets\<close>

definition budgeted :: "sup_config \<Rightarrow> u32 \<Rightarrow> sup \<Rightarrow> bool" where
  "budgeted cfg m s \<longleftrightarrow> su_phase s \<noteq> Ended \<longrightarrow>
     restarts_since_ready (su_events s) = unat (su_attempt s) \<and> su_attempt s \<le> m"

definition within_budget :: "u32 \<Rightarrow> sup \<Rightarrow> bool" where
  "within_budget m s \<longleftrightarrow> restarts_since_ready (su_events s) \<le> unat m"

lemma unat_Suc_below:
  fixes a m :: u32
  assumes "a \<le> m" "m \<noteq> - 1"
  shows "unat (a + 1) = Suc (unat a)"
proof -
  have "a \<noteq> - 1"
    using assms by (metis word_order.extremum_unique)
  then have "unat a + 1 < 2 ^ 32"
    using checked_add_one [of a] checked_add_Some [of a 1 "a + 1"] by simp
  then show ?thesis by (simp add: unat_word_ariths)
qed

lemma budget_plan_restart:
  assumes "restarts_since_ready (su_events s) = unat (su_attempt s)" "su_attempt s \<le> m"
    and "sc_policy cfg = OnFailure m" "m \<noteq> - 1"
  shows "budgeted cfg m (plan_restart cfg entropy s) \<and> within_budget m (plan_restart cfg entropy s)"
  using assms unat_Suc_below [of "su_attempt s" m]
  by (auto simp: plan_restart_def Let_def budgeted_def within_budget_def finish_with_def word_le_nat_alt not_less)

lemma budget_step:
  assumes inv: "budgeted cfg m s \<and> within_budget m s" and cfg: "sc_policy cfg = OnFailure m" "m \<noteq> - 1"
    and "sup_step cfg s t"
  shows "budgeted cfg m t \<and> within_budget m t"
  using assms(4)
proof cases
  case (exited pending seen now payload entropy)
  let ?s = "emit (EvExited payload) (s\<lparr>su_current := None, su_ready_pending := 0\<rparr>)
    \<lparr>su_abnormal := drop_stale now (so_window (sc_storm cfg)) (su_abnormal s @ [now]), su_exits := su_exits s @ [now]\<rparr>"
  have "budgeted cfg m (plan_restart cfg entropy ?s) \<and> within_budget m (plan_restart cfg entropy ?s)"
    using inv exited cfg by (intro budget_plan_restart) (auto simp: budgeted_def)
  moreover have "restarts_since_ready (su_events s) \<le> unat m" using inv by (simp add: within_budget_def)
  ultimately show ?thesis
    using exited cfg by (simp add: child_exited_def Let_def) (auto simp: budgeted_def within_budget_def finish_with_def)
next
  case (spawned result entropy)
  have "budgeted cfg m (plan_restart cfg entropy s) \<and> within_budget m (plan_restart cfg entropy s)"
    using inv spawned cfg by (intro budget_plan_restart) (auto simp: budgeted_def)
  with spawned inv show ?thesis
    by (auto simp: spawned_next_def Let_def budgeted_def within_budget_def finish_with_def split: option.split)
qed (use inv in \<open>auto simp: budgeted_def within_budget_def acknowledge_ready_def see_cancel_def ready_timer_def
  ready_received_def backoff_elapsed_def prepared_next_def finish_with_def Let_def split: option.split sum.split\<close>)

text \<open>C21. A core that never becomes ready is restarted at most \<open>max_restarts\<close> times: since the last child
  that passed its readiness check (or since the start), no more restarts than the policy allows were
  ever announced.\<close>

theorem supervisor_restart_budget:
  assumes "reach (sup_init cfg) (sup_step cfg) s" "sc_policy cfg = OnFailure m" "m \<noteq> - 1"
  shows "restarts_since_ready (su_events s) \<le> unat m"
proof -
  have "invariant_system (sup_init cfg) (sup_step cfg) (\<lambda>s. budgeted cfg m s \<and> within_budget m s)"
    by unfold_locales
      (erule sup_initE, simp add: budgeted_def within_budget_def restarts_since_ready_def,
       rule budget_step [OF _ assms(2,3)])
  from invariant_system.reach_inv [OF this assms(1)] show ?thesis by (simp add: within_budget_def)
qed

definition sample_config :: sup_config where
  "sample_config = \<lparr>sc_policy = OnFailure 5, sc_backoff = io_backoff instance_options_default,
     sc_readiness = Acknowledged, sc_storm = storm_policy_default\<rparr>"

definition sample_sup :: sup where
  "sample_sup = \<lparr>su_phase = Watching True False, su_attempt = 0, su_abnormal = [],
     su_current = Some \<lparr>cd_pid = 7, cd_alive = True\<rparr>, su_ready_pending = 7, su_ready_queue = [],
     su_cancelled = False, su_events = [EvStarted 7], su_exits = []\<rparr>"

definition crash :: terminated_payload where
  "crash = \<lparr>tp_code = Some 1, tp_signal = None\<rparr>"

lemma sample_sup_reach: "reach (sup_init sample_config) (sup_step sample_config) sample_sup"
proof (rule reach_init)
  have "sup_spawn sample_config False (Inr ()) False (Inr 7) = Inr sample_sup"
    by (simp add: sup_spawn_def sample_config_def sample_sup_def emit_def)
  then show "sup_init sample_config sample_sup" by (auto simp: sup_init_def)
qed

lemma sample_crash_reach:
  "reach (sup_init sample_config) (sup_step sample_config) (child_exited sample_config crash 1 False 0 sample_sup)"
  by (rule reach_step [OF sample_sup_reach], rule sup_step.exited) (simp_all add: sample_sup_def)

theorem supervisor_trace_ok_witness:
  "\<exists>g. trace_of (su_events (child_exited sample_config crash 1 False 0 sample_sup)) = Some g"
  using supervisor_trace_ok [OF sample_crash_reach] by auto

theorem supervisor_restart_budget_witness:
  "restarts_since_ready (su_events (child_exited sample_config crash 1 False 0 sample_sup)) \<le> 5"
  using supervisor_restart_budget [OF sample_crash_reach, of 5] by (simp add: sample_config_def)

end
