(* ===== verification/Process_Pump.thy ===== *)
theory Process_Pump
  imports Supervisor "HOL-Library.Multiset"
begin

text \<open>
  The task that pumps one child process (\<open>chimera-utils/src/process/engine.rs\<close>, \<open>handle.rs\<close>; Unix build): control requests, the
  deadline of a hard kill, the end of the child, its output under back pressure, and the flush of the last events. The library
  that starts processes is outside: what it answers (output, exit, the success of a signal) is part of the steps or of
  \<open>pump_env\<close>. Channels are their contents and whether the other side is still there. Times are nanoseconds.
\<close>

section \<open>State\<close>

datatype process_event = Stdout string | Stderr string | ErrorEvent string | Terminated terminated_payload

text \<open>The number of a request stands for its reply channel.\<close>

datatype ctrl = GracefulKill nat | KillNow nat | WriteStdin string nat

primrec channel_of :: "ctrl \<Rightarrow> nat" where
  "channel_of (GracefulKill channel) = channel"
| "channel_of (KillNow channel) = channel"
| "channel_of (WriteStdin data channel) = channel"

record pump_env =
  pe_kill_error :: "nat \<Rightarrow> string option"
  pe_signal_ok :: "nat \<Rightarrow> bool"
  pe_stdin :: bool
  pe_kill_grace :: nat

record finish_output =
  fo_payload :: terminated_payload
  fo_stderr_tail :: "string list"
  fo_error :: "string option"

datatype pump_phase = Pumping | Finishing | Flushing | Pumped

record pump =
  pp_phase :: pump_phase
  pp_now :: nat
  pp_finish :: "finish_output option"
  pp_pending :: "process_event option"
  pp_hard_kill_at :: "nat option"
  pp_events_open :: bool
  pp_ctrl_open :: bool
  pp_dying :: bool
  pp_drop_output :: bool
  pp_drop_at :: "nat option"
  pp_dropped :: nat
  pp_abandoned :: bool
  pp_terminal :: "process_event list"
  pp_flush_at :: "nat option"
  pp_term :: "(string + terminated_payload) option"
  pp_pid_cleaned :: bool
  pp_ctrl :: "ctrl list"
  pp_handles :: bool
  pp_receiver :: bool
  pp_calls :: nat
  pp_kills :: nat
  pp_replies :: "(nat \<times> (process_error + unit)) list"
  pp_asked :: "nat list"
  pp_stdin_open :: bool
  pp_stdin_queue :: "(string \<times> nat) list"
  pp_writing :: "(string \<times> nat) option"
  pp_written :: "string list"
  pp_read :: "process_event list"
  pp_sent :: "process_event list"
  pp_final :: "process_event list"

definition DYING_EVENT_STALL :: nat where "DYING_EVENT_STALL = 5 * 10 ^ 9"

definition CTRL_CAPACITY :: nat where "CTRL_CAPACITY = 8"

definition STDIN_CAPACITY :: nat where "STDIN_CAPACITY = 64"

definition pump_start :: "pump_env \<Rightarrow> nat \<Rightarrow> nat option \<Rightarrow> pump" where
  "pump_start env now timeout_at = \<lparr>pp_phase = Pumping, pp_now = now, pp_finish = None, pp_pending = None, pp_hard_kill_at = timeout_at,
     pp_events_open = True, pp_ctrl_open = True, pp_dying = False, pp_drop_output = False, pp_drop_at = None, pp_dropped = 0,
     pp_abandoned = False, pp_terminal = [], pp_flush_at = None, pp_term = None, pp_pid_cleaned = False, pp_ctrl = [], pp_handles = True,
     pp_receiver = True, pp_calls = 0, pp_kills = 0, pp_replies = [], pp_asked = [], pp_stdin_open = pe_stdin env, pp_stdin_queue = [],
     pp_writing = None, pp_written = [], pp_read = [], pp_sent = [], pp_final = []\<rparr>"

section \<open>Operations\<close>

fun split_newlines :: "string \<Rightarrow> string list" where
  "split_newlines [] = [[]]"
| "split_newlines (c # cs) = (if c = CHR 0x0A then [] # split_newlines cs
     else case split_newlines cs of [] \<Rightarrow> [[c]] | line # lines \<Rightarrow> (c # line) # lines)"

definition split_stderr_tail :: "string \<Rightarrow> string list" where
  "split_stderr_tail stderr = (if stderr = [] then [] else split_newlines stderr)"

datatype finish_result = FinishOk terminated_payload string | FinishErr string

definition normalize_finish :: "finish_result \<Rightarrow> finish_output" where
  "normalize_finish result = (case result of
       FinishOk payload stderr \<Rightarrow> \<lparr>fo_payload = payload, fo_stderr_tail = split_stderr_tail stderr, fo_error = None\<rparr>
     | FinishErr e \<Rightarrow> \<lparr>fo_payload = \<lparr>tp_code = None, tp_signal = None\<rparr>, fo_stderr_tail = [], fo_error = Some e\<rparr>)"

definition watch_value :: "finish_output \<Rightarrow> string + terminated_payload" where
  "watch_value out = (case fo_error out of Some e \<Rightarrow> Inl e | None \<Rightarrow> Inr (fo_payload out))"

definition kill_all :: "pump_env \<Rightarrow> pump \<Rightarrow> (process_error + unit) \<times> pump" where
  "kill_all env s = (case pe_kill_error env (pp_calls s) of Some e \<Rightarrow> Inl (PEngine e) | None \<Rightarrow> Inr (),
     s\<lparr>pp_calls := pp_calls s + 1, pp_kills := pp_kills s + 1\<rparr>)"

definition reply :: "nat \<Rightarrow> process_error + unit \<Rightarrow> pump \<Rightarrow> pump" where
  "reply channel r s = s\<lparr>pp_replies := pp_replies s @ [(channel, r)]\<rparr>"

definition handle_ctrl :: "pump_env \<Rightarrow> ctrl \<Rightarrow> pump \<Rightarrow> bool \<times> pump" where
  "handle_ctrl env c s = (case c of
       KillNow channel \<Rightarrow> (case kill_all env (s\<lparr>pp_hard_kill_at := None\<rparr>) of (r, s) \<Rightarrow> (True, reply channel r s))
     | GracefulKill channel \<Rightarrow>
         if pe_signal_ok env (pp_calls s) then
           (let deadline = pp_now s + pe_kill_grace env;
                s = s\<lparr>pp_calls := pp_calls s + 1, pp_hard_kill_at :=
                  (if (case pp_hard_kill_at s of None \<Rightarrow> True | Some at \<Rightarrow> deadline < at) then Some deadline else pp_hard_kill_at s)\<rparr>
            in (True, reply channel (Inr ()) s))
         else (case kill_all env (s\<lparr>pp_calls := pp_calls s + 1\<rparr>) of (r, s) \<Rightarrow> (True, reply channel r s))
     | WriteStdin data channel \<Rightarrow>
         if pp_stdin_open s \<and> length (pp_stdin_queue s) < STDIN_CAPACITY
         then (False, s\<lparr>pp_stdin_queue := pp_stdin_queue s @ [(data, channel)]\<rparr>)
         else (False, reply channel (Inl PStdinUnavailable) s))"

text \<open>The task that writes to the child (\<open>write_stdin\<close>): it answers a request when its bytes are flushed. After a failure it
  answers everything that waits and takes nothing more. It outlives the pump while requests wait.\<close>

definition stdin_takes :: "pump \<Rightarrow> pump" where
  "stdin_takes s = (case pp_stdin_queue s of [] \<Rightarrow> s | x # rest \<Rightarrow>
     if pp_writing s = None then s\<lparr>pp_writing := Some x, pp_stdin_queue := rest\<rparr> else s)"

definition stdin_flushed :: "pump \<Rightarrow> pump" where
  "stdin_flushed s = (case pp_writing s of None \<Rightarrow> s | Some (data, channel) \<Rightarrow>
     reply channel (Inr ()) (s\<lparr>pp_writing := None, pp_written := pp_written s @ [data]\<rparr>))"

definition stdin_failed :: "pump \<Rightarrow> pump" where
  "stdin_failed s = (case pp_writing s of None \<Rightarrow> s | Some (_, channel) \<Rightarrow>
     s\<lparr>pp_writing := None, pp_stdin_queue := [], pp_stdin_open := False,
       pp_replies := pp_replies s @ (channel, Inl PStdinUnavailable) # map (\<lambda>(_, c). (c, Inl PStdinUnavailable)) (pp_stdin_queue s)\<rparr>)"

definition start_stall :: "pump \<Rightarrow> pump" where
  "start_stall s = (if pp_pending s \<noteq> None \<and> pp_drop_at s = None then s\<lparr>pp_drop_at := Some (pp_now s + DYING_EVENT_STALL)\<rparr> else s)"

text \<open>The head of both loops: nobody listens and nobody can ask, so the tree is killed, once.\<close>

definition loop_top :: "pump_env \<Rightarrow> pump \<Rightarrow> pump" where
  "loop_top env s = (if \<not> pp_events_open s \<and> \<not> pp_ctrl_open s \<and> \<not> pp_abandoned s
     then snd (kill_all env (s\<lparr>pp_abandoned := True, pp_dying := (pp_phase s = Pumping \<or> pp_dying s), pp_hard_kill_at := None\<rparr>)) else s)"

definition take_ctrl :: "pump_env \<Rightarrow> ctrl \<Rightarrow> ctrl list \<Rightarrow> pump \<Rightarrow> pump" where
  "take_ctrl env c rest s = (case handle_ctrl env c (s\<lparr>pp_ctrl := rest\<rparr>) of (handled, s) \<Rightarrow>
     if handled \<and> pp_phase s = Pumping then start_stall (s\<lparr>pp_dying := True\<rparr>) else s)"

definition hard_kill :: "pump_env \<Rightarrow> pump \<Rightarrow> pump" where
  "hard_kill env s = (let s = snd (kill_all env (s\<lparr>pp_hard_kill_at := None\<rparr>)) in
     if pp_phase s = Pumping then start_stall (s\<lparr>pp_dying := True\<rparr>) else s)"

definition child_finished :: "finish_result \<Rightarrow> pump \<Rightarrow> pump" where
  "child_finished result s = (let out = normalize_finish result; s = start_stall (s\<lparr>pp_dying := True\<rparr>) in
     s\<lparr>pp_term := Some (watch_value out), pp_finish := Some out\<rparr>)"

definition drop_pending :: "pump \<Rightarrow> pump" where
  "drop_pending s = (let s = s\<lparr>pp_drop_at := None, pp_drop_output := True\<rparr> in
     case pp_pending s of Some _ \<Rightarrow> s\<lparr>pp_pending := None, pp_dropped := pp_dropped s + 1\<rparr> | None \<Rightarrow> s)"

definition send_pending :: "process_event \<Rightarrow> pump \<Rightarrow> pump" where
  "send_pending event s = s\<lparr>pp_sent := pp_sent s @ [event], pp_pending := None, pp_drop_at := None\<rparr>"

definition close_events :: "pump \<Rightarrow> pump" where
  "close_events s = s\<lparr>pp_events_open := False, pp_pending := None, pp_drop_at := None\<rparr>"

definition read_output :: "process_event \<Rightarrow> pump \<Rightarrow> pump" where
  "read_output event s = (let s = s\<lparr>pp_read := pp_read s @ [event]\<rparr> in
     if pp_drop_output s then s\<lparr>pp_dropped := pp_dropped s + 1\<rparr>
     else if pp_events_open s then s\<lparr>pp_pending := Some event,
       pp_drop_at := (if pp_dying s then Some (pp_now s + DYING_EVENT_STALL) else pp_drop_at s)\<rparr>
     else s)"

definition terminal_events :: "finish_output \<Rightarrow> nat \<Rightarrow> process_event list" where
  "terminal_events out dropped = map Stderr (fo_stderr_tail out)
     @ (if 0 < dropped then [ErrorEvent (''dropped '' @ show_nat dropped @ '' buffered output events: receiver not draining'')] else [])
     @ (case fo_error out of Some e \<Rightarrow> [ErrorEvent e] | None \<Rightarrow> [])
     @ [Terminated (fo_payload out)]"

definition begin_flush :: "finish_output \<Rightarrow> pump \<Rightarrow> pump" where
  "begin_flush out s = s\<lparr>pp_pid_cleaned := True, pp_terminal := terminal_events out (pp_dropped s),
     pp_flush_at := Some (pp_now s + DYING_EVENT_STALL), pp_phase := (if pp_events_open s then Flushing else Pumped)\<rparr>"

definition stream_ended :: "pump \<Rightarrow> pump" where
  "stream_ended s = (case pp_finish s of Some out \<Rightarrow> begin_flush out s | None \<Rightarrow> s\<lparr>pp_phase := Finishing\<rparr>)"

definition finish_late :: "finish_result \<Rightarrow> pump \<Rightarrow> pump" where
  "finish_late result s = (let out = normalize_finish result in
     begin_flush out (s\<lparr>pp_term := Some (watch_value out), pp_finish := Some out\<rparr>))"

definition flush_one :: "process_event \<Rightarrow> process_event list \<Rightarrow> pump \<Rightarrow> pump" where
  "flush_one event rest s = s\<lparr>pp_final := pp_final s @ [event], pp_terminal := rest,
     pp_flush_at := Some (pp_now s + DYING_EVENT_STALL), pp_phase := (if rest = [] then Pumped else Flushing)\<rparr>"

definition stop_flush :: "pump \<Rightarrow> pump" where
  "stop_flush s = s\<lparr>pp_events_open := False, pp_phase := Pumped\<rparr>"

section \<open>Steps\<close>

definition ctrl_ready :: "pump \<Rightarrow> bool" where
  "ctrl_ready s \<longleftrightarrow> pp_ctrl_open s \<and> (pp_ctrl s \<noteq> [] \<or> \<not> pp_handles s)"

definition due :: "nat option \<Rightarrow> pump \<Rightarrow> bool" where
  "due at s \<longleftrightarrow> (case at of Some t \<Rightarrow> t \<le> pp_now s | None \<Rightarrow> False)"

text \<open>The arms are tried in the order of the source; these are the ones that come before the child and its output.\<close>

definition urgent :: "pump \<Rightarrow> bool" where
  "urgent s \<longleftrightarrow> ctrl_ready s \<or> due (pp_hard_kill_at s) s"

definition stalled :: "pump \<Rightarrow> bool" where
  "stalled s \<longleftrightarrow> pp_dying s \<and> \<not> pp_drop_output s \<and> pp_pending s \<noteq> None \<and> due (pp_drop_at s) s"

definition unheard :: "pump \<Rightarrow> bool" where
  "unheard s \<longleftrightarrow> pp_events_open s \<and> \<not> pp_receiver s"

definition is_line :: "process_event \<Rightarrow> bool" where
  "is_line event = (case event of Stdout _ \<Rightarrow> True | Stderr _ \<Rightarrow> True | _ \<Rightarrow> False)"

inductive pump_step :: "pump_env \<Rightarrow> pump \<Rightarrow> pump \<Rightarrow> bool" for env where
  ticks: "pump_step env s (s\<lparr>pp_now := pp_now s + d\<rparr>)"
| requests: "pp_phase s \<noteq> Pumped \<Longrightarrow> pp_handles s \<Longrightarrow> length (pp_ctrl s) < CTRL_CAPACITY \<Longrightarrow>
    pump_step env s (s\<lparr>pp_ctrl := pp_ctrl s @ [c], pp_asked := pp_asked s @ [channel_of c]\<rparr>)"
| handles_gone: "pump_step env s (s\<lparr>pp_handles := False\<rparr>)"
| receiver_gone: "pump_step env s (s\<lparr>pp_receiver := False\<rparr>)"
| writer_takes: "pump_step env s (stdin_takes s)"
| writer_flushed: "pump_step env s (stdin_flushed s)"
| writer_failed: "pump_step env s (stdin_failed s)"
| takes_ctrl: "pp_phase s \<noteq> Pumped \<Longrightarrow> pp_ctrl_open s \<Longrightarrow> pp_ctrl s = c # rest \<Longrightarrow>
    pump_step env s ((if pp_phase s = Flushing then id else loop_top env) (take_ctrl env c rest s))"
| ctrl_closed: "pp_phase s \<noteq> Pumped \<Longrightarrow> pp_ctrl_open s \<Longrightarrow> pp_ctrl s = [] \<Longrightarrow> \<not> pp_handles s \<Longrightarrow>
    pump_step env s ((if pp_phase s = Flushing then id else loop_top env) (s\<lparr>pp_ctrl_open := False\<rparr>))"
| kills: "pp_phase s \<noteq> Pumped \<Longrightarrow> \<not> ctrl_ready s \<Longrightarrow> due (pp_hard_kill_at s) s \<Longrightarrow>
    pump_step env s ((if pp_phase s = Flushing then id else loop_top env) (hard_kill env s))"
| finishes: "pp_phase s = Pumping \<Longrightarrow> \<not> urgent s \<Longrightarrow> pp_finish s = None \<Longrightarrow> pump_step env s (loop_top env (child_finished result s))"
| drops: "pp_phase s = Pumping \<Longrightarrow> \<not> urgent s \<Longrightarrow> stalled s \<Longrightarrow> pump_step env s (loop_top env (drop_pending s))"
| sends: "pp_phase s = Pumping \<Longrightarrow> \<not> urgent s \<Longrightarrow> \<not> stalled s \<Longrightarrow> pp_events_open s \<Longrightarrow> pp_receiver s \<Longrightarrow> \<not> pp_drop_output s \<Longrightarrow>
    pp_pending s = Some event \<Longrightarrow> pump_step env s (loop_top env (send_pending event s))"
| loses_receiver: "pp_phase s = Pumping \<Longrightarrow> \<not> urgent s \<Longrightarrow> \<not> stalled s \<Longrightarrow> unheard s \<Longrightarrow>
    pump_step env s (loop_top env (close_events s))"
| reads: "pp_phase s = Pumping \<Longrightarrow> \<not> urgent s \<Longrightarrow> pp_pending s = None \<Longrightarrow> \<not> unheard s \<Longrightarrow> is_line event \<Longrightarrow>
    pump_step env s (loop_top env (read_output event s))"
| ends_stream: "pp_phase s = Pumping \<Longrightarrow> \<not> urgent s \<Longrightarrow> pp_pending s = None \<Longrightarrow> \<not> unheard s \<Longrightarrow> pump_step env s (stream_ended s)"
| loses_receiver_late: "pp_phase s = Finishing \<Longrightarrow> \<not> urgent s \<Longrightarrow> unheard s \<Longrightarrow>
    pump_step env s (loop_top env (s\<lparr>pp_events_open := False\<rparr>))"
| finishes_late: "pp_phase s = Finishing \<Longrightarrow> \<not> urgent s \<Longrightarrow> \<not> unheard s \<Longrightarrow> pump_step env s (finish_late result s)"
| flushes: "pp_phase s = Flushing \<Longrightarrow> \<not> urgent s \<Longrightarrow> pp_receiver s \<Longrightarrow> pp_terminal s = event # rest \<Longrightarrow>
    pump_step env s (flush_one event rest s)"
| stops_flush: "pp_phase s = Flushing \<Longrightarrow> \<not> urgent s \<Longrightarrow> \<not> pp_receiver s \<or> due (pp_flush_at s) s \<Longrightarrow> pump_step env s (stop_flush s)"

inductive_cases pump_stepE: "pump_step env s t"

section \<open>Spawning\<close>

text \<open>\<open>spawn\<close> as the order of its effects; the answers are errors or their absence. A missing record is fatal for an epoch only,
  and then the tree is killed and the child reaped before the error is returned.\<close>

datatype pid_file = NoPidFile | LegacyPidFile | EpochPidFile

datatype spawn_action = ChildStarted | PidRecorded | TreeKilled | ChildReaped | PumpStarted

record engine_env =
  se_program :: string
  se_pid_file :: pid_file
  se_basename :: "string option"
  se_prepare :: "string option"
  se_group :: "string option"
  se_start :: "string option"
  se_pid :: "u32 option"
  se_write :: "string option"
  se_events :: "string option"

definition prepare_guard :: "engine_env \<Rightarrow> string option" where
  "prepare_guard v = (case se_pid_file v of
       NoPidFile \<Rightarrow> None
     | LegacyPidFile \<Rightarrow> se_prepare v
     | EpochPidFile \<Rightarrow> if se_basename v = None then Some ''epoch pid records require a UTF-8 executable basename'' else se_prepare v)"

definition open_events :: "engine_env \<Rightarrow> u32 \<Rightarrow> spawn_action list \<Rightarrow> (process_error + u32) \<times> spawn_action list" where
  "open_events v pid done_so_far = (case se_events v of
       Some e \<Rightarrow> (Inl (PEngine e), done_so_far)
     | None \<Rightarrow> (Inr pid, done_so_far @ [PumpStarted]))"

definition engine_spawn :: "engine_env \<Rightarrow> (process_error + u32) \<times> spawn_action list" where
  "engine_spawn v =
     (case prepare_guard v of Some e \<Rightarrow> (Inl (PIo e), []) | None \<Rightarrow>
      case se_group v of Some e \<Rightarrow> (Inl (PSpawn (se_program v) e), []) | None \<Rightarrow>
      case se_start v of Some e \<Rightarrow> (Inl (PSpawn (se_program v) e), []) | None \<Rightarrow>
      case se_pid v of None \<Rightarrow> (Inl (PEngine ''spawned process has no pid''), [ChildStarted]) | Some pid \<Rightarrow>
      if se_pid_file v = NoPidFile then open_events v pid [ChildStarted]
      else case se_write v of
          Some e \<Rightarrow> if se_pid_file v = EpochPidFile then (Inl (PIo e), [ChildStarted, TreeKilled, ChildReaped])
            else open_events v pid [ChildStarted]
        | None \<Rightarrow> open_events v pid [ChildStarted, PidRecorded])"

lemma engine_spawn_recorded:
  "case engine_spawn v of (Inr pid, done_so_far) \<Rightarrow> se_pid v = Some pid \<and> last done_so_far = PumpStarted
       \<and> (se_pid_file v = EpochPidFile \<longrightarrow> done_so_far = [ChildStarted, PidRecorded, PumpStarted])
     | (Inl _, done_so_far) \<Rightarrow> PumpStarted \<notin> set done_so_far"
  by (auto simp: engine_spawn_def open_events_def split: option.split if_split)

section \<open>The handle\<close>

text \<open>\<open>send_ctrl\<close>: the request could be put on the channel or not, its reply came or its channel was dropped.\<close>

definition idempotent_kill :: "ctrl \<Rightarrow> bool" where
  "idempotent_kill c = (case c of WriteStdin _ _ \<Rightarrow> False | _ \<Rightarrow> True)"

definition send_ctrl :: "ctrl \<Rightarrow> bool \<Rightarrow> (process_error + unit) option \<Rightarrow> (string + terminated_payload) option \<Rightarrow> process_error + unit" where
  "send_ctrl c sent answer terminated =
     (let gone = (if idempotent_kill c \<and> terminated \<noteq> None then Inr ()
                  else if idempotent_kill c then Inl PAlreadyExited else Inl PStdinUnavailable) in
      if \<not> sent then gone else case answer of Some r \<Rightarrow> r | None \<Rightarrow> gone)"

text \<open>\<open>wait\<close> in a state where the watch holds a value or its sender is dropped.\<close>

definition wait_result :: "(string + terminated_payload) option \<Rightarrow> process_error + terminated_payload" where
  "wait_result terminated = (case terminated of Some (Inl e) \<Rightarrow> Inl (PEngine e) | Some (Inr payload) \<Rightarrow> Inr payload
     | None \<Rightarrow> Inl (PEngine ''process pump task dropped''))"

definition handle_kill :: "ctrl \<Rightarrow> bool \<Rightarrow> (process_error + unit) option \<Rightarrow> (string + terminated_payload) option \<Rightarrow> process_error + unit" where
  "handle_kill c sent answer terminated = (case send_ctrl c sent answer terminated of Inl e \<Rightarrow> Inl e
     | Inr _ \<Rightarrow> (case wait_result terminated of Inl e \<Rightarrow> Inl e | Inr _ \<Rightarrow> Inr ()))"

definition pump_init :: "pump_env \<Rightarrow> pump \<Rightarrow> bool" where
  "pump_init env s \<longleftrightarrow> (\<exists>now timeout_at. s = pump_start env now timeout_at)"

section \<open>Frames\<close>

text \<open>A killing operation touches the deadline, the flags of the end, and the history; never what was read or sent.\<close>

definition output_part :: "pump \<Rightarrow> process_event option \<times> bool \<times> bool \<times> nat \<times> process_event list \<times> process_event list" where
  "output_part s = (pp_pending s, pp_events_open s, pp_drop_output s, pp_dropped s, pp_read s, pp_sent s)"

definition ending_part :: "pump \<Rightarrow> pump_phase \<times> finish_output option \<times> (string + terminated_payload) option \<times> bool
    \<times> process_event list \<times> process_event list" where
  "ending_part s = (pp_phase s, pp_finish s, pp_term s, pp_pid_cleaned s, pp_terminal s, pp_final s)"

definition request_part :: "pump \<Rightarrow> nat list \<times> ctrl list \<times> (nat \<times> (process_error + unit)) list \<times> (string \<times> nat) list
    \<times> (string \<times> nat) option" where
  "request_part s = (pp_asked s, pp_ctrl s, pp_replies s, pp_stdin_queue s, pp_writing s)"

lemmas parts = output_part_def ending_part_def request_part_def

lemma loop_top_parts [simp]:
  "output_part (loop_top env s) = output_part s" "ending_part (loop_top env s) = ending_part s"
  "request_part (loop_top env s) = request_part s" "pp_ctrl_open (loop_top env s) = pp_ctrl_open s"
  "pp_events_open (loop_top env s) = pp_events_open s" "pp_phase (loop_top env s) = pp_phase s"
  "pp_finish (loop_top env s) = pp_finish s" "pp_term (loop_top env s) = pp_term s" "pp_final (loop_top env s) = pp_final s"
  "pp_pid_cleaned (loop_top env s) = pp_pid_cleaned s" "pp_terminal (loop_top env s) = pp_terminal s"
  "pp_pending (loop_top env s) = pp_pending s" "pp_drop_output (loop_top env s) = pp_drop_output s" "pp_dropped (loop_top env s) = pp_dropped s"
  "pp_read (loop_top env s) = pp_read s" "pp_sent (loop_top env s) = pp_sent s"
  by (simp_all add: loop_top_def kill_all_def parts)

lemma hard_kill_parts [simp]:
  "output_part (hard_kill env s) = output_part s" "ending_part (hard_kill env s) = ending_part s"
  "request_part (hard_kill env s) = request_part s"
  by (simp_all add: hard_kill_def kill_all_def start_stall_def parts Let_def)

lemma handle_ctrl_parts:
  assumes "handle_ctrl env c s = (handled, t)"
  shows "output_part t = output_part s" "ending_part t = ending_part s" "pp_ctrl_open t = pp_ctrl_open s" "pp_abandoned t = pp_abandoned s"
  using assms by (auto simp: handle_ctrl_def kill_all_def reply_def parts Let_def split: ctrl.splits if_splits)

lemma start_stall_parts [simp]:
  "output_part (start_stall s) = output_part s" "ending_part (start_stall s) = ending_part s" "request_part (start_stall s) = request_part s"
  "pp_kills (start_stall s) = pp_kills s" "pp_hard_kill_at (start_stall s) = pp_hard_kill_at s" "pp_abandoned (start_stall s) = pp_abandoned s"
  "pp_ctrl_open (start_stall s) = pp_ctrl_open s"
  by (simp_all add: start_stall_def parts)

lemma take_ctrl_parts [simp]:
  "output_part (take_ctrl env c rest s) = output_part s" "ending_part (take_ctrl env c rest s) = ending_part s"
  "pp_ctrl_open (take_ctrl env c rest s) = pp_ctrl_open s" "pp_abandoned (take_ctrl env c rest s) = pp_abandoned s"
proof -
  obtain handled t where h: "handle_ctrl env c (s\<lparr>pp_ctrl := rest\<rparr>) = (handled, t)" by (rule prod.exhaust)
  have "output_part (t\<lparr>pp_dying := True\<rparr>) = output_part t" "ending_part (t\<lparr>pp_dying := True\<rparr>) = ending_part t" by (simp_all add: parts)
  moreover have "output_part t = output_part s" "ending_part t = ending_part s" "pp_ctrl_open t = pp_ctrl_open s" "pp_abandoned t = pp_abandoned s"
    using handle_ctrl_parts [OF h] by (simp_all add: parts)
  ultimately show "output_part (take_ctrl env c rest s) = output_part s" "ending_part (take_ctrl env c rest s) = ending_part s"
    "pp_ctrl_open (take_ctrl env c rest s) = pp_ctrl_open s" "pp_abandoned (take_ctrl env c rest s) = pp_abandoned s"
    by (simp_all add: take_ctrl_def h)
qed

section \<open>Every line is delivered or counted\<close>

definition output_ok :: "pump \<Rightarrow> bool" where
  "output_ok s \<longleftrightarrow> (case pp_pending s of
       Some event \<Rightarrow> pp_phase s = Pumping \<and> \<not> pp_drop_output s \<and> pp_read s = pp_sent s @ [event]
     | None \<Rightarrow> prefix (pp_sent s) (pp_read s) \<and> (pp_events_open s \<longrightarrow> length (pp_read s) = length (pp_sent s) + pp_dropped s))
   \<and> (pp_drop_output s \<or> pp_dropped s = 0) \<and> list_all is_line (pp_read s)"

lemma output_ok_cong: "output_part t = output_part s \<Longrightarrow> ending_part t = ending_part s \<Longrightarrow> output_ok t = output_ok s"
  by (simp add: output_ok_def parts split: option.split)

text \<open>What is left to say is what the source puts in the queue, and the notice names the number of dropped lines.\<close>

definition ending_ok :: "pump \<Rightarrow> bool" where
  "ending_ok s \<longleftrightarrow> (case pp_phase s of
       Pumping \<Rightarrow> pp_term s = map_option watch_value (pp_finish s) \<and> pp_final s = [] \<and> \<not> pp_pid_cleaned s
     | Finishing \<Rightarrow> pp_finish s = None \<and> pp_term s = None \<and> pp_final s = [] \<and> \<not> pp_pid_cleaned s
     | _ \<Rightarrow> (case pp_finish s of None \<Rightarrow> False | Some out \<Rightarrow> pp_term s = Some (watch_value out) \<and> pp_pid_cleaned s
          \<and> pp_final s @ pp_terminal s = terminal_events out (pp_dropped s)
          \<and> (pp_phase s = Flushing \<longrightarrow> pp_events_open s \<and> pp_terminal s \<noteq> [])
          \<and> (pp_phase s = Pumped \<and> pp_events_open s \<longrightarrow> pp_terminal s = [])))"

lemma ending_ok_cong: "output_part t = output_part s \<Longrightarrow> ending_part t = ending_part s \<Longrightarrow> ending_ok t = ending_ok s"
  by (simp add: ending_ok_def parts split: option.split pump_phase.split)

lemma terminal_events_nonempty [simp]: "terminal_events out n \<noteq> []"
  by (simp add: terminal_events_def)

text \<open>The steps that leave output and ending alone: those of the callers, of the clock, of the writer, and the killing ones.\<close>

lemma loop_head_parts [simp]:
  "output_part ((if b then id else loop_top env) s) = output_part s" "ending_part ((if b then id else loop_top env) s) = ending_part s"
  "request_part ((if b then id else loop_top env) s) = request_part s"
  by simp_all

lemma writer_parts [simp]:
  "output_part (stdin_takes s) = output_part s" "ending_part (stdin_takes s) = ending_part s"
  "output_part (stdin_flushed s) = output_part s" "ending_part (stdin_flushed s) = ending_part s"
  "output_part (stdin_failed s) = output_part s" "ending_part (stdin_failed s) = ending_part s"
  by (auto simp: stdin_takes_def stdin_flushed_def stdin_failed_def reply_def parts split: list.split option.split)

lemma output_ok_loop [simp]: "output_ok (loop_top env s) = output_ok s"
  by (rule output_ok_cong) simp_all

lemma ending_ok_loop [simp]: "ending_ok (loop_top env s) = ending_ok s"
  by (rule ending_ok_cong) simp_all

definition quiet :: "pump \<Rightarrow> pump \<Rightarrow> bool" where
  "quiet s t \<longleftrightarrow> output_part t = output_part s \<and> ending_part t = ending_part s"

lemma quiet_ok: "quiet s t \<Longrightarrow> output_ok t = output_ok s" "quiet s t \<Longrightarrow> ending_ok t = ending_ok s"
  unfolding quiet_def by (erule conjE, erule (1) output_ok_cong) (erule conjE, erule (1) ending_ok_cong)

lemma finish_part [simp]:
  "output_part (s\<lparr>pp_term := x, pp_finish := y\<rparr>) = output_part s" "output_part (s\<lparr>pp_dying := True\<rparr>) = output_part s"
  by (simp_all add: parts)

lemma quiet_refl [simp]: "quiet s s"
  by (simp add: quiet_def)

lemma quiet_parts: "output_part t = output_part s \<Longrightarrow> ending_part t = ending_part s \<Longrightarrow> quiet s ((if b then id else loop_top env) t)"
  by (simp add: quiet_def)

lemma update_parts [simp]:
  "output_part (s\<lparr>pp_ctrl_open := b\<rparr>) = output_part s" "ending_part (s\<lparr>pp_ctrl_open := b\<rparr>) = ending_part s"
  "output_part (s\<lparr>pp_now := n\<rparr>) = output_part s" "ending_part (s\<lparr>pp_now := n\<rparr>) = ending_part s"
  "output_part (s\<lparr>pp_handles := b\<rparr>) = output_part s" "ending_part (s\<lparr>pp_handles := b\<rparr>) = ending_part s"
  "output_part (s\<lparr>pp_receiver := b\<rparr>) = output_part s" "ending_part (s\<lparr>pp_receiver := b\<rparr>) = ending_part s"
  "output_part (s\<lparr>pp_ctrl := cs, pp_asked := ns\<rparr>) = output_part s" "ending_part (s\<lparr>pp_ctrl := cs, pp_asked := ns\<rparr>) = ending_part s"
  by (simp_all add: parts)

lemma quiet_updates:
  "quiet s (s\<lparr>pp_now := n\<rparr>)" "quiet s (s\<lparr>pp_ctrl := cs, pp_asked := ns\<rparr>)" "quiet s (s\<lparr>pp_handles := b\<rparr>)" "quiet s (s\<lparr>pp_receiver := b\<rparr>)"
  "quiet s (stdin_takes s)" "quiet s (stdin_flushed s)" "quiet s (stdin_failed s)"
  "quiet s ((if c then id else loop_top env) (take_ctrl env r rest s))" "quiet s ((if c then id else loop_top env) (hard_kill env s))"
  "quiet s ((if c then id else loop_top env) (s\<lparr>pp_ctrl_open := b\<rparr>))"
  by (simp_all add: quiet_def)

text \<open>The cases of a step: quiet, or one of the arms that move output or the end.\<close>

lemma pump_step_arms:
  assumes "pump_step env s t"
  obtains "quiet s t"
    | result where "pp_phase s = Pumping" "pp_finish s = None" "t = loop_top env (child_finished result s)"
    | "pp_phase s = Pumping" "stalled s" "t = loop_top env (drop_pending s)"
    | event where "pp_phase s = Pumping" "pp_events_open s" "pp_pending s = Some event" "t = loop_top env (send_pending event s)"
    | "pp_phase s = Pumping" "t = loop_top env (close_events s)"
    | event where "pp_phase s = Pumping" "pp_pending s = None" "is_line event" "t = loop_top env (read_output event s)"
    | "pp_phase s = Pumping" "pp_pending s = None" "t = stream_ended s"
    | "pp_phase s = Finishing" "t = loop_top env (s\<lparr>pp_events_open := False\<rparr>)"
    | result where "pp_phase s = Finishing" "t = finish_late result s"
    | event rest where "pp_phase s = Flushing" "pp_terminal s = event # rest" "t = flush_one event rest s"
    | "pp_phase s = Flushing" "t = stop_flush s"
  using assms
proof (cases rule: pump_step.cases)
  case finishes
  then show thesis by (intro that(2))
next
  case drops
  then show thesis by (intro that(3))
next
  case sends
  then show thesis by (intro that(4))
next
  case loses_receiver
  then show thesis by (intro that(5))
next
  case reads
  then show thesis by (intro that(6))
next
  case ends_stream
  then show thesis by (intro that(7))
next
  case loses_receiver_late
  then show thesis by (intro that(8))
next
  case finishes_late
  then show thesis by (intro that(9))
next
  case flushes
  then show thesis by (intro that(10))
next
  case stops_flush
  then show thesis by (intro that(11))
qed (rule that(1), simp only: quiet_updates)+

lemma read_output_ok: "output_ok s \<Longrightarrow> pp_phase s = Pumping \<Longrightarrow> pp_pending s = None \<Longrightarrow> is_line event \<Longrightarrow> output_ok (read_output event s)"
  by (auto simp: output_ok_def read_output_def Let_def prefix_def)

lemma output_ok_step:
  assumes "output_ok s" "pump_step env s t"
  shows "output_ok t"
  using assms(2)
proof (cases rule: pump_step_arms)
  case 1
  then show ?thesis using assms(1) quiet_ok(1) by blast
next
  case (2 result)
  have "output_part (child_finished result s) = output_part s" "pp_phase (child_finished result s) = pp_phase s"
    by (simp_all add: child_finished_def Let_def start_stall_def parts)
  then have "output_ok (child_finished result s)" using assms(1) by (simp add: output_ok_def parts split: option.splits)
  then show ?thesis by (simp add: 2(3))
next
  case 3
  then show ?thesis using assms(1) by (auto simp: output_ok_def drop_pending_def stalled_def Let_def)
next
  case (4 event)
  then show ?thesis using assms(1) by (auto simp: output_ok_def send_pending_def)
next
  case 5
  then show ?thesis using assms(1) by (auto simp: output_ok_def close_events_def split: option.splits)
next
  case (6 event)
  then show ?thesis using assms(1) read_output_ok by simp
next
  case 7
  then show ?thesis using assms(1) by (auto simp: output_ok_def stream_ended_def begin_flush_def split: option.splits)
next
  case 8
  then show ?thesis using assms(1) by (auto simp: output_ok_def split: option.splits)
next
  case (9 result)
  then show ?thesis using assms(1) by (auto simp: output_ok_def finish_late_def begin_flush_def Let_def split: option.splits)
next
  case (10 event rest)
  then show ?thesis using assms(1) by (auto simp: output_ok_def flush_one_def split: option.splits)
next
  case 11
  then show ?thesis using assms(1) by (auto simp: output_ok_def stop_flush_def split: option.splits)
qed

lemma ending_ok_step:
  assumes "ending_ok s" "pump_step env s t"
  shows "ending_ok t"
  using assms(2)
proof (cases rule: pump_step_arms)
  case 1
  then show ?thesis using assms(1) quiet_ok(2) by blast
next
  case (2 result)
  then show ?thesis using assms(1) by (simp add: ending_ok_def child_finished_def Let_def start_stall_def)
next
  case 3
  then show ?thesis using assms(1) by (simp add: ending_ok_def drop_pending_def Let_def split: option.split)
next
  case (4 event)
  then show ?thesis using assms(1) by (simp add: ending_ok_def send_pending_def)
next
  case 5
  then show ?thesis using assms(1) by (simp add: ending_ok_def close_events_def)
next
  case (6 event)
  then show ?thesis using assms(1) by (simp add: ending_ok_def read_output_def Let_def)
next
  case 7
  then show ?thesis using assms(1) by (auto simp: ending_ok_def stream_ended_def begin_flush_def split: option.splits)
next
  case 8
  then show ?thesis using assms(1) by (simp add: ending_ok_def)
next
  case (9 result)
  then show ?thesis using assms(1) by (simp add: ending_ok_def finish_late_def begin_flush_def Let_def)
next
  case (10 event rest)
  then show ?thesis using assms(1) by (auto simp: ending_ok_def flush_one_def split: option.splits)
next
  case 11
  then show ?thesis using assms(1) by (auto simp: ending_ok_def stop_flush_def split: option.splits)
qed

section \<open>Requests are answered\<close>

text \<open>A request waits on the control channel, waits for the writer, or was answered, and it was answered once.\<close>

definition channels_of :: "pump \<Rightarrow> nat multiset" where
  "channels_of s = mset (map fst (pp_replies s)) + mset (map channel_of (pp_ctrl s)) + mset (map snd (pp_stdin_queue s))
     + (case pp_writing s of None \<Rightarrow> {#} | Some (_, channel) \<Rightarrow> {#channel#})"

definition requests_ok :: "pump \<Rightarrow> bool" where
  "requests_ok s \<longleftrightarrow> channels_of s = mset (pp_asked s) \<and> length (pp_ctrl s) \<le> CTRL_CAPACITY \<and> length (pp_stdin_queue s) \<le> STDIN_CAPACITY"

lemma requests_ok_cong: "request_part t = request_part s \<Longrightarrow> requests_ok t = requests_ok s"
  by (simp add: requests_ok_def channels_of_def request_part_def)

lemma handle_ctrl_channels:
  assumes "handle_ctrl env c s = (handled, t)"
  shows "channels_of t = add_mset (channel_of c) (channels_of s)" "pp_ctrl t = pp_ctrl s" "pp_asked t = pp_asked s"
    "length (pp_stdin_queue s) \<le> STDIN_CAPACITY \<Longrightarrow> length (pp_stdin_queue t) \<le> STDIN_CAPACITY"
  using assms by (auto simp: handle_ctrl_def kill_all_def reply_def channels_of_def Let_def split: ctrl.splits if_splits option.splits)

lemma take_ctrl_requests:
  assumes "requests_ok s" "pp_ctrl s = c # rest"
  shows "requests_ok (take_ctrl env c rest s)"
proof -
  obtain handled t where h: "handle_ctrl env c (s\<lparr>pp_ctrl := rest\<rparr>) = (handled, t)" by (rule prod.exhaust)
  have "add_mset (channel_of c) (channels_of (s\<lparr>pp_ctrl := rest\<rparr>)) = channels_of s" using assms(2) by (simp add: channels_of_def)
  then have "requests_ok t" using handle_ctrl_channels [OF h] assms by (simp add: requests_ok_def)
  moreover have "requests_ok (start_stall (t\<lparr>pp_dying := True\<rparr>)) = requests_ok t" by (rule requests_ok_cong) (simp add: request_part_def start_stall_def)
  ultimately show ?thesis by (simp add: take_ctrl_def h)
qed

lemma writer_requests:
  assumes "requests_ok s"
  shows "requests_ok (stdin_takes s)" "requests_ok (stdin_flushed s)" "requests_ok (stdin_failed s)"
  using assms by (auto simp: requests_ok_def channels_of_def stdin_takes_def stdin_flushed_def stdin_failed_def reply_def
      case_prod_unfold multiset.map_comp o_def ac_simps add_mset_commute split: list.splits option.splits)

lemma arms_requests [simp]:
  "request_part (child_finished result s) = request_part s" "request_part (drop_pending s) = request_part s"
  "request_part (send_pending event s) = request_part s" "request_part (close_events s) = request_part s"
  "request_part (read_output event s) = request_part s" "request_part (stream_ended s) = request_part s"
  "request_part (finish_late result s) = request_part s" "request_part (flush_one event rest s) = request_part s"
  "request_part (stop_flush s) = request_part s"
  by (simp_all add: child_finished_def start_stall_def drop_pending_def send_pending_def close_events_def read_output_def stream_ended_def
      finish_late_def begin_flush_def flush_one_def stop_flush_def request_part_def Let_def split: option.split)

lemma requests_ok_loop [simp]: "requests_ok (loop_top env s) = requests_ok s" "requests_ok ((if b then id else loop_top env) s) = requests_ok s"
  by (rule requests_ok_cong, simp)+

lemma requests_ok_arms [simp]:
  "requests_ok (child_finished result s) = requests_ok s" "requests_ok (drop_pending s) = requests_ok s"
  "requests_ok (send_pending event s) = requests_ok s" "requests_ok (close_events s) = requests_ok s"
  "requests_ok (read_output event s) = requests_ok s" "requests_ok (stream_ended s) = requests_ok s"
  "requests_ok (finish_late result s) = requests_ok s" "requests_ok (flush_one event rest s) = requests_ok s"
  "requests_ok (stop_flush s) = requests_ok s" "requests_ok (hard_kill env s) = requests_ok s"
  by (rule requests_ok_cong, simp)+

lemma requests_ok_updates [simp]:
  "requests_ok (s\<lparr>pp_now := n\<rparr>) = requests_ok s" "requests_ok (s\<lparr>pp_handles := b\<rparr>) = requests_ok s"
  "requests_ok (s\<lparr>pp_receiver := b\<rparr>) = requests_ok s" "requests_ok (s\<lparr>pp_ctrl_open := b\<rparr>) = requests_ok s"
  "requests_ok (s\<lparr>pp_events_open := b\<rparr>) = requests_ok s"
  by (rule requests_ok_cong, simp add: request_part_def)+

lemma requests_ok_step:
  assumes "requests_ok s" "pump_step env s t"
  shows "requests_ok t"
  using assms(2)
proof (cases rule: pump_step.cases)
  case (requests c)
  then show ?thesis using assms(1) by (simp add: requests_ok_def channels_of_def)
next
  case (takes_ctrl c rest)
  then show ?thesis using take_ctrl_requests [OF assms(1)] by simp
qed (use assms(1) writer_requests in \<open>simp_all only: requests_ok_loop requests_ok_arms requests_ok_updates\<close>)

section \<open>Kills\<close>

text \<open>Between two states a kill of the whole tree was attempted, or the deadline of the next one was kept or brought forward.\<close>

definition kill_nearer :: "pump \<Rightarrow> pump \<Rightarrow> bool" where
  "kill_nearer s t \<longleftrightarrow> pp_kills s < pp_kills t \<or> pp_kills t = pp_kills s
     \<and> (case pp_hard_kill_at s of None \<Rightarrow> True | Some d \<Rightarrow> (case pp_hard_kill_at t of None \<Rightarrow> False | Some d' \<Rightarrow> d' \<le> d))"

lemma kill_nearer_refl [simp]: "kill_nearer s s"
  by (simp add: kill_nearer_def split: option.split)

lemma kill_nearer_same: "pp_kills t = pp_kills s \<Longrightarrow> pp_hard_kill_at t = pp_hard_kill_at s \<Longrightarrow> kill_nearer s t"
  by (simp add: kill_nearer_def split: option.split)

lemma kill_nearer_trans: "kill_nearer s t \<Longrightarrow> kill_nearer t u \<Longrightarrow> kill_nearer s u"
  by (auto simp: kill_nearer_def split: option.splits)

lemma kill_nearer_loop: "kill_nearer s t \<Longrightarrow> kill_nearer s ((if b then id else loop_top env) t)" "kill_nearer s t \<Longrightarrow> kill_nearer s (loop_top env t)"
  by (auto simp: kill_nearer_def loop_top_def kill_all_def split: option.splits)

lemma hard_kill_nearer: "kill_nearer s (hard_kill env s)"
  by (simp add: kill_nearer_def hard_kill_def kill_all_def Let_def)

lemma handle_ctrl_nearer:
  assumes "handle_ctrl env c s = (handled, t)"
  shows "kill_nearer s t"
  using assms by (auto simp: kill_nearer_def handle_ctrl_def kill_all_def reply_def Let_def split: ctrl.splits if_splits option.splits)

lemma take_ctrl_nearer: "kill_nearer s (take_ctrl env c rest s)"
proof -
  obtain handled t where h: "handle_ctrl env c (s\<lparr>pp_ctrl := rest\<rparr>) = (handled, t)" by (rule prod.exhaust)
  have "kill_nearer s (s\<lparr>pp_ctrl := rest\<rparr>)" by (rule kill_nearer_same) simp_all
  then have "kill_nearer s t" using handle_ctrl_nearer [OF h] kill_nearer_trans by blast
  then have "kill_nearer s (start_stall (t\<lparr>pp_dying := True\<rparr>))" by (rule kill_nearer_trans) (rule kill_nearer_same, simp_all)
  with \<open>kill_nearer s t\<close> show ?thesis by (simp add: take_ctrl_def h)
qed

lemma arms_nearer:
  "kill_nearer s (child_finished result s)" "kill_nearer s (drop_pending s)" "kill_nearer s (send_pending event s)"
  "kill_nearer s (close_events s)" "kill_nearer s (read_output event s)" "kill_nearer s (stream_ended s)" "kill_nearer s (finish_late result s)"
  "kill_nearer s (flush_one event rest s)" "kill_nearer s (stop_flush s)" "kill_nearer s (stdin_takes s)" "kill_nearer s (stdin_flushed s)"
  "kill_nearer s (stdin_failed s)" "kill_nearer s (s\<lparr>pp_events_open := b\<rparr>)" "kill_nearer s (s\<lparr>pp_ctrl_open := b\<rparr>)"
  by (auto intro!: kill_nearer_same simp: child_finished_def start_stall_def drop_pending_def send_pending_def close_events_def
      read_output_def stream_ended_def finish_late_def begin_flush_def flush_one_def stop_flush_def stdin_takes_def stdin_flushed_def
      stdin_failed_def reply_def Let_def split: option.split list.split)

lemmas nearer_intros = kill_nearer_loop arms_nearer hard_kill_nearer take_ctrl_nearer

lemma kill_nearer_step: "pump_step env s t \<Longrightarrow> kill_nearer s t"
proof (induction rule: pump_step.induct)
  case (ticks s d)
  show ?case by (rule kill_nearer_same) simp_all
next
  case (requests s c)
  show ?case by (rule kill_nearer_same) simp_all
next
  case (handles_gone s)
  show ?case by (rule kill_nearer_same) simp_all
next
  case (receiver_gone s)
  show ?case by (rule kill_nearer_same) simp_all
qed (intro nearer_intros)+

text \<open>Nobody listens and nobody can ask: then the tree has been killed.\<close>

definition abandon_ok :: "pump \<Rightarrow> bool" where
  "abandon_ok s \<longleftrightarrow> (pp_phase s = Pumping \<or> pp_phase s = Finishing \<longrightarrow> pp_events_open s \<or> pp_ctrl_open s \<or> pp_abandoned s)
     \<and> (pp_abandoned s \<longrightarrow> 0 < pp_kills s)"

lemma abandon_ok_loop: "(pp_abandoned s \<longrightarrow> 0 < pp_kills s) \<Longrightarrow> abandon_ok (loop_top env s)"
  by (auto simp: abandon_ok_def loop_top_def kill_all_def)

lemma abandon_ok_arm:
  assumes "abandon_ok s" "pp_abandoned t = pp_abandoned s" "kill_nearer s t"
  shows "abandon_ok (loop_top env t)"
  using assms by (intro abandon_ok_loop) (auto simp: abandon_ok_def kill_nearer_def)

lemma abandon_ok_head:
  assumes "abandon_ok s" "pp_abandoned t = pp_abandoned s" "kill_nearer s t" "pp_phase t = pp_phase s"
  shows "abandon_ok ((if pp_phase s = Flushing then id else loop_top env) t)"
proof (cases "pp_phase s = Flushing")
  case True
  have "pp_kills s \<le> pp_kills t" using assms(3) by (auto simp: kill_nearer_def)
  then have "abandon_ok t" using assms(1,2,4) True by (auto simp: abandon_ok_def)
  with True show ?thesis by simp
next
  case False
  with abandon_ok_arm [OF assms(1,2,3)] show ?thesis by simp
qed

lemma abandoned_kept [simp]:
  "pp_abandoned (hard_kill env s) = pp_abandoned s" "pp_abandoned (child_finished result s) = pp_abandoned s"
  "pp_abandoned (drop_pending s) = pp_abandoned s" "pp_abandoned (send_pending event s) = pp_abandoned s"
  "pp_abandoned (close_events s) = pp_abandoned s" "pp_abandoned (read_output event s) = pp_abandoned s"
  by (simp_all add: hard_kill_def kill_all_def child_finished_def drop_pending_def send_pending_def close_events_def read_output_def Let_def
      split: option.split)

lemma phase_kept [simp]: "pp_phase (take_ctrl env c rest s) = pp_phase s" "pp_phase (hard_kill env s) = pp_phase s"
  using take_ctrl_parts(2) [of env c rest s] hard_kill_parts(2) [of env s] by (simp_all add: ending_part_def)

lemma abandon_ok_step:
  assumes "abandon_ok s" "pump_step env s t"
  shows "abandon_ok t"
  using assms(2)
proof (cases rule: pump_step.cases)
  case takes_ctrl
  then show ?thesis using abandon_ok_head [OF assms(1) _ take_ctrl_nearer] by simp
next
  case ctrl_closed
  then show ?thesis using abandon_ok_head [OF assms(1) _ arms_nearer(14)] by simp
next
  case kills
  then show ?thesis using abandon_ok_head [OF assms(1) _ hard_kill_nearer] by simp
next
  case (finishes result)
  then show ?thesis using abandon_ok_arm [OF assms(1) _ arms_nearer(1)] by simp
next
  case drops
  then show ?thesis using abandon_ok_arm [OF assms(1) _ arms_nearer(2)] by simp
next
  case (sends event)
  then show ?thesis using abandon_ok_arm [OF assms(1) _ arms_nearer(3)] by simp
next
  case loses_receiver
  then show ?thesis using abandon_ok_arm [OF assms(1) _ arms_nearer(4)] by simp
next
  case (reads event)
  then show ?thesis using abandon_ok_arm [OF assms(1) _ arms_nearer(5)] by simp
next
  case loses_receiver_late
  then show ?thesis using abandon_ok_arm [OF assms(1) _ arms_nearer(13)] by simp
qed (use assms(1) in \<open>auto simp: abandon_ok_def stdin_takes_def stdin_flushed_def stdin_failed_def reply_def stream_ended_def finish_late_def
      begin_flush_def flush_one_def stop_flush_def Let_def split: option.splits list.splits if_splits\<close>)

section \<open>The contract of the pump\<close>

definition pump_ok :: "pump \<Rightarrow> bool" where
  "pump_ok s \<longleftrightarrow> output_ok s \<and> ending_ok s \<and> requests_ok s \<and> abandon_ok s"

interpretation pumping: invariant_system "pump_init env" "pump_step env" pump_ok for env
proof unfold_locales
  fix s assume "pump_init env s"
  then show "pump_ok s"
    by (auto simp: pump_init_def pump_start_def pump_ok_def output_ok_def ending_ok_def requests_ok_def channels_of_def abandon_ok_def)
next
  fix s t assume "pump_ok s" "pump_step env s t"
  then show "pump_ok t" unfolding pump_ok_def by (blast intro: output_ok_step ending_ok_step requests_ok_step abandon_ok_step)
qed

interpretation escalating: stable_property "pump_init env" "pump_step env" pump_ok "kill_nearer s" for env s
  by unfold_locales (blast intro: kill_nearer_trans kill_nearer_step)

text \<open>The last lines of stderr come back as they were, but for a single empty one.\<close>

fun join_lines :: "string list \<Rightarrow> string" where
  "join_lines [] = []"
| "join_lines [line] = line"
| "join_lines (line # lines) = line @ CHR 0x0A # join_lines lines"

lemma split_newlines_line: "CHR 0x0A \<notin> set line \<Longrightarrow> split_newlines line = [line]"
  by (induction line) auto

lemma split_newlines_append: "CHR 0x0A \<notin> set line \<Longrightarrow> split_newlines (line @ CHR 0x0A # rest) = line # split_newlines rest"
  by (induction line) auto

lemma split_newlines_join: "lines \<noteq> [] \<Longrightarrow> \<forall>line\<in>set lines. CHR 0x0A \<notin> set line \<Longrightarrow> split_newlines (join_lines lines) = lines"
  by (induction lines rule: join_lines.induct) (auto simp: split_newlines_line split_newlines_append)

lemma join_lines_empty: "join_lines lines = [] \<longleftrightarrow> lines = [] \<or> lines = [[]]"
  by (cases lines rule: join_lines.cases) auto

lemma split_stderr_tail_join:
  "\<forall>line\<in>set lines. CHR 0x0A \<notin> set line \<Longrightarrow> split_stderr_tail (join_lines lines) = (if lines = [[]] then [] else lines)"
  using split_newlines_join [of lines] by (auto simp: split_stderr_tail_def join_lines_empty)

lemma pump_end:
  assumes "pump_ok s" "pp_phase s = Pumped"
  shows "\<exists>out. pp_finish s = Some out \<and> pp_term s = Some (watch_value out)
    \<and> (pp_events_open s \<longrightarrow> pp_final s = terminal_events out (length (pp_read s) - length (pp_sent s)))"
  using assms by (auto simp: pump_ok_def ending_ok_def output_ok_def split: option.splits)

text \<open>C22. Whatever callers, clock, child and receiver interleave: the receiver gets a prefix of what the child printed; a pump
  that ends with the receiver there has told it the rest of stderr, the exact number of lines it did not get, the error of the
  wait and, last, the end of the child; the pid record is removed only when the child was reaped and its end is known to every
  waiter; every request is answered once or still waits; a kill after the end succeeds; and when nobody listens and nobody can
  ask any more the tree has been killed.\<close>

theorem pump_reports_everything:
  assumes "reach (pump_init env) (pump_step env) s"
  shows "prefix (pp_sent s) (pp_read s)
    \<and> (pp_phase s = Pumped \<and> pp_events_open s \<longrightarrow>
        (\<exists>out. pp_finish s = Some out \<and> pp_final s = terminal_events out (length (pp_read s) - length (pp_sent s))))
    \<and> (pp_pid_cleaned s \<longrightarrow> pp_finish s \<noteq> None \<and> pp_term s = map_option watch_value (pp_finish s))
    \<and> channels_of s = mset (pp_asked s)
    \<and> (pp_phase s = Pumped \<longrightarrow> send_ctrl (KillNow n) False None (pp_term s) = Inr ())
    \<and> (pp_phase s \<in> {Pumping, Finishing} \<and> \<not> pp_events_open s \<and> \<not> pp_ctrl_open s \<longrightarrow> 0 < pp_kills s)"
proof -
  have ok: "pump_ok s" using pumping.reach_inv [OF assms] .
  have "prefix (pp_sent s) (pp_read s)" using ok by (auto simp: pump_ok_def output_ok_def split: option.splits)
  moreover have "pp_pid_cleaned s \<longrightarrow> pp_finish s \<noteq> None \<and> pp_term s = map_option watch_value (pp_finish s)"
    using ok by (auto simp: pump_ok_def ending_ok_def split: pump_phase.splits option.splits)
  moreover have "channels_of s = mset (pp_asked s)" using ok by (simp add: pump_ok_def requests_ok_def)
  moreover have "pp_phase s = Pumped \<longrightarrow> send_ctrl (KillNow n) False None (pp_term s) = Inr ()"
    using pump_end [OF ok] by (fastforce simp: send_ctrl_def idempotent_kill_def)
  moreover have "pp_phase s \<in> {Pumping, Finishing} \<and> \<not> pp_events_open s \<and> \<not> pp_ctrl_open s \<longrightarrow> 0 < pp_kills s"
    using ok by (auto simp: pump_ok_def abandon_ok_def)
  ultimately show ?thesis using pump_end [OF ok] by blast
qed

definition sample_pump_env :: pump_env where
  "sample_pump_env = \<lparr>pe_kill_error = (\<lambda>_. None), pe_signal_ok = (\<lambda>_. True), pe_stdin = True, pe_kill_grace = 5\<rparr>"

definition sample_exit :: finish_result where
  "sample_exit = FinishOk \<lparr>tp_code = Some 0, tp_signal = None\<rparr> ''bye''"

text \<open>The child prints one line, its receiver gets it, the child ends, and the receiver gets the rest.\<close>

definition sample_line :: pump where
  "sample_line = loop_top sample_pump_env (send_pending (Stdout ''hi'') (loop_top sample_pump_env
     (read_output (Stdout ''hi'') (pump_start sample_pump_env 0 None))))"

definition sample_over :: pump where
  "sample_over = stream_ended (loop_top sample_pump_env (child_finished sample_exit sample_line))"

definition sample_pumped :: pump where
  "sample_pumped = flush_one (Terminated \<lparr>tp_code = Some 0, tp_signal = None\<rparr>) [] (flush_one (Stderr ''bye'')
     [Terminated \<lparr>tp_code = Some 0, tp_signal = None\<rparr>] sample_over)"

lemmas sample_pump_defs = sample_pump_env_def sample_exit_def pump_start_def loop_top_def send_pending_def read_output_def
  child_finished_def start_stall_def stream_ended_def begin_flush_def flush_one_def terminal_events_def normalize_finish_def split_stderr_tail_def
  urgent_def ctrl_ready_def due_def stalled_def unheard_def is_line_def Let_def

lemma sample_line_reach: "reach (pump_init sample_pump_env) (pump_step sample_pump_env) sample_line"
proof -
  let ?s = "pump_start sample_pump_env 0 None" and ?e = "Stdout ''hi''"
  have "reach (pump_init sample_pump_env) (pump_step sample_pump_env) ?s" by (rule reach_init) (auto simp: pump_init_def)
  moreover have "pump_step sample_pump_env ?s (loop_top sample_pump_env (read_output ?e ?s))"
    by (rule pump_step.reads) (simp_all add: sample_pump_defs)
  moreover have "pump_step sample_pump_env (loop_top sample_pump_env (read_output ?e ?s)) sample_line"
    unfolding sample_line_def by (rule pump_step.sends) (simp_all add: sample_pump_defs)
  ultimately show ?thesis by (meson reach_step)
qed

lemma sample_pumped_reach: "reach (pump_init sample_pump_env) (pump_step sample_pump_env) sample_pumped"
proof -
  let ?f = "loop_top sample_pump_env (child_finished sample_exit sample_line)"
  let ?t = "Terminated \<lparr>tp_code = Some 0, tp_signal = None\<rparr>"
  have "pump_step sample_pump_env sample_line ?f"
    by (rule pump_step.finishes) (simp_all add: sample_line_def sample_pump_defs)
  moreover have "pump_step sample_pump_env ?f sample_over"
    unfolding sample_over_def by (rule pump_step.ends_stream) (simp_all add: sample_line_def sample_pump_defs)
  moreover have "pump_step sample_pump_env sample_over (flush_one (Stderr ''bye'') [?t] sample_over)"
    by (rule pump_step.flushes) (simp_all add: sample_over_def sample_line_def sample_pump_defs)
  moreover have "pump_step sample_pump_env (flush_one (Stderr ''bye'') [?t] sample_over) sample_pumped"
    unfolding sample_pumped_def by (rule pump_step.flushes) (simp_all add: sample_over_def sample_line_def sample_pump_defs)
  ultimately show ?thesis using sample_line_reach by (meson reach_step)
qed

theorem pump_reports_everything_witness:
  "pp_phase sample_pumped = Pumped \<and> pp_events_open sample_pumped \<and> prefix [Stdout ''hi''] (pp_read sample_pumped)
   \<and> last (pp_final sample_pumped) = Terminated \<lparr>tp_code = Some 0, tp_signal = None\<rparr>
   \<and> send_ctrl (KillNow 7) False None (pp_term sample_pumped) = Inr ()"
proof -
  have "pp_phase sample_pumped = Pumped" "pp_events_open sample_pumped" "pp_sent sample_pumped = [Stdout ''hi'']"
    by (simp_all add: sample_pumped_def sample_over_def sample_line_def sample_pump_defs)
  moreover have "pp_finish sample_pumped = Some (normalize_finish sample_exit)"
    by (simp add: sample_pumped_def sample_over_def sample_line_def sample_pump_defs)
  ultimately show ?thesis using pump_reports_everything [OF sample_pumped_reach, of 7]
    by (auto simp: terminal_events_def normalize_finish_def sample_exit_def)
qed


definition sample_asked :: pump where
  "sample_asked = sample_line\<lparr>pp_ctrl := pp_ctrl sample_line @ [GracefulKill 1], pp_asked := pp_asked sample_line @ [1]\<rparr>"

lemma sample_asked_reach: "reach (pump_init sample_pump_env) (pump_step sample_pump_env) sample_asked"
  using reach_step [OF sample_line_reach pump_step.requests [of sample_line sample_pump_env "GracefulKill 1"]]
  by (simp add: sample_asked_def sample_line_def sample_pump_defs CTRL_CAPACITY_def)


end
