(* ===== verification/Pid_Record.thy ===== *)
theory Pid_Record
  imports Digits
begin

text \<open>
  The record that ties a process to an epoch (\<open>chimera-utils/src/process/pid_file.rs\<close>): its text, the
  identity of a live process on each platform and the comparison that decides whether a process may be
  killed. System calls are functions of the number of calls made so far.
\<close>

section \<open>Errors\<close>

datatype io_kind =
    IoNotFound | IoPermissionDenied | IoAlreadyExists | IoInvalidInput | IoInvalidData | IoTimedOut | IoOther

record io_error =
  ie_kind :: io_kind
  ie_raw :: "nat option"
  ie_message :: string

definition io_error_new :: "io_kind \<Rightarrow> string \<Rightarrow> io_error" where
  "io_error_new kind message = \<lparr>ie_kind = kind, ie_raw = None, ie_message = message\<rparr>"

definition invalid_input :: "string \<Rightarrow> io_error" where
  "invalid_input message = io_error_new IoInvalidInput message"

definition invalid_data :: "string \<Rightarrow> io_error" where
  "invalid_data message = io_error_new IoInvalidData message"

definition identity_error :: "string \<Rightarrow> io_error" where
  "identity_error message = io_error_new IoPermissionDenied message"

section \<open>Paths\<close>

text \<open>Unix paths, compared by their components as \<open>std::path::Path\<close> compares them.\<close>

fun split_slash :: "string \<Rightarrow> string \<Rightarrow> string list" where
  "split_slash acc [] = [rev acc]"
| "split_slash acc (c # cs) = (if c = CHR ''/'' then rev acc # split_slash [] cs else split_slash (c # acc) cs)"

definition has_root :: "string \<Rightarrow> bool" where
  "has_root p \<longleftrightarrow> starts_with ''/'' p"

definition components :: "string \<Rightarrow> string list" where
  "components p = (let parts = filter (\<lambda>c. c \<noteq> []) (split_slash [] p) in case parts of
       [] \<Rightarrow> []
     | c # cs \<Rightarrow> (if c = ''.'' \<and> has_root p then [] else [c]) @ filter (\<lambda>c. c \<noteq> ''.'') cs)"

definition path_eq :: "string \<Rightarrow> string \<Rightarrow> bool" where
  "path_eq p q \<longleftrightarrow> has_root p = has_root q \<and> components p = components q"

definition path_parent :: "string \<Rightarrow> string option" where
  "path_parent p = (case components p of [] \<Rightarrow> None
     | cs \<Rightarrow> Some ((if has_root p then ''/'' else []) @ join_with ''/'' (butlast cs)))"

definition path_file_name :: "string \<Rightarrow> string option" where
  "path_file_name p = (case components p of [] \<Rightarrow> None
     | cs \<Rightarrow> if last cs = ''..'' \<or> last cs = ''.'' then None else Some (last cs))"

definition path_join :: "string \<Rightarrow> string \<Rightarrow> string" where
  "path_join p q = (if has_root q then q else if p = [] then q else if last p = CHR ''/'' then p @ q else p @ ''/'' @ q)"

section \<open>Records\<close>

datatype platform = Linux | Macos | Windows | Unix

record epoch_pid_file =
  ef_path :: string
  ef_epoch :: u64
  ef_runtime_config :: string

record epoch_pid_record =
  er_pid :: u32
  er_epoch :: u64
  er_executable :: string
  er_start_token :: u64
  er_runtime_config :: string

definition record_eq :: "epoch_pid_record \<Rightarrow> epoch_pid_record \<Rightarrow> bool" where
  "record_eq a b \<longleftrightarrow> er_pid a = er_pid b \<and> er_epoch a = er_epoch b \<and> er_executable a = er_executable b
     \<and> er_start_token a = er_start_token b \<and> path_eq (er_runtime_config a) (er_runtime_config b)"

section \<open>The text of a record\<close>

definition EPOCH_PID_VERSION :: nat where "EPOCH_PID_VERSION = 2"
definition EPOCH_PID_VERSION_DARWIN_PRECISE :: nat where "EPOCH_PID_VERSION_DARWIN_PRECISE = 3"
definition DARWIN_START_TOKEN_RADIX :: nat where "DARWIN_START_TOKEN_RADIX = 2 ^ 20"
definition DARWIN_MAX_SUBSECOND_MICROSECONDS :: nat where "DARWIN_MAX_SUBSECOND_MICROSECONDS = 1000000"

definition hex_encode :: "string \<Rightarrow> string" where
  "hex_encode bs = concat (map (\<lambda>b. [hex_digit (of_char b div 16), hex_digit (of_char b mod 16)]) bs)"

definition hex_nibble :: "char \<Rightarrow> io_error + nat" where
  "hex_nibble c = (if is_lower_hex c then Inr (hex_value c) else Inl (invalid_data ''invalid hex field''))"

fun hex_pairs :: "string \<Rightarrow> io_error + string" where
  "hex_pairs (a # b # cs) =
     and_then (hex_nibble a) (\<lambda>high. and_then (hex_nibble b) (\<lambda>low.
     and_then (hex_pairs cs) (\<lambda>rest. Inr (char_of (high * 16 + low) # rest))))"
| "hex_pairs _ = Inr []"

definition hex_decode :: "string \<Rightarrow> io_error + string" where
  "hex_decode value = (if odd (length value) then Inl (invalid_data ''hex field has odd length'') else hex_pairs value)"

definition serialize_epoch_record :: "platform \<Rightarrow> epoch_pid_record \<Rightarrow> io_error + string" where
  "serialize_epoch_record os r =
     (if \<not> utf8 (er_runtime_config r)
      then Inl (invalid_input ''runtime config path must be UTF-8 for an epoch pid record'')
      else let version = (if os = Macos \<and> 2 ^ 32 - 1 < unat (er_start_token r)
               then EPOCH_PID_VERSION_DARWIN_PRECISE else EPOCH_PID_VERSION);
             nl = [CHR 0x0A]
        in Inr (''version='' @ show_nat version @ nl @ ''pid='' @ show_nat (unat (er_pid r)) @ nl
          @ ''epoch='' @ show_nat (unat (er_epoch r)) @ nl @ ''executable='' @ hex_encode (er_executable r) @ nl
          @ ''start-token='' @ show_nat (unat (er_start_token r)) @ nl
          @ ''runtime-config='' @ hex_encode (er_runtime_config r) @ nl))"

fun record_fields :: "string list \<Rightarrow> (string \<times> string) list \<Rightarrow> io_error + (string \<times> string) list" where
  "record_fields [] acc = Inr acc"
| "record_fields (line # rest) acc = (case split_once ''='' line of
       None \<Rightarrow> Inl (invalid_data ''malformed epoch pid record line'')
     | Some (key, value) \<Rightarrow>
         if map_of acc key \<noteq> None then Inl (invalid_data ''duplicate epoch pid record field'')
         else record_fields rest ((key, value) # acc))"

definition record_keys :: "string list" where
  "record_keys = [''epoch'', ''executable'', ''pid'', ''runtime-config'', ''start-token'', ''version'']"

definition required :: "(string \<times> string) list \<Rightarrow> string \<Rightarrow> io_error + string" where
  "required fs key = (case map_of fs key of
       None \<Rightarrow> Inl (invalid_data (''missing epoch pid field `'' @ key @ ''`''))
     | Some value \<Rightarrow> Inr value)"

definition parse_field :: "(string \<Rightarrow> 'a option) \<Rightarrow> (string \<times> string) list \<Rightarrow> string \<Rightarrow> io_error + 'a" where
  "parse_field parse fs key = and_then (required fs key) (\<lambda>value. case parse value of
       None \<Rightarrow> Inl (invalid_data (''invalid epoch pid field `'' @ key @ ''`''))
     | Some x \<Rightarrow> Inr x)"

definition hex_text :: "(string \<times> string) list \<Rightarrow> string \<Rightarrow> string \<Rightarrow> io_error + string" where
  "hex_text fs key message = and_then (required fs key) (\<lambda>value. and_then (hex_decode value) (\<lambda>bs.
     if utf8 bs then Inr bs else Inl (invalid_data message)))"

text \<open>The version decides how precise the start token of a Darwin record is.\<close>

definition check_start_token :: "platform \<Rightarrow> nat \<Rightarrow> u64 \<Rightarrow> io_error + unit" where
  "check_start_token os version token =
     (if os \<noteq> Macos then Inr ()
      else if version = EPOCH_PID_VERSION \<and> 2 ^ 32 - 1 < unat token
      then Inl (invalid_data ''version-2 Darwin start token is not seconds'')
      else if version = EPOCH_PID_VERSION_DARWIN_PRECISE \<and> unat token \<le> 2 ^ 32 - 1
      then Inl (invalid_data ''version-3 Darwin start token lacks subsecond precision'')
      else if version = EPOCH_PID_VERSION_DARWIN_PRECISE
        \<and> DARWIN_MAX_SUBSECOND_MICROSECONDS \<le> unat token mod DARWIN_START_TOKEN_RADIX
      then Inl (invalid_data ''version-3 Darwin start token has invalid microseconds'')
      else Inr ())"

definition parse_epoch_record :: "platform \<Rightarrow> string \<Rightarrow> io_error + epoch_pid_record" where
  "parse_epoch_record os raw =
     and_then (record_fields (str_lines raw) []) (\<lambda>fs.
     if length fs \<noteq> length record_keys \<or> \<not> list_all (\<lambda>key. map_of fs key \<noteq> None) record_keys
     then Inl (invalid_data ''epoch pid record fields are incomplete'')
     else and_then (parse_field parse_u32 fs ''version'') (\<lambda>version.
     if unat version \<noteq> EPOCH_PID_VERSION \<and> \<not> (os = Macos \<and> unat version = EPOCH_PID_VERSION_DARWIN_PRECISE)
     then Inl (invalid_data (''unsupported epoch pid record version '' @ show_nat (unat version)))
     else and_then (hex_text fs ''executable'' ''epoch pid executable is not UTF-8'') (\<lambda>executable.
     and_then (hex_text fs ''runtime-config'' ''epoch pid runtime path is not UTF-8'') (\<lambda>runtime_config.
     and_then (parse_field parse_u64 fs ''start-token'') (\<lambda>start_token.
     and_then (check_start_token os (unat version) start_token) (\<lambda>_.
     and_then (parse_field parse_u32 fs ''pid'') (\<lambda>pid.
     and_then (parse_field parse_u64 fs ''epoch'') (\<lambda>epoch.
     Inr \<lparr>er_pid = pid, er_epoch = epoch, er_executable = executable, er_start_token = start_token,
          er_runtime_config = runtime_config\<rparr>))))))))"

section \<open>The identity of a process\<close>

record process_identity =
  pi_executable :: "string option"
  pi_start_token :: u64
  pi_legacy_start_token :: "u64 option"

datatype identity_match = Same | Reused | Ambiguous

definition ascii_lower :: "char \<Rightarrow> char" where
  "ascii_lower c = (if 65 \<le> (of_char c :: nat) \<and> (of_char c :: nat) \<le> 90 then char_of (of_char c + 32 :: nat) else c)"

definition exe_names_equal :: "platform \<Rightarrow> string \<Rightarrow> string \<Rightarrow> bool" where
  "exe_names_equal os left right \<longleftrightarrow>
     (if os = Windows then map ascii_lower left = map ascii_lower right else left = right)"

definition recorded_executable_matches :: "platform \<Rightarrow> string \<Rightarrow> string \<Rightarrow> bool" where
  "recorded_executable_matches os recorded observed \<longleftrightarrow>
     exe_names_equal os recorded observed
     \<or> os = Linux \<and> (case strip_suffix '' (deleted)'' observed of
         Some observed \<Rightarrow> exe_names_equal os recorded observed | None \<Rightarrow> False)"

definition compare_identity :: "platform \<Rightarrow> epoch_pid_record \<Rightarrow> process_identity \<Rightarrow> identity_match" where
  "compare_identity os r identity =
     (if pi_legacy_start_token identity = Some (er_start_token r) then Ambiguous
      else if er_start_token r \<noteq> pi_start_token identity then Reused
      else case pi_executable identity of
        Some executable \<Rightarrow> if recorded_executable_matches os (er_executable r) executable then Same else Ambiguous
      | None \<Rightarrow> Ambiguous)"

definition record_matches_identity :: "platform \<Rightarrow> epoch_pid_record \<Rightarrow> process_identity \<Rightarrow> bool" where
  "record_matches_identity os r identity \<longleftrightarrow> compare_identity os r identity = Same"

section \<open>Records are read back\<close>

lemma byte_nibbles: "(of_char b :: nat) div 16 < 16" "(of_char b :: nat) mod 16 < 16"
  by (rule less_mult_imp_div_less) simp_all

lemma hex_byte: "hex_nibble (hex_digit (of_char b div 16)) = Inr (of_char b div 16)"
  "hex_nibble (hex_digit (of_char b mod 16)) = Inr (of_char b mod 16)"
  using hex_digit_lower byte_nibbles by (auto simp: hex_nibble_def)

lemma hex_decode_encode [simp]: "hex_decode (hex_encode bs) = Inr bs"
proof -
  have "even (length (hex_encode bs))" "hex_pairs (hex_encode bs) = Inr bs"
    by (induction bs) (simp_all add: hex_encode_def hex_byte)
  then show ?thesis by (simp add: hex_decode_def)
qed

lemma hex_encode_lower: "list_all is_lower_hex (hex_encode bs)"
proof (induction bs)
  case (Cons b bs)
  then show ?case by (simp add: hex_encode_def hex_digit_lower byte_nibbles)
qed (simp add: hex_encode_def)

text \<open>A field of a record: its value has only digits and letters.\<close>

definition plain :: "string \<Rightarrow> bool" where
  "plain s \<longleftrightarrow> CHR 0x0A \<notin> set s \<and> CHR 0x0D \<notin> set s"

lemma plain_hex [simp]: "plain (hex_encode bs)" and plain_show_nat [simp]: "plain (show_nat n)"
  using hex_encode_lower [of bs] show_nat_digits [of n]
  by (auto simp: plain_def list_all_iff is_lower_hex_def is_digit_def)

lemma lines_from_plain:
  "plain (rev acc) \<Longrightarrow> plain s \<Longrightarrow> lines_from acc (s @ CHR 0x0A # rest) = (rev acc @ s) # lines_from [] rest"
proof (induction s arbitrary: acc)
  case Nil
  then show ?case by (cases acc) (auto simp: plain_def)
next
  case (Cons c s)
  then show ?case by (auto simp: plain_def)
qed

lemma str_lines_plain: "plain s \<Longrightarrow> str_lines (s @ CHR 0x0A # rest) = s # str_lines rest"
  using lines_from_plain [of "[]"] by (simp add: str_lines_def plain_def)

lemma str_lines_field:
  assumes "plain key" "plain value"
  shows "str_lines (key @ value @ [CHR 0x0A] @ rest) = (key @ value) # str_lines rest"
  using str_lines_plain [of "key @ value" rest] assms by (simp add: plain_def)

lemma str_lines_Nil [simp]: "str_lines [] = []"
  by (simp add: str_lines_def)

lemma split_once_key: "CHR ''='' \<notin> set key \<Longrightarrow> split_once ''='' ((key @ ''='') @ value) = Some (key, value)"
  by (induction key) (auto simp: starts_with_def)

lemma record_fields_key:
  assumes "CHR ''='' \<notin> set key" "map_of acc key = None"
  shows "record_fields (((key @ ''='') @ value) # rest) acc = record_fields rest ((key, value) # acc)"
  using assms split_once_key [of key "value"] by simp

text \<open>The version a record is written with, its lines and the fields they are read as.\<close>

definition record_version :: "platform \<Rightarrow> epoch_pid_record \<Rightarrow> nat" where
  "record_version os r = (if os = Macos \<and> 2 ^ 32 - 1 < unat (er_start_token r)
     then EPOCH_PID_VERSION_DARWIN_PRECISE else EPOCH_PID_VERSION)"

definition record_lines :: "nat \<Rightarrow> epoch_pid_record \<Rightarrow> string list" where
  "record_lines version r = [''version='' @ show_nat version, ''pid='' @ show_nat (unat (er_pid r)),
     ''epoch='' @ show_nat (unat (er_epoch r)), ''executable='' @ hex_encode (er_executable r),
     ''start-token='' @ show_nat (unat (er_start_token r)), ''runtime-config='' @ hex_encode (er_runtime_config r)]"

definition record_pairs :: "nat \<Rightarrow> epoch_pid_record \<Rightarrow> (string \<times> string) list" where
  "record_pairs version r = [(''runtime-config'', hex_encode (er_runtime_config r)),
     (''start-token'', show_nat (unat (er_start_token r))), (''executable'', hex_encode (er_executable r)),
     (''epoch'', show_nat (unat (er_epoch r))), (''pid'', show_nat (unat (er_pid r))), (''version'', show_nat version)]"

lemma serialize_lines:
  assumes "utf8 (er_runtime_config r)"
  obtains s where "serialize_epoch_record os r = Inr s" "str_lines s = record_lines (record_version os r) r"
proof -
  have plain: "plain ''version=''" "plain ''pid=''" "plain ''epoch=''" "plain ''executable=''" "plain ''start-token=''"
    "plain ''runtime-config=''" by (simp_all add: plain_def)
  have last: "str_lines (''runtime-config='' @ hex_encode (er_runtime_config r) @ [CHR 0x0A])
      = [''runtime-config='' @ hex_encode (er_runtime_config r)]"
    using str_lines_field [OF plain(6) plain_hex, of "er_runtime_config r" "[]"] by simp
  show thesis
    apply (rule that)
     apply (simp only: serialize_epoch_record_def assms not_True_eq_False if_False Let_def record_version_def [symmetric])
    apply (simp only: record_lines_def str_lines_field plain plain_hex plain_show_nat last)
    done
qed

lemma record_lines_fields: "record_fields (record_lines version r) [] = Inr (record_pairs version r)"
  using record_fields_key [of "''version''" "[]"] record_fields_key [of "''pid''"] record_fields_key [of "''epoch''"]
    record_fields_key [of "''executable''"] record_fields_key [of "''start-token''"] record_fields_key [of "''runtime-config''"]
  by (simp add: record_lines_def record_pairs_def)

lemma record_pairs_lookup:
  "map_of (record_pairs version r) ''version'' = Some (show_nat version)"
  "map_of (record_pairs version r) ''pid'' = Some (show_nat (unat (er_pid r)))"
  "map_of (record_pairs version r) ''epoch'' = Some (show_nat (unat (er_epoch r)))"
  "map_of (record_pairs version r) ''executable'' = Some (hex_encode (er_executable r))"
  "map_of (record_pairs version r) ''start-token'' = Some (show_nat (unat (er_start_token r)))"
  "map_of (record_pairs version r) ''runtime-config'' = Some (hex_encode (er_runtime_config r))"
  "length (record_pairs version r) = length record_keys"
  "list_all (\<lambda>key. map_of (record_pairs version r) key \<noteq> None) record_keys"
  by (simp_all add: record_pairs_def record_keys_def)

text \<open>C40. A record that is written can be read back: parsing the serialized text gives the record itself, on every
  platform, as long as its executable is text and a precise Darwin token has fewer than a million
  microseconds, which is how the platform makes them.\<close>

theorem epoch_record_roundtrip:
  assumes "utf8 (er_executable r)"
    and "os = Macos \<Longrightarrow> 2 ^ 32 - 1 < unat (er_start_token r) \<Longrightarrow>
      unat (er_start_token r) mod DARWIN_START_TOKEN_RADIX < DARWIN_MAX_SUBSECOND_MICROSECONDS"
  shows "case serialize_epoch_record os r of
      Inl _ \<Rightarrow> \<not> utf8 (er_runtime_config r)
    | Inr s \<Rightarrow> parse_epoch_record os s = Inr r"
proof (cases "utf8 (er_runtime_config r)")
  case True
  then obtain s where s: "serialize_epoch_record os r = Inr s" "str_lines s = record_lines (record_version os r) r"
    by (rule serialize_lines)
  let ?v = "record_version os r"
  have "?v = 2 \<or> ?v = 3"
    by (simp add: record_version_def EPOCH_PID_VERSION_def EPOCH_PID_VERSION_DARWIN_PRECISE_def)
  then have same: "unat (of_nat ?v :: u32) = ?v" by auto
  then have "parse_u32 (show_nat ?v) = Some (of_nat ?v)"
    using parse_u32_show_nat [of "of_nat ?v"] by simp
  note this same
  moreover have "check_start_token os ?v (er_start_token r) = Inr ()"
    using assms(2) by (auto simp: check_start_token_def record_version_def EPOCH_PID_VERSION_def EPOCH_PID_VERSION_DARWIN_PRECISE_def)
  moreover have "\<not> (?v \<noteq> EPOCH_PID_VERSION \<and> \<not> (os = Macos \<and> ?v = EPOCH_PID_VERSION_DARWIN_PRECISE))"
    by (simp add: record_version_def)
  ultimately have "parse_epoch_record os s = Inr r"
    using assms(1) True
    by (simp only: parse_epoch_record_def s(2) record_lines_fields record_pairs_lookup and_then_simps parse_field_def required_def
        hex_text_def hex_decode_encode option.case if_True if_False parse_u64_show_nat parse_u32_show_nat simp_thms) simp
  then show ?thesis using s by simp
qed (simp add: serialize_epoch_record_def)

definition sample_record :: epoch_pid_record where
  "sample_record = \<lparr>er_pid = 4711, er_epoch = 7, er_executable = ''mihomo'', er_start_token = 99,
     er_runtime_config = ''/run/config-7.yaml''\<rparr>"

theorem epoch_record_roundtrip_witness:
  "case serialize_epoch_record Linux sample_record of
     Inl _ \<Rightarrow> False | Inr s \<Rightarrow> parse_epoch_record Linux s = Inr sample_record"
proof -
  have "utf8 (er_executable sample_record)" "utf8 (er_runtime_config sample_record)"
    by (rule utf8_ascii, simp add: sample_record_def)+
  then show ?thesis using epoch_record_roundtrip [of sample_record Linux] by (simp split: sum.splits)
qed

end
