(* ===== verification/Pid_File.thy ===== *)
theory Pid_File
  imports Pid_Record Log_Text
begin

text \<open>
  Reaping what an earlier manager left running (\<open>chimera-utils/src/process/pid_file.rs\<close>). The process
  table and the files answer by the number of calls made so far, so everything may change between two
  calls. The trace keeps, newest first, what was asked, read, signalled and removed; it is history that
  no operation looks at.
\<close>

section \<open>The host\<close>

datatype file_type = PlainFile | SymbolicLink | OtherType | ReparsePoint

record proc_env =
  pv_platform :: platform
  pv_stat :: "nat \<Rightarrow> u32 \<Rightarrow> io_error + string"
  pv_exe :: "nat \<Rightarrow> u32 \<Rightarrow> io_error + string"
  pv_boot_id :: "nat \<Rightarrow> io_error + string"
  pv_start_time :: "nat \<Rightarrow> u32 \<Rightarrow> io_error + (u64 \<times> u32) option"
  pv_sysinfo :: "nat \<Rightarrow> u32 \<Rightarrow> (string option \<times> u64) option"
  pv_open :: "nat \<Rightarrow> u32 \<Rightarrow> io_error + unit"
  pv_handle_identity :: "nat \<Rightarrow> u32 \<Rightarrow> io_error + process_identity"
  pv_pidfd_open :: "nat \<Rightarrow> u32 \<Rightarrow> io_error + unit"
  pv_kill :: "nat \<Rightarrow> u32 \<Rightarrow> io_error + unit"
  pv_processes :: "nat \<Rightarrow> (u32 \<times> u32 option) list"
  pv_meta :: "nat \<Rightarrow> string \<Rightarrow> io_error + file_type"
  pv_read :: "nat \<Rightarrow> string \<Rightarrow> io_error + string"
  pv_remove :: "nat \<Rightarrow> string \<Rightarrow> io_error + unit"
  pv_canonicalize :: "nat \<Rightarrow> string \<Rightarrow> io_error + string"
  pv_try_exists :: "nat \<Rightarrow> string \<Rightarrow> io_error + bool"
  pv_create_new :: "nat \<Rightarrow> string \<Rightarrow> io_error + unit"
  pv_write :: "nat \<Rightarrow> string \<Rightarrow> string \<Rightarrow> io_error + unit"
  pv_sync :: "nat \<Rightarrow> string \<Rightarrow> io_error + unit"
  pv_move_new :: "nat \<Rightarrow> string \<Rightarrow> string \<Rightarrow> io_error + unit"
  pv_process_id :: u32

datatype event =
    Queried u32 "io_error + process_identity option"
  | Listed "(u32 \<times> u32 option) list"
  | Loaded epoch_pid_record
  | Signalled u32
  | Removed string

record reaper =
  rp_calls :: nat
  rp_temp_counter :: u64
  rp_trace :: "event list"

type_synonym 'a reaps = "((io_error + 'a) \<times> reaper) option"

definition done_with :: "io_error + 'a \<Rightarrow> reaper \<Rightarrow> 'a reaps" where
  "done_with r s = Some (r, s)"

definition sys :: "(nat \<Rightarrow> io_error + 'a) \<Rightarrow> reaper \<Rightarrow> 'a reaps" where
  "sys f s = Some (f (rp_calls s), s\<lparr>rp_calls := rp_calls s + 1\<rparr>)"

definition log_event :: "event \<Rightarrow> reaper \<Rightarrow> reaper" where
  "log_event e s = s\<lparr>rp_trace := e # rp_trace s\<rparr>"

text \<open>An operation whose error is a value to the caller.\<close>

definition catch :: "'a reaps \<Rightarrow> (io_error + 'a \<Rightarrow> reaper \<Rightarrow> 'b reaps) \<Rightarrow> 'b reaps" where
  "catch m f = Option.bind m (\<lambda>(r, s). f r s)"

section \<open>Asking for an identity\<close>

definition linux_start_ticks :: "proc_env \<Rightarrow> nat \<Rightarrow> u32 \<Rightarrow> io_error + u64 option" where
  "linux_start_ticks env n pid = (case pv_stat env n pid of
       Inl e \<Rightarrow> if ie_kind e = IoNotFound then Inr None else Inl e
     | Inr stat \<Rightarrow> (case rfind_char CHR '')'' stat of
         None \<Rightarrow> Inl (invalid_data (''malformed /proc/'' @ show_nat (unat pid) @ ''/stat''))
       | Some command_end \<Rightarrow>
           let words = split_whitespace (drop (command_end + 1) stat) in
           if length words \<le> 19 then Inl (invalid_data (''missing start time in /proc/'' @ show_nat (unat pid) @ ''/stat''))
           else (case parse_u64 (words ! 19) of
               None \<Rightarrow> Inl (invalid_data (''invalid start time in /proc/'' @ show_nat (unat pid) @ ''/stat''))
             | Some ticks \<Rightarrow> Inr (Some ticks))))"

definition to_le_bytes :: "u64 \<Rightarrow> bytes" where
  "to_le_bytes w = map (\<lambda>i. ucast (drop_bit (8 * i) w)) [0..<8]"

definition boot_bound_start_token :: "string \<Rightarrow> u64 \<Rightarrow> u64" where
  "boot_bound_start_token boot_id ticks = fnv1a (as_bytes boot_id @ to_le_bytes ticks)"

definition unresolved_executable :: "u32 \<Rightarrow> io_error" where
  "unresolved_executable pid = identity_error (''cannot resolve executable for live pid '' @ show_nat (unat pid))"

definition file_name_text :: "string \<Rightarrow> string option" where
  "file_name_text p = Option.bind (path_file_name p) (\<lambda>name. if utf8 name then Some name else None)"

definition linux_identity :: "proc_env \<Rightarrow> nat \<Rightarrow> u32 \<Rightarrow> io_error + process_identity option" where
  "linux_identity env n pid =
     and_then (linux_start_ticks env n pid) (\<lambda>first. case first of None \<Rightarrow> Inr None | Some first_ticks \<Rightarrow>
     let finish = (\<lambda>executable_path.
       and_then (linux_start_ticks env (n + 2) pid) (\<lambda>second. case second of None \<Rightarrow> Inr None | Some second_ticks \<Rightarrow>
       if first_ticks \<noteq> second_ticks then Inr None
       else and_then (case executable_path of None \<Rightarrow> Inr None | Some path \<Rightarrow>
           (case file_name_text path of None \<Rightarrow> Inl (unresolved_executable pid) | Some name \<Rightarrow> Inr (Some name))) (\<lambda>executable.
         and_then (pv_boot_id env (n + 3)) (\<lambda>boot_id.
         Inr (Some \<lparr>pi_executable = executable, pi_start_token = boot_bound_start_token (trim boot_id) first_ticks,
           pi_legacy_start_token = None\<rparr>)))))
     in case pv_exe env (n + 1) pid of
          Inr path \<Rightarrow> finish (Some path)
        | Inl e \<Rightarrow> if ie_kind e = IoNotFound then Inr None
            else if ie_kind e = IoPermissionDenied then finish None else Inl e)"

definition precise_start_token :: "u64 \<Rightarrow> u32 \<Rightarrow> io_error + u64" where
  "precise_start_token seconds microseconds =
     (if 1000000 \<le> microseconds
      then Inl (invalid_data (''invalid start subsecond: '' @ show_nat (unat microseconds)))
      else if 2 ^ 64 \<le> unat seconds * 2 ^ 20 + unat microseconds
      then Inl (invalid_data ''Darwin process start token overflow'')
      else Inr (seconds * 2 ^ 20 + ucast microseconds))"

definition macos_identity :: "proc_env \<Rightarrow> nat \<Rightarrow> u32 \<Rightarrow> io_error + process_identity option" where
  "macos_identity env n pid =
     and_then (pv_start_time env n pid) (\<lambda>start. case start of None \<Rightarrow> Inr None | Some (seconds, microseconds) \<Rightarrow>
     let executable = Option.bind (pv_sysinfo env (n + 1) pid) fst in
     and_then (pv_start_time env (n + 2) pid) (\<lambda>again.
     if again \<noteq> Some (seconds, microseconds) then Inr None
     else and_then (precise_start_token seconds microseconds) (\<lambda>token.
       Inr (Some \<lparr>pi_executable = executable, pi_start_token = token, pi_legacy_start_token = Some seconds\<rparr>))))"

definition windows_identity :: "proc_env \<Rightarrow> nat \<Rightarrow> u32 \<Rightarrow> io_error + process_identity option" where
  "windows_identity env n pid = (case pv_open env n pid of
       Inl e \<Rightarrow> if ie_raw e = Some 87 then Inr None else Inl e
     | Inr _ \<Rightarrow> (case pv_handle_identity env (n + 1) pid of
         Inr identity \<Rightarrow> Inr (Some identity)
       | Inl e \<Rightarrow> if ie_kind e = IoNotFound then Inr None else Inl e))"

definition process_identity_of :: "proc_env \<Rightarrow> nat \<Rightarrow> u32 \<Rightarrow> io_error + process_identity option" where
  "process_identity_of env n pid = (case pv_platform env of
       Linux \<Rightarrow> linux_identity env n pid
     | Macos \<Rightarrow> macos_identity env n pid
     | Windows \<Rightarrow> windows_identity env n pid
     | Unix \<Rightarrow> Inr (map_option (\<lambda>(executable, start).
         \<lparr>pi_executable = executable, pi_start_token = start, pi_legacy_start_token = None\<rparr>) (pv_sysinfo env n pid)))"

definition ask_identity :: "proc_env \<Rightarrow> u32 \<Rightarrow> reaper \<Rightarrow> (io_error + process_identity option) \<times> reaper" where
  "ask_identity env pid s =
     (let r = process_identity_of env (rp_calls s) pid in (r, log_event (Queried pid r) (s\<lparr>rp_calls := rp_calls s + 4\<rparr>)))"

definition query :: "proc_env \<Rightarrow> u32 \<Rightarrow> reaper \<Rightarrow> process_identity option reaps" where
  "query env pid s = Some (ask_identity env pid s)"

definition identity_query_is_provisional :: "platform \<Rightarrow> io_error \<Rightarrow> bool" where
  "identity_query_is_provisional os e \<longleftrightarrow> ie_kind e = IoPermissionDenied
     \<or> os = Windows \<and> (case ie_raw e of None \<Rightarrow> False | Some code \<Rightarrow> code \<in> {6, 31, 87, 1168})"

definition IDENTITY_WAIT_ATTEMPTS :: nat where "IDENTITY_WAIT_ATTEMPTS = 20"
definition KILL_WAIT_ATTEMPTS :: nat where "KILL_WAIT_ATTEMPTS = 100"

fun reap_attempts :: "proc_env \<Rightarrow> u32 \<Rightarrow> nat \<Rightarrow> io_error option \<Rightarrow> reaper \<Rightarrow> process_identity option reaps" where
  "reap_attempts env pid 0 access_error s = done_with (Inl (case access_error of Some e \<Rightarrow> e
     | None \<Rightarrow> io_error_new IoPermissionDenied (''cannot inspect live pid '' @ show_nat (unat pid)))) s"
| "reap_attempts env pid (Suc k) access_error s = catch (query env pid s) (\<lambda>r s. case r of
       Inr identity \<Rightarrow> done_with (Inr identity) s
     | Inl e \<Rightarrow> if identity_query_is_provisional (pv_platform env) e then reap_attempts env pid k (Some e) s
         else done_with (Inl e) s)"

definition identity_for_reap :: "proc_env \<Rightarrow> u32 \<Rightarrow> reaper \<Rightarrow> process_identity option reaps" where
  "identity_for_reap env pid s = reap_attempts env pid IDENTITY_WAIT_ATTEMPTS None s"

fun wait_attempts ::
  "proc_env \<Rightarrow> u32 \<Rightarrow> string \<Rightarrow> nat \<Rightarrow> process_identity option \<Rightarrow> io_error option \<Rightarrow> reaper \<Rightarrow> process_identity option reaps" where
  "wait_attempts env pid expected_exe 0 observed access_error s = done_with (case (observed, access_error) of
       (Some identity, _) \<Rightarrow> Inr (Some identity) | (None, Some e) \<Rightarrow> Inl e | (None, None) \<Rightarrow> Inr None) s"
| "wait_attempts env pid expected_exe (Suc k) observed access_error s = catch (query env pid s) (\<lambda>r s. case r of
       Inr (Some identity) \<Rightarrow>
         if (case pi_executable identity of Some executable \<Rightarrow> exe_names_equal (pv_platform env) executable expected_exe | None \<Rightarrow> False)
         then done_with (Inr (Some identity)) s
         else wait_attempts env pid expected_exe k (Some identity) access_error s
     | Inr None \<Rightarrow> wait_attempts env pid expected_exe k observed access_error s
     | Inl e \<Rightarrow> if identity_query_is_provisional (pv_platform env) e then wait_attempts env pid expected_exe k observed (Some e) s
         else done_with (Inl e) s)"

definition wait_for_process_identity :: "proc_env \<Rightarrow> u32 \<Rightarrow> string \<Rightarrow> reaper \<Rightarrow> process_identity option reaps" where
  "wait_for_process_identity env pid expected_exe s = wait_attempts env pid expected_exe IDENTITY_WAIT_ATTEMPTS None None s"

section \<open>Killing\<close>

definition unproven :: "epoch_pid_record \<Rightarrow> io_error" where
  "unproven r = identity_error (''cannot prove ownership of live pid '' @ show_nat (unat (er_pid r)))"

definition signal :: "proc_env \<Rightarrow> u32 \<Rightarrow> reaper \<Rightarrow> unit reaps" where
  "signal env pid s = sys (\<lambda>n. pv_kill env n pid) (log_event (Signalled pid) s)"

definition validated :: "proc_env \<Rightarrow> epoch_pid_record \<Rightarrow> string \<Rightarrow> reaper \<Rightarrow> unit reaps" where
  "validated env r phase s = and_do (query env (er_pid r) s) (\<lambda>identity s. case identity of
       None \<Rightarrow> done_with (Inl (io_error_new IoNotFound (''pid '' @ show_nat (unat (er_pid r)) @ '' exited before '' @ phase))) s
     | Some identity \<Rightarrow> if record_matches_identity (pv_platform env) r identity then done_with (Inr ()) s
         else done_with (Inl (unproven r)) s)"

definition kill_revalidated_by_pid :: "proc_env \<Rightarrow> epoch_pid_record \<Rightarrow> reaper \<Rightarrow> unit reaps" where
  "kill_revalidated_by_pid env r s =
     and_do (validated env r ''final validation'' s) (\<lambda>_ s. signal env (er_pid r) s)"

definition kill_by_pidfd :: "proc_env \<Rightarrow> epoch_pid_record \<Rightarrow> reaper \<Rightarrow> unit reaps" where
  "kill_by_pidfd env r s = catch (sys (\<lambda>n. pv_pidfd_open env n (er_pid r)) s) (\<lambda>opened s. case opened of
       Inl e \<Rightarrow> if ie_raw e = Some 38 then kill_revalidated_by_pid env r s else done_with (Inl e) s
     | Inr _ \<Rightarrow> and_do (validated env r ''pidfd validation'' s) (\<lambda>_ s.
         catch (signal env (er_pid r) s) (\<lambda>sent s. case sent of
             Inl e \<Rightarrow> done_with (if ie_raw e = Some 3 then Inr () else Inl e) s
           | Inr _ \<Rightarrow> done_with (Inr ()) s)))"

definition kill_by_handle :: "proc_env \<Rightarrow> epoch_pid_record \<Rightarrow> reaper \<Rightarrow> unit reaps" where
  "kill_by_handle env r s =
     and_do (sys (\<lambda>n. pv_open env n (er_pid r)) s) (\<lambda>_ s.
     and_do (sys (\<lambda>n. pv_handle_identity env n (er_pid r)) s) (\<lambda>identity s.
     let s = log_event (Queried (er_pid r) (Inr (Some identity))) s in
     if record_matches_identity (pv_platform env) r identity then signal env (er_pid r) s
     else done_with (Inl (unproven r)) s))"

definition kill_recorded_process :: "proc_env \<Rightarrow> epoch_pid_record \<Rightarrow> reaper \<Rightarrow> unit reaps" where
  "kill_recorded_process env r s = (case pv_platform env of
       Windows \<Rightarrow> kill_by_handle env r s | Linux \<Rightarrow> kill_by_pidfd env r s | _ \<Rightarrow> kill_revalidated_by_pid env r s)"

datatype orphan_reap_outcome = ReapNotFound | ReapAlreadyExited | ReapKilled

text \<open>The bounded window in which the death of the process is confirmed.\<close>

fun confirm_attempts ::
  "proc_env \<Rightarrow> epoch_pid_record \<Rightarrow> bool \<Rightarrow> io_error option \<Rightarrow> nat \<Rightarrow> io_error option \<Rightarrow> reaper \<Rightarrow> orphan_reap_outcome reaps" where
  "confirm_attempts env r unowned_is_dead kill_error 0 identity_err s = done_with (Inl (case (kill_error, identity_err) of
       (Some e, _) \<Rightarrow> e | (None, Some e) \<Rightarrow> e
     | (None, None) \<Rightarrow> io_error_new IoTimedOut (''pid '' @ show_nat (unat (er_pid r)) @ '' remained alive after validated kill''))) s"
| "confirm_attempts env r unowned_is_dead kill_error (Suc k) identity_err s = catch (query env (er_pid r) s) (\<lambda>q s. case q of
       Inr None \<Rightarrow> done_with (Inr ReapKilled) s
     | Inr (Some identity) \<Rightarrow>
         if \<not> record_matches_identity (pv_platform env) r identity then done_with (Inr ReapKilled) s
         else confirm_attempts env r unowned_is_dead kill_error k None s
     | Inl e \<Rightarrow>
         if identity_query_is_provisional (pv_platform env) e
         then if unowned_is_dead then done_with (Inr ReapKilled) s
           else confirm_attempts env r unowned_is_dead kill_error k (Some e) s
         else if unowned_is_dead then done_with (Inr ReapKilled) s else done_with (Inl e) s)"

definition identity_for_confirmation :: "bool \<Rightarrow> io_error + process_identity option \<Rightarrow> io_error + process_identity option" where
  "identity_for_confirmation unowned_is_dead r =
     (case r of Inr identity \<Rightarrow> Inr identity | Inl e \<Rightarrow> if unowned_is_dead then Inr None else Inl e)"

definition reap_record_with_kill :: "proc_env \<Rightarrow> epoch_pid_record \<Rightarrow> bool \<Rightarrow> reaper \<Rightarrow> orphan_reap_outcome reaps" where
  "reap_record_with_kill env r unowned_is_dead s = catch (identity_for_reap env (er_pid r) s) (\<lambda>q s.
     case identity_for_confirmation unowned_is_dead q of
       Inl e \<Rightarrow> done_with (Inl e) s
     | Inr None \<Rightarrow> done_with (Inr ReapAlreadyExited) s
     | Inr (Some identity) \<Rightarrow> (case compare_identity (pv_platform env) r identity of
         Reused \<Rightarrow> done_with (Inr ReapAlreadyExited) s
       | Ambiguous \<Rightarrow> if unowned_is_dead then done_with (Inr ReapAlreadyExited) s else done_with (Inl (unproven r)) s
       | Same \<Rightarrow> catch (kill_recorded_process env r s) (\<lambda>killed s.
           confirm_attempts env r unowned_is_dead (case killed of Inl e \<Rightarrow> Some e | Inr _ \<Rightarrow> None) KILL_WAIT_ATTEMPTS None s)))"

section \<open>Descendants\<close>

definition children_of :: "(u32 \<times> u32 option) list \<Rightarrow> u32 \<Rightarrow> u32 list" where
  "children_of processes parent = map fst (filter (\<lambda>p. snd p = Some parent) processes)"

definition discover :: "u32 list \<Rightarrow> u32 list \<times> u32 list \<Rightarrow> u32 list \<times> u32 list" where
  "discover direct found = foldl (\<lambda>(descendants, pending) pid.
     if pid \<in> set descendants then (descendants, pending) else (insort pid descendants, pid # pending)) found direct"

lemma discover_simps [simp]:
  "discover [] found = found"
  "discover (pid # direct) (descendants, pending) = discover direct
     (if pid \<in> set descendants then (descendants, pending) else (insort pid descendants, pid # pending))"
  by (simp_all add: discover_def)

lemma discover_found:
  "discover direct (descendants, pending) = (descendants', pending') \<Longrightarrow>
     set descendants' = set descendants \<union> set direct
     \<and> set pending' = set pending \<union> (set direct - set descendants)
     \<and> (sorted descendants \<and> distinct descendants \<longrightarrow> sorted descendants' \<and> distinct descendants')
     \<and> (set direct \<subseteq> set descendants \<longrightarrow> pending' = pending)"
proof (induction direct arbitrary: descendants pending)
  case (Cons pid direct)
  then show ?case
    using Cons.IH [of descendants pending] Cons.IH [of "insort pid descendants" "pid # pending"]
    by (auto simp: set_insort_key sorted_insort distinct_insort split: if_splits)
qed simp

function visit :: "(u32 \<times> u32 option) list \<Rightarrow> u32 list \<Rightarrow> u32 list \<Rightarrow> u32 list" where
  "visit processes [] descendants = descendants"
| "visit processes (parent # pending) descendants =
     (case discover (children_of processes parent) (descendants, pending) of
        (descendants, pending) \<Rightarrow> visit processes pending descendants)"
  by pat_completeness auto
termination
proof (relation "inv_image ({(a, b). a < b} <*lex*> {(a, b). a < b})
    (\<lambda>(processes, pending, descendants). (card (fst ` set processes - set descendants), length (pending :: u32 list)))")
  show "wf (inv_image ({(a, b). a < b} <*lex*> {(a, b). a < b})
      (\<lambda>(processes, pending, descendants). (card (fst ` set processes - set descendants), length (pending :: u32 list))))"
    by (intro wf_inv_image wf_lex_prod wf_less)
next
  fix processes :: "(u32 \<times> u32 option) list" and parent pending descendants ds ps
  assume "(ds, ps) = discover (children_of processes parent) (descendants, pending)"
  then have found: "set ds = set descendants \<union> set (children_of processes parent)"
    and same: "set (children_of processes parent) \<subseteq> set descendants \<Longrightarrow> ps = pending"
    using discover_found by metis+
  have sub: "set (children_of processes parent) \<subseteq> fst ` set processes" by (auto simp: children_of_def)
  show "((processes, ps, ds), processes, parent # pending, descendants)
      \<in> inv_image ({(a, b). a < b} <*lex*> {(a, b). a < b})
        (\<lambda>(processes, pending, descendants). (card (fst ` set processes - set descendants), length (pending :: u32 list)))"
  proof (cases "set (children_of processes parent) \<subseteq> set descendants")
    case True
    then show ?thesis using found same by (auto simp: Un_absorb2)
  next
    case False
    then have "fst ` set processes - set ds \<subset> fst ` set processes - set descendants" using found sub by auto
    then have "card (fst ` set processes - set ds) < card (fst ` set processes - set descendants)"
      by (intro psubset_card_mono) auto
    then show ?thesis by simp
  qed
qed

definition descendant_pids :: "(u32 \<times> u32 option) list \<Rightarrow> u32 \<Rightarrow> u32 list" where
  "descendant_pids processes root_pid = visit processes [root_pid] []"

definition attributable_identity :: "io_error + process_identity option \<Rightarrow> process_identity option" where
  "attributable_identity r = (case r of
       Inr (Some identity) \<Rightarrow> if pi_executable identity \<noteq> None then Some identity else None | _ \<Rightarrow> None)"

text \<open>A \<open>BTreeMap\<close> is an association list without duplicate keys; iteration is in the order of the keys.\<close>

definition bt_remove :: "u32 \<Rightarrow> (u32 \<times> 'a) list \<Rightarrow> (u32 \<times> 'a) list" where
  "bt_remove k m = filter (\<lambda>p. fst p \<noteq> k) m"

definition bt_insert :: "u32 \<Rightarrow> 'a \<Rightarrow> (u32 \<times> 'a) list \<Rightarrow> (u32 \<times> 'a) list" where
  "bt_insert k v m = (k, v) # bt_remove k m"

fun query_all :: "proc_env \<Rightarrow> u32 list \<Rightarrow> reaper \<Rightarrow> (u32 \<times> process_identity option) list \<times> reaper" where
  "query_all env [] s = ([], s)"
| "query_all env (pid # pids) s = (case ask_identity env pid s of (r, s) \<Rightarrow> (case query_all env pids s of (rest, s) \<Rightarrow> ((pid, attributable_identity r) # rest, s)))"

definition merge_descendant_captures ::
  "(u32 \<times> process_identity) list \<Rightarrow> (u32 \<times> process_identity option) list \<Rightarrow> (u32 \<times> process_identity) list" where
  "merge_descendant_captures captured second = sort_key fst (foldl (\<lambda>captured (pid, identity). case identity of
     Some identity \<Rightarrow> bt_insert pid identity captured | None \<Rightarrow> bt_remove pid captured) captured second)"

definition list_processes :: "proc_env \<Rightarrow> reaper \<Rightarrow> (u32 \<times> u32 option) list \<times> reaper" where
  "list_processes env s = (let ps = pv_processes env (rp_calls s) in (ps, log_event (Listed ps) (s\<lparr>rp_calls := rp_calls s + 1\<rparr>)))"

definition capture_descendants :: "proc_env \<Rightarrow> u32 \<Rightarrow> reaper \<Rightarrow> (u32 \<times> process_identity) list \<times> reaper" where
  "capture_descendants env root_pid s =
     (case list_processes env s of (first, s) \<Rightarrow>
      case query_all env (descendant_pids first root_pid) s of (first_identities, s) \<Rightarrow>
      case list_processes env s of (second, s) \<Rightarrow>
      case query_all env (descendant_pids second root_pid) s of (second_identities, s) \<Rightarrow>
        (merge_descendant_captures
          (List.map_filter (\<lambda>(pid, identity). map_option (Pair pid) identity) first_identities) second_identities, s))"

section \<open>Reaping a record\<close>

definition descendant_record :: "epoch_pid_record \<Rightarrow> u32 \<Rightarrow> string \<Rightarrow> u64 \<Rightarrow> epoch_pid_record" where
  "descendant_record r pid executable start_token = r\<lparr>er_pid := pid, er_executable := executable, er_start_token := start_token\<rparr>"

text \<open>A captured identity without an executable is the \<open>expect\<close> of the source.\<close>

fun reap_descendants ::
  "proc_env \<Rightarrow> epoch_pid_record \<Rightarrow> (u32 \<times> process_identity) list \<Rightarrow> bool \<times> string list \<Rightarrow> reaper \<Rightarrow> (bool \<times> string list) reaps" where
  "reap_descendants env r [] acc s = done_with (Inr acc) s"
| "reap_descendants env r ((pid, identity) # rest) (killed, failures) s = (case pi_executable identity of
       None \<Rightarrow> None
     | Some executable \<Rightarrow>
         catch (reap_record_with_kill env (descendant_record r pid executable (pi_start_token identity)) True s) (\<lambda>q s.
         reap_descendants env r rest (case q of
             Inr ReapKilled \<Rightarrow> (True, failures)
           | Inr _ \<Rightarrow> (killed, failures)
           | Inl e \<Rightarrow> (killed, failures @ [''pid '' @ show_nat (unat pid) @ '': '' @ ie_message e])) s))"

definition reap_record :: "proc_env \<Rightarrow> epoch_pid_record \<Rightarrow> reaper \<Rightarrow> orphan_reap_outcome reaps" where
  "reap_record env r s = and_do (identity_for_reap env (er_pid r) s) (\<lambda>q s. case q of
       None \<Rightarrow> done_with (Inr ReapAlreadyExited) s
     | Some identity \<Rightarrow> (case compare_identity (pv_platform env) r identity of
         Reused \<Rightarrow> done_with (Inr ReapAlreadyExited) s
       | Ambiguous \<Rightarrow> done_with (Inl (unproven r)) s
       | Same \<Rightarrow> (case capture_descendants env (er_pid r) s of (descendants, s) \<Rightarrow>
           and_do (reap_record_with_kill env r False s) (\<lambda>root_outcome s.
           and_do (reap_descendants env r descendants (False, []) s) (\<lambda>(killed_descendant, failures) s.
           if failures \<noteq> []
           then done_with (Inl (io_error_new IoOther (''failed to confirm death of captured descendants: '' @ join_with ''; '' failures))) s
           else done_with (Inr (if killed_descendant then ReapKilled else root_outcome)) s)))))"

section \<open>Files\<close>

definition not_symlink :: "string \<Rightarrow> string \<Rightarrow> io_error" where
  "not_symlink what path = invalid_input (what @ '' must not be a symlink: '' @ path)"

definition not_regular :: "string \<Rightarrow> string \<Rightarrow> io_error" where
  "not_regular what path = invalid_input (what @ '' must be a regular file: '' @ path)"

definition read_epoch_pid_file :: "proc_env \<Rightarrow> string \<Rightarrow> reaper \<Rightarrow> epoch_pid_record option reaps" where
  "read_epoch_pid_file env path s = catch (sys (\<lambda>n. pv_meta env n path) s) (\<lambda>meta s. case meta of
       Inl e \<Rightarrow> if ie_kind e = IoNotFound then done_with (Inr None) s else done_with (Inl e) s
     | Inr SymbolicLink \<Rightarrow> done_with (Inl (not_symlink ''pid file'' path)) s
     | Inr OtherType \<Rightarrow> done_with (Inl (not_regular ''pid file'' path)) s
     | Inr _ \<Rightarrow> and_do (sys (\<lambda>n. pv_read env n path) s) (\<lambda>raw s.
         case parse_epoch_record (pv_platform env) raw of
           Inl e \<Rightarrow> done_with (Inl e) s
         | Inr r \<Rightarrow> done_with (Inr (Some r)) (log_event (Loaded r) s)))"

definition recorded_process_is_alive :: "proc_env \<Rightarrow> string \<Rightarrow> reaper \<Rightarrow> bool reaps" where
  "recorded_process_is_alive env raw s = (case parse_epoch_record (pv_platform env) raw of
       Inl e \<Rightarrow> done_with (Inl e) s
     | Inr r \<Rightarrow> and_do (query env (er_pid r) s) (\<lambda>q s. case q of
         None \<Rightarrow> done_with (Inr False) s
       | Some identity \<Rightarrow> done_with (case compare_identity (pv_platform env) r identity of
           Same \<Rightarrow> Inr True
         | Reused \<Rightarrow> Inr False
         | Ambiguous \<Rightarrow> Inl (identity_error (''cannot prove whether live pid '' @ show_nat (unat (er_pid r)) @ '' is the recorded process''))) s))"

definition epoch_from_file_name :: "string \<Rightarrow> string \<Rightarrow> string \<Rightarrow> io_error + u64" where
  "epoch_from_file_name path before after = (case file_name_text path of
       None \<Rightarrow> Inl (invalid_input ''epoch artifact filename must be UTF-8'')
     | Some name \<Rightarrow> (case Option.bind (strip_prefix before name) (strip_suffix after) of
         None \<Rightarrow> Inl (invalid_input (''invalid epoch artifact name `'' @ name @ ''`''))
       | Some epoch \<Rightarrow> (case parse_u64 epoch of
           None \<Rightarrow> Inl (invalid_input (''invalid epoch in artifact name `'' @ name @ ''`''))
         | Some e \<Rightarrow> Inr e)))"

definition parent_of :: "string \<Rightarrow> string \<Rightarrow> io_error + string" where
  "parent_of what path = (case path_parent path of
       None \<Rightarrow> Inl (invalid_input (what @ '' has no parent directory'')) | Some parent \<Rightarrow> Inr parent)"

definition validate_pid_target :: "proc_env \<Rightarrow> string \<Rightarrow> reaper \<Rightarrow> unit reaps" where
  "validate_pid_target env path s = catch (sys (\<lambda>n. pv_meta env n path) s) (\<lambda>meta s. done_with (case meta of
       Inr SymbolicLink \<Rightarrow> Inl (not_symlink ''pid file'' path)
     | Inr OtherType \<Rightarrow> Inl (not_regular ''pid file'' path)
     | Inr ReparsePoint \<Rightarrow> Inl (invalid_input (''pid file must not be a reparse point: '' @ path))
     | Inr PlainFile \<Rightarrow> Inr ()
     | Inl e \<Rightarrow> if ie_kind e = IoNotFound then Inr () else Inl e) s)"

definition validate_runtime_target :: "proc_env \<Rightarrow> string \<Rightarrow> reaper \<Rightarrow> unit reaps" where
  "validate_runtime_target env path s = catch (sys (\<lambda>n. pv_meta env n path) s) (\<lambda>meta s. done_with (case meta of
       Inr SymbolicLink \<Rightarrow> Inl (not_symlink ''runtime config'' path)
     | Inr OtherType \<Rightarrow> Inl (not_regular ''runtime config'' path)
     | Inr _ \<Rightarrow> Inr ()
     | Inl e \<Rightarrow> if ie_kind e = IoNotFound then Inr () else Inl e) s)"

definition remove_record_if_matches :: "proc_env \<Rightarrow> string \<Rightarrow> epoch_pid_record \<Rightarrow> reaper \<Rightarrow> unit reaps" where
  "remove_record_if_matches env path expected s = and_do (read_epoch_pid_file env path s) (\<lambda>found s.
     if \<not> (case found of None \<Rightarrow> False | Some r \<Rightarrow> record_eq r expected) then done_with (Inr ()) s
     else catch (sys (\<lambda>n. pv_remove env n path) s) (\<lambda>removed s. case removed of
         Inr _ \<Rightarrow> done_with (Inr ()) (log_event (Removed path) s)
       | Inl e \<Rightarrow> done_with (if ie_kind e = IoNotFound then Inr () else Inl e) s))"

definition reap_epoch_pid_file :: "proc_env \<Rightarrow> string \<Rightarrow> string \<Rightarrow> reaper \<Rightarrow> orphan_reap_outcome reaps" where
  "reap_epoch_pid_file env path runtime_dir s =
     and_do (sys (\<lambda>n. pv_canonicalize env n runtime_dir) s) (\<lambda>runtime_dir s.
     and_do (done_with (parent_of ''pid file'' path) s) (\<lambda>parent s.
     and_do (sys (\<lambda>n. pv_canonicalize env n parent) s) (\<lambda>parent s.
     if \<not> path_eq parent runtime_dir then done_with (Inl (invalid_input ''pid file escapes the runtime directory'')) s
     else and_do (done_with (epoch_from_file_name path ''core-'' ''.pid'') s) (\<lambda>epoch s.
     and_do (read_epoch_pid_file env path s) (\<lambda>found s. case found of
         None \<Rightarrow> done_with (Inr ReapNotFound) s
       | Some r \<Rightarrow>
     if er_epoch r \<noteq> epoch then done_with (Inl (invalid_data ''pid filename and embedded epoch differ'')) s
     else and_do (done_with (parent_of ''runtime config'' (er_runtime_config r)) s) (\<lambda>runtime_parent s.
     and_do (sys (\<lambda>n. pv_canonicalize env n runtime_parent) s) (\<lambda>runtime_parent s.
     if \<not> path_eq runtime_parent runtime_dir
     then done_with (Inl (invalid_input ''runtime config escapes the runtime directory'')) s
     else and_do (done_with (epoch_from_file_name (er_runtime_config r) ''config-'' ''.yaml'') s) (\<lambda>runtime_epoch s.
     if runtime_epoch \<noteq> epoch then done_with (Inl (invalid_data ''runtime config filename and embedded epoch differ'')) s
     else and_do (validate_runtime_target env (er_runtime_config r) s) (\<lambda>_ s.
     and_do (reap_record env r s) (\<lambda>outcome s.
     and_do (remove_record_if_matches env path r s) (\<lambda>_ s. done_with (Inr outcome) s)))))))))))"

section \<open>The guard of a spawned child\<close>

definition pid_name :: "u64 \<Rightarrow> string" where
  "pid_name epoch = ''core-'' @ show_nat (unat epoch) @ ''.pid''"

definition config_name :: "u64 \<Rightarrow> string" where
  "config_name epoch = ''config-'' @ show_nat (unat epoch) @ ''.yaml''"

definition normalize_epoch_spec :: "proc_env \<Rightarrow> epoch_pid_file \<Rightarrow> reaper \<Rightarrow> epoch_pid_file reaps" where
  "normalize_epoch_spec env spec s =
     and_do (done_with (epoch_from_file_name (ef_path spec) ''core-'' ''.pid'') s) (\<lambda>pid_epoch s.
     and_do (done_with (epoch_from_file_name (ef_runtime_config spec) ''config-'' ''.yaml'') s) (\<lambda>config_epoch s.
     if pid_epoch \<noteq> ef_epoch spec \<or> config_epoch \<noteq> ef_epoch spec
     then done_with (Inl (invalid_input ''epoch pid/config filenames must match the requested epoch'')) s
     else and_do (done_with (parent_of ''pid file'' (ef_path spec)) s) (\<lambda>pid_parent s.
     and_do (done_with (parent_of ''runtime config'' (ef_runtime_config spec)) s) (\<lambda>config_parent s.
     and_do (sys (\<lambda>n. pv_canonicalize env n pid_parent) s) (\<lambda>pid_parent s.
     and_do (sys (\<lambda>n. pv_canonicalize env n config_parent) s) (\<lambda>config_parent s.
     if \<not> path_eq pid_parent config_parent
     then done_with (Inl (invalid_input ''epoch pid and runtime config must share one directory'')) s
     else and_do (validate_runtime_target env (ef_runtime_config spec) s) (\<lambda>_ s.
       done_with (Inr \<lparr>ef_path = path_join pid_parent (pid_name (ef_epoch spec)), ef_epoch = ef_epoch spec,
         ef_runtime_config = path_join config_parent (config_name (ef_epoch spec))\<rparr>) s)))))))"

definition validate_record_for_spec :: "platform \<Rightarrow> epoch_pid_record \<Rightarrow> epoch_pid_file \<Rightarrow> string \<Rightarrow> io_error + unit" where
  "validate_record_for_spec os r spec expected_exe =
     (if er_epoch r \<noteq> ef_epoch spec
      then Inl (identity_error (''pid file belongs to epoch '' @ show_nat (unat (er_epoch r)) @ '', not '' @ show_nat (unat (ef_epoch spec))))
      else if \<not> path_eq (er_runtime_config r) (ef_runtime_config spec)
      then Inl (identity_error ''pid record runtime config does not match the requested epoch'')
      else if \<not> exe_names_equal os (er_executable r) expected_exe
      then Inl (identity_error (''pid record executable `'' @ er_executable r @ ''` does not match `'' @ expected_exe @ ''`''))
      else Inr ())"

record epoch_guard =
  eg_spec :: epoch_pid_file
  eg_expected_exe :: string
  eg_record :: "epoch_pid_record option"

definition prepare_epoch :: "proc_env \<Rightarrow> epoch_pid_file \<Rightarrow> string \<Rightarrow> reaper \<Rightarrow> epoch_guard reaps" where
  "prepare_epoch env spec expected_exe s =
     and_do (normalize_epoch_spec env spec s) (\<lambda>spec s.
     and_do (validate_pid_target env (ef_path spec) s) (\<lambda>_ s.
     and_do (read_epoch_pid_file env (ef_path spec) s) (\<lambda>found s.
     and_do (case found of
         None \<Rightarrow> done_with (Inr ()) s
       | Some r \<Rightarrow>
           and_do (done_with (validate_record_for_spec (pv_platform env) r spec expected_exe) s) (\<lambda>_ s.
           and_do (reap_record env r s) (\<lambda>_ s. remove_record_if_matches env (ef_path spec) r s))) (\<lambda>_ s.
     done_with (Inr \<lparr>eg_spec = spec, eg_expected_exe = expected_exe, eg_record = None\<rparr>) s))))"

definition with_extension :: "string \<Rightarrow> string \<Rightarrow> string" where
  "with_extension path ext = (case rsplit_once ''.'' path of Some (stem, _) \<Rightarrow> stem @ ''.'' @ ext | None \<Rightarrow> path @ ''.'' @ ext)"

definition unexpectedly_exists :: "string \<Rightarrow> io_error" where
  "unexpectedly_exists path = io_error_new IoAlreadyExists (''pid file unexpectedly exists: '' @ path)"

text \<open>The staging file is removed whatever happened; publishing it has consumed it.\<close>

definition publish_epoch_record :: "proc_env \<Rightarrow> string \<Rightarrow> string \<Rightarrow> epoch_pid_record \<Rightarrow> reaper \<Rightarrow> unit reaps" where
  "publish_epoch_record env temp path r s =
     and_do (sys (\<lambda>n. pv_create_new env n temp) s) (\<lambda>_ s.
     and_do (done_with (serialize_epoch_record (pv_platform env) r) s) (\<lambda>text_of s.
     and_do (sys (\<lambda>n. pv_write env n temp text_of) s) (\<lambda>_ s.
     and_do (sys (\<lambda>n. pv_sync env n temp) s) (\<lambda>_ s.
     catch (sys (\<lambda>n. pv_move_new env n temp path) s) (\<lambda>moved s. done_with (case moved of
         Inl e \<Rightarrow> Inl (if ie_kind e = IoAlreadyExists then unexpectedly_exists path else e) | Inr _ \<Rightarrow> Inr ()) s)))))"

definition write_epoch_record :: "proc_env \<Rightarrow> string \<Rightarrow> epoch_pid_record \<Rightarrow> reaper \<Rightarrow> unit reaps" where
  "write_epoch_record env path r s =
     and_do (validate_pid_target env path s) (\<lambda>_ s.
     and_do (sys (\<lambda>n. pv_try_exists env n path) s) (\<lambda>exists s.
     if exists then done_with (Inl (unexpectedly_exists path)) s
     else let temp = with_extension path (''pid.tmp-'' @ show_nat (unat (pv_process_id env)) @ ''-'' @ show_nat (unat (rp_temp_counter s)));
            s = s\<lparr>rp_temp_counter := rp_temp_counter s + 1\<rparr>
       in catch (publish_epoch_record env temp path r s) (\<lambda>result s.
          catch (sys (\<lambda>n. pv_remove env n temp) s) (\<lambda>_ s. done_with result s))))"

definition guard_write :: "proc_env \<Rightarrow> u32 \<Rightarrow> epoch_guard \<Rightarrow> reaper \<Rightarrow> epoch_guard reaps" where
  "guard_write env pid g s =
     and_do (wait_for_process_identity env pid (eg_expected_exe g) s) (\<lambda>q s. case q of
       None \<Rightarrow> done_with (Inl (identity_error (''spawned pid '' @ show_nat (unat pid) @ '' disappeared before recording''))) s
     | Some identity \<Rightarrow> (case pi_executable identity of
         None \<Rightarrow> done_with (Inl (identity_error (''cannot resolve executable for spawned pid '' @ show_nat (unat pid)))) s
       | Some executable \<Rightarrow>
           if \<not> exe_names_equal (pv_platform env) executable (eg_expected_exe g)
           then done_with (Inl (identity_error (''spawned pid '' @ show_nat (unat pid) @ '' executable `'' @ executable
             @ ''` does not match `'' @ eg_expected_exe g @ ''`''))) s
           else let r = \<lparr>er_pid = pid, er_epoch = ef_epoch (eg_spec g), er_executable = executable,
                  er_start_token = pi_start_token identity, er_runtime_config = ef_runtime_config (eg_spec g)\<rparr>
             in and_do (write_epoch_record env (ef_path (eg_spec g)) r s) (\<lambda>_ s. done_with (Inr (g\<lparr>eg_record := Some r\<rparr>)) s)))"

text \<open>Cleaning up is best effort: an error is only logged.\<close>

definition guard_cleanup :: "proc_env \<Rightarrow> epoch_guard \<Rightarrow> reaper \<Rightarrow> unit reaps" where
  "guard_cleanup env g s = (case eg_record g of
       None \<Rightarrow> done_with (Inr ()) s
     | Some r \<Rightarrow> catch (remove_record_if_matches env (ef_path (eg_spec g)) r s) (\<lambda>_ s. done_with (Inr ()) s))"

section \<open>Descendants are the processes below the root\<close>

definition parent_rel :: "(u32 \<times> u32 option) list \<Rightarrow> (u32 \<times> u32) set" where
  "parent_rel processes = {(parent, pid). (pid, Some parent) \<in> set processes}"

lemma children_of_rel: "set (children_of processes parent) = parent_rel processes `` {parent}"
  by (force simp: children_of_def parent_rel_def)

lemma visit_sound:
  assumes "set descendants \<subseteq> (parent_rel processes)\<^sup>+ `` {root}" "set pending \<subseteq> insert root ((parent_rel processes)\<^sup>+ `` {root})"
  shows "set (visit processes pending descendants) \<subseteq> (parent_rel processes)\<^sup>+ `` {root}"
  using assms
proof (induction processes pending descendants rule: visit.induct)
  case (2 processes parent pending descendants)
  obtain ds ps where d: "discover (children_of processes parent) (descendants, pending) = (ds, ps)" by fastforce
  have "parent_rel processes `` {parent} \<subseteq> (parent_rel processes)\<^sup>+ `` {root}"
    using "2.prems"(2) by (auto intro: trancl_into_trancl)
  then have "set ds \<subseteq> (parent_rel processes)\<^sup>+ `` {root}" "set ps \<subseteq> insert root ((parent_rel processes)\<^sup>+ `` {root})"
    using discover_found [OF d] "2.prems" by (auto simp: children_of_rel)
  then show ?case using "2.IH" [OF d [symmetric]] d by simp
qed simp

lemma visit_closed:
  assumes "\<forall>x \<in> insert root (set descendants). x \<in> set pending \<or> parent_rel processes `` {x} \<subseteq> set descendants"
  shows "parent_rel processes `` insert root (set (visit processes pending descendants)) \<subseteq> set (visit processes pending descendants)"
  using assms
proof (induction processes pending descendants rule: visit.induct)
  case (1 processes descendants)
  then show ?case by auto
next
  case (2 processes parent pending descendants)
  obtain ds ps where d: "discover (children_of processes parent) (descendants, pending) = (ds, ps)" by fastforce
  have sets: "set ds = set descendants \<union> parent_rel processes `` {parent}"
    "set ps = set pending \<union> (parent_rel processes `` {parent} - set descendants)"
    using discover_found [OF d] by (simp_all add: children_of_rel)
  have "\<forall>x \<in> insert root (set ds). x \<in> set ps \<or> parent_rel processes `` {x} \<subseteq> set ds"
  proof
    fix x assume x: "x \<in> insert root (set ds)"
    show "x \<in> set ps \<or> parent_rel processes `` {x} \<subseteq> set ds"
    proof (cases "x \<in> insert root (set descendants)")
      case True
      then have "x = parent \<or> x \<in> set pending \<or> parent_rel processes `` {x} \<subseteq> set descendants" using "2.prems" by auto
      then show ?thesis using sets by blast
    next
      case False
      then show ?thesis using x sets by blast
    qed
  qed
  then show ?case using "2.IH" [OF d [symmetric]] d by simp
qed

lemma visit_sorted:
  "sorted descendants \<and> distinct descendants \<Longrightarrow>
     sorted (visit processes pending descendants) \<and> distinct (visit processes pending descendants)"
proof (induction processes pending descendants rule: visit.induct)
  case (2 processes parent pending descendants)
  obtain ds ps where d: "discover (children_of processes parent) (descendants, pending) = (ds, ps)" by fastforce
  then show ?case using "2.IH" [OF d [symmetric]] discover_found [OF d] "2.prems" by simp
qed simp

lemma trancl_closed:
  assumes "R `` insert root S \<subseteq> S"
  shows "R\<^sup>+ `` {root} \<subseteq> S"
proof
  fix x assume "x \<in> R\<^sup>+ `` {root}"
  then have "(root, x) \<in> R\<^sup>+" by simp
  then show "x \<in> S" using assms by (induction rule: trancl_induct) auto
qed

text \<open>C39. The walk over the process table always ends and finds exactly the transitive children of the root in the
  snapshot, each once and in order, also when the table is changing under it and has cycles or
  dangling parents.\<close>

theorem descendant_pids_spec:
  "set (descendant_pids processes root_pid) = (parent_rel processes)\<^sup>+ `` {root_pid}
    \<and> sorted (descendant_pids processes root_pid) \<and> distinct (descendant_pids processes root_pid)"
proof -
  have "set (descendant_pids processes root_pid) \<subseteq> (parent_rel processes)\<^sup>+ `` {root_pid}"
    unfolding descendant_pids_def by (rule visit_sound) simp_all
  moreover have "(parent_rel processes)\<^sup>+ `` {root_pid} \<subseteq> set (descendant_pids processes root_pid)"
    unfolding descendant_pids_def by (rule trancl_closed, rule visit_closed) simp
  ultimately show ?thesis
    using visit_sorted [of "[]" processes "[root_pid]"] by (simp add: descendant_pids_def)
qed

end
