(* ===== verification/Pid_Safety.thy ===== *)
theory Pid_Safety
  imports Pid_File
begin

text \<open>
  What reaping may do to other processes. A signal is lawful when the question asked right before it was
  answered with an identity that the record of the epoch proves to be its own, or that was captured below
  the recorded process while that was still alive. A record is removed only when the recorded process was
  seen gone.
\<close>

section \<open>Lawful traces\<close>

text \<open>The records a signal may be sent for: the root, and what was captured below it.\<close>

definition target :: "epoch_pid_record \<Rightarrow> event list \<Rightarrow> epoch_pid_record \<Rightarrow> bool" where
  "target root tr r \<longleftrightarrow> r = root \<or> (\<exists>snapshot identity executable pid.
     Listed snapshot \<in> set tr \<and> pid \<in> (parent_rel snapshot)\<^sup>+ `` {er_pid root}
     \<and> Queried pid (Inr (Some identity)) \<in> set tr \<and> pi_executable identity = Some executable
     \<and> r = descendant_record root pid executable (pi_start_token identity))"

fun lawful :: "platform \<Rightarrow> epoch_pid_record \<Rightarrow> event list \<Rightarrow> bool" where
  "lawful os root [] \<longleftrightarrow> True"
| "lawful os root (Signalled pid # tr) \<longleftrightarrow> lawful os root tr \<and> (case tr of
       Queried asked (Inr (Some identity)) # earlier \<Rightarrow> asked = pid
         \<and> (\<exists>r. target root earlier r \<and> er_pid r = pid \<and> record_matches_identity os r identity)
     | _ \<Rightarrow> False)"
| "lawful os root (_ # tr) \<longleftrightarrow> lawful os root tr"

definition seen_gone :: "platform \<Rightarrow> epoch_pid_record \<Rightarrow> event list \<Rightarrow> bool" where
  "seen_gone os r tr \<longleftrightarrow> (\<exists>q. Queried (er_pid r) q \<in> set tr \<and> (case q of
       Inl _ \<Rightarrow> False | Inr None \<Rightarrow> True | Inr (Some identity) \<Rightarrow> \<not> record_matches_identity os r identity))"

definition on_processes :: "event \<Rightarrow> bool" where
  "on_processes e \<longleftrightarrow> (case e of Loaded _ \<Rightarrow> False | Removed _ \<Rightarrow> False | _ \<Rightarrow> True)"

text \<open>What every operation on processes does to the trace.\<close>

definition runs :: "platform \<Rightarrow> epoch_pid_record \<Rightarrow> reaper \<Rightarrow> reaper \<Rightarrow> bool" where
  "runs os root s t \<longleftrightarrow> (\<exists>new. rp_trace t = new @ rp_trace s \<and> list_all on_processes new)
     \<and> (lawful os root (rp_trace s) \<longrightarrow> lawful os root (rp_trace t))"

lemma runs_refl [intro, simp]: "runs os root s s"
  by (simp add: runs_def)

lemma runs_trans: "runs os root s t \<Longrightarrow> runs os root t u \<Longrightarrow> runs os root s u"
  unfolding runs_def by (metis append_assoc list_all_append)

lemma runs_same: "rp_trace t = rp_trace s \<Longrightarrow> runs os root s t"
  by (simp add: runs_def)

lemma runs_subset: "runs os root s t \<Longrightarrow> set (rp_trace s) \<subseteq> set (rp_trace t)"
  by (auto simp: runs_def)

lemma target_mono: "target root tr r \<Longrightarrow> set tr \<subseteq> set tr' \<Longrightarrow> target root tr' r"
  unfolding target_def by blast

lemma target_root [simp]: "target root tr root"
  by (simp add: target_def)

lemma seen_gone_mono: "seen_gone os r tr \<Longrightarrow> set tr \<subseteq> set tr' \<Longrightarrow> seen_gone os r tr'"
  unfolding seen_gone_def by blast

lemma seen_goneI:
  "Queried (er_pid r) (Inr None) \<in> set tr \<Longrightarrow> seen_gone os r tr"
  "Queried (er_pid r) (Inr (Some identity)) \<in> set tr \<Longrightarrow> compare_identity os r identity \<noteq> Same \<Longrightarrow> seen_gone os r tr"
  by (force simp: seen_gone_def record_matches_identity_def)+

lemma log_event_simps [simp]: "rp_trace (log_event e s) = e # rp_trace s" "rp_calls (log_event e s) = rp_calls s"
  by (simp_all add: log_event_def)

lemma runs_log: "rp_trace t = e # rp_trace s \<Longrightarrow> on_processes e \<Longrightarrow> \<forall>pid. e \<noteq> Signalled pid \<Longrightarrow> runs os root s t"
  by (cases e) (auto simp: runs_def)

section \<open>Rules\<close>

lemma returns_catch: "returns m A \<Longrightarrow> (\<And>r t. A r t \<Longrightarrow> returns (f r t) Q) \<Longrightarrow> returns (catch m f) Q"
  unfolding catch_def by (elim returnsE) auto

lemma returns_done [simp]: "returns (done_with r s) Q \<longleftrightarrow> Q r s"
  by (simp add: done_with_def)

lemma returns_sys: "(\<And>r t. rp_trace t = rp_trace s \<Longrightarrow> Q r t) \<Longrightarrow> returns (sys f s) Q"
  by (simp add: sys_def)

lemma returns_query:
  "(\<And>r t. rp_trace t = Queried pid r # rp_trace s \<Longrightarrow> Q r t) \<Longrightarrow> returns (query env pid s) Q"
  by (simp add: query_def ask_identity_def Let_def)

lemma runs_query: "rp_trace t = Queried pid r # rp_trace s \<Longrightarrow> runs os root s t"
  by (rule runs_log, assumption) (simp_all add: on_processes_def)

lemma and_do_sys:
  "(\<And>e t. rp_trace t = rp_trace s \<Longrightarrow> Q (Inl e) t) \<Longrightarrow> (\<And>x t. rp_trace t = rp_trace s \<Longrightarrow> returns (f x t) Q)
     \<Longrightarrow> returns (and_do (sys g s) f) Q"
  by (rule returns_and_do, rule returns_sys) (auto split: sum.split)

lemma and_do_done:
  "(\<And>e. r = Inl e \<Longrightarrow> Q (Inl e) s) \<Longrightarrow> (\<And>x. r = Inr x \<Longrightarrow> returns (f x s) Q) \<Longrightarrow> returns (and_do (done_with r s) f) Q"
  by (rule returns_and_do) (auto split: sum.split)

lemma validate_runtime_trace: "returns (validate_runtime_target env p s) (\<lambda>_ t. rp_trace t = rp_trace s)"
  by (simp add: validate_runtime_target_def catch_def sys_def)

section \<open>Asking\<close>

lemma reap_attempts_runs:
  "returns (reap_attempts env pid k err s) (\<lambda>r t. runs os root s t
     \<and> (case r of Inl _ \<Rightarrow> True | Inr q \<Rightarrow> Queried pid (Inr q) \<in> set (rp_trace t)))"
proof (induction k arbitrary: err s)
  case (Suc k)
  show ?case
    unfolding reap_attempts.simps
  proof (rule returns_catch [OF returns_query])
    fix r and t :: reaper assume t: "rp_trace t = Queried pid r # rp_trace s"
    show "returns (case r of Inr identity \<Rightarrow> done_with (Inr identity) t
        | Inl e \<Rightarrow> if identity_query_is_provisional (pv_platform env) e then reap_attempts env pid k (Some e) t
            else done_with (Inl e) t) (\<lambda>r t. runs os root s t
          \<and> (case r of Inl _ \<Rightarrow> True | Inr q \<Rightarrow> Queried pid (Inr q) \<in> set (rp_trace t)))"
      using t runs_query [OF t, of os root]
      by (cases r) (auto intro!: returns_mono [OF Suc [of "Some _" t]] intro: runs_trans)
  qed assumption
qed simp

lemmas identity_for_reap_runs = reap_attempts_runs [where k = IDENTITY_WAIT_ATTEMPTS and err = None, folded identity_for_reap_def]

section \<open>Killing\<close>

lemma signal_runs:
  assumes "rp_trace s = Queried (er_pid r) (Inr (Some identity)) # earlier" "target root earlier r"
    "record_matches_identity os r identity"
  shows "returns (signal env (er_pid r) s) (\<lambda>_ t. runs os root s t)"
proof -
  have "runs os root s t" if "rp_trace t = Signalled (er_pid r) # rp_trace s" for t
    using that assms by (auto simp: runs_def on_processes_def)
  then show ?thesis by (simp add: signal_def sys_def)
qed

lemma validated_runs:
  "returns (validated env r phase s) (\<lambda>q t. runs os root s t \<and> (case q of Inl _ \<Rightarrow> True | Inr _ \<Rightarrow>
     \<exists>identity. rp_trace t = Queried (er_pid r) (Inr (Some identity)) # rp_trace s
       \<and> record_matches_identity (pv_platform env) r identity))"
  unfolding validated_def
proof (rule returns_and_do, rule returns_query)
  fix q and t :: reaper assume t: "rp_trace t = Queried (er_pid r) q # rp_trace s"
  then show "case q of
      Inl e \<Rightarrow> runs os root s t \<and> (case Inl e of Inl _ \<Rightarrow> True | Inr (_::unit) \<Rightarrow>
        \<exists>identity. rp_trace t = Queried (er_pid r) (Inr (Some identity)) # rp_trace s
          \<and> record_matches_identity (pv_platform env) r identity)
    | Inr x \<Rightarrow> returns (case x of
        None \<Rightarrow> done_with (Inl (io_error_new IoNotFound (''pid '' @ show_nat (unat (er_pid r)) @ '' exited before '' @ phase))) t
      | Some identity \<Rightarrow> if record_matches_identity (pv_platform env) r identity then done_with (Inr ()) t
          else done_with (Inl (unproven r)) t) (\<lambda>q t. runs os root s t \<and> (case q of Inl _ \<Rightarrow> True | Inr _ \<Rightarrow>
        \<exists>identity. rp_trace t = Queried (er_pid r) (Inr (Some identity)) # rp_trace s
          \<and> record_matches_identity (pv_platform env) r identity))"
    using runs_query [OF t, of os root] by (auto split: sum.splits option.splits)
qed

lemma kill_revalidated_runs:
  assumes "target root (rp_trace s) r"
  shows "returns (kill_revalidated_by_pid env r s) (\<lambda>_ t. runs (pv_platform env) root s t)"
  unfolding kill_revalidated_by_pid_def
proof (rule returns_and_doI [OF validated_runs [where os = "pv_platform env" and root = root]])
  fix x and t :: reaper assume A: "runs (pv_platform env) root s t \<and> (case Inr x of Inl _ \<Rightarrow> True | Inr _ \<Rightarrow>
     \<exists>identity. rp_trace t = Queried (er_pid r) (Inr (Some identity)) # rp_trace s
       \<and> record_matches_identity (pv_platform env) r identity)"
  then obtain identity where "rp_trace t = Queried (er_pid r) (Inr (Some identity)) # rp_trace s"
    "record_matches_identity (pv_platform env) r identity" by auto
  from signal_runs [OF this(1) assms this(2), of env]
  show "returns (signal env (er_pid r) t) (\<lambda>_ t. runs (pv_platform env) root s t)"
    by (rule returns_mono) (use A in \<open>auto intro: runs_trans\<close>)
qed simp

lemma kill_by_pidfd_runs:
  assumes "target root (rp_trace s) r"
  shows "returns (kill_by_pidfd env r s) (\<lambda>_ t. runs (pv_platform env) root s t)"
  unfolding kill_by_pidfd_def
proof (rule returns_catch [OF returns_sys])
  fix opened and t :: reaper assume t: "rp_trace t = rp_trace s"
  have tgt: "target root (rp_trace t) r" using assms t by simp
  have "returns (and_do (validated env r ''pidfd validation'' t) (\<lambda>_ s.
      catch (signal env (er_pid r) s) (\<lambda>sent s. case sent of
          Inl e \<Rightarrow> done_with (if ie_raw e = Some 3 then Inr () else Inl e) s
        | Inr _ \<Rightarrow> done_with (Inr ()) s))) (\<lambda>_ u. runs (pv_platform env) root t u)"
  proof (rule returns_and_doI [OF validated_runs [where os = "pv_platform env" and root = root]])
    fix x and u :: reaper assume A: "runs (pv_platform env) root t u \<and> (case Inr x of Inl _ \<Rightarrow> True | Inr _ \<Rightarrow>
       \<exists>identity. rp_trace u = Queried (er_pid r) (Inr (Some identity)) # rp_trace t
         \<and> record_matches_identity (pv_platform env) r identity)"
    then obtain identity where "rp_trace u = Queried (er_pid r) (Inr (Some identity)) # rp_trace t"
      "record_matches_identity (pv_platform env) r identity" by auto
    from signal_runs [OF this(1) tgt this(2), of env]
    show "returns (catch (signal env (er_pid r) u) (\<lambda>sent s. case sent of
          Inl e \<Rightarrow> done_with (if ie_raw e = Some 3 then Inr () else Inl e) s
        | Inr _ \<Rightarrow> done_with (Inr ()) s)) (\<lambda>_ v. runs (pv_platform env) root t v)"
      by (rule returns_catch) (use A in \<open>auto intro: runs_trans split: sum.split\<close>)
  qed simp
  then show "returns (case opened of
       Inl e \<Rightarrow> if ie_raw e = Some 38 then kill_revalidated_by_pid env r t else done_with (Inl e) t
     | Inr _ \<Rightarrow> and_do (validated env r ''pidfd validation'' t) (\<lambda>_ s.
         catch (signal env (er_pid r) s) (\<lambda>sent s. case sent of
             Inl e \<Rightarrow> done_with (if ie_raw e = Some 3 then Inr () else Inl e) s
           | Inr _ \<Rightarrow> done_with (Inr ()) s))) (\<lambda>_ u. runs (pv_platform env) root s u)"
    using kill_revalidated_runs [OF tgt, of env] runs_same [OF t]
    by (cases opened) (auto elim!: returns_mono intro: runs_trans)
qed assumption

lemma kill_by_handle_runs:
  assumes "target root (rp_trace s) r"
  shows "returns (kill_by_handle env r s) (\<lambda>_ t. runs (pv_platform env) root s t)"
proof -
  have asked: "runs (pv_platform env) root s t"
    "record_matches_identity (pv_platform env) r identity \<Longrightarrow>
       returns (signal env (er_pid r) t) (\<lambda>_ u. runs (pv_platform env) root s u)"
    if t: "rp_trace t = Queried (er_pid r) (Inr (Some identity)) # rp_trace s" for t identity
    using signal_runs [OF t assms, of "pv_platform env" env] runs_query [OF t, of "pv_platform env" root]
    by (auto elim!: returns_mono intro: runs_trans)
  show ?thesis
    by (auto simp: kill_by_handle_def sys_def Let_def and_do_def runs_same intro!: asked split: sum.split)
qed

lemma kill_recorded_runs:
  "target root (rp_trace s) r \<Longrightarrow> returns (kill_recorded_process env r s) (\<lambda>_ t. runs (pv_platform env) root s t)"
  using kill_by_pidfd_runs [of root s r env] kill_by_handle_runs [of root s r env] kill_revalidated_runs [of root s r env]
  by (cases "pv_platform env") (simp_all add: kill_recorded_process_def)

lemma confirm_runs:
  "returns (confirm_attempts env r unowned kill_error k err s) (\<lambda>q t. runs (pv_platform env) root s t
     \<and> (case q of Inl _ \<Rightarrow> True | Inr _ \<Rightarrow> unowned \<or> seen_gone (pv_platform env) r (rp_trace t)))"
proof (induction k arbitrary: err s)
  case (Suc k)
  show ?case
    unfolding confirm_attempts.simps
    apply (rule returns_catch [OF returns_query], assumption)
    subgoal premises t for q t
    proof (cases q)
      case (Inl e)
      show ?thesis
        using Inl t runs_query [OF t, of "pv_platform env" root] Suc [of "Some e" t]
        by (auto elim!: returns_mono intro: runs_trans)
    next
      case (Inr identity)
      show ?thesis
        using Inr t runs_query [OF t, of "pv_platform env" root] Suc [of None t]
        by (cases identity) (auto elim!: returns_mono intro: runs_trans seen_goneI simp: record_matches_identity_def)
    qed
    done
qed simp

lemma reap_record_with_kill_runs:
  assumes "target root (rp_trace s) r"
  shows "returns (reap_record_with_kill env r unowned s) (\<lambda>q t. runs (pv_platform env) root s t
     \<and> (case q of Inl _ \<Rightarrow> True | Inr _ \<Rightarrow> unowned \<or> seen_gone (pv_platform env) r (rp_trace t)))"
  unfolding reap_record_with_kill_def
proof (rule returns_catch [OF identity_for_reap_runs [where os = "pv_platform env" and root = root]])
  fix q :: "io_error + process_identity option" and t :: reaper
  assume q: "runs (pv_platform env) root s t \<and> (case q of Inl _ \<Rightarrow> True | Inr q \<Rightarrow> Queried (er_pid r) (Inr q) \<in> set (rp_trace t))"
  then have tgt: "target root (rp_trace t) r" using assms runs_subset target_mono by blast
  have killing: "returns (catch (kill_recorded_process env r t) (\<lambda>killed s.
      confirm_attempts env r unowned (case killed of Inl e \<Rightarrow> Some e | Inr _ \<Rightarrow> None) KILL_WAIT_ATTEMPTS None s))
      (\<lambda>q u. runs (pv_platform env) root s u
        \<and> (case q of Inl _ \<Rightarrow> True | Inr _ \<Rightarrow> unowned \<or> seen_gone (pv_platform env) r (rp_trace u)))"
    by (rule returns_catch [OF kill_recorded_runs [OF tgt]], rule returns_mono [OF confirm_runs [where root = root]])
      (use q in \<open>auto intro: runs_trans\<close>)
  then show "returns (case identity_for_confirmation unowned q of
       Inl e \<Rightarrow> done_with (Inl e) t
     | Inr None \<Rightarrow> done_with (Inr ReapAlreadyExited) t
     | Inr (Some identity) \<Rightarrow> (case compare_identity (pv_platform env) r identity of
         Reused \<Rightarrow> done_with (Inr ReapAlreadyExited) t
       | Ambiguous \<Rightarrow> if unowned then done_with (Inr ReapAlreadyExited) t else done_with (Inl (unproven r)) t
       | Same \<Rightarrow> catch (kill_recorded_process env r t) (\<lambda>killed s.
           confirm_attempts env r unowned (case killed of Inl e \<Rightarrow> Some e | Inr _ \<Rightarrow> None) KILL_WAIT_ATTEMPTS None s)))
      (\<lambda>q t. runs (pv_platform env) root s t
        \<and> (case q of Inl _ \<Rightarrow> True | Inr _ \<Rightarrow> unowned \<or> seen_gone (pv_platform env) r (rp_trace t)))"
    using q
    by (cases q; cases unowned; cases "projr q")
      (auto simp: identity_for_confirmation_def split: identity_match.splits intro: seen_goneI)
qed

section \<open>Capturing and reaping\<close>

lemma query_all_runs:
  "query_all env pids s = (found, t) \<Longrightarrow> runs os root s t \<and> (\<forall>(pid, i) \<in> set found. pid \<in> set pids
     \<and> (case i of None \<Rightarrow> True | Some identity \<Rightarrow> Queried pid (Inr (Some identity)) \<in> set (rp_trace t) \<and> pi_executable identity \<noteq> None))"
proof (induction pids arbitrary: s found t)
  case (Cons pid pids)
  obtain r u where ask: "ask_identity env pid s = (r, u)" by fastforce
  obtain rest v where all: "query_all env pids u = (rest, v)" by fastforce
  have u: "rp_trace u = Queried pid r # rp_trace s" using ask by (auto simp: ask_identity_def Let_def)
  have "runs os root u v" using Cons.IH [OF all] by simp
  then have "Queried pid r \<in> set (rp_trace v)" using u runs_subset by fastforce
  then show ?case
    using Cons.prems ask all Cons.IH [OF all] runs_trans [OF runs_query [OF u]]
    by (fastforce simp: attributable_identity_def split: sum.splits option.splits if_splits)
qed simp

lemma merge_subset:
  "set (merge_descendant_captures captured second) \<subseteq> set captured \<union> {(pid, i). (pid, Some i) \<in> set second}"
proof -
  have "set (foldl (\<lambda>captured (pid, identity). case identity of
      Some identity \<Rightarrow> bt_insert pid identity captured | None \<Rightarrow> bt_remove pid captured) captured second)
      \<subseteq> set captured \<union> {(pid, i). (pid, Some i) \<in> set second}"
  proof (induction second arbitrary: captured)
    case (Cons p second)
    then show ?case by (cases p) (fastforce simp: bt_insert_def bt_remove_def split: option.splits)
  qed simp
  then show ?thesis by (simp add: merge_descendant_captures_def)
qed

definition captured_ok :: "epoch_pid_record \<Rightarrow> event list \<Rightarrow> u32 \<times> process_identity \<Rightarrow> bool" where
  "captured_ok root tr p \<longleftrightarrow> (\<exists>executable. pi_executable (snd p) = Some executable
     \<and> target root tr (descendant_record root (fst p) executable (pi_start_token (snd p))))"

lemma list_processes_runs:
  "list_processes env s = (ps, t) \<Longrightarrow> runs os root s t \<and> Listed ps \<in> set (rp_trace t)"
  by (auto simp: list_processes_def Let_def on_processes_def intro!: runs_log [where e = "Listed ps"])

lemma query_all_captured:
  assumes "query_all env (descendant_pids ps (er_pid root)) s = (found, t)" "Listed ps \<in> set (rp_trace s)"
    "(pid, Some identity) \<in> set found"
  shows "captured_ok root (rp_trace t) (pid, identity)"
proof -
  have q: "runs Linux root s t" "pid \<in> set (descendant_pids ps (er_pid root))"
    "Queried pid (Inr (Some identity)) \<in> set (rp_trace t)" "pi_executable identity \<noteq> None"
    using query_all_runs [OF assms(1), of Linux root] assms(3) by auto
  then have "Listed ps \<in> set (rp_trace t)" using assms(2) runs_subset by blast
  moreover have "pid \<in> (parent_rel ps)\<^sup>+ `` {er_pid root}" using q(2) visit_sound [of "[]" ps "er_pid root" "[er_pid root]"]
    by (auto simp: descendant_pids_def)
  ultimately show ?thesis using q(3,4) unfolding captured_ok_def target_def by fastforce
qed

lemma captured_ok_mono: "captured_ok root tr p \<Longrightarrow> set tr \<subseteq> set tr' \<Longrightarrow> captured_ok root tr' p"
  unfolding captured_ok_def by (meson target_mono)

lemma capture_descendants_runs:
  assumes "capture_descendants env (er_pid root) s = (found, t)"
  shows "runs os root s t \<and> (\<forall>p \<in> set found. captured_ok root (rp_trace t) p)"
proof -
  obtain ps u where l1: "list_processes env s = (ps, u)" by fastforce
  obtain f1 v where q1: "query_all env (descendant_pids ps (er_pid root)) u = (f1, v)" by fastforce
  obtain ps' w where l2: "list_processes env v = (ps', w)" by fastforce
  obtain f2 t' where q2: "query_all env (descendant_pids ps' (er_pid root)) w = (f2, t')" by fastforce
  have t: "t' = t" and found: "found = merge_descendant_captures (List.map_filter (\<lambda>(pid, identity). map_option (Pair pid) identity) f1) f2"
    using assms by (simp_all add: capture_descendants_def l1 q1 l2 q2)
  have r: "runs os root s u" "runs os root u v" "runs os root v w" "runs os root w t"
    and listed: "Listed ps \<in> set (rp_trace u)" "Listed ps' \<in> set (rp_trace w)"
    using list_processes_runs [OF l1, of os root] list_processes_runs [OF l2, of os root]
      query_all_runs [OF q1, of os root] query_all_runs [OF q2, of os root] t by simp_all
  have "captured_ok root (rp_trace t) p" if "p \<in> set found" for p
  proof -
    have "(fst p, Some (snd p)) \<in> set f1 \<or> (fst p, Some (snd p)) \<in> set f2"
      using that found merge_subset [of "List.map_filter (\<lambda>(pid, identity). map_option (Pair pid) identity) f1" f2]
      by (fastforce simp: map_filter_def)
    then show ?thesis
      using query_all_captured [OF q1 listed(1), of "fst p" "snd p"] query_all_captured [OF q2 listed(2), of "fst p" "snd p"] t
        captured_ok_mono [of root "rp_trace v" p "rp_trace t"] runs_subset [OF r(3)] runs_subset [OF r(4)] by auto
  qed
  moreover have "runs os root s t" using r by (meson runs_trans)
  ultimately show ?thesis by blast
qed

lemma reap_descendants_runs:
  "\<forall>p \<in> set found. captured_ok root (rp_trace s) p \<Longrightarrow>
     returns (reap_descendants env root found acc s) (\<lambda>q t. runs (pv_platform env) root s t \<and> is_ok q)"
proof (induction found arbitrary: acc s)
  case (Cons p found)
  obtain pid identity where p: "p = (pid, identity)" by (cases p)
  obtain killed failures where acc: "acc = (killed, failures)" by (cases acc)
  obtain executable where exe: "pi_executable identity = Some executable"
    and tgt: "target root (rp_trace s) (descendant_record root pid executable (pi_start_token identity))"
    using Cons.prems p by (auto simp: captured_ok_def)
  show ?case
    unfolding p acc reap_descendants.simps exe option.case
    apply (rule returns_catch [OF reap_record_with_kill_runs [OF tgt, of env True]])
    subgoal for q t
      using Cons.prems captured_ok_mono [OF _ runs_subset [of "pv_platform env" root s t]]
      by (auto intro!: returns_mono [OF Cons.IH [of t]] intro: runs_trans)
    done
qed simp

lemma reap_record_runs:
  "returns (reap_record env r s) (\<lambda>q t. runs (pv_platform env) r s t
     \<and> (case q of Inl _ \<Rightarrow> True | Inr _ \<Rightarrow> seen_gone (pv_platform env) r (rp_trace t)))"
  unfolding reap_record_def
proof (rule returns_and_doI [OF identity_for_reap_runs [where os = "pv_platform env" and root = r]], simp)
  fix q and t :: reaper
  assume q: "runs (pv_platform env) r s t \<and> (case Inr q of Inl _ \<Rightarrow> True | Inr q \<Rightarrow> Queried (er_pid r) (Inr q) \<in> set (rp_trace t))"
  obtain found u where cap: "capture_descendants env (er_pid r) t = (found, u)" by fastforce
  have u: "runs (pv_platform env) r t u" "\<forall>p \<in> set found. captured_ok r (rp_trace u) p"
    using capture_descendants_runs [OF cap] by simp_all
  have "returns (and_do (reap_record_with_kill env r False u) (\<lambda>root_outcome s.
      and_do (reap_descendants env r found (False, []) s) (\<lambda>(killed_descendant, failures) s.
      if failures \<noteq> []
      then done_with (Inl (io_error_new IoOther (''failed to confirm death of captured descendants: '' @ join_with ''; '' failures))) s
      else done_with (Inr (if killed_descendant then ReapKilled else root_outcome)) s)))
    (\<lambda>q v. runs (pv_platform env) r s v \<and> (case q of Inl _ \<Rightarrow> True | Inr _ \<Rightarrow> seen_gone (pv_platform env) r (rp_trace v)))"
  proof (rule returns_and_doI [OF reap_record_with_kill_runs [OF target_root]])
    fix outcome :: orphan_reap_outcome and v :: reaper
    assume v: "runs (pv_platform env) r u v \<and> (case Inr outcome of Inl _ \<Rightarrow> True
      | Inr _ \<Rightarrow> False \<or> seen_gone (pv_platform env) r (rp_trace v))"
    then have ok: "\<forall>p \<in> set found. captured_ok r (rp_trace v) p" using u(2) captured_ok_mono runs_subset by blast
    have goes: "runs (pv_platform env) r s w \<and> seen_gone (pv_platform env) r (rp_trace w)" if "runs (pv_platform env) r v w" for w
    proof -
      have "runs (pv_platform env) r s v" using q u(1) v by (meson runs_trans)
      then show ?thesis using that v runs_trans seen_gone_mono [OF _ runs_subset [OF that]] by auto
    qed
    show "returns (and_do (reap_descendants env r found (False, []) v) (\<lambda>(killed_descendant, failures) s.
      if failures \<noteq> []
      then done_with (Inl (io_error_new IoOther (''failed to confirm death of captured descendants: '' @ join_with ''; '' failures))) s
      else done_with (Inr (if killed_descendant then ReapKilled else outcome)) s))
    (\<lambda>q v. runs (pv_platform env) r s v \<and> (case q of Inl _ \<Rightarrow> True | Inr _ \<Rightarrow> seen_gone (pv_platform env) r (rp_trace v)))"
      by (rule returns_and_doI [OF reap_descendants_runs [OF ok]])
        (use goes in auto)
  qed (use q u(1) in \<open>auto intro: runs_trans\<close>)
  then show "returns (case q of
       None \<Rightarrow> done_with (Inr ReapAlreadyExited) t
     | Some identity \<Rightarrow> (case compare_identity (pv_platform env) r identity of
         Reused \<Rightarrow> done_with (Inr ReapAlreadyExited) t
       | Ambiguous \<Rightarrow> done_with (Inl (unproven r)) t
       | Same \<Rightarrow> (case capture_descendants env (er_pid r) t of (descendants, s) \<Rightarrow>
           and_do (reap_record_with_kill env r False s) (\<lambda>root_outcome s.
           and_do (reap_descendants env r descendants (False, []) s) (\<lambda>(killed_descendant, failures) s.
           if failures \<noteq> []
           then done_with (Inl (io_error_new IoOther (''failed to confirm death of captured descendants: '' @ join_with ''; '' failures))) s
           else done_with (Inr (if killed_descendant then ReapKilled else root_outcome)) s)))))
     (\<lambda>q v. runs (pv_platform env) r s v \<and> (case q of Inl _ \<Rightarrow> True | Inr _ \<Rightarrow> seen_gone (pv_platform env) r (rp_trace v)))"
    using q by (cases q) (auto simp: cap intro: seen_goneI split: identity_match.split)
qed

section \<open>Files\<close>

definition acts :: "event \<Rightarrow> bool" where
  "acts e \<longleftrightarrow> (case e of Signalled _ \<Rightarrow> True | Removed _ \<Rightarrow> True | _ \<Rightarrow> False)"

text \<open>The record that was read first.\<close>

fun first_loaded :: "event list \<Rightarrow> epoch_pid_record option" where
  "first_loaded [] = None"
| "first_loaded (e # tr) = (case first_loaded tr of Some r \<Rightarrow> Some r
     | None \<Rightarrow> (case e of Loaded r \<Rightarrow> Some r | _ \<Rightarrow> None))"

lemma first_loaded_append [simp]: "first_loaded tr = Some r \<Longrightarrow> first_loaded (new @ tr) = Some r"
  by (induction new) simp_all

definition on_files :: "string \<Rightarrow> bool \<Rightarrow> event \<Rightarrow> bool" where
  "on_files path ok e \<longleftrightarrow> (case e of Loaded _ \<Rightarrow> True | Removed p \<Rightarrow> p = path \<and> ok | _ \<Rightarrow> False)"

lemma lawful_files: "list_all (on_files path ok) new \<Longrightarrow> lawful os root (new @ tr) = lawful os root tr"
  by (induction new) (auto simp: on_files_def split: event.splits)

lemma read_epoch_pid_file_trace:
  "returns (read_epoch_pid_file env path s) (\<lambda>q t. case q of
      Inr (Some r) \<Rightarrow> rp_trace t = Loaded r # rp_trace s | _ \<Rightarrow> rp_trace t = rp_trace s)"
  unfolding read_epoch_pid_file_def
  by (auto simp: catch_def sys_def and_do_def done_with_def split: sum.splits file_type.splits)

lemma remove_record_trace:
  "returns (remove_record_if_matches env path r s) (\<lambda>q t. \<exists>new. rp_trace t = new @ rp_trace s
     \<and> list_all (on_files path (is_ok q)) new)"
  unfolding remove_record_if_matches_def
proof (rule returns_and_doI [OF read_epoch_pid_file_trace])
  fix found :: "epoch_pid_record option" and t :: reaper
  assume t: "case Inr found of Inr (Some r) \<Rightarrow> rp_trace t = Loaded r # rp_trace s | _ \<Rightarrow> rp_trace t = rp_trace s"
  then obtain new where new: "rp_trace t = new @ rp_trace s" "list_all (on_files path ok) new" for ok
    by (cases found) (auto simp: on_files_def)
  then have "list_all (on_files path ok) (Removed path # new)" if ok for ok using that by (simp add: on_files_def)
  then show "returns (if \<not> (case found of None \<Rightarrow> False | Some r' \<Rightarrow> record_eq r' r) then done_with (Inr ()) t
     else catch (sys (\<lambda>n. pv_remove env n path) t) (\<lambda>removed s. case removed of
         Inr _ \<Rightarrow> done_with (Inr ()) (log_event (Removed path) s)
       | Inl e \<Rightarrow> done_with (if ie_kind e = IoNotFound then Inr () else Inl e) s))
     (\<lambda>q t. \<exists>new. rp_trace t = new @ rp_trace s \<and> list_all (on_files path (is_ok q)) new)"
    using new by (auto simp: catch_def sys_def done_with_def split: sum.split intro!: exI [of _ "Removed path # new"])
qed auto

lemma runs_no_files: "runs os root s t \<Longrightarrow> Removed p \<in> set (rp_trace t) \<longleftrightarrow> Removed p \<in> set (rp_trace s)"
  unfolding runs_def on_processes_def list_all_iff by (elim conjE exE) (force dest: bspec [of _ _ "Removed p"])

text \<open>What is promised once the record was read and found to belong to the directory.\<close>

definition reaped :: "platform \<Rightarrow> epoch_pid_record \<Rightarrow> 'e + 'a \<Rightarrow> event list \<Rightarrow> bool" where
  "reaped os r q tr \<longleftrightarrow> first_loaded tr = Some r \<and> lawful os r tr
     \<and> (if is_ok q then seen_gone os r tr else list_all (\<lambda>e. case e of Removed _ \<Rightarrow> False | _ \<Rightarrow> True) tr)"

lemma reap_and_remove:
  assumes "rp_trace s = [Loaded r]"
  shows "returns (and_do (reap_record env r s) (\<lambda>outcome s.
     and_do (remove_record_if_matches env path r s) (\<lambda>_ s. done_with (Inr outcome) s)))
     (\<lambda>q t. reaped (pv_platform env) r q (rp_trace t))"
proof (rule returns_and_doI [OF reap_record_runs])
  have start: "first_loaded (rp_trace s) = Some r" "lawful os r (rp_trace s)" "Removed p \<notin> set (rp_trace s)" for os p
    using assms by simp_all
  have ran: "first_loaded (rp_trace t) = Some r \<and> lawful os r (rp_trace t) \<and> (\<forall>p. Removed p \<notin> set (rp_trace t))"
    if "runs os r s t" for os t
    using that start runs_no_files [OF that] by (auto simp: runs_def)
  show "reaped (pv_platform env) r (Inl e) (rp_trace t)"
    if "runs (pv_platform env) r s t \<and> (case Inl e of Inl _ \<Rightarrow> True | Inr _ \<Rightarrow> seen_gone (pv_platform env) r (rp_trace t))" for e t
    using ran [of "pv_platform env" t] that by (auto simp: reaped_def list_all_iff split: event.split)
  fix outcome and t :: reaper
  assume t: "runs (pv_platform env) r s t \<and> (case Inr outcome of Inl _ \<Rightarrow> True | Inr _ \<Rightarrow> seen_gone (pv_platform env) r (rp_trace t))"
  show "returns (and_do (remove_record_if_matches env path r t) (\<lambda>_ s. done_with (Inr outcome) s))
     (\<lambda>q t. reaped (pv_platform env) r q (rp_trace t))"
  proof (rule returns_and_doI [OF remove_record_trace])
    fix e and u :: reaper
    assume "\<exists>new. rp_trace u = new @ rp_trace t \<and> list_all (on_files path (is_ok (Inl e))) new"
    then obtain new where new: "rp_trace u = new @ rp_trace t" "list_all (on_files path False) new" by auto
    then have "list_all (\<lambda>e. case e of Removed _ \<Rightarrow> False | _ \<Rightarrow> True) new"
      by (auto simp: list_all_iff on_files_def split: event.splits)
    then show "reaped (pv_platform env) r (Inl e) (rp_trace u)"
      using new ran [of "pv_platform env" t] t lawful_files [OF new(2), of _ r "rp_trace t"]
      by (auto simp: reaped_def list_all_iff split: event.split)
  next
    fix x and u :: reaper
    assume "\<exists>new. rp_trace u = new @ rp_trace t \<and> list_all (on_files path (is_ok (Inr x))) new"
    then obtain new where new: "rp_trace u = new @ rp_trace t" "list_all (on_files path True) new" by auto
    then show "returns (done_with (Inr outcome) u) (\<lambda>q t. reaped (pv_platform env) r q (rp_trace t))"
      using ran [of "pv_platform env" t] t lawful_files [OF new(2), of _ r "rp_trace t"]
        seen_gone_mono [of "pv_platform env" r "rp_trace t" "rp_trace u"]
      by (simp add: reaped_def)
  qed
qed

definition reap_sound :: "platform \<Rightarrow> string \<Rightarrow> io_error + orphan_reap_outcome \<Rightarrow> event list \<Rightarrow> bool" where
  "reap_sound os path q tr \<longleftrightarrow>
     (if list_ex acts tr \<or> (\<exists>outcome. q = Inr outcome \<and> (outcome \<noteq> ReapNotFound \<or> tr \<noteq> []))
      then \<exists>r. first_loaded tr = Some r
        \<and> epoch_from_file_name path ''core-'' ''.pid'' = Inr (er_epoch r)
        \<and> epoch_from_file_name (er_runtime_config r) ''config-'' ''.yaml'' = Inr (er_epoch r)
        \<and> lawful os r tr
        \<and> (if is_ok q then seen_gone os r tr else list_all (\<lambda>e. case e of Removed _ \<Rightarrow> False | _ \<Rightarrow> True) tr)
      else True)"

lemma reap_epoch_pid_file_reaps:
  "returns (reap_epoch_pid_file env path runtime_dir (s\<lparr>rp_trace := []\<rparr>))
     (\<lambda>q t. reap_sound (pv_platform env) path q (rp_trace t))"
proof -
  define Q where "Q = (\<lambda>q (t :: reaper). reap_sound (pv_platform env) path q (rp_trace t))"
  have fails: "Q (Inl e) t" if "rp_trace t = []" for e t using that by (simp add: Q_def reap_sound_def)
  have refuses: "Q (Inl e) t" if "rp_trace t = [Loaded r]" for e t r using that by (simp add: Q_def reap_sound_def acts_def)
  have quiet: "Q (Inr ReapNotFound) t" if "rp_trace t = []" for t using that by (simp add: Q_def reap_sound_def)
  have last: "returns (and_do (reap_record env r t) (\<lambda>outcome s.
     and_do (remove_record_if_matches env path r s) (\<lambda>_ s. done_with (Inr outcome) s))) Q"
    if "rp_trace t = [Loaded r]" "epoch_from_file_name path ''core-'' ''.pid'' = Inr (er_epoch r)"
      "epoch_from_file_name (er_runtime_config r) ''config-'' ''.yaml'' = Inr (er_epoch r)" for r t
    by (rule returns_mono [OF reap_and_remove [OF that(1)]]) (use that in \<open>auto simp: reaped_def Q_def reap_sound_def\<close>)
  have belongs: "returns (case found of None \<Rightarrow> done_with (Inr ReapNotFound) t | Some r \<Rightarrow>
     if er_epoch r \<noteq> epoch then done_with (Inl (invalid_data ''pid filename and embedded epoch differ'')) t
     else and_do (done_with (parent_of ''runtime config'' (er_runtime_config r)) t) (\<lambda>runtime_parent s.
     and_do (sys (\<lambda>n. pv_canonicalize env n runtime_parent) s) (\<lambda>runtime_parent s.
     if \<not> path_eq runtime_parent dir
     then done_with (Inl (invalid_input ''runtime config escapes the runtime directory'')) s
     else and_do (done_with (epoch_from_file_name (er_runtime_config r) ''config-'' ''.yaml'') s) (\<lambda>runtime_epoch s.
     if runtime_epoch \<noteq> epoch then done_with (Inl (invalid_data ''runtime config filename and embedded epoch differ'')) s
     else and_do (validate_runtime_target env (er_runtime_config r) s) (\<lambda>_ s.
     and_do (reap_record env r s) (\<lambda>outcome s.
     and_do (remove_record_if_matches env path r s) (\<lambda>_ s. done_with (Inr outcome) s))))))) Q"
    if t: "case found of Some r \<Rightarrow> rp_trace t = [Loaded r] | None \<Rightarrow> rp_trace t = []"
      and epoch: "epoch_from_file_name path ''core-'' ''.pid'' = Inr epoch" for found epoch dir t
  proof (cases found)
    case (Some r)
    then have t: "rp_trace t = [Loaded r]" using t by simp
    show ?thesis
      unfolding Some option.case
      by (intro returns_if and_do_done and_do_sys returns_and_doI [OF validate_runtime_trace])
        (use t epoch in \<open>auto intro: refuses last\<close>)
  qed (use t quiet in simp)
  have "returns (reap_epoch_pid_file env path runtime_dir (s\<lparr>rp_trace := []\<rparr>)) Q"
    unfolding reap_epoch_pid_file_def
    apply (intro returns_if and_do_done and_do_sys returns_and_doI [OF read_epoch_pid_file_trace])
    apply ((rule belongs; simp split: option.splits) | simp add: fails)+
    done
  then show ?thesis unfolding Q_def .
qed


section \<open>Recording\<close>

lemma identity_proves_itself:
  assumes "pi_executable identity = Some executable" "pi_legacy_start_token identity \<noteq> Some (pi_start_token identity)"
    "er_executable r = executable" "er_start_token r = pi_start_token identity"
  shows "compare_identity os r identity = Same"
  using assms by (simp add: compare_identity_def recorded_executable_matches_def exe_names_equal_def)

lemma precise_token_not_legacy:
  assumes "precise_start_token seconds microseconds = Inr token" "seconds \<noteq> 0"
  shows "token \<noteq> seconds"
proof
  assume eq: "token = seconds"
  have less: "unat seconds * 2 ^ 20 + unat microseconds < 2 ^ 64" and token: "token = seconds * 2 ^ 20 + ucast microseconds"
    using assms(1) by (auto simp: precise_start_token_def not_le split: if_splits)
  have "unat (seconds * 2 ^ 20 :: u64) = unat seconds * 2 ^ 20" using less by (subst unat_mult_lem [THEN iffD1]) simp_all
  moreover have "unat (ucast microseconds :: u64) = unat microseconds" by (simp add: unsigned_ucast_eq take_bit_nat_eq_self_iff) (rule less_trans [OF unsigned_less], simp)
  ultimately have "unat token = unat seconds * 2 ^ 20 + unat microseconds"
    using less token by (subst token, subst unat_add_lem [THEN iffD1]) simp_all
  moreover have "0 < unat seconds" using assms(2) by (simp add: unat_gt_0)
  ultimately show False using eq by simp
qed

text \<open>Once the kill was sent, an identity that proves nothing counts as death, though it is an error before.\<close>

lemma ambiguous_counts_as_killed:
  assumes "ask_identity env (er_pid r) s = (Inr (Some identity), t)" "compare_identity (pv_platform env) r identity = Ambiguous"
  shows "confirm_attempts env r unowned kill_error (Suc k) err s = Some (Inr ReapKilled, t)"
    "reap_record env r s = Some (Inl (unproven r), t)"
proof -
  show "confirm_attempts env r unowned kill_error (Suc k) err s = Some (Inr ReapKilled, t)"
    using assms by (simp add: catch_def query_def done_with_def record_matches_identity_def)
  have "identity_for_reap env (er_pid r) s = reap_attempts env (er_pid r) (Suc 19) None s"
    by (simp add: identity_for_reap_def IDENTITY_WAIT_ATTEMPTS_def)
  also have "\<dots> = Some (Inr (Some identity), t)"
    using assms(1) by (simp only: reap_attempts.simps catch_def query_def) (simp add: done_with_def)
  finally show "reap_record env r s = Some (Inl (unproven r), t)"
    using assms(2) by (simp add: reap_record_def done_with_def)
qed

end
