(* ===== verification/Instance.thy ===== *)
theory Instance
  imports Log_Parser Supervisor Native_Paths Pid_File
begin

text \<open>
  One epoch of a running core (\<open>instance.rs\<close>): the status it publishes, the monitor task that turns the
  events of the supervisor and the observations of the probes into that status, and the stop that proves
  the process dead. Four tasks touch the status without a common lock: the monitor, the callback of the
  supervisor that publishes log frames, a caller that stops the instance, and a caller that waits for it.
  Each reads the status and writes it later, so a read and the write that follows from it are two steps
  here and the others may come in between. The reads of one arm of the monitor are one read, and a waiter,
  who writes back a final status it has just read, is one step. The answer that a probe gives to a caller
  and the deadlines are steps of the environment. A monitor that a stop aborts takes no further step.

  \<open>nt_read\<close> counts the events of the supervisor the monitor has consumed; \<open>nt_broadcast\<close> is history.
\<close>

section \<open>State\<close>

record run_state =
  ru_run_id :: u64
  ru_pid :: u32
  ru_ack_attempted :: bool
  ru_ready :: bool
  ru_tracker :: health_tracker

record monitor =
  mt_ever_ready :: bool
  mt_timeout_fired :: bool
  mt_probes_cancelled :: bool
  mt_next_run_id :: u64
  mt_current :: "run_state option"
  mt_driver :: bool
  mt_respawn_deadline :: "nat option"
  mt_last_exit :: "terminated_payload option"
  mt_ended :: bool

record inst =
  nt_status :: instance_status
  nt_persistence_error :: "string option"
  nt_user_stop :: bool
  nt_probe_timeout :: bool
  nt_probe_cancel :: bool
  nt_parser :: log_parser
  nt_tail :: "log_frame list"
  nt_broadcast :: "log_frame list"
  nt_supervised :: bool
  nt_sup :: sup
  nt_read :: nat
  nt_monitor :: monitor
  nt_monitor_saw :: "instance_status option"
  nt_frames :: "log_frame list"
  nt_callback_saw :: "instance_status option"
  nt_stop_saw :: bool

record inst_env =
  nv_store :: bool
  nv_kind :: core_kind
  nv_options :: instance_options
  nv_initial_deadline :: nat
  nv_sup :: sup_config
  nv_chrono :: chrono

definition LOG_TAIL_FRAMES :: nat where "LOG_TAIL_FRAMES = 32"

definition monitor_new :: monitor where
  "monitor_new = \<lparr>mt_ever_ready = False, mt_timeout_fired = False, mt_probes_cancelled = False, mt_next_run_id = 0,
     mt_current = None, mt_driver = False, mt_respawn_deadline = None, mt_last_exit = None, mt_ended = False\<rparr>"

definition inst_new :: "inst_env \<Rightarrow> epoch \<Rightarrow> int \<Rightarrow> sup \<Rightarrow> inst" where
  "inst_new env e now su = \<lparr>nt_status = instance_initial now, nt_persistence_error = None, nt_user_stop = False,
     nt_probe_timeout = False, nt_probe_cancel = False, nt_parser = log_parser_new (nv_kind env) (epoch_get e),
     nt_tail = [], nt_broadcast = [], nt_supervised = True, nt_sup = su, nt_read = 0, nt_monitor = monitor_new,
     nt_monitor_saw = None, nt_frames = [], nt_callback_saw = None, nt_stop_saw = False\<rparr>"

section \<open>Publishing\<close>

definition closes :: "instance_state \<Rightarrow> bool" where
  "closes state \<longleftrightarrow> (case state of IStopping \<Rightarrow> True | IStopped _ \<Rightarrow> True | _ \<Rightarrow> False)"

definition instance_publish :: "instance_state \<Rightarrow> inst \<Rightarrow> inst" where
  "instance_publish state s = (let st = (nt_status s)\<lparr>is_state := state\<rparr> in
     s\<lparr>nt_status := if closes state then st\<lparr>is_health := None, is_instance_id := None\<rparr> else st\<rparr>)"

definition publish_status :: "instance_status \<Rightarrow> inst \<Rightarrow> inst" where
  "publish_status status s = s\<lparr>nt_status := (case (is_health status, nt_persistence_error s) of
       (Some health, Some error) \<Rightarrow> status\<lparr>is_health := Some (health\<lparr>hs_state := HUnhealthy, hs_last_error := Some error\<rparr>)\<rparr>
     | _ \<Rightarrow> status)\<rparr>"

text \<open>\<open>publish_log_frame\<close> up to the read of the status, and from the write of it on.\<close>

definition frame_fails :: "inst_env \<Rightarrow> log_frame \<Rightarrow> bool" where
  "frame_fails env frame \<longleftrightarrow> nv_store env \<and> cache_failure (nv_kind env) (fr_message frame)"

definition frame_begin :: "inst_env \<Rightarrow> log_frame \<Rightarrow> inst \<Rightarrow> inst" where
  "frame_begin env frame s =
     (if frame_fails env frame then s\<lparr>nt_persistence_error := Some (''native store: '' @ fr_message frame)\<rparr> else s)"

definition push_tail :: "log_frame \<Rightarrow> log_frame list \<Rightarrow> log_frame list" where
  "push_tail frame tail = (if length tail = LOG_TAIL_FRAMES then tl tail else tail) @ [frame]"

definition frame_end :: "inst_env \<Rightarrow> log_frame \<Rightarrow> instance_status \<Rightarrow> inst \<Rightarrow> inst" where
  "frame_end env frame saw s =
     (let s = (if frame_fails env frame then publish_status saw s else s)
      in s\<lparr>nt_tail := push_tail frame (nt_tail s), nt_broadcast := nt_broadcast s @ [frame]\<rparr>)"

definition publish_log_frame :: "inst_env \<Rightarrow> log_frame \<Rightarrow> inst \<Rightarrow> inst" where
  "publish_log_frame env frame s = (let s = frame_begin env frame s in frame_end env frame (nt_status s) s)"

definition flush_log_record :: "inst_env \<Rightarrow> inst \<Rightarrow> inst" where
  "flush_log_record env s = (case Log_Parser.finish (nt_parser s) of (frames, parser) \<Rightarrow>
     fold (publish_log_frame env) (frames_of frames) (s\<lparr>nt_parser := parser\<rparr>))"

definition diagnostics :: "inst_env \<Rightarrow> inst \<Rightarrow> string \<times> inst" where
  "diagnostics env s = (let s = flush_log_record env s in (format_tail (nt_tail s), s))"

definition failure_summary :: "inst_env \<Rightarrow> string \<Rightarrow> inst \<Rightarrow> string \<times> inst" where
  "failure_summary env lifecycle s = (case nt_persistence_error s of
       Some error \<Rightarrow> (error, s)
     | None \<Rightarrow> let s = flush_log_record env s in
         (case error_summary (nt_tail s) of Some summary \<Rightarrow> summary | None \<Rightarrow> lifecycle, s))"

section \<open>Health\<close>

record probe_observation =
  po_run_id :: u64
  po_pid :: u32
  po_completed_at :: nat
  po_completed_at_ms :: int
  po_result :: probe_result

definition observation_applies :: "probe_observation \<Rightarrow> run_state \<Rightarrow> bool" where
  "observation_applies obs run \<longleftrightarrow> po_run_id obs = ru_run_id run \<and> po_pid obs = ru_pid run"

definition reset_starting_health :: "int \<Rightarrow> health_status option \<Rightarrow> health_status" where
  "reset_starting_health now previous = \<lparr>hs_state = HStarting,
     hs_changed_at = (case previous of Some status \<Rightarrow> if hs_state status = HStarting then hs_changed_at status else now | None \<Rightarrow> now),
     hs_consecutive_failures = 0, hs_last_error = None, hs_last_success_at = None\<rparr>"

definition tracked_health :: "tracker_state \<Rightarrow> health_state" where
  "tracked_health t = (case t of TStarting \<Rightarrow> HStarting | THealthy \<Rightarrow> HHealthy | TUnhealthy \<Rightarrow> HUnhealthy)"

definition observed_health :: "health_status option \<Rightarrow> tracker_update \<Rightarrow> probe_observation \<Rightarrow> health_status" where
  "observed_health previous update obs =
     (let state = tracked_health (tu_state update) in \<lparr>hs_state = state,
        hs_changed_at = (case previous of
            Some status \<Rightarrow> if hs_state status = state then hs_changed_at status else po_completed_at_ms obs
          | None \<Rightarrow> po_completed_at_ms obs),
        hs_consecutive_failures = tu_consecutive_failures update, hs_last_error = tu_last_error update,
        hs_last_success_at = (if is_healthy (po_result obs) then Some (po_completed_at_ms obs)
          else Option.bind previous hs_last_success_at)\<rparr>)"

section \<open>The monitor\<close>

definition in_monitor :: "(monitor \<Rightarrow> monitor) \<Rightarrow> inst \<Rightarrow> inst" where
  "in_monitor f s = s\<lparr>nt_monitor := f (nt_monitor s)\<rparr>"

definition cancel :: "inst \<Rightarrow> inst" where
  "cancel s = s\<lparr>nt_sup := (nt_sup s)\<lparr>su_cancelled := True\<rparr>\<rparr>"

definition forget_run :: "monitor \<Rightarrow> monitor" where
  "forget_run m = m\<lparr>mt_driver := False, mt_current := None, mt_respawn_deadline := None\<rparr>"

definition see_probe_cancel :: "inst \<Rightarrow> inst" where
  "see_probe_cancel s = in_monitor (\<lambda>m. (forget_run m)\<lparr>mt_probes_cancelled := True\<rparr>) s"

definition on_started :: "inst_env \<Rightarrow> u32 \<Rightarrow> nat \<Rightarrow> int \<Rightarrow> nat \<Rightarrow> instance_status \<Rightarrow> inst \<Rightarrow> inst" where
  "on_started env pid now now_ms uuid saw s =
     (let run_id = saturating_add (mt_next_run_id (nt_monitor s)) 1;
          s = publish_status \<lparr>is_instance_id = Some uuid, is_state = is_state saw,
                is_health = Some (reset_starting_health now_ms (is_health saw))\<rparr> s
      in in_monitor (\<lambda>m. m\<lparr>mt_next_run_id := run_id,
           mt_current := Some \<lparr>ru_run_id = run_id, ru_pid = pid, ru_ack_attempted = False, ru_ready = False,
             ru_tracker = tracker_new (io_health (nv_options env)) now\<rparr>,
           mt_respawn_deadline := (if mt_ever_ready m then Some (now + io_startup_timeout (nv_options env)) else None),
           mt_driver := \<not> mt_probes_cancelled m\<rparr>) s)"

definition on_restarting :: "u32 \<Rightarrow> int \<Rightarrow> instance_status \<Rightarrow> inst \<Rightarrow> inst" where
  "on_restarting attempt now_ms saw s =
     publish_status \<lparr>is_instance_id = None, is_state = IRestarting attempt,
       is_health = Some (reset_starting_health now_ms (is_health saw))\<rparr> (in_monitor forget_run s)"

definition end_monitor :: "inst \<Rightarrow> inst" where
  "end_monitor s = in_monitor (\<lambda>m. m\<lparr>mt_driver := False, mt_ended := True\<rparr>) s"

definition stopped_status :: "stop_reason \<Rightarrow> instance_status" where
  "stopped_status reason = \<lparr>is_instance_id = None, is_state = IStopped reason, is_health = None\<rparr>"

definition show_int :: "int \<Rightarrow> string" where
  "show_int i = (if i < 0 then ''-'' else []) @ show_nat (nat \<bar>i\<bar>)"

definition debug_option :: "('a \<Rightarrow> string) \<Rightarrow> 'a option \<Rightarrow> string" where
  "debug_option f x = (case x of None \<Rightarrow> ''None'' | Some y \<Rightarrow> ''Some('' @ f y @ '')'')"

definition payload_debug :: "terminated_payload \<Rightarrow> string" where
  "payload_debug p = ''TerminatedPayload { code: '' @ debug_option show_int (tp_code p) @ '', signal: ''
     @ debug_option show_int (tp_signal p) @ '' }''"

definition publish_terminal :: "inst_env \<Rightarrow> inst \<Rightarrow> inst" where
  "publish_terminal env s =
     (let s = flush_log_record env s; last_exit = mt_last_exit (nt_monitor s);
          (reason, s) = (if nt_user_stop s then (User, s)
            else if nt_probe_timeout s
            then let (text_of, s) = diagnostics env s in (StopError (''health probe timed out'' @ [CHR 0x0A] @ text_of), s)
            else if (case last_exit of Some payload \<Rightarrow> tp_code payload = Some 0 | None \<Rightarrow> False) then (Finished, s)
            else let (text_of, s) = diagnostics env s in
              (StopError (''core exited unexpectedly ('' @ debug_option payload_debug last_exit @ '')'' @ [CHR 0x0A] @ text_of), s))
      in s\<lparr>nt_status := stopped_status reason\<rparr>)"

definition on_event :: "inst_env \<Rightarrow> supervisor_event \<Rightarrow> nat \<Rightarrow> int \<Rightarrow> nat \<Rightarrow> instance_status \<Rightarrow> inst \<Rightarrow> inst" where
  "on_event env event now now_ms uuid saw s = (case event of
       EvStarted pid \<Rightarrow> on_started env pid now now_ms uuid saw s
     | EvRestarting attempt _ \<Rightarrow> on_restarting attempt now_ms saw s
     | EvExited payload \<Rightarrow> in_monitor (\<lambda>m. (forget_run m)\<lparr>mt_last_exit := Some payload\<rparr>) s
     | EvPreparationFailed detail \<Rightarrow> end_monitor (instance_publish (IStopped (StopError detail)) s)
     | EvGaveUp \<Rightarrow> let (text_of, s) = diagnostics env s in end_monitor (publish_status (stopped_status
         (StopError (''core kept crashing; restart budget exhausted'' @ [CHR 0x0A] @ text_of))) s)
     | EvStopped \<Rightarrow> end_monitor (publish_terminal env s)
     | EvReady \<Rightarrow> s)"

text \<open>The queue of events is closed: the supervisor is gone.\<close>

definition events_closed :: "inst_env \<Rightarrow> inst \<Rightarrow> inst" where
  "events_closed env s = end_monitor (publish_terminal env s)"

definition deadline_fires :: "inst \<Rightarrow> inst" where
  "deadline_fires s = cancel ((in_monitor forget_run s)\<lparr>nt_probe_timeout := True, nt_probe_cancel := True\<rparr>)"

definition initial_deadline :: "inst \<Rightarrow> inst" where
  "initial_deadline s = deadline_fires (in_monitor (\<lambda>m. m\<lparr>mt_timeout_fired := True\<rparr>) s)"

definition too_late :: "inst_env \<Rightarrow> probe_observation \<Rightarrow> monitor \<Rightarrow> bool" where
  "too_late env obs m \<longleftrightarrow> \<not> mt_ever_ready m \<and> nv_initial_deadline env < po_completed_at obs
     \<or> (case mt_respawn_deadline m of Some deadline \<Rightarrow> deadline < po_completed_at obs | None \<Rightarrow> False)"

definition acknowledge :: "bool \<Rightarrow> u32 \<Rightarrow> inst \<Rightarrow> bool \<times> inst" where
  "acknowledge open pid s =
     (if nt_supervised s then (case acknowledge_ready open pid (nt_sup s) of (ok, su) \<Rightarrow> (ok, s\<lparr>nt_sup := su\<rparr>)) else (False, s))"

definition set_run :: "run_state \<Rightarrow> inst \<Rightarrow> inst" where
  "set_run run s = in_monitor (\<lambda>m. m\<lparr>mt_current := Some run\<rparr>) s"

text \<open>\<open>ProbeReconcile::apply\<close>: the result says whether the run became ready.\<close>

definition apply_observation :: "inst_env \<Rightarrow> bool \<Rightarrow> probe_observation \<Rightarrow> instance_status \<Rightarrow> inst \<Rightarrow> bool \<times> inst" where
  "apply_observation env open obs saw s = (case mt_current (nt_monitor s) of None \<Rightarrow> (False, s) | Some run \<Rightarrow>
     if \<not> observation_applies obs run \<or> too_late env obs (nt_monitor s) then (False, s)
     else case observe (po_completed_at obs) (po_result obs) (ru_tracker run) of (update, tracker) \<Rightarrow>
     let run = run\<lparr>ru_tracker := tracker\<rparr>; health = observed_health (is_health saw) update obs in
     if \<not> ru_ack_attempted run \<and> tu_state update = THealthy
     then let run = run\<lparr>ru_ack_attempted := True\<rparr>; (acknowledged, s) = acknowledge open (ru_pid run) (set_run run s) in
       if acknowledged
       then (True, publish_status \<lparr>is_instance_id = is_instance_id saw, is_state = IRunning (ru_pid run), is_health = Some health\<rparr>
         (in_monitor (\<lambda>m. m\<lparr>mt_ever_ready := True, mt_respawn_deadline := None\<rparr>) (set_run (run\<lparr>ru_ready := True\<rparr>) s)))
       else (False, s)
     else (False, publish_status \<lparr>is_instance_id = is_instance_id saw, is_state = is_state saw, is_health = Some health\<rparr>
       (set_run run s)))"

text \<open>Who answers a requested probe: the driver of a ready run, or nobody.\<close>

definition probe_answer :: "monitor \<Rightarrow> probe_result \<Rightarrow> probe_result" where
  "probe_answer m driver_answer =
     (if (case mt_current m of Some run \<Rightarrow> ru_ready run | None \<Rightarrow> False)
      then if mt_driver m then driver_answer else ProbeUnhealthy (Some ''instance probe driver is not running'')
      else ProbeUnhealthy (Some ''instance is not running''))"

section \<open>Steps\<close>

text \<open>An arm of the monitor starts from a state it has looked at.\<close>

definition looked :: "instance_status \<Rightarrow> inst \<Rightarrow> bool" where
  "looked saw s \<longleftrightarrow> \<not> mt_ended (nt_monitor s) \<and> nt_monitor_saw s = Some saw"

definition act :: "inst \<Rightarrow> inst" where
  "act s = s\<lparr>nt_monitor_saw := None\<rparr>"

definition quiet_callback :: "inst \<Rightarrow> bool" where
  "quiet_callback s \<longleftrightarrow> nt_frames s = [] \<and> nt_callback_saw s = None"

inductive inst_step :: "inst_env \<Rightarrow> inst \<Rightarrow> inst \<Rightarrow> bool" for env where
  supervises: "sup_step (nv_sup env) (nt_sup s) u \<Longrightarrow> quiet_callback s \<Longrightarrow> inst_step env s (s\<lparr>nt_sup := u\<rparr>)"
| cancels: "inst_step env s (cancel s)"
| record_fails: "nv_store env \<Longrightarrow> inst_step env s (cancel (s\<lparr>nt_persistence_error := Some error\<rparr>))"
| prepares: "nv_store env \<Longrightarrow> inst_step env s (s\<lparr>nt_persistence_error := None\<rparr>)"
| prints: "su_phase (nt_sup s) \<noteq> Ended \<Longrightarrow> quiet_callback s \<Longrightarrow>
    push_at (nv_chrono env) stream line at (nt_parser s) = Some (frames, parser) \<Longrightarrow>
    inst_step env s (s\<lparr>nt_parser := parser, nt_frames := frames_of frames\<rparr>)"
| terminates: "su_phase (nt_sup s) \<noteq> Ended \<Longrightarrow> quiet_callback s \<Longrightarrow> Log_Parser.finish (nt_parser s) = (frames, parser) \<Longrightarrow>
    inst_step env s (s\<lparr>nt_parser := parser, nt_frames := frames_of frames\<rparr>)"
| frame_begins: "nt_frames s = frame # rest \<Longrightarrow> nt_callback_saw s = None \<Longrightarrow>
    inst_step env s ((frame_begin env frame s)\<lparr>nt_callback_saw := Some (nt_status s)\<rparr>)"
| frame_ends: "nt_frames s = frame # rest \<Longrightarrow> nt_callback_saw s = Some saw \<Longrightarrow>
    inst_step env s ((frame_end env frame saw s)\<lparr>nt_frames := rest, nt_callback_saw := None\<rparr>)"
| looks: "\<not> mt_ended (nt_monitor s) \<Longrightarrow> inst_step env s (s\<lparr>nt_monitor_saw := Some (nt_status s)\<rparr>)"
| probe_cancelled: "looked saw s \<Longrightarrow> nt_probe_cancel s \<Longrightarrow> inst_step env s (act (see_probe_cancel s))"
| event: "looked saw s \<Longrightarrow> nt_read s < length (su_events (nt_sup s)) \<Longrightarrow>
    inst_step env s (act (on_event env (su_events (nt_sup s) ! nt_read s) now now_ms uuid saw (s\<lparr>nt_read := nt_read s + 1\<rparr>)))"
| closed: "looked saw s \<Longrightarrow> nt_read s = length (su_events (nt_sup s)) \<Longrightarrow> su_phase (nt_sup s) = Ended \<Longrightarrow>
    inst_step env s (act (events_closed env s))"
| starts_late: "looked saw s \<Longrightarrow> \<not> mt_ever_ready (nt_monitor s) \<Longrightarrow> \<not> mt_timeout_fired (nt_monitor s) \<Longrightarrow>
    inst_step env s (act (initial_deadline s))"
| respawns_late: "looked saw s \<Longrightarrow> mt_respawn_deadline (nt_monitor s) \<noteq> None \<Longrightarrow> inst_step env s (act (deadline_fires s))"
| observes: "looked saw s \<Longrightarrow> inst_step env s (act (snd (apply_observation env open obs saw s)))"
| stop_begins: "inst_step env s (s\<lparr>nt_user_stop := True, nt_probe_cancel := True,
    nt_stop_saw := \<not> is_terminal (is_state (nt_status s))\<rparr>)"
| stop_publishes: "nt_stop_saw s \<Longrightarrow> inst_step env s ((instance_publish IStopping s)\<lparr>nt_stop_saw := False\<rparr>)"
| stop_confirms: "nt_user_stop s \<Longrightarrow> inst_step env s (instance_publish (IStopped User) s)"
| stop_takes: "nt_user_stop s \<Longrightarrow> inst_step env s (cancel (s\<lparr>nt_supervised := False\<rparr>))"
| dropped: "inst_step env s (cancel (s\<lparr>nt_probe_cancel := True\<rparr>))"
| waiter_flushes: "is_terminal (is_state (nt_status s)) \<Longrightarrow> inst_step env s (flush_log_record env s)"

definition inst_init :: "inst_env \<Rightarrow> inst \<Rightarrow> bool" where
  "inst_init env s \<longleftrightarrow> (\<exists>e now su. sup_init (nv_sup env) su \<and> s = inst_new env e now su)"

inductive_cases inst_stepE: "inst_step env s t"

section \<open>A status that is closed stays closed\<close>

definition closed_status :: "instance_status \<Rightarrow> bool" where
  "closed_status st \<longleftrightarrow> closes (is_state st) \<and> is_health st = None \<and> is_instance_id st = None"

lemma closed_stopped [simp]: "closed_status (stopped_status reason)"
  by (simp add: closed_status_def stopped_status_def closes_def)

lemma publish_status_fields [simp]:
  "nt_monitor (publish_status st s) = nt_monitor s" "nt_sup (publish_status st s) = nt_sup s"
  "nt_frames (publish_status st s) = nt_frames s" "nt_callback_saw (publish_status st s) = nt_callback_saw s"
  "nt_read (publish_status st s) = nt_read s" "nt_tail (publish_status st s) = nt_tail s"
  "nt_broadcast (publish_status st s) = nt_broadcast s" "nt_monitor_saw (publish_status st s) = nt_monitor_saw s"
  by (simp_all add: publish_status_def)

lemma publish_closed: "closed_status st \<Longrightarrow> nt_status (publish_status st s) = st"
  by (simp add: publish_status_def closed_status_def)

definition same_tasks :: "inst \<Rightarrow> inst \<Rightarrow> bool" where
  "same_tasks s t \<longleftrightarrow> nt_monitor t = nt_monitor s \<and> nt_sup t = nt_sup s \<and> nt_frames t = nt_frames s
     \<and> nt_callback_saw t = nt_callback_saw s \<and> nt_read t = nt_read s \<and> nt_monitor_saw t = nt_monitor_saw s"

lemma frame_fields:
  "same_tasks s (frame_begin env frame s)" "same_tasks s (frame_end env frame saw s)" "same_tasks s (publish_log_frame env frame s)"
  by (simp_all add: same_tasks_def frame_begin_def frame_end_def publish_log_frame_def Let_def)

lemma fold_publish_same: "same_tasks s (fold (publish_log_frame env) frames s)"
proof (induction frames arbitrary: s)
  case (Cons frame frames)
  then show ?case using Cons [of "publish_log_frame env frame s"] frame_fields(3) [where env = env and frame = frame and s = s]
    by (simp add: same_tasks_def)
qed (simp add: same_tasks_def)

lemma flush_same: "same_tasks s (flush_log_record env s)"
  using fold_publish_same [of "s\<lparr>nt_parser := snd (Log_Parser.finish (nt_parser s))\<rparr>" env]
  by (auto simp: flush_log_record_def same_tasks_def split: prod.split)

lemma publish_frame_closed: "closed_status (nt_status s) \<Longrightarrow> nt_status (publish_log_frame env frame s) = nt_status s"
  by (simp add: publish_log_frame_def frame_begin_def frame_end_def Let_def publish_closed)

lemma flush_closed: "closed_status (nt_status s) \<Longrightarrow> nt_status (flush_log_record env s) = nt_status s"
proof -
  have "closed_status (nt_status s) \<Longrightarrow> nt_status (fold (publish_log_frame env) frames s) = nt_status s" for frames s
    by (induction frames arbitrary: s) (simp_all add: publish_frame_closed)
  then show "closed_status (nt_status s) \<Longrightarrow> nt_status (flush_log_record env s) = nt_status s"
    by (simp add: flush_log_record_def split: prod.split)
qed

lemma publish_terminal_spec: "same_tasks s (publish_terminal env s) \<and> closed_status (nt_status (publish_terminal env s))"
  using flush_same [of s env] flush_same [of "flush_log_record env s" env]
  by (simp add: publish_terminal_def diagnostics_def same_tasks_def Let_def split: prod.split)

section \<open>Closing events are last words\<close>

definition last_word :: "supervisor_event \<Rightarrow> bool" where
  "last_word e \<longleftrightarrow> (case e of EvGaveUp \<Rightarrow> True | EvStopped \<Rightarrow> True | EvPreparationFailed _ \<Rightarrow> True | _ \<Rightarrow> False)"

lemma trace_last_word: "trace_next g e = Some g' \<Longrightarrow> last_word e \<longleftrightarrow> g' = TClosed"
  by (cases "(g, e)" rule: trace_next.cases) (auto simp: last_word_def)

lemma trace_closed_tail: "trace_of es = Some g \<Longrightarrow> e \<in> set es \<Longrightarrow> last_word e \<Longrightarrow> g = TClosed"
proof (induction es arbitrary: g rule: rev_induct)
  case (snoc x es)
  obtain h where h: "trace_of es = Some h" "trace_next h x = Some g" using snoc.prems(1) by (auto simp: bind_eq_Some_conv)
  show ?case
  proof (cases "e \<in> set es")
    case True
    then have "h = TClosed" using snoc.IH [OF h(1)] snoc.prems(3) by simp
    then show ?thesis using h(2) by simp
  next
    case False
    then show ?thesis using snoc.prems h(2) trace_last_word by auto
  qed
qed simp

lemma last_word_ended: "traced cfg su \<Longrightarrow> e \<in> set (su_events su) \<Longrightarrow> last_word e \<Longrightarrow> su_phase su = Ended"
proof -
  assume "traced cfg su" "e \<in> set (su_events su)" "last_word e"
  then have "phase_matches (su_phase su) (su_cancelled su) TClosed"
    using trace_closed_tail by (fastforce simp: traced_def)
  then show ?thesis by (cases "su_phase su") simp_all
qed

lemma ended_stays: "sup_step cfg s t \<Longrightarrow> su_phase s = Ended \<Longrightarrow> su_phase t = Ended"
  by (erule sup_stepE) (auto simp: acknowledge_ready_def)

section \<open>The invariant\<close>

definition inst_inv :: "inst_env \<Rightarrow> inst \<Rightarrow> bool" where
  "inst_inv env s \<longleftrightarrow> traced (nv_sup env) (nt_sup s) \<and> (su_phase (nt_sup s) = Ended \<longrightarrow> quiet_callback s)
     \<and> (mt_ended (nt_monitor s) \<longrightarrow> su_phase (nt_sup s) = Ended \<and> closed_status (nt_status s))"

lemma inst_inv_keep:
  assumes "inst_inv env s" "nt_monitor t = nt_monitor s" "nt_sup t = nt_sup s" "nt_frames t = nt_frames s"
    "nt_callback_saw t = nt_callback_saw s" "mt_ended (nt_monitor s) \<Longrightarrow> closed_status (nt_status t)"
  shows "inst_inv env t"
  using assms by (simp add: inst_inv_def quiet_callback_def)

lemma inst_inv_cancel: "inst_inv env s \<Longrightarrow> inst_inv env (cancel s)"
  using traced_step [OF _ sup_step.cancel] by (simp add: inst_inv_def cancel_def quiet_callback_def)

lemma inst_inv_act [simp]: "inst_inv env (act s) = inst_inv env s"
  by (simp add: inst_inv_def act_def quiet_callback_def)

lemma inst_inv_monitor:
  assumes "inst_inv env s" "\<not> mt_ended (nt_monitor s)" "\<not> mt_ended (nt_monitor t)" "nt_frames t = nt_frames s"
    "nt_callback_saw t = nt_callback_saw s" "traced (nv_sup env) (nt_sup t)" "su_phase (nt_sup t) = su_phase (nt_sup s)"
  shows "inst_inv env t"
  using assms by (simp add: inst_inv_def quiet_callback_def)

lemma inst_inv_end:
  assumes "inst_inv env s" "su_phase (nt_sup s) = Ended" "same_tasks s t" "closed_status (nt_status t)"
  shows "inst_inv env (end_monitor t)"
  using assms by (simp add: inst_inv_def quiet_callback_def end_monitor_def in_monitor_def same_tasks_def)

lemma apply_observation_tasks:
  assumes "traced cfg (nt_sup s)" "\<not> mt_ended (nt_monitor s)"
  shows "traced cfg (nt_sup (snd (apply_observation env open obs saw s)))
    \<and> su_phase (nt_sup (snd (apply_observation env open obs saw s))) = su_phase (nt_sup s)
    \<and> su_events (nt_sup (snd (apply_observation env open obs saw s))) = su_events (nt_sup s)
    \<and> \<not> mt_ended (nt_monitor (snd (apply_observation env open obs saw s)))
    \<and> nt_frames (snd (apply_observation env open obs saw s)) = nt_frames s
    \<and> nt_callback_saw (snd (apply_observation env open obs saw s)) = nt_callback_saw s
    \<and> nt_read (snd (apply_observation env open obs saw s)) = nt_read s"
proof -
  have "traced cfg (snd (acknowledge_ready open pid (nt_sup s)))" for pid
    by (rule traced_step [OF assms(1) sup_step.acknowledge])
  moreover have "su_phase (snd (acknowledge_ready open pid su)) = su_phase su"
    "su_events (snd (acknowledge_ready open pid su)) = su_events su" for pid su
    by (simp_all add: acknowledge_ready_def)
  ultimately show ?thesis
    using assms
    by (auto simp: apply_observation_def acknowledge_def set_run_def in_monitor_def Let_def split: option.split prod.split if_splits)
      (metis snd_conv)+
qed

lemma on_event_inv:
  assumes inv: "inst_inv env s" and e: "e \<in> set (su_events (nt_sup s))" and run: "\<not> mt_ended (nt_monitor s)"
  shows "inst_inv env (on_event env e now now_ms uuid saw s)"
proof -
  have tr: "traced (nv_sup env) (nt_sup s)" using inv by (simp add: inst_inv_def)
  have ended: "last_word e \<Longrightarrow> su_phase (nt_sup s) = Ended" by (rule last_word_ended [OF tr e])
  show ?thesis
  proof (cases e)
    case (EvPreparationFailed detail)
    then show ?thesis
      using ended by (auto simp: on_event_def last_word_def same_tasks_def instance_publish_def closed_status_def closes_def
          Let_def intro!: inst_inv_end [OF inv])
  next
    case EvGaveUp
    let ?s = "flush_log_record env s"
    have "same_tasks s (publish_status (stopped_status reason) ?s) \<and> closed_status (nt_status (publish_status (stopped_status reason) ?s))" for reason
      using flush_same [of s env] by (simp add: same_tasks_def publish_closed)
    then show ?thesis
      using EvGaveUp ended by (auto simp: on_event_def last_word_def diagnostics_def Let_def intro!: inst_inv_end [OF inv])
  next
    case EvStopped
    then show ?thesis using ended publish_terminal_spec [of s env]
      by (auto simp: on_event_def last_word_def intro!: inst_inv_end [OF inv])
  qed (use inv run tr in \<open>auto simp: on_event_def on_started_def on_restarting_def in_monitor_def forget_run_def Let_def
      intro!: inst_inv_monitor [OF inv run]\<close>)
qed

lemma inst_step_inv:
  assumes inv: "inst_inv env s" and "inst_step env s t"
  shows "inst_inv env t"
  using assms(2)
proof cases
  case (supervises u)
  then show ?thesis
    using inv traced_step [OF _ supervises(2)] ended_stays [OF supervises(2)] by (simp add: inst_inv_def quiet_callback_def)
next
  case cancels
  then show ?thesis by (simp add: inst_inv_cancel [OF inv])
next
  case (record_fails error)
  have "inst_inv env (s\<lparr>nt_persistence_error := Some error\<rparr>)" using inv by (simp add: inst_inv_def quiet_callback_def)
  then show ?thesis using record_fails by (simp add: inst_inv_cancel)
next
  case (frame_begins frame rest)
  then show ?thesis using inv frame_fields(1) [of s env frame]
    by (auto simp: inst_inv_def quiet_callback_def same_tasks_def frame_begin_def)
next
  case (frame_ends frame rest saw)
  then have "su_phase (nt_sup s) \<noteq> Ended" using inv by (auto simp: inst_inv_def quiet_callback_def)
  then show ?thesis using frame_ends inv frame_fields(2) [of s env frame saw]
    by (auto simp: inst_inv_def quiet_callback_def same_tasks_def)
next
  case (event saw now now_ms uuid)
  let ?s = "s\<lparr>nt_read := nt_read s + 1\<rparr>"
  have "inst_inv env ?s" using inv by (simp add: inst_inv_def quiet_callback_def)
  then have "inst_inv env (on_event env (su_events (nt_sup s) ! nt_read s) now now_ms uuid saw ?s)"
    by (rule on_event_inv) (use event in \<open>simp_all add: looked_def\<close>)
  then show ?thesis using event by simp
next
  case (closed saw)
  have "inst_inv env (end_monitor (publish_terminal env s))"
    using publish_terminal_spec [of s env] closed by (intro inst_inv_end [OF inv]) simp_all
  then show ?thesis using closed by (simp add: events_closed_def)
next
  case (starts_late saw)
  have "inst_inv env ((in_monitor forget_run (in_monitor (\<lambda>m. m\<lparr>mt_timeout_fired := True\<rparr>) s))\<lparr>nt_probe_timeout := True, nt_probe_cancel := True\<rparr>)"
    using inv starts_late by (auto simp: looked_def in_monitor_def forget_run_def inst_inv_def quiet_callback_def)
  then show ?thesis using starts_late by (simp add: initial_deadline_def deadline_fires_def inst_inv_cancel)
next
  case (respawns_late saw)
  have "inst_inv env ((in_monitor forget_run s)\<lparr>nt_probe_timeout := True, nt_probe_cancel := True\<rparr>)"
    using inv respawns_late by (auto simp: looked_def in_monitor_def forget_run_def inst_inv_def quiet_callback_def)
  then show ?thesis using respawns_late by (simp add: deadline_fires_def inst_inv_cancel)
next
  case (observes saw op obs)
  then have run: "\<not> mt_ended (nt_monitor s)" by (simp add: looked_def)
  have "traced (nv_sup env) (nt_sup s)" using inv by (simp add: inst_inv_def)
  from apply_observation_tasks [OF this run, of env op obs saw]
  have "inst_inv env (snd (apply_observation env op obs saw s))" by (intro inst_inv_monitor [OF inv run]) simp_all
  then show ?thesis using observes by simp
next
  case stop_publishes
  then show ?thesis using inv
    by (auto simp: inst_inv_def quiet_callback_def instance_publish_def closed_status_def closes_def Let_def)
next
  case stop_confirms
  then show ?thesis using inv
    by (auto simp: inst_inv_def quiet_callback_def instance_publish_def closed_status_def closes_def Let_def)
next
  case stop_takes
  have "inst_inv env (s\<lparr>nt_supervised := False\<rparr>)" using inv by (simp add: inst_inv_def quiet_callback_def)
  then show ?thesis using stop_takes by (simp add: inst_inv_cancel)
next
  case dropped
  have "inst_inv env (s\<lparr>nt_probe_cancel := True\<rparr>)" using inv by (simp add: inst_inv_def quiet_callback_def)
  then show ?thesis using dropped by (simp add: inst_inv_cancel)
next
  case waiter_flushes
  then show ?thesis
    using inv flush_same [of s env] flush_closed [of s env] by (intro inst_inv_keep [OF inv]) (auto simp: same_tasks_def inst_inv_def)
qed (use inv in \<open>auto simp: inst_inv_def quiet_callback_def looked_def see_probe_cancel_def in_monitor_def forget_run_def act_def\<close>)

lemma inst_init_inv: "inst_init env s \<Longrightarrow> inst_inv env s"
  using traced_init by (auto simp: inst_init_def inst_inv_def inst_new_def monitor_new_def quiet_callback_def)

interpretation inst_machine: invariant_system "inst_init env" "inst_step env" "inst_inv env" for env
  by unfold_locales (erule inst_init_inv, erule inst_step_inv)

section \<open>The tail of the log\<close>

definition tail_ok :: "inst \<Rightarrow> bool" where
  "tail_ok s \<longleftrightarrow> nt_tail s = drop (length (nt_broadcast s) - LOG_TAIL_FRAMES) (nt_broadcast s)"

lemma push_tail_last:
  "push_tail frame (drop (length xs - LOG_TAIL_FRAMES) xs) = drop (length (xs @ [frame]) - LOG_TAIL_FRAMES) (xs @ [frame])"
proof (cases "LOG_TAIL_FRAMES \<le> length xs")
  case True
  then have "Suc (length xs - LOG_TAIL_FRAMES) = length (xs @ [frame]) - LOG_TAIL_FRAMES" by (simp add: Suc_diff_le)
  moreover have "Suc 0 - LOG_TAIL_FRAMES = 0" by (simp add: LOG_TAIL_FRAMES_def)
  ultimately show ?thesis using True by (simp add: push_tail_def tl_drop drop_Suc [symmetric] Suc_diff_le)
qed (simp add: push_tail_def)

lemma tail_frame_end: "tail_ok s \<Longrightarrow> tail_ok (frame_end env frame saw s)"
  using push_tail_last [of frame "nt_broadcast s"] by (simp add: tail_ok_def frame_end_def Let_def)

lemma tail_keep: "tail_ok s \<Longrightarrow> nt_tail t = nt_tail s \<Longrightarrow> nt_broadcast t = nt_broadcast s \<Longrightarrow> tail_ok t"
  by (simp add: tail_ok_def)

lemma tail_frame_begin [simp]: "tail_ok (frame_begin env frame s) = tail_ok s"
  by (simp add: tail_ok_def frame_begin_def)

lemma tail_flush: "tail_ok s \<Longrightarrow> tail_ok (flush_log_record env s)"
proof -
  have "tail_ok s \<Longrightarrow> tail_ok (fold (publish_log_frame env) frames s)" for frames s
    by (induction frames arbitrary: s) (simp_all add: publish_log_frame_def Let_def tail_frame_end)
  then show "tail_ok s \<Longrightarrow> tail_ok (flush_log_record env s)"
    by (auto simp: flush_log_record_def tail_ok_def split: prod.split)
qed

lemma tail_publish_terminal: "tail_ok s \<Longrightarrow> tail_ok (publish_terminal env s)"
  using tail_flush [of s env] tail_flush [of "flush_log_record env s" env]
  by (simp add: publish_terminal_def diagnostics_def Let_def tail_ok_def split: prod.split)

lemma tail_on_event: "tail_ok s \<Longrightarrow> tail_ok (on_event env e now now_ms uuid saw s)"
  using tail_publish_terminal [of s env] tail_flush [of s env]
  by (cases e) (auto simp: on_event_def on_started_def on_restarting_def in_monitor_def end_monitor_def instance_publish_def
      diagnostics_def Let_def tail_ok_def)

lemma tail_observation: "tail_ok s \<Longrightarrow> tail_ok (snd (apply_observation env open obs saw s))"
  by (auto simp: apply_observation_def acknowledge_def set_run_def in_monitor_def Let_def tail_ok_def
      split: option.split prod.split if_splits)

lemma tail_step: "tail_ok s \<Longrightarrow> inst_step env s t \<Longrightarrow> tail_ok t"
  by (erule inst_stepE)
    (use tail_on_event [of "s\<lparr>nt_read := Suc (nt_read s)\<rparr>"] tail_publish_terminal [of s] tail_observation [of s] tail_flush [of s]
        tail_frame_end [of s] in
      \<open>simp_all add: tail_ok_def act_def cancel_def see_probe_cancel_def in_monitor_def events_closed_def end_monitor_def
        initial_deadline_def deadline_fires_def instance_publish_def frame_begin_def Let_def\<close>)

interpretation inst_tail: stable_property "inst_init env" "inst_step env" "inst_inv env" tail_ok for env
  by unfold_locales (erule tail_step, assumption)

section \<open>What is reported as running was started\<close>

definition consumed :: "inst \<Rightarrow> supervisor_event set" where
  "consumed s = set (take (nt_read s) (su_events (nt_sup s)))"

definition names_started :: "supervisor_event set \<Rightarrow> instance_status \<Rightarrow> bool" where
  "names_started es st \<longleftrightarrow> (case is_state st of IRunning pid \<Rightarrow> EvStarted pid \<in> es | _ \<Rightarrow> True)"

definition started_ok :: "inst \<Rightarrow> bool" where
  "started_ok s \<longleftrightarrow> nt_read s \<le> length (su_events (nt_sup s)) \<and> names_started (consumed s) (nt_status s)
     \<and> (case nt_monitor_saw s of None \<Rightarrow> True | Some st \<Rightarrow> names_started (consumed s) st)
     \<and> (case nt_callback_saw s of None \<Rightarrow> True | Some st \<Rightarrow> names_started (consumed s) st)
     \<and> (case mt_current (nt_monitor s) of None \<Rightarrow> True | Some run \<Rightarrow> EvStarted (ru_pid run) \<in> consumed s)"

lemma sup_step_events: "sup_step cfg s t \<Longrightarrow> \<exists>new. su_events t = su_events s @ new"
  by (erule sup_stepE)
    (auto simp: acknowledge_ready_def see_cancel_def ready_timer_def ready_received_def child_exited_def plan_restart_def
      finish_with_def backoff_elapsed_def prepared_next_def spawned_next_def emit_def Let_def
      split: restart_policy.split sum.split option.split)

lemma names_mono: "names_started es st \<Longrightarrow> es \<subseteq> es' \<Longrightarrow> names_started es' st"
  by (auto simp: names_started_def split: instance_state.splits)

lemma publish_names: "names_started es st \<Longrightarrow> names_started es (nt_status (publish_status st s))"
  by (auto simp: publish_status_def names_started_def split: option.splits)

lemma names_simps [simp]:
  "names_started es (stopped_status reason)"
  "names_started es \<lparr>is_instance_id = i, is_state = IRestarting n, is_health = h\<rparr>"
  "names_started es \<lparr>is_instance_id = i, is_state = IRunning pid, is_health = h\<rparr> \<longleftrightarrow> EvStarted pid \<in> es"
  "names_started es \<lparr>is_instance_id = i, is_state = is_state st, is_health = h\<rparr> \<longleftrightarrow> names_started es st"
  by (simp_all add: names_started_def stopped_status_def)

lemma names_flush: "names_started es (nt_status s) \<Longrightarrow> names_started es (nt_status (flush_log_record env s))"
proof -
  have "names_started es (nt_status s) \<Longrightarrow> names_started es (nt_status (publish_log_frame env frame s))" for frame s
    by (auto simp: publish_log_frame_def frame_end_def frame_begin_def Let_def publish_names)
  then have "names_started es (nt_status s) \<Longrightarrow> names_started es (nt_status (fold (publish_log_frame env) frames s))" for frames s
    by (induction frames arbitrary: s) simp_all
  then show "names_started es (nt_status s) \<Longrightarrow> names_started es (nt_status (flush_log_record env s))"
    by (auto simp: flush_log_record_def split: prod.split)
qed

text \<open>A step that leaves the supervisor and the count of events alone.\<close>

lemma started_keep:
  assumes "started_ok s" "nt_read t = nt_read s" "su_events (nt_sup t) = su_events (nt_sup s)"
    "names_started (consumed s) (nt_status t)"
    "nt_monitor_saw t = nt_monitor_saw s \<or> nt_monitor_saw t = None"
    "nt_callback_saw t = nt_callback_saw s \<or> nt_callback_saw t = None"
    "\<And>run. mt_current (nt_monitor t) = Some run \<Longrightarrow> EvStarted (ru_pid run) \<in> consumed s"
  shows "started_ok t"
  using assms by (auto simp: started_ok_def consumed_def split: option.splits)

lemma started_observation:
  assumes ok: "started_ok s" and saw: "names_started (consumed s) saw"
  shows "started_ok (snd (apply_observation env open obs saw s))"
proof (cases "mt_current (nt_monitor s)")
  case None
  then show ?thesis using ok by (simp add: apply_observation_def)
next
  case (Some run)
  have pid: "EvStarted (ru_pid run) \<in> consumed s" using ok Some by (simp add: started_ok_def)
  have status: "names_started (consumed s) (nt_status s)" using ok by (simp add: started_ok_def)
  obtain update tracker where o: "observe (po_completed_at obs) (po_result obs) (ru_tracker run) = (update, tracker)" by fastforce
  obtain b su where a: "acknowledge_ready open (ru_pid run) (nt_sup s) = (b, su)" by fastforce
  then have "su_events su = su_events (nt_sup s)" by (auto simp: acknowledge_ready_def split: if_splits)
  then show ?thesis
    using Some o a pid saw status
    by (intro started_keep [OF ok])
      (auto simp: apply_observation_def acknowledge_def set_run_def in_monitor_def Let_def intro!: publish_names split: if_splits)
qed

lemma started_event:
  assumes ok: "started_ok s" and saw: "names_started (consumed s) saw" and e: "nt_read s < length (su_events (nt_sup s))"
  shows "started_ok (on_event env (su_events (nt_sup s) ! nt_read s) now now_ms uuid saw (s\<lparr>nt_read := nt_read s + 1\<rparr>))"
proof -
  let ?s = "s\<lparr>nt_read := nt_read s + 1\<rparr>" and ?e = "su_events (nt_sup s) ! nt_read s"
  have c: "consumed ?s = insert ?e (consumed s)" using e by (simp add: consumed_def take_Suc_conv_app_nth)
  then have sub: "consumed s \<subseteq> consumed ?s" by blast
  have ok': "started_ok ?s"
    using ok e sub by (auto simp: started_ok_def split: option.splits intro: names_mono)
  have saw': "names_started (consumed ?s) saw" using saw sub by (rule names_mono)
  have status: "names_started (consumed ?s) (nt_status ?s)" using ok' by (simp add: started_ok_def)
  have fl: "same_tasks ?s (flush_log_record env ?s)" "same_tasks ?s (publish_terminal env ?s)"
    "closed_status (nt_status (publish_terminal env ?s))"
    using flush_same [of ?s env] publish_terminal_spec [of ?s env] by simp_all
  have "names_started (consumed ?s) st" if "closed_status st" for st
    using that by (auto simp: closed_status_def closes_def names_started_def split: instance_state.splits)
  note closed = this
  have cur: "mt_current (nt_monitor ?s) = Some run \<Longrightarrow> EvStarted (ru_pid run) \<in> consumed ?s" for run
    using ok' by (simp add: started_ok_def)
  show ?thesis
  proof (cases ?e)
    case (EvStarted pid)
    then show ?thesis
      using saw' c by (intro started_keep [OF ok'])
        (auto simp: on_event_def on_started_def in_monitor_def Let_def intro!: publish_names)
  next
    case EvStopped
    then show ?thesis
      using fl closed [OF fl(3)] cur by (intro started_keep [OF ok']) (auto simp: on_event_def end_monitor_def in_monitor_def same_tasks_def)
  next
    case EvGaveUp
    then show ?thesis
      using fl(1) cur by (intro started_keep [OF ok'])
        (auto simp: on_event_def end_monitor_def in_monitor_def same_tasks_def diagnostics_def Let_def intro!: publish_names)
  next
    case (EvPreparationFailed detail)
    then show ?thesis
      using cur by (intro started_keep [OF ok'])
        (auto simp: on_event_def end_monitor_def in_monitor_def instance_publish_def Let_def names_started_def closes_def)
  next
    case (EvRestarting n d)
    then show ?thesis
      by (intro started_keep [OF ok'])
        (auto simp: on_event_def on_restarting_def in_monitor_def forget_run_def Let_def intro!: publish_names)
  next
    case (EvExited payload)
    then show ?thesis using status
      by (intro started_keep [OF ok']) (auto simp: on_event_def in_monitor_def forget_run_def)
  next
    case EvReady
    then show ?thesis using ok' by (simp add: on_event_def)
  qed
qed

lemma started_act [simp]: "started_ok s \<Longrightarrow> started_ok (act s)"
  by (auto simp: started_ok_def act_def consumed_def split: option.splits)

lemma started_cancel [simp]: "started_ok (cancel s) = started_ok s"
  by (auto simp: started_ok_def cancel_def consumed_def split: option.splits)

lemma started_cong:
  assumes "nt_read t = nt_read s" "nt_sup t = nt_sup s" "nt_status t = nt_status s" "nt_monitor_saw t = nt_monitor_saw s"
    "nt_callback_saw t = nt_callback_saw s" "nt_monitor t = nt_monitor s"
  shows "started_ok t = started_ok s"
  unfolding started_ok_def consumed_def assms by (rule refl)

lemma started_fields [simp]:
  "started_ok (s\<lparr>nt_persistence_error := e\<rparr>) = started_ok s" "started_ok (s\<lparr>nt_parser := p\<rparr>) = started_ok s"
  "started_ok (s\<lparr>nt_frames := fs\<rparr>) = started_ok s" "started_ok (s\<lparr>nt_user_stop := b\<rparr>) = started_ok s"
  "started_ok (s\<lparr>nt_probe_cancel := b\<rparr>) = started_ok s" "started_ok (s\<lparr>nt_stop_saw := b\<rparr>) = started_ok s"
  "started_ok (s\<lparr>nt_supervised := b\<rparr>) = started_ok s"
  "started_ok (s\<lparr>nt_parser := p, nt_frames := fs\<rparr>) = started_ok s"
  "started_ok (s\<lparr>nt_user_stop := b, nt_probe_cancel := c, nt_stop_saw := d\<rparr>) = started_ok s"
  by (rule started_cong; simp)+

lemma looked_names: "started_ok s \<Longrightarrow> looked saw s \<Longrightarrow> names_started (consumed s) saw"
  by (simp add: started_ok_def looked_def)

lemma started_step:
  assumes ok: "started_ok s" and "inst_step env s t"
  shows "started_ok t"
  using assms(2)
proof cases
  case (supervises u)
  then obtain new where "su_events u = su_events (nt_sup s) @ new" using sup_step_events by blast
  then have "consumed t = consumed s" "nt_read s \<le> length (su_events u)" using ok supervises by (simp_all add: consumed_def started_ok_def)
  then show ?thesis using ok supervises by (auto simp: started_ok_def split: option.splits)
next
  case (event saw now now_ms uuid)
  then show ?thesis using started_event [OF ok looked_names [OF ok event(2)] event(3)] by simp
next
  case (closed saw)
  have "names_started (consumed s) (nt_status (publish_terminal env s))"
    using publish_terminal_spec [of s env] by (auto simp: closed_status_def closes_def names_started_def split: instance_state.splits)
  then have "started_ok (events_closed env s)"
    using publish_terminal_spec [of s env] ok
    by (intro started_keep [OF ok]) (auto simp: events_closed_def end_monitor_def in_monitor_def same_tasks_def started_ok_def)
  then show ?thesis using closed by simp
next
  case (observes saw op obs)
  then show ?thesis using started_observation [OF ok looked_names [OF ok observes(2)]] by simp
next
  case (frame_ends frame rest saw)
  then have "names_started (consumed s) saw" "names_started (consumed s) (nt_status s)" using ok by (simp_all add: started_ok_def)
  then show ?thesis
    using frame_ends ok by (intro started_keep [OF ok]) (auto simp: frame_end_def Let_def started_ok_def intro!: publish_names split: if_splits)
next
  case waiter_flushes
  then show ?thesis
    using ok flush_same [of s env] names_flush [of "consumed s" s env]
    by (intro started_keep [OF ok]) (auto simp: same_tasks_def started_ok_def)
next
  case (frame_begins frame rest)
  then show ?thesis using ok by (auto simp: started_ok_def frame_begin_def consumed_def split: option.splits)
next
  case (probe_cancelled saw)
  have "started_ok (see_probe_cancel s)"
    using ok by (intro started_keep [OF ok]) (auto simp: see_probe_cancel_def in_monitor_def forget_run_def started_ok_def)
  then show ?thesis using probe_cancelled by simp
next
  case (starts_late saw)
  have "started_ok (initial_deadline s)"
    using ok by (intro started_keep [OF ok])
      (auto simp: initial_deadline_def deadline_fires_def cancel_def in_monitor_def forget_run_def started_ok_def)
  then show ?thesis using starts_late by simp
next
  case (respawns_late saw)
  have "started_ok (deadline_fires s)"
    using ok by (intro started_keep [OF ok])
      (auto simp: deadline_fires_def cancel_def in_monitor_def forget_run_def started_ok_def)
  then show ?thesis using respawns_late by simp
next
  case looks
  then show ?thesis using ok by (auto simp: started_ok_def consumed_def split: option.splits)
next
  case stop_publishes
  then show ?thesis
    using ok by (intro started_keep [OF ok]) (auto simp: instance_publish_def closes_def names_started_def Let_def started_ok_def)
next
  case stop_confirms
  then show ?thesis
    using ok by (intro started_keep [OF ok]) (auto simp: instance_publish_def closes_def names_started_def Let_def started_ok_def)
next
  case cancels
  then show ?thesis using ok by simp
next
  case (record_fails error)
  then show ?thesis using ok by simp
next
  case prepares
  then show ?thesis using ok by simp
next
  case (prints stream line at frames parser)
  show ?thesis unfolding prints(1) using ok by simp
next
  case (terminates frames parser)
  show ?thesis unfolding terminates(1) using ok by simp
next
  case stop_begins
  then show ?thesis using ok by simp
next
  case stop_takes
  then show ?thesis using ok by simp
next
  case dropped
  then show ?thesis using ok by simp
qed

interpretation inst_started: stable_property "inst_init env" "inst_step env" "inst_inv env" started_ok for env
  by unfold_locales (erule started_step, assumption)

section \<open>Theorems\<close>

lemma inst_init_ok: "inst_init env s \<Longrightarrow> tail_ok s \<and> started_ok s"
  by (auto simp: inst_init_def inst_new_def tail_ok_def started_ok_def monitor_new_def instance_initial_def names_started_def)

lemma inst_reach_ok: "reach (inst_init env) (inst_step env) s \<Longrightarrow> tail_ok s \<and> started_ok s"
  by (induction rule: reach.induct) (auto dest: inst_init_ok intro: tail_step started_step)

definition sample_inst_env :: inst_env where
  "sample_inst_env = \<lparr>nv_store = True, nv_kind = Mihomo, nv_options = instance_options_default, nv_initial_deadline = 30,
     nv_sup = sample_config, nv_chrono = \<lparr>ch_rfc3339_ms = (\<lambda>_. None), ch_parse_hms = (\<lambda>_. None),
       ch_ymd = (\<lambda>_ _ _. None), ch_hms_nano = (\<lambda>_ _ _ _. None), ch_succ = Some, ch_pred = Some, ch_since = (-),
       ch_local_ms = (\<lambda>_ _ _. None)\<rparr>\<rparr>"

definition sample_inst :: inst where
  "sample_inst = inst_new sample_inst_env (Epoch 1) 0 (Supervisor.emit (EvStarted 7) \<lparr>su_phase = Watching True False,
     su_attempt = 0, su_abnormal = [], su_current = Some \<lparr>cd_pid = 7, cd_alive = True\<rparr>,
     su_ready_pending = (if sc_readiness sample_config = Acknowledged then 7 else 0),
     su_ready_queue = [], su_cancelled = False, su_events = [], su_exits = []\<rparr>)"

lemma sample_inst_reach: "reach (inst_init sample_inst_env) (inst_step sample_inst_env) sample_inst"
proof (rule reach_init)
  have "sup_spawn sample_config False (Inr ()) False (Inr 7) = Inr (nt_sup sample_inst)"
    by (simp add: sup_spawn_def sample_inst_def inst_new_def)
  then show "inst_init sample_inst_env sample_inst"
    unfolding inst_init_def sup_init_def
    by (intro exI [of _ "Epoch 1"] exI [of _ 0] exI [of _ "nt_sup sample_inst"] conjI exI)
      (simp_all add: sample_inst_def sample_inst_env_def inst_new_def)
qed



text \<open>A log line that reports a cache failure reads the status and writes it back later; a readiness that is
  acknowledged in between is lost, and no later observation of the same run reports it again.\<close>

lemma readiness_lost:
  assumes "nt_frames s = frame # rest" "frame_fails env frame" "nt_callback_saw s = Some saw" "is_state saw = IStarting"
    "mt_current (nt_monitor s) = Some run" "ru_ready run" "mt_ever_ready (nt_monitor s)"
  shows "\<exists>t. inst_step env s t \<and> is_state (nt_status t) = IStarting \<and> mt_ever_ready (nt_monitor t)
    \<and> mt_current (nt_monitor t) = Some run"
proof -
  let ?t = "(frame_end env frame saw s)\<lparr>nt_frames := rest, nt_callback_saw := None\<rparr>"
  have "inst_step env s ?t" using assms by (intro frame_ends)
  moreover have "is_state (nt_status ?t) = IStarting"
    using assms by (auto simp: frame_end_def publish_status_def Let_def split: option.split)
  moreover have "mt_ever_ready (nt_monitor ?t) \<and> mt_current (nt_monitor ?t) = Some run"
    using assms by (simp add: frame_end_def Let_def)
  ultimately show ?thesis by blast
qed

end
