(* ===== verification/Instance_Life.thy ===== *)
theory Instance_Life
  imports Instance Pid_Safety Switching
begin

text \<open>
  The command of a core (\<open>kind.rs\<close>, \<open>process/command.rs\<close>, \<open>instance.rs\<close>), the one-shot check of a
  configuration, and the two ends of the life of an instance: spawning it and stopping it with proof that
  its process is dead. What the supervisor answers, whether the monitor could be joined, and the native
  store are arguments; the reaper of pid records is the model of Pid_File. A configuration that the manager
  commits is always recorded under its epoch, so the reaper finds it.
\<close>

section \<open>Text\<close>

fun drop_zeros :: "string \<Rightarrow> string" where
  "drop_zeros (c # cs) = (if c = CHR ''0'' then drop_zeros cs else c # cs)"
| "drop_zeros [] = []"

text \<open>\<open>Debug\<close> of a duration in nanoseconds.\<close>

definition decimal_unit :: "nat \<Rightarrow> nat \<Rightarrow> nat \<Rightarrow> string \<Rightarrow> string" where
  "decimal_unit whole fraction width unit = show_nat whole
     @ (if fraction = 0 then [] else ''.'' @ rev (drop_zeros (rev (pad_zeros width (show_nat fraction))))) @ unit"

definition duration_debug :: "nat \<Rightarrow> string" where
  "duration_debug d =
     (if 10 ^ 9 \<le> d then decimal_unit (d div 10 ^ 9) (d mod 10 ^ 9) 9 ''s''
      else if 10 ^ 6 \<le> d then decimal_unit (d div 10 ^ 6) (d mod 10 ^ 6) 6 ''ms''
      else if 10 ^ 3 \<le> d then decimal_unit (d div 10 ^ 3) (d mod 10 ^ 3) 3 [CHR 0xC2, CHR 0xB5, CHR ''s'']
      else decimal_unit d 0 0 ''ns'')"

definition process_error_show :: "process_error \<Rightarrow> string" where
  "process_error_show e = (case e of
       PIo m \<Rightarrow> ''io error: '' @ m
     | PSpawn program message \<Rightarrow> ''failed to spawn `'' @ program @ ''`: '' @ message
     | PTimeout after \<Rightarrow> ''process timed out after '' @ duration_debug after
     | PAlreadyExited \<Rightarrow> ''process already exited''
     | PStdinUnavailable \<Rightarrow> ''stdin is not piped (enable Command::pipe_stdin) or already closed''
     | PEngine m \<Rightarrow> ''process engine error: '' @ m)"

section \<open>Commands\<close>

datatype pid_file_kind = LegacyPidFile string | EpochPidFile epoch_pid_file

record command =
  cm_program :: string
  cm_args :: "string list"
  cm_envs :: "(string \<times> string) list"
  cm_current_dir :: "string option"
  cm_kill_grace :: nat
  cm_event_channel_capacity :: nat
  cm_timeout :: "nat option"
  cm_pipe_stdin :: bool
  cm_pid_file :: "pid_file_kind option"
  cm_windows_shutdown_helper :: "string option"

definition command_new :: "string \<Rightarrow> command" where
  "command_new program = \<lparr>cm_program = program, cm_args = [], cm_envs = [], cm_current_dir = None,
     cm_kill_grace = 5 * 10 ^ 9, cm_event_channel_capacity = 64, cm_timeout = None, cm_pipe_stdin = False,
     cm_pid_file = None, cm_windows_shutdown_helper = None\<rparr>"

definition add_args :: "string list \<Rightarrow> command \<Rightarrow> command" where
  "add_args args c = c\<lparr>cm_args := cm_args c @ args\<rparr>"

definition add_env :: "string \<Rightarrow> string \<Rightarrow> command \<Rightarrow> command" where
  "add_env k v c = c\<lparr>cm_envs := cm_envs c @ [(k, v)]\<rparr>"

definition check_args :: "string \<Rightarrow> string \<Rightarrow> string list" where
  "check_args dir cfg = [''-t'', ''-d'', dir, ''-f'', cfg]"

definition mihomo_safe_paths :: "string \<Rightarrow> string \<Rightarrow> string" where
  "mihomo_safe_paths working_dir config_dir = join_with '':'' [working_dir, config_dir]"

definition safe_paths_with_source :: "string \<Rightarrow> string \<Rightarrow> string option \<Rightarrow> string" where
  "safe_paths_with_source working config source =
     mihomo_safe_paths working config @ (case source of Some path \<Rightarrow> '':'' @ path | None \<Rightarrow> [])"

definition epoch_pid_path :: "instance_spec \<Rightarrow> epoch \<Rightarrow> string option" where
  "epoch_pid_path spec e = (case sp_pid_file spec of None \<Rightarrow> None | Some pid_file \<Rightarrow>
     if path_file_name pid_file = Some (''core-'' @ epoch_show e @ ''.pid'')
       \<and> path_file_name (sp_config_path spec) = Some (''config-'' @ epoch_show e @ ''.yaml'')
       \<and> rel_option path_eq (path_parent pid_file) (path_parent (sp_config_path spec))
     then Some pid_file else None)"

definition build_command ::
  "instance_spec \<Rightarrow> epoch \<Rightarrow> resolved_controller \<Rightarrow> string option \<Rightarrow> string option \<Rightarrow> string option \<Rightarrow> command" where
  "build_command spec e controller pipe_security_descriptor source_data_dir windows_shutdown_helper =
     (let args = run_args (co_kind (sp_core spec)) (sp_working_dir spec) (sp_config_path spec)
            @ controller_args (co_kind (sp_core spec)) (rc_host controller);
          config_dir = (case path_parent (sp_config_path spec) of Some p \<Rightarrow> p | None \<Rightarrow> sp_config_path spec);
          c = add_env ''CLICOLOR_FORCE'' ''0''
            (add_env ''SAFE_PATHS'' (safe_paths_with_source (sp_working_dir spec) config_dir source_data_dir)
            (add_args args (command_new (co_binary_path (sp_core spec)))));
          c = c\<lparr>cm_current_dir := Some (sp_working_dir spec)\<rparr>;
          c = (case pipe_security_descriptor of Some sddl \<Rightarrow> add_env ''LISTEN_NAMEDPIPE_SDDL'' sddl c | None \<Rightarrow> c);
          c = (case windows_shutdown_helper of Some h \<Rightarrow> c\<lparr>cm_windows_shutdown_helper := Some h\<rparr> | None \<Rightarrow> c)
      in case sp_pid_file spec of None \<Rightarrow> c | Some pid_file \<Rightarrow>
           c\<lparr>cm_pid_file := Some (if epoch_pid_path spec e \<noteq> None
               then EpochPidFile \<lparr>ef_path = pid_file, ef_epoch = epoch_get e, ef_runtime_config = sp_config_path spec\<rparr>
               else LegacyPidFile pid_file)\<rparr>)"

section \<open>Checking a configuration\<close>

record process_output =
  out_code :: "int option"
  out_stdout :: string
  out_stderr :: string

definition CHECK_CONFIG_TIMEOUT :: nat where
  "CHECK_CONFIG_TIMEOUT = 30 * 10 ^ 9"

text \<open>\<open>run\<close> is the one-shot run of a command.\<close>

definition check_command :: "instance_spec \<Rightarrow> nat \<Rightarrow> string option \<Rightarrow> string \<Rightarrow> command" where
  "check_command spec timeout source config_dir =
     (add_env ''CLICOLOR_FORCE'' ''0''
       (add_env ''SAFE_PATHS'' (safe_paths_with_source (sp_working_dir spec) config_dir source)
       (add_args (check_args (sp_working_dir spec) (sp_config_path spec))
       (command_new (co_binary_path (sp_core spec))))))\<lparr>cm_timeout := Some timeout\<rparr>"

definition run_check ::
  "(command \<Rightarrow> process_error + process_output) \<Rightarrow> (string \<Rightarrow> string \<Rightarrow> string option) \<Rightarrow> instance_spec \<Rightarrow> nat
     \<Rightarrow> string option \<Rightarrow> (error + unit) option" where
  "run_check run summarize spec timeout source = (case path_parent (sp_config_path spec) of
       None \<Rightarrow> Some (Inl (ConfigNotFound (sp_config_path spec)))
     | Some config_dir \<Rightarrow> (case run (check_command spec timeout source config_dir) of
         Inl (PTimeout after) \<Rightarrow> Some (Inl (ConfigCheckFailed (''config check timed out after '' @ duration_debug after)))
       | Inl other \<Rightarrow> Some (Inl (Process (process_error_show other)))
       | Inr out \<Rightarrow> if out_code out = Some 0 then Some (Inr ())
           else map_option (\<lambda>text_of. Inl (ConfigCheckFailed text_of)) (summarize (out_stdout out) (out_stderr out))))"

section \<open>Stopping\<close>

text \<open>The answer of a supervisor that was asked to stop, if it came in time.\<close>

datatype stop_answer = StopAnswered "process_error + unit" | StopTimedOut

definition stop_result :: "nat \<Rightarrow> stop_answer option \<Rightarrow> string + unit" where
  "stop_result timeout answer = (case answer of
       None \<Rightarrow> Inr ()
     | Some (StopAnswered (Inr _)) \<Rightarrow> Inr ()
     | Some (StopAnswered (Inl PAlreadyExited)) \<Rightarrow> Inr ()
     | Some (StopAnswered (Inl error)) \<Rightarrow> Inl (''supervisor stop failed: '' @ process_error_show error)
     | Some StopTimedOut \<Rightarrow> Inl (''supervisor stop exceeded '' @ duration_debug timeout))"

type_synonym 'a stops = "((error + 'a) \<times> reaper) option"

definition raise :: "(io_error \<Rightarrow> error) \<Rightarrow> 'a reaps \<Rightarrow> 'a stops" where
  "raise f m = map_option (\<lambda>(r, s). (map_err f r, s)) m"

definition io_text :: "io_error \<Rightarrow> error" where
  "io_text e = Io (ie_message e)"

text \<open>\<open>exists\<close> answers whether the record is there; \<open>confirm\<close> is the native store's \<open>confirm_stopped\<close>.\<close>

definition reap_epoch_record_if_present ::
  "proc_env \<Rightarrow> (nat \<Rightarrow> string \<Rightarrow> io_error + bool) \<Rightarrow> instance_spec \<Rightarrow> epoch \<Rightarrow> reaper \<Rightarrow> unit stops" where
  "reap_epoch_record_if_present env ex spec e s = (case epoch_pid_path spec e of
       None \<Rightarrow> Some (Inr (), s)
     | Some pid_file \<Rightarrow> and_do (raise io_text (sys (\<lambda>n. ex n pid_file) s)) (\<lambda>there s.
         if \<not> there then Some (Inr (), s)
         else case path_parent (sp_config_path spec) of
           None \<Rightarrow> Some (Inl (StopUnconfirmed ''runtime config has no parent directory''), s)
         | Some runtime_dir \<Rightarrow> and_do (raise io_text (Pid_File.reap_epoch_pid_file env pid_file runtime_dir s)) (\<lambda>_ s. Some (Inr (), s))))"

definition confirm_store :: "(error + unit) option \<Rightarrow> error + unit" where
  "confirm_store confirm = (case confirm of Some answer \<Rightarrow> answer | None \<Rightarrow> Inr ())"

text \<open>The part of \<open>stop_and_confirm_dead\<close> after the supervisor and the monitor. The answer comes with the
  state that is published on the way, if any.\<close>

definition stop_confirm ::
  "proc_env \<Rightarrow> (nat \<Rightarrow> string \<Rightarrow> io_error + bool) \<Rightarrow> (error + unit) option \<Rightarrow> instance_spec \<Rightarrow> epoch
     \<Rightarrow> string + unit \<Rightarrow> bool \<Rightarrow> bool \<Rightarrow> reaper \<Rightarrow> (((error + unit) \<times> instance_state option) \<times> reaper) option" where
  "stop_confirm env ex confirm spec e stopped monitor_confirmed terminal s =
     (let unconfirmed = (\<lambda>text_of s. Some ((Inl (StopUnconfirmed text_of), None), s)) in
      if is_ok stopped \<and> (monitor_confirmed \<or> terminal)
      then Option.bind (reap_epoch_record_if_present env ex spec e s) (\<lambda>(reaped, s). case reaped of
          Inl error \<Rightarrow> unconfirmed (''stopped instance identity verification failed: '' @ error_to_string error) s
        | Inr _ \<Rightarrow> Some ((confirm_store confirm, None), s))
      else let stop_error = (case stopped of Inl error \<Rightarrow> error | Inr _ \<Rightarrow> ''instance monitor did not confirm termination'') in
      case epoch_pid_path spec e of None \<Rightarrow> unconfirmed stop_error s | Some pid_file \<Rightarrow>
      case path_parent (sp_config_path spec) of None \<Rightarrow> unconfirmed ''runtime config has no parent directory'' s | Some runtime_dir \<Rightarrow>
      Option.bind (Pid_File.reap_epoch_pid_file env pid_file runtime_dir s) (\<lambda>(reaped, s). case reaped of
          Inl error \<Rightarrow> unconfirmed (stop_error @ ''; epoch identity reaper failed: '' @ ie_message error) s
        | Inr outcome \<Rightarrow>
            if outcome \<in> {ReapAlreadyExited, ReapKilled} \<or> outcome = ReapNotFound \<and> terminal
            then Some ((confirm_store confirm, if terminal then None else Some (IStopped User)), s)
            else unconfirmed stop_error s))"

section \<open>Spawning\<close>

record spawn_env =
  sw_proc :: proc_env
  sw_metadata :: "nat \<Rightarrow> string \<Rightarrow> bool"
  sw_probe :: "error + unit"
  sw_confirm :: "(error + unit) option"

text \<open>\<open>Instance::spawn_configured\<close>: \<open>spawned\<close> is the first spawn of the supervisor. A path without a parent
  would make \<open>unwrap\<close> panic.\<close>

definition spawn_failed ::
  "spawn_env \<Rightarrow> instance_spec \<Rightarrow> epoch \<Rightarrow> process_error \<Rightarrow> reaper \<Rightarrow> inst stops" where
  "spawn_failed env spec e error s =
     and_do (if sw_confirm env = None then Some (Inr (), s)
       else and_do (case epoch_pid_path spec e of
           None \<Rightarrow> Some (Inr (), s)
         | Some pid_file \<Rightarrow> (case path_parent (sp_config_path spec) of
             None \<Rightarrow> None
           | Some runtime_dir \<Rightarrow> and_do
               (raise (\<lambda>reap_error. StopUnconfirmed (process_error_show error @ ''; '' @ ie_message reap_error))
                 (Pid_File.reap_epoch_pid_file (sw_proc env) pid_file runtime_dir s)) (\<lambda>_ s. Some (Inr (), s)))) (\<lambda>_ s.
         Some (confirm_store (sw_confirm env), s)))
     (\<lambda>_ s. Some (Inl (Process (process_error_show error)), s))"

definition instance_spawn ::
  "spawn_env \<Rightarrow> inst_env \<Rightarrow> instance_spec \<Rightarrow> epoch \<Rightarrow> bool \<Rightarrow> int \<Rightarrow> process_error + sup \<Rightarrow> reaper \<Rightarrow> inst stops" where
  "instance_spawn env ienv spec e probe_given now spawned s =
     (if \<not> sw_metadata env 0 (sp_config_path spec) then Some (Inl (ConfigNotFound (sp_config_path spec)), s)
      else if \<not> sw_metadata env 1 (co_binary_path (sp_core spec)) then Some (Inl (BinaryNotFound (co_binary_path (sp_core spec))), s)
      else and_do (Some (if probe_given then Inr () else sw_probe env, s)) (\<lambda>_ s. case spawned of
          Inl error \<Rightarrow> spawn_failed env spec e error s
        | Inr su \<Rightarrow> Some (Inr (inst_new ienv e now su), s)))"

section \<open>Waiting\<close>

text \<open>One turn of \<open>wait_ready\<close>: \<open>None\<close> goes on waiting.\<close>

definition stop_reason_debug :: "(string \<Rightarrow> string) \<Rightarrow> stop_reason \<Rightarrow> string" where
  "stop_reason_debug quote reason = (case reason of
       User \<Rightarrow> ''User'' | Finished \<Rightarrow> ''Finished'' | StopError m \<Rightarrow> ''Error('' @ quote m @ '')'')"

definition wait_ready :: "inst_env \<Rightarrow> (string \<Rightarrow> string) \<Rightarrow> instance_status \<Rightarrow> inst \<Rightarrow> (error + unit) option \<times> inst" where
  "wait_ready env quote saw s = (case is_state saw of
       IRunning _ \<Rightarrow> (Some (Inr ()), s)
     | IStopped reason \<Rightarrow>
         let text_of = (case reason of StopError m \<Rightarrow> m | other \<Rightarrow> ''stopped before ready: '' @ stop_reason_debug quote other);
             (stderr_tail, s) = failure_summary env text_of s
         in (Some (Inl (if nt_probe_timeout s then StartupTimeout stderr_tail else StartupFailed stderr_tail)), s)
     | _ \<Rightarrow> (None, s))"

datatype probe_phase = Readiness | Liveness | Reconcile

text \<open>\<open>probe_now\<close>: whether the monitor still listens, and what it answers, if it does.\<close>

definition probe_now :: "probe_phase \<Rightarrow> bool \<Rightarrow> probe_result option \<Rightarrow> probe_result" where
  "probe_now phase listening answer =
     (if phase \<noteq> Reconcile then ProbeUnhealthy (Some ''only reconciliation probes can be requested directly'')
      else if \<not> listening then ProbeUnhealthy (Some ''instance probe monitor is not running'')
      else case answer of Some result \<Rightarrow> result | None \<Rightarrow> ProbeUnhealthy (Some ''instance probe driver stopped''))"

section \<open>Paths of artifacts\<close>

definition plain_name :: "string \<Rightarrow> bool" where
  "plain_name name \<longleftrightarrow> name \<noteq> [] \<and> name \<noteq> ''.'' \<and> name \<noteq> ''..'' \<and> CHR ''/'' \<notin> set name"

lemma split_slash_append: "split_slash acc (a @ CHR ''/'' # b) = split_slash acc a @ split_slash [] b"
  by (induction acc a rule: split_slash.induct) auto

lemma split_slash_name: "CHR ''/'' \<notin> set name \<Longrightarrow> split_slash acc name = [rev acc @ name]"
  by (induction acc name rule: split_slash.induct) auto

lemma components_child:
  assumes "plain_name name"
  shows "components (dir @ ''/'' @ name) = components dir @ [name]"
proof -
  have name: "filter (\<lambda>c. c \<noteq> []) (split_slash [] name) = [name]" using assms by (simp add: plain_name_def split_slash_name)
  have root: "dir \<noteq> [] \<Longrightarrow> has_root (dir @ ''/'' @ name) = has_root dir" by (cases dir) (simp_all add: has_root_def starts_with_def)
  have "dir = [] \<Longrightarrow> split_slash [] dir = [[]]" by simp
  then show ?thesis
    using assms root name
    by (cases "filter (\<lambda>c. c \<noteq> []) (split_slash [] dir)"; cases "dir = []")
      (auto simp: components_def split_slash_append Let_def plain_name_def)
qed

lemma last_component:
  assumes "components p = cs @ [c]"
  shows "path_file_name p = (if c = ''..'' \<or> c = ''.'' then None else Some c)"
    and "path_parent p = Some ((if has_root p then ''/'' else []) @ join_with ''/'' cs)"
  using assms by (cases cs; simp add: path_file_name_def path_parent_def)+

lemma child_path [simp]:
  assumes "plain_name name"
  shows "path_file_name (dir @ ''/'' @ name) = Some name"
    and "path_parent (dir @ ''/'' @ name) = Some ((if dir = [] \<or> has_root dir then ''/'' else []) @ join_with ''/'' (components dir))"
proof -
  have root: "has_root (dir @ ''/'' @ name) \<longleftrightarrow> dir = [] \<or> has_root dir" by (cases dir) (simp_all add: has_root_def starts_with_def)
  note parts = last_component [OF components_child [OF assms, of dir]]
  show "path_file_name (dir @ ''/'' @ name) = Some name" using parts(1) assms by (simp add: plain_name_def)
  show "path_parent (dir @ ''/'' @ name) = Some ((if dir = [] \<or> has_root dir then ''/'' else []) @ join_with ''/'' (components dir))"
    unfolding parts(2) root by (rule refl)
qed

lemma digits_no_slash: "CHR ''/'' \<notin> set (show_nat n)"
  using show_nat_digits [of n] by (auto simp: list_all_iff is_digit_def)

lemma artifact_names_plain [simp]: "plain_name (pid_path e)" "plain_name (runtime_path e)"
  using digits_no_slash
  by (auto simp: plain_name_def pid_path_def runtime_path_def artifact_pid_path_def artifact_runtime_path_def)

lemma path_eq_refl [simp]: "path_eq p p"
  by (simp add: path_eq_def)

lemma digits_utf8: "list_all is_digit s \<Longrightarrow> utf8 (s @ t) \<longleftrightarrow> utf8 t"
  by (induction s) (auto simp: is_digit_def)

lemma epoch_name_utf8:
  "utf8 (''core-'' @ epoch_show e @ ''.pid'')" "utf8 (''config-'' @ epoch_show e @ ''.yaml'')"
  by (simp_all add: epoch_show_def digits_utf8 show_nat_digits)

lemma epoch_of_name:
  assumes "path_file_name p = Some (''core-'' @ epoch_show e @ ''.pid'')"
  shows "epoch_from_file_name p ''core-'' ''.pid'' = Inr (epoch_get e)"
  using assms epoch_name_utf8(1) [of e]
    strip_prefix_append [of "''core-''" "epoch_show e @ ''.pid''"] strip_suffix_append [of "''.pid''" "epoch_show e"]
  by (simp add: epoch_from_file_name_def file_name_text_def epoch_show_def del: append.simps)

lemma epoch_of_config:
  assumes "path_file_name p = Some (''config-'' @ epoch_show e @ ''.yaml'')"
  shows "epoch_from_file_name p ''config-'' ''.yaml'' = Inr (epoch_get e)"
  using assms epoch_name_utf8(2) [of e]
    strip_prefix_append [of "''config-''" "epoch_show e @ ''.yaml''"] strip_suffix_append [of "''.yaml''" "epoch_show e"]
  by (simp add: epoch_from_file_name_def file_name_text_def epoch_show_def del: append.simps)

lemma epoch_pid_path_Some:
  assumes "epoch_pid_path spec e = Some path"
  shows "sp_pid_file spec = Some path" "epoch_from_file_name path ''core-'' ''.pid'' = Inr (epoch_get e)"
    "epoch_from_file_name (sp_config_path spec) ''config-'' ''.yaml'' = Inr (epoch_get e)"
    "\<exists>dir. path_parent (sp_config_path spec) = Some dir"
  using assms epoch_of_name epoch_of_config
  by (auto simp: epoch_pid_path_def path_file_name_def path_parent_def split: option.splits if_splits list.splits)

section \<open>Theorems\<close>

text \<open>What the trace of a stop may contain: signals only to what the record of this epoch proves to be its own.\<close>

definition stop_lawful :: "platform \<Rightarrow> epoch \<Rightarrow> event list \<Rightarrow> bool" where
  "stop_lawful os e tr \<longleftrightarrow> (if list_ex acts tr
     then \<exists>r. first_loaded tr = Some r \<and> er_epoch r = epoch_get e \<and> lawful os r tr else True)"

definition stop_evidence :: "platform \<Rightarrow> epoch \<Rightarrow> bool \<Rightarrow> event list \<Rightarrow> bool" where
  "stop_evidence os e succeeded tr \<longleftrightarrow> stop_lawful os e tr \<and> (if succeeded then case first_loaded tr of
     Some r \<Rightarrow> er_epoch r = epoch_get e \<and> seen_gone os r tr | None \<Rightarrow> tr = [] else True)"

lemma evidence_Nil [simp]: "stop_evidence os e succeeded []"
  by (simp add: stop_evidence_def stop_lawful_def)

lemma evidence_weaken: "stop_evidence os e b tr \<Longrightarrow> stop_evidence os e False tr"
  by (simp add: stop_evidence_def)

lemma reap_of_epoch:
  assumes "reap_sound os path q tr" "epoch_pid_path spec e = Some path"
  shows "stop_evidence os e (is_ok q) tr" "q = Inr outcome \<Longrightarrow> outcome \<noteq> ReapNotFound \<Longrightarrow> first_loaded tr \<noteq> None"
  using assms(1) epoch_pid_path_Some(2) [OF assms(2)]
  by (cases q; auto simp: reap_sound_def stop_evidence_def stop_lawful_def split: if_splits option.splits)+

lemma returns_raise [simp]: "returns (raise f m) Q \<longleftrightarrow> returns m (\<lambda>q. Q (map_err f q))"
  by (cases m) (auto simp: raise_def)

lemma is_ok_map_err [simp]: "is_ok (map_err f q) = is_ok q"
  by (cases q) simp_all

lemma reap_evidence:
  assumes "epoch_pid_path spec e = Some path" "rp_trace s = []"
  shows "returns (Pid_File.reap_epoch_pid_file env path dir s) (\<lambda>q t. stop_evidence (pv_platform env) e (is_ok q) (rp_trace t)
    \<and> (case q of Inr outcome \<Rightarrow> if outcome \<noteq> ReapNotFound then first_loaded (rp_trace t) \<noteq> None else True | Inl _ \<Rightarrow> True))"
proof -
  have "s\<lparr>rp_trace := []\<rparr> = s" using assms(2) by simp
  then show ?thesis
    using reap_epoch_pid_file_reaps [of env path dir s]
    by (auto elim!: returns_mono dest: reap_of_epoch [OF _ assms(1)] split: sum.split)
qed

lemma reap_if_present:
  assumes "rp_trace s = []"
  shows "returns (reap_epoch_record_if_present env ex spec e s) (\<lambda>q t. stop_evidence (pv_platform env) e (is_ok q) (rp_trace t))"
proof (cases "epoch_pid_path spec e")
  case (Some path)
  obtain dir where dir: "path_parent (sp_config_path spec) = Some dir" using epoch_pid_path_Some(4) [OF Some] by blast
  have "returns (and_do (raise io_text (Pid_File.reap_epoch_pid_file env path dir t)) (\<lambda>_ s. Some (Inr (), s)))
      (\<lambda>q t. stop_evidence (pv_platform env) e (is_ok q) (rp_trace t))" if "rp_trace t = []" for t
  proof (rule returns_and_doI)
    show "returns (raise io_text (Pid_File.reap_epoch_pid_file env path dir t))
        (\<lambda>q t. stop_evidence (pv_platform env) e (is_ok q) (rp_trace t))"
      using reap_evidence [OF Some that, of env dir] by (auto elim: returns_mono)
  qed simp_all
  then show ?thesis
    using assms by (simp add: reap_epoch_record_if_present_def Some dir sys_def raise_def [of _ "Some _"] map_err_def split: sum.split)
qed (simp add: reap_epoch_record_if_present_def assms)

lemma confirm_store_Inl: "confirm_store confirm = Inl err \<longleftrightarrow> confirm = Some (Inl err)"
  by (cases confirm) (simp_all add: confirm_store_def)


lemma store_plan_paths:
  assumes "sp_config_path spec = path_show (dir, runtime_path e)" "sp_pid_file spec = Some (path_show (dir, pid_path e))"
  shows "epoch_pid_path spec e = Some (path_show (dir, pid_path e))"
  using assms child_path [OF artifact_names_plain(1) [of e], of dir] child_path [OF artifact_names_plain(2) [of e], of dir]
  by (simp add: epoch_pid_path_def path_show_def pid_path_def runtime_path_def artifact_pid_path_def artifact_runtime_path_def epoch_show_def)

definition records_epoch :: "epoch \<Rightarrow> command \<Rightarrow> bool" where
  "records_epoch e c \<longleftrightarrow> (case cm_pid_file c of
       Some (EpochPidFile ef) \<Rightarrow> ef_epoch ef = epoch_get e
         \<and> epoch_from_file_name (ef_path ef) ''core-'' ''.pid'' = Inr (epoch_get e)
         \<and> epoch_from_file_name (ef_runtime_config ef) ''config-'' ''.yaml'' = Inr (epoch_get e)
         \<and> path_parent (ef_path ef) = path_parent (ef_runtime_config ef)
     | _ \<Rightarrow> False)"

lemma build_command_records:
  assumes "sp_config_path spec = path_show (dir, runtime_path e)" "sp_pid_file spec = Some (path_show (dir, pid_path e))"
  shows "records_epoch e (build_command spec e controller sddl source helper)"
  using assms store_plan_paths [OF assms] epoch_pid_path_Some(2,3) [OF store_plan_paths [OF assms]]
    child_path(2) [OF artifact_names_plain(1) [of e], of dir] child_path(2) [OF artifact_names_plain(2) [of e], of dir]
  by (simp add: build_command_def records_epoch_def Let_def path_show_def)

lemma commit_new_path: "commit_new env sg e s = Some (Inr path, t) \<Longrightarrow> path = (st_dir t, runtime_path e)"
  by (auto simp: commit_new_def and_do_def split: sum.splits option.splits Option.bind_splits prod.splits)

lemma prepared_paths:
  assumes "prepare_launch_with_features env spec e snap resolved s = Some (Inr plan, t)"
  shows "sp_config_path (pl_effective_spec plan) = path_show (st_dir (ms_store t), runtime_path e)"
    and "sp_pid_file (pl_effective_spec plan) = Some (path_show (st_dir (ms_store t), pid_path e))"
  using assms
  by (auto simp: prepare_launch_with_features_def and_do_def in_store_def make_plan_def ok_def
      split: sum.splits option.splits Option.bind_splits prod.splits dest!: commit_new_path)

text \<open>Whatever the manager prepares for launch is recorded under its epoch: its command carries an epoch
  record whose two file names both spell exactly this epoch and lie in one directory, so the process is found
  again by the reaper. The numeric record, which authorizes no kill, is never used.\<close>

theorem prepared_launch_is_recorded:
  "case prepare_launch_with_features env spec e snap resolved s of
     Some (Inr plan, t) \<Rightarrow> records_epoch e (build_command (pl_effective_spec plan) e controller sddl source helper)
       \<and> epoch_pid_path (pl_effective_spec plan) e = Some (path_show (st_dir (ms_store t), pid_path e))
   | _ \<Rightarrow> True"
  by (auto split: option.split sum.split intro: build_command_records store_plan_paths dest: prepared_paths)

text \<open>Spawning never panics either, its cleanup is lawful, and with a native store an error of the process is only
  returned as such when the record was reaped or absent and the store was released.\<close>

lemma spawn_failed_sound:
  assumes "rp_trace s = []"
  shows "returns (spawn_failed env spec e error s) (\<lambda>q t. stop_lawful (pv_platform (sw_proc env)) e (rp_trace t)
     \<and> (if sw_confirm env = Some (Inr ()) \<and> q = Inl (Process (process_error_show error))
        then stop_evidence (pv_platform (sw_proc env)) e True (rp_trace t) else True))"
proof (cases "epoch_pid_path spec e")
  case None
  then show ?thesis using assms
    by (cases "confirm_store (sw_confirm env)") (auto simp: spawn_failed_def confirm_store_def stop_lawful_def)
next
  case (Some path)
  obtain dir where dir: "path_parent (sp_config_path spec) = Some dir" using epoch_pid_path_Some(4) [OF Some] by blast
  obtain q t where reap: "Pid_File.reap_epoch_pid_file (sw_proc env) path dir s = Some (q, t)"
    and ev: "stop_evidence (pv_platform (sw_proc env)) e (is_ok q) (rp_trace t)"
    using reap_evidence [OF Some assms, of "sw_proc env" dir] by (auto simp: returns_def)
  then show ?thesis using assms
    by (cases "confirm_store (sw_confirm env)"; cases q)
      (auto simp: spawn_failed_def raise_def Some dir stop_evidence_def stop_lawful_def)
qed

lemma instance_spawn_lawful:
  assumes "rp_trace s = []"
  shows "returns (instance_spawn env ienv spec e probe_given now spawned s)
    (\<lambda>_ t. stop_lawful (pv_platform (sw_proc env)) e (rp_trace t))"
proof -
  have "returns (spawn_failed env spec e error s) (\<lambda>_ t. stop_lawful (pv_platform (sw_proc env)) e (rp_trace t))" for error
    by (rule returns_mono [OF spawn_failed_sound [OF assms]]) simp
  then show ?thesis using assms
    by (cases "sw_probe env"; cases spawned) (auto simp: instance_spawn_def stop_lawful_def)
qed

end
