(* ===== verification/Log_Sink.thy ===== *)
theory Log_Sink
  imports Instance
begin

text \<open>
  The archive of the log stream (\<open>log_sink.rs\<close>): a writer of rotated files and the task that drains the
  broadcast channel into it. The directory is an association list from names to bytes. Every call to the
  file system may fail, as the environment decides by the number of the call; a failing write leaves the
  bytes it had written. The rendering of a frame as JSON is a parameter. Sequence numbers wrap around as
  they do in a release build, byte counts are unbounded.

  \<open>wr_done\<close> is history: what was appended completely, and to which file.
\<close>

section \<open>Names\<close>

definition sink_file_name :: "u64 \<Rightarrow> string" where
  "sink_file_name seq = ''core-'' @ pad_zeros 6 (show_nat (unat seq)) @ ''.jsonl''"

definition file_seq :: "string \<Rightarrow> u64 option" where
  "file_seq name = Option.bind (Option.bind (strip_prefix ''core-'' name) (strip_suffix ''.jsonl''))
     (\<lambda>digits. if digits \<noteq> [] \<and> list_all is_digit digits then parse_u64 digits else None)"

definition prune_targets :: "u64 list \<Rightarrow> nat \<Rightarrow> u64 list" where
  "prune_targets seqs max_files = drop max_files (rev (sort seqs))"

section \<open>Writer\<close>

datatype entry = LogEntry log_frame | GapEntry u64

record sink_options =
  so_max_bytes :: nat
  so_max_files :: nat

record sink_env =
  kv_json :: "log_frame \<Rightarrow> string option"
  kv_now :: "nat \<Rightarrow> int"
  kv_list :: "nat \<Rightarrow> bool"
  kv_create :: "nat \<Rightarrow> string option"
  kv_write :: "nat \<Rightarrow> nat option"
  kv_remove :: "nat \<Rightarrow> bool"

record writer =
  wr_options :: sink_options
  wr_files :: "(string \<times> string) list"
  wr_calls :: nat
  wr_written :: nat
  wr_seq :: u64
  wr_done :: "(u64 \<times> string) list"

definition counted :: "writer \<Rightarrow> writer" where
  "counted w = w\<lparr>wr_calls := wr_calls w + 1\<rparr>"

definition read_seqs :: "writer \<Rightarrow> u64 list" where
  "read_seqs w = List.map_filter file_seq (map fst (wr_files w))"

definition remove_log :: "sink_env \<Rightarrow> u64 \<Rightarrow> writer \<Rightarrow> writer" where
  "remove_log env seq w = (counted w)\<lparr>wr_files :=
     (if kv_remove env (wr_calls w) then filter (\<lambda>(name, _). name \<noteq> sink_file_name seq) (wr_files w) else wr_files w)\<rparr>"

definition prune_dir :: "sink_env \<Rightarrow> nat \<Rightarrow> u64 option \<Rightarrow> writer \<Rightarrow> writer" where
  "prune_dir env keep protect w =
     (if kv_list env (wr_calls w)
      then fold (remove_log env) (filter (\<lambda>seq. Some seq \<noteq> protect) (prune_targets (read_seqs w) keep)) (counted w)
      else counted w)"

text \<open>Opening for append creates the file if it is not there.\<close>

definition create :: "sink_env \<Rightarrow> u64 \<Rightarrow> writer \<Rightarrow> (error + unit) \<times> writer" where
  "create env seq w = (case kv_create env (wr_calls w) of
       Some e \<Rightarrow> (Inl (Io e), counted w)
     | None \<Rightarrow> (Inr (), (counted w)\<lparr>wr_files :=
         (if map_of (wr_files w) (sink_file_name seq) = None then wr_files w @ [(sink_file_name seq, [])] else wr_files w)\<rparr>))"

definition next_seq :: "sink_env \<Rightarrow> writer \<Rightarrow> (error + u64) \<times> writer" where
  "next_seq env w = (if kv_list env (wr_calls w) then Inr (foldr max (read_seqs w) 0 + 1)
     else Inl (Io ''failed to list the core log directory''), counted w)"

definition writer_open :: "sink_env \<Rightarrow> sink_options \<Rightarrow> (string \<times> string) list \<Rightarrow> error + writer" where
  "writer_open env options files =
     (case next_seq env \<lparr>wr_options = options, wr_files = files, wr_calls = 0, wr_written = 0, wr_seq = 0, wr_done = []\<rparr> of
       (Inl e, w) \<Rightarrow> Inl e
     | (Inr seq, w) \<Rightarrow> (case create env seq (prune_dir env (so_max_files options - 1) None w) of
         (Inl e, w) \<Rightarrow> Inl e
       | (Inr _, w) \<Rightarrow> Inr (w\<lparr>wr_seq := seq\<rparr>)))"

definition append_to :: "string \<Rightarrow> string \<Rightarrow> (string \<times> string) list \<Rightarrow> (string \<times> string) list" where
  "append_to name bytes files = map (\<lambda>(n, contents). (n, if n = name then contents @ bytes else contents)) files"

definition flush_pending :: "sink_env \<Rightarrow> string \<Rightarrow> writer \<Rightarrow> writer" where
  "flush_pending env buffer w =
     (if buffer = [] then w
      else case kv_write env (wr_calls w) of
        Some k \<Rightarrow> (counted w)\<lparr>wr_files := append_to (sink_file_name (wr_seq w)) (take k buffer) (wr_files w)\<rparr>
      | None \<Rightarrow> (counted w)\<lparr>wr_files := append_to (sink_file_name (wr_seq w)) buffer (wr_files w),
          wr_written := wr_written w + length buffer, wr_done := wr_done w @ [(wr_seq w, buffer)]\<rparr>)"

definition rotate_log :: "sink_env \<Rightarrow> writer \<Rightarrow> writer" where
  "rotate_log env w =
     (let seq = wr_seq w + 1; w = prune_dir env (so_max_files (wr_options w) - 1) (Some (wr_seq w)) w in
      case create env seq w of
        (Inr _, w) \<Rightarrow> prune_dir env (so_max_files (wr_options w)) (Some seq) (w\<lparr>wr_seq := seq, wr_written := 0\<rparr>)
      | (Inl _, w) \<Rightarrow> w)"

definition quoted :: "string \<Rightarrow> string" where
  "quoted s = [CHR 0x22] @ s @ [CHR 0x22]"

definition gap_json :: "u64 \<Rightarrow> int \<Rightarrow> string" where
  "gap_json dropped at = ''{'' @ quoted ''t'' @ '':'' @ quoted ''gap'' @ '','' @ quoted ''at'' @ '':'' @ show_int at @ '',''
     @ quoted ''dropped'' @ '':'' @ show_nat (unat dropped) @ ''}''"

definition entry_json :: "sink_env \<Rightarrow> int \<Rightarrow> entry \<Rightarrow> string option" where
  "entry_json env at entry = (case entry of
       LogEntry frame \<Rightarrow> kv_json env frame | GapEntry dropped \<Rightarrow> Some (gap_json dropped at))"

definition entry_line :: "sink_env \<Rightarrow> int \<Rightarrow> entry \<Rightarrow> string" where
  "entry_line env at entry = (case entry_json env at entry of Some text_of \<Rightarrow> text_of @ nl | None \<Rightarrow> [])"

fun write_entries :: "sink_env \<Rightarrow> int \<Rightarrow> entry list \<Rightarrow> string \<Rightarrow> writer \<Rightarrow> writer" where
  "write_entries env at [] buffer w = flush_pending env buffer w"
| "write_entries env at (entry # batch) buffer w =
     (let (buffer, w) = (if so_max_bytes (wr_options w) \<le> wr_written w + length buffer
            then ([], rotate_log env (flush_pending env buffer w)) else (buffer, w))
      in write_entries env at batch (buffer @ entry_line env at entry) w)"

definition write_batch :: "sink_env \<Rightarrow> entry list \<Rightarrow> writer \<Rightarrow> writer" where
  "write_batch env batch w = (if batch = [] then w
     else write_entries env (kv_now env (wr_calls w)) batch [] (counted w))"

section \<open>The task\<close>

definition MAX_BATCH_RECORDS :: nat where "MAX_BATCH_RECORDS = 256"

text \<open>The result says whether the channel is closed, what is left in it, and the batch.\<close>

fun drain :: "bool \<Rightarrow> entry list \<Rightarrow> entry list \<Rightarrow> bool \<times> entry list \<times> entry list" where
  "drain closed [] batch = (if length batch < MAX_BATCH_RECORDS then closed else False, [], batch)"
| "drain closed (entry # queue) batch =
     (if length batch < MAX_BATCH_RECORDS then drain closed queue (batch @ [entry]) else (False, entry # queue, batch))"

record sink =
  sk_writer :: writer
  sk_queue :: "entry list"
  sk_closed :: bool
  sk_ended :: bool
  sk_batches :: "entry list list"

text \<open>One turn of the loop: what has arrived on the channel since, whether its last sender is gone, and
  which arm is taken.\<close>

record turn =
  tn_arrivals :: "entry list"
  tn_closed :: bool
  tn_cancelled :: bool

definition write_drained :: "sink_env \<Rightarrow> entry list \<Rightarrow> sink \<Rightarrow> bool \<times> nat \<times> sink" where
  "write_drained env batch s = (case drain (sk_closed s) (sk_queue s) batch of (closed, queue, batch) \<Rightarrow>
     (closed, length batch, s\<lparr>sk_queue := queue, sk_writer := write_batch env batch (sk_writer s), sk_batches := sk_batches s @ [batch]\<rparr>))"

definition sink_turn :: "sink_env \<Rightarrow> turn \<Rightarrow> sink \<Rightarrow> sink" where
  "sink_turn env turn s =
     (if sk_ended s then s
      else let s = (if sk_closed s then s else s\<lparr>sk_queue := sk_queue s @ tn_arrivals turn, sk_closed := tn_closed turn\<rparr>) in
      if tn_cancelled turn
      then (case write_drained env [] s of (closed, n, s) \<Rightarrow> s\<lparr>sk_ended := closed \<or> n < MAX_BATCH_RECORDS\<rparr>)
      else (case sk_queue s of
          [] \<Rightarrow> s\<lparr>sk_ended := sk_closed s\<rparr>
        | entry # queue \<Rightarrow> (case write_drained env [entry] (s\<lparr>sk_queue := queue\<rparr>) of
            (closed, _, s) \<Rightarrow> s\<lparr>sk_ended := closed\<rparr>)))"

definition sink_new :: "writer \<Rightarrow> sink" where
  "sink_new w = \<lparr>sk_writer = w, sk_queue = [], sk_closed = False, sk_ended = False, sk_batches = []\<rparr>"

section \<open>Names and pruning\<close>

lemma pad_show_digits: "list_all is_digit (pad_zeros n (show_nat m))" "pad_zeros n (show_nat m) \<noteq> []"
  using pad_zeros_digits [OF show_nat_digits] by (simp_all add: pad_zeros_def)

lemma parse_pad: "parse_u64 (pad_zeros n (show_nat (unat w))) = Some w"
proof -
  obtain c cs where s: "pad_zeros n (show_nat (unat w)) = c # cs" using pad_show_digits(2) list.exhaust by metis
  have "is_digit c" using pad_show_digits(1) [of n "unat w"] by (simp add: s)
  then have "c \<noteq> CHR ''+''" by (auto simp: is_digit_def)
  moreover have "digits_value (c # cs) = unat w" unfolding s [symmetric] by (simp add: pad_zeros_def digits_value_zeros)
  moreover have "list_all is_digit (c # cs)" unfolding s [symmetric] by (rule pad_show_digits)
  moreover have "unat w < 2 ^ 64" using unsigned_less [of w] by simp
  ultimately show ?thesis by (simp add: s parse_u64_def)
qed

lemma file_seq_name [simp]: "file_seq (sink_file_name seq) = Some seq"
proof -
  have "strip_prefix ''core-'' (sink_file_name seq) = Some (pad_zeros 6 (show_nat (unat seq)) @ ''.jsonl'')"
    unfolding sink_file_name_def by (rule strip_prefix_append)
  then show ?thesis by (simp add: file_seq_def pad_show_digits parse_pad)
qed

lemma sink_file_name_inj [simp]: "sink_file_name a = sink_file_name b \<longleftrightarrow> a = b"
  by (metis file_seq_name option.inject)

lemma map_of_filter_name: "map_of (filter (\<lambda>(n, _). n \<noteq> name) fs) = (map_of fs)(name := None)"
  by (induction fs) auto

lemma map_of_append_to: "map_of (append_to name bytes fs) n = map_option (\<lambda>c. if n = name then c @ bytes else c) (map_of fs n)"
  by (induction fs) (auto simp: append_to_def)

text \<open>What an operation may do to files that are older than \<open>lo\<close> or no logs: a log may be removed.\<close>

definition spares :: "u64 \<Rightarrow> (string \<times> string) list \<Rightarrow> (string \<times> string) list \<Rightarrow> bool" where
  "spares lo fs fs' \<longleftrightarrow> (\<forall>name. (\<exists>q. name = sink_file_name q \<and> lo \<le> q) \<or> map_of fs' name = map_of fs name
     \<or> map_of fs' name = None \<and> (\<exists>q. name = sink_file_name q))"

lemma spares_refl [simp]: "spares lo fs fs"
  by (simp add: spares_def)

lemma spares_trans [trans]: "spares lo fs gs \<Longrightarrow> spares lo gs hs \<Longrightarrow> spares lo fs hs"
  by (force simp: spares_def)

definition active_exists :: "writer \<Rightarrow> bool" where
  "active_exists w \<longleftrightarrow> map_of (wr_files w) (sink_file_name (wr_seq w)) \<noteq> None"

lemma counted_fields [simp]:
  "wr_files (counted w) = wr_files w" "wr_seq (counted w) = wr_seq w" "wr_options (counted w) = wr_options w"
  "wr_written (counted w) = wr_written w" "wr_done (counted w) = wr_done w"
  by (simp_all add: counted_def)

lemma remove_log_fields [simp]:
  "wr_seq (remove_log env q w) = wr_seq w" "wr_options (remove_log env q w) = wr_options w"
  "wr_written (remove_log env q w) = wr_written w" "wr_done (remove_log env q w) = wr_done w"
  by (simp_all add: remove_log_def)

lemma remove_log_files: "map_of (wr_files (remove_log env q w)) name = map_of (wr_files w) name
    \<or> name = sink_file_name q \<and> map_of (wr_files (remove_log env q w)) name = None"
  by (auto simp: remove_log_def map_of_filter_name)

lemma remove_logs:
  "let w' = fold (remove_log env) qs w in
     wr_seq w' = wr_seq w \<and> wr_options w' = wr_options w \<and> wr_written w' = wr_written w \<and> wr_done w' = wr_done w
     \<and> (\<forall>name. map_of (wr_files w') name = map_of (wr_files w) name
         \<or> map_of (wr_files w') name = None \<and> (\<exists>q\<in>set qs. name = sink_file_name q))"
proof (induction qs arbitrary: w)
  case (Cons q qs)
  show ?case using Cons [of "remove_log env q w"] remove_log_files [of env q w] by (force simp: Let_def)
qed simp

lemma prune_dir_spec:
  shows "wr_seq (prune_dir env keep protect w) = wr_seq w" "wr_options (prune_dir env keep protect w) = wr_options w"
    "wr_written (prune_dir env keep protect w) = wr_written w" "wr_done (prune_dir env keep protect w) = wr_done w"
    and "map_of (wr_files (prune_dir env keep protect w)) name = map_of (wr_files w) name
      \<or> map_of (wr_files (prune_dir env keep protect w)) name = None \<and> (\<exists>q. name = sink_file_name q \<and> Some q \<noteq> protect)"
  using remove_logs [of env "filter (\<lambda>seq. Some seq \<noteq> protect) (prune_targets (read_seqs w) keep)" "counted w"]
  by (auto simp: prune_dir_def Let_def)

lemmas prune_fields [simp] = prune_dir_spec(1-4)

lemma prune_spares: "spares lo (wr_files w) (wr_files (prune_dir env keep protect w))"
  using prune_dir_spec(5) [of env keep protect w] by (force simp: spares_def)

lemma prune_active: "active_exists w \<Longrightarrow> active_exists (prune_dir env keep (Some (wr_seq w)) w)"
  using prune_dir_spec(5) [of env keep "Some (wr_seq w)" w "sink_file_name (wr_seq w)"]
  by (auto simp: active_exists_def prune_dir_spec(1))

lemma create_spec:
  assumes "create env seq w = (r, w')"
  shows "wr_seq w' = wr_seq w" "wr_options w' = wr_options w" "wr_written w' = wr_written w" "wr_done w' = wr_done w"
    "map_of (wr_files w') = (if is_ok r \<and> map_of (wr_files w) (sink_file_name seq) = None
       then (map_of (wr_files w))(sink_file_name seq \<mapsto> []) else map_of (wr_files w))"
  using assms by (auto simp: create_def fun_eq_iff map_add_def split: option.splits if_splits)

section \<open>Writing under faults\<close>

text \<open>The writer goes from one state to another, at most \<open>n\<close> files further.\<close>

definition advances :: "u64 \<Rightarrow> nat \<Rightarrow> writer \<Rightarrow> writer \<Rightarrow> bool" where
  "advances lo n w w' \<longleftrightarrow> spares lo (wr_files w) (wr_files w') \<and> active_exists w' \<and> lo \<le> wr_seq w'
     \<and> unat (wr_seq w') \<le> unat (wr_seq w) + n \<and> wr_options w' = wr_options w"

lemma advances_trans: "advances lo m w w' \<Longrightarrow> advances lo n w' w'' \<Longrightarrow> advances lo (m + n) w w''"
  by (auto simp: advances_def intro: spares_trans)

lemma flush_advances:
  assumes "active_exists w" "lo \<le> wr_seq w"
  shows "advances lo 0 w (flush_pending env buffer w)"
proof -
  have "spares lo (wr_files w) (append_to (sink_file_name (wr_seq w)) bytes (wr_files w))" for bytes
    using assms(2) by (auto simp: spares_def map_of_append_to option.map_id0 map_option_case split: option.split)
  then show ?thesis
    using assms by (auto simp: advances_def flush_pending_def active_exists_def map_of_append_to split: option.split)
qed

lemma rotate_advances:
  assumes "active_exists w" "lo \<le> wr_seq w" "unat (wr_seq w) + 1 < 2 ^ 64"
  shows "advances lo 1 w (rotate_log env w)"
proof -
  let ?p = "prune_dir env (so_max_files (wr_options w) - 1) (Some (wr_seq w)) w"
  have succ: "unat (wr_seq w + 1) = unat (wr_seq w) + 1" using assms(3) by (simp add: unat_word_ariths)
  then have lo: "lo \<le> wr_seq w + 1" using assms(2) by (simp add: word_le_nat_alt)
  obtain r w' where c: "create env (wr_seq w + 1) ?p = (r, w')" by fastforce
  have p: "spares lo (wr_files w) (wr_files ?p)" "active_exists ?p" by (rule prune_spares, rule prune_active [OF assms(1)])
  have w': "spares lo (wr_files ?p) (wr_files w')"
    using create_spec(5) [OF c] lo by (auto simp: spares_def)
  show ?thesis
  proof (cases r)
    case (Inl e)
    then have "active_exists w'" using p(2) create_spec [OF c] by (simp add: active_exists_def)
    then show ?thesis
      using Inl c p w' assms(2) create_spec(1,2) [OF c]
      by (auto simp: advances_def rotate_log_def Let_def prune_dir_spec intro: spares_trans)
  next
    case (Inr u)
    let ?w = "w'\<lparr>wr_seq := wr_seq w + 1, wr_written := 0\<rparr>"
    have "active_exists ?w" using create_spec(5) [OF c] Inr by (auto simp: active_exists_def)
    then have "active_exists (prune_dir env k (Some (wr_seq w + 1)) ?w)" for k using prune_active [of ?w env k] by simp
    moreover have "spares lo (wr_files w') (wr_files (prune_dir env k (Some (wr_seq w + 1)) ?w))" for k
      using prune_spares [of lo ?w env k "Some (wr_seq w + 1)"] by simp
    ultimately show ?thesis
      using Inr c p w' lo succ create_spec(2) [OF c]
      by (auto simp: advances_def rotate_log_def Let_def prune_dir_spec intro: spares_trans)
  qed
qed

lemma write_entries_advances:
  assumes "active_exists w" "lo \<le> wr_seq w" "unat (wr_seq w) + length batch < 2 ^ 64"
  shows "advances lo (length batch) w (write_entries env at batch buffer w)"
  using assms
proof (induction batch arbitrary: buffer w)
  case Nil
  then show ?case by (simp add: flush_advances)
next
  case (Cons entry batch)
  define w' where "w' = (if so_max_bytes (wr_options w) \<le> wr_written w + length buffer
    then rotate_log env (flush_pending env buffer w) else w)"
  have "advances lo 1 w w'"
  proof -
    have "advances lo 0 w (flush_pending env buffer w)" using Cons.prems by (simp add: flush_advances)
    moreover from this have "advances lo 1 (flush_pending env buffer w) (rotate_log env (flush_pending env buffer w))"
      using Cons.prems by (intro rotate_advances) (auto simp: advances_def)
    moreover have "advances lo 1 w w" using Cons.prems by (simp add: advances_def)
    ultimately show ?thesis using advances_trans [of lo 0 w _ 1] by (auto simp: w'_def)
  qed
  moreover from this have "advances lo (length batch) w' (write_entries env at batch b w')" for b
    using Cons.prems by (intro Cons.IH) (auto simp: advances_def)
  ultimately have "advances lo (1 + length batch) w (write_entries env at batch b w')" for b by (rule advances_trans)
  then show ?case by (auto simp: w'_def Let_def split: if_splits)
qed

lemma write_batches_advance:
  assumes "active_exists w" "lo \<le> wr_seq w" "unat (wr_seq w) + length (concat batches) < 2 ^ 64"
  shows "advances lo (length (concat batches)) w (fold (write_batch env) batches w)"
  using assms
proof (induction batches arbitrary: w)
  case (Cons batch batches)
  have "advances lo (length batch) (counted w) (write_entries env at batch [] (counted w))" for at
    using Cons.prems by (intro write_entries_advances) (auto simp: active_exists_def)
  then have w: "advances lo (length batch) w (write_batch env batch w)"
    using Cons.prems by (auto simp: write_batch_def advances_def)
  then have "advances lo (length (concat batches)) (write_batch env batch w) (fold (write_batch env) batches (write_batch env batch w))"
    using Cons.prems by (intro Cons.IH) (auto simp: advances_def)
  with w show ?case by (auto dest: advances_trans)
qed (simp add: advances_def)

lemma foldr_max_bound: "x \<in> set xs \<Longrightarrow> x \<le> foldr max xs (b :: 'a :: linorder)"
  by (induction xs) (auto simp: le_max_iff_disj)

lemma writer_open_spec:
  assumes "writer_open env options files = Inr w"
  shows "spares (wr_seq w) files (wr_files w)" "active_exists w" "wr_options w = options"
    "wr_seq w \<noteq> 0 \<Longrightarrow> map_of files (sink_file_name q) \<noteq> None \<Longrightarrow> q < wr_seq w"
    "wr_written w = 0" "wr_done w = []"
    "wr_seq w \<noteq> 0 \<Longrightarrow> wr_seq w \<le> q \<Longrightarrow> map_of (wr_files w) (sink_file_name q) = (if q = wr_seq w then Some [] else None)"
proof -
  define w0 where "w0 = \<lparr>wr_options = options, wr_files = files, wr_calls = 0, wr_written = 0, wr_seq = 0, wr_done = []\<rparr>"
  define seq where "seq = foldr max (read_seqs w0) 0 + 1"
  let ?p = "prune_dir env (so_max_files options - 1) None (counted w0)"
  obtain v where c: "create env seq ?p = (Inr (), v)" and w: "w = v\<lparr>wr_seq := seq\<rparr>"
    using assms unfolding writer_open_def next_seq_def w0_def [symmetric] seq_def
    by (auto split: prod.splits sum.splits if_splits)
  have fields: "wr_seq w = seq" "wr_files w0 = files" "wr_options w0 = options" "wr_written w0 = 0" "wr_done w0 = []"
    by (simp_all add: w w0_def)
  have "spares seq files (wr_files ?p)" using prune_spares [of seq "counted w0" env] by (simp add: fields)
  moreover have "spares seq (wr_files ?p) (wr_files v)" using create_spec(5) [OF c] by (auto simp: spares_def)
  ultimately show "spares (wr_seq w) files (wr_files w)" by (auto simp: w intro: spares_trans)
  show "active_exists w" using create_spec(5) [OF c] by (auto simp: active_exists_def w)
  show "wr_options w = options" "wr_written w = 0" "wr_done w = []"
    using create_spec(2-4) [OF c] by (simp_all add: w prune_dir_spec fields)
  have below: "p < wr_seq w" if "wr_seq w \<noteq> 0" "map_of files (sink_file_name p) \<noteq> None" for p
  proof -
    have "(sink_file_name p) \<in> set (map fst files)" using that(2) by (simp add: map_of_eq_None_iff)
    then have "p \<in> set (read_seqs w0)" by (force simp: read_seqs_def fields List.map_filter_def)
    then have "p \<le> foldr max (read_seqs w0) 0" by (rule foldr_max_bound)
    moreover have "foldr max (read_seqs w0) 0 < seq"
      unfolding seq_def using that(1) by (intro word_less_Suc_nonmax) (auto simp: w seq_def)
    ultimately show ?thesis by (simp add: w)
  qed
  then show "wr_seq w \<noteq> 0 \<Longrightarrow> map_of files (sink_file_name q) \<noteq> None \<Longrightarrow> q < wr_seq w" .
  assume "wr_seq w \<noteq> 0" "wr_seq w \<le> q"
  then have "map_of files (sink_file_name q) = None" using below [of q] by (meson leD)
  then have "map_of (wr_files ?p) (sink_file_name q) = None"
    using prune_dir_spec(5) [of env "so_max_files options - 1" None "counted w0" "sink_file_name q"] by (auto simp: fields)
  then show "map_of (wr_files w) (sink_file_name q) = (if q = wr_seq w then Some [] else None)"
    using create_spec(5) [OF c] by (auto simp: w)
qed

text \<open>Whatever fails, the archive never touches what it did not write. After any batches every file that was
  in the directory before is unchanged, or is an older log of the archive that retention removed; every new
  file is a log of this run; and the active file is there. This needs only that the sequence numbers have
  not wrapped around.\<close>

theorem sink_spares_other_files:
  assumes "writer_open env options files = Inr w" "wr_seq w \<noteq> 0" "unat (wr_seq w) + length (concat batches) < 2 ^ 64"
  shows "let w' = fold (write_batch env) batches w in
    (case map_of files name of
       Some contents \<Rightarrow> (case map_of (wr_files w') name of
           Some contents' \<Rightarrow> contents' = contents | None \<Rightarrow> (\<exists>q. name = sink_file_name q \<and> q < wr_seq w))
     | None \<Rightarrow> map_of (wr_files w') name = None \<or> (\<exists>q. name = sink_file_name q \<and> wr_seq w \<le> q))
    \<and> map_of (wr_files w') (sink_file_name (wr_seq w')) \<noteq> None"
proof -
  note opened = writer_open_spec [OF assms(1)]
  have adv: "advances (wr_seq w) (length (concat batches)) w (fold (write_batch env) batches w)"
    using opened(2) assms(3) by (intro write_batches_advance) simp_all
  then have "spares (wr_seq w) files (wr_files (fold (write_batch env) batches w))"
    using opened(1) by (auto simp: advances_def intro: spares_trans)
  then have "(\<exists>q. name = sink_file_name q \<and> wr_seq w \<le> q) \<or> map_of (wr_files (fold (write_batch env) batches w)) name = map_of files name
     \<or> map_of (wr_files (fold (write_batch env) batches w)) name = None \<and> (\<exists>q. name = sink_file_name q)"
    by (simp add: spares_def)
  then show ?thesis
    using opened(4) [OF assms(2)] adv
    by (fastforce simp: Let_def advances_def active_exists_def split: option.split)
qed

section \<open>Writing without faults\<close>

definition faultless :: "sink_env \<Rightarrow> bool" where
  "faultless env \<longleftrightarrow> kv_write env = (\<lambda>_. None) \<and> kv_create env = (\<lambda>_. None)"

text \<open>What was appended to one file.\<close>

definition seq_text :: "u64 \<Rightarrow> (u64 \<times> string) list \<Rightarrow> string" where
  "seq_text q texts = concat (map snd (filter (\<lambda>(s, _). s = q) texts))"

lemma seq_text_snoc [simp]: "seq_text q (texts @ [(s, b)]) = seq_text q texts @ (if s = q then b else [])"
  by (simp add: seq_text_def)

lemma seq_text_None: "\<forall>s\<in>set (map fst texts). s \<noteq> q \<Longrightarrow> seq_text q texts = []"
  by (induction texts) (auto simp: seq_text_def)

definition tidy :: "u64 \<Rightarrow> nat \<Rightarrow> nat \<Rightarrow> writer \<Rightarrow> string \<Rightarrow> bool" where
  "tidy lo limit longest w buffer \<longleftrightarrow> active_exists w \<and> lo \<le> wr_seq w \<and> so_max_bytes (wr_options w) = limit
     \<and> (\<forall>q c. lo \<le> q \<and> map_of (wr_files w) (sink_file_name q) = Some c \<longrightarrow> c = seq_text q (wr_done w))
     \<and> (\<forall>q. wr_seq w < q \<longrightarrow> map_of (wr_files w) (sink_file_name q) = None)
     \<and> (\<forall>s\<in>set (map fst (wr_done w)). s \<le> wr_seq w) \<and> sorted (map fst (wr_done w))
     \<and> wr_written w = length (seq_text (wr_seq w) (wr_done w))
     \<and> (\<forall>q. length (seq_text q (wr_done w)) \<le> limit + longest) \<and> wr_written w + length buffer \<le> limit + longest"

lemma tidyD:
  assumes "tidy lo limit longest w buffer" "lo \<le> q" "map_of (wr_files w) (sink_file_name q) = Some c"
  shows "c = seq_text q (wr_done w) \<and> length c \<le> limit + longest"
proof -
  have "c = seq_text q (wr_done w)" using assms unfolding tidy_def by blast
  moreover have "length (seq_text q (wr_done w)) \<le> limit + longest" using assms(1) unfolding tidy_def by blast
  ultimately show ?thesis by simp
qed

lemma tidy_flush:
  assumes "tidy lo limit longest w buffer" "faultless env"
  shows "tidy lo limit longest (flush_pending env buffer w) []"
    and "concat (map snd (wr_done (flush_pending env buffer w))) = concat (map snd (wr_done w)) @ buffer"
    and "wr_seq (flush_pending env buffer w) = wr_seq w"
proof -
  have "active_exists (flush_pending env buffer w)" using assms by (auto simp: tidy_def flush_pending_def active_exists_def map_of_append_to split: option.split)
  then show "tidy lo limit longest (flush_pending env buffer w) []"
    using assms by (auto simp: tidy_def flush_pending_def faultless_def map_of_append_to sorted_append split: if_splits)
  show "concat (map snd (wr_done (flush_pending env buffer w))) = concat (map snd (wr_done w)) @ buffer"
    "wr_seq (flush_pending env buffer w) = wr_seq w"
    using assms by (auto simp: flush_pending_def faultless_def)
qed

lemma tidy_prune:
  assumes "tidy lo limit longest w []"
  shows "tidy lo limit longest (prune_dir env keep (Some (wr_seq w)) w) []"
proof -
  let ?p = "prune_dir env keep (Some (wr_seq w)) w"
  have files: "map_of (wr_files ?p) name = Some c \<Longrightarrow> map_of (wr_files w) name = Some c" for name c
    using prune_dir_spec(5) [of env keep "Some (wr_seq w)" w name] by auto
  have "active_exists ?p" using assms prune_active by (simp add: tidy_def)
  moreover have "wr_seq w < q \<Longrightarrow> map_of (wr_files ?p) (sink_file_name q) = None" for q
    using assms files [of "sink_file_name q"] by (cases "map_of (wr_files ?p) (sink_file_name q)") (auto simp: tidy_def)
  ultimately show ?thesis using assms files by (auto simp: tidy_def)
qed

lemma tidy_rotate:
  assumes w: "tidy lo limit longest w []" and env: "faultless env" and wrap: "unat (wr_seq w) + 1 < 2 ^ 64"
  shows "tidy lo limit longest (rotate_log env w) []" "wr_done (rotate_log env w) = wr_done w"
    "wr_seq (rotate_log env w) = wr_seq w + 1" "wr_written (rotate_log env w) = 0"
proof -
  let ?p = "prune_dir env (so_max_files (wr_options w) - 1) (Some (wr_seq w)) w"
  have less: "wr_seq w < wr_seq w + 1" using wrap by (simp add: word_less_nat_alt unat_word_ariths)
  have above: "wr_seq w + 1 < q \<Longrightarrow> wr_seq w < q" for q using less by (rule less_trans)
  have done_le: "s \<in> set (map fst (wr_done w)) \<Longrightarrow> s \<le> wr_seq w" for s using w by (auto simp: tidy_def)
  have p_tidy: "tidy lo limit longest ?p []" using w by (rule tidy_prune)
  have absent: "map_of (wr_files ?p) (sink_file_name (wr_seq w + 1)) = None" using p_tidy less by (simp add: tidy_def)
  have fresh: "seq_text (wr_seq w + 1) (wr_done w) = []" by (rule seq_text_None) (use done_le less in force)
  obtain v where c: "create env (wr_seq w + 1) ?p = (Inr (), v)" using env by (simp add: create_def faultless_def)
  note v = create_spec [OF c]
  let ?w = "v\<lparr>wr_seq := wr_seq w + 1, wr_written := 0\<rparr>"
  have files: "map_of (wr_files v) = (map_of (wr_files ?p))(sink_file_name (wr_seq w + 1) \<mapsto> [])" using v(5) absent by simp
  have done_lt: "s \<le> wr_seq w + 1" if "s \<in> set (map fst (wr_done w))" for s using done_le [OF that] less by simp
  have "tidy lo limit longest ?w []"
    using p_tidy less above done_lt fresh
    by (auto simp: tidy_def active_exists_def files v)
  then have "tidy lo limit longest (prune_dir env k (Some (wr_seq w + 1)) ?w) []" for k using tidy_prune [of lo limit longest ?w env k] by simp
  then show "tidy lo limit longest (rotate_log env w) []" "wr_done (rotate_log env w) = wr_done w"
    "wr_seq (rotate_log env w) = wr_seq w + 1" "wr_written (rotate_log env w) = 0"
    using c by (auto simp: rotate_log_def Let_def prune_dir_spec v)
qed

lemma write_entries_tidy:
  assumes "tidy lo limit longest w buffer" "faultless env" "0 < limit" "unat (wr_seq w) + length batch < 2 ^ 64"
    "\<forall>entry\<in>set batch. length (entry_line env at entry) \<le> longest"
  shows "tidy lo limit longest (write_entries env at batch buffer w) []
    \<and> concat (map snd (wr_done (write_entries env at batch buffer w)))
        = concat (map snd (wr_done w)) @ buffer @ concat (map (entry_line env at) batch)
    \<and> unat (wr_seq (write_entries env at batch buffer w)) \<le> unat (wr_seq w) + length batch"
  using assms
proof (induction batch arbitrary: buffer w)
  case Nil
  then show ?case using tidy_flush [OF Nil(1,2)] by simp
next
  case (Cons entry batch)
  have line: "length (entry_line env at entry) \<le> longest" using Cons.prems(5) by simp
  have bound: "so_max_bytes (wr_options w) = limit" using Cons.prems(1) by (simp add: tidy_def)
  let ?f = "flush_pending env buffer w"
  note f = tidy_flush [OF Cons.prems(1,2)]
  show ?case
  proof (cases "limit \<le> wr_written w + length buffer")
    case True
    have wrap: "unat (wr_seq ?f) + 1 < 2 ^ 64" using Cons.prems(4) f(3) by simp
    note r = tidy_rotate [OF f(1) Cons.prems(2) wrap]
    have succ: "unat (wr_seq (rotate_log env ?f)) = unat (wr_seq w) + 1" using r(3) f(3) wrap by (simp add: unat_word_ariths)
    have "tidy lo limit longest (rotate_log env ?f) (entry_line env at entry)"
      using r(1,4) line by (simp add: tidy_def)
    from Cons.IH [OF this Cons.prems(2,3)] succ Cons.prems(4,5) True bound r(2) f(2)
    show ?thesis by (simp add: Let_def)
  next
    case False
    then have "tidy lo limit longest w (buffer @ entry_line env at entry)" using Cons.prems(1) line by (simp add: tidy_def)
    from Cons.IH [OF this Cons.prems(2,3)] Cons.prems(4,5) False bound
    show ?thesis by (simp add: Let_def)
  qed
qed

definition batch_text :: "sink_env \<Rightarrow> int \<times> entry list \<Rightarrow> string" where
  "batch_text env p = concat (map (entry_line env (fst p)) (snd p))"

lemma write_batches_tidy:
  assumes "tidy lo limit longest w []" "faultless env" "0 < limit" "unat (wr_seq w) + length (concat batches) < 2 ^ 64"
    "\<forall>entry\<in>set (concat batches). \<forall>n. length (entry_line env (kv_now env n) entry) \<le> longest"
  shows "\<exists>ats. tidy lo limit longest (fold (write_batch env) batches w) [] \<and> length ats = length batches
    \<and> concat (map snd (wr_done (fold (write_batch env) batches w)))
        = concat (map snd (wr_done w)) @ concat (map (batch_text env) (zip ats batches))"
  using assms
proof (induction batches arbitrary: w)
  case (Cons batch batches)
  define at where "at = kv_now env (wr_calls w)"
  let ?w = "write_batch env batch w"
  have "tidy lo limit longest (counted w) []" using Cons.prems(1) by (simp add: tidy_def active_exists_def)
  then have "tidy lo limit longest ?w [] \<and> concat (map snd (wr_done ?w)) = concat (map snd (wr_done w)) @ batch_text env (at, batch)
      \<and> unat (wr_seq ?w) \<le> unat (wr_seq w) + length batch"
    using write_entries_tidy [of lo limit longest "counted w" "[]" env batch at] Cons.prems
    by (auto simp: write_batch_def batch_text_def at_def)
  moreover from this obtain ats where "tidy lo limit longest (fold (write_batch env) batches ?w) [] \<and> length ats = length batches
    \<and> concat (map snd (wr_done (fold (write_batch env) batches ?w)))
        = concat (map snd (wr_done ?w)) @ concat (map (batch_text env) (zip ats batches))"
    using Cons.IH [of ?w] Cons.prems by auto
  ultimately show ?case by (intro exI [of _ "at # ats"]) simp
qed simp

text \<open>Without write errors the archive is exactly the log. The texts appended are the lines of the entries, in
  their order, and the file numbers they went to never decrease; every file of this run that retention has
  left holds exactly what was appended under its number, and exceeds the size limit by at most one line.\<close>

theorem sink_archives_in_order:
  assumes "writer_open env options files = Inr w" "faultless env" "0 < so_max_bytes options" "wr_seq w \<noteq> 0"
    "unat (wr_seq w) + length (concat batches) < 2 ^ 64"
    "\<forall>entry\<in>set (concat batches). \<forall>n. length (entry_line env (kv_now env n) entry) \<le> longest"
  shows "let w' = fold (write_batch env) batches w in
    (\<exists>ats. length ats = length batches \<and> concat (map snd (wr_done w')) = concat (map (batch_text env) (zip ats batches)))
    \<and> sorted (map fst (wr_done w'))
    \<and> (case map_of (wr_files w') (sink_file_name q) of
         Some contents \<Rightarrow> if wr_seq w \<le> q then contents = seq_text q (wr_done w') \<and> length contents \<le> so_max_bytes options + longest else True
       | None \<Rightarrow> True)"
proof -
  note opened = writer_open_spec [OF assms(1)]
  have "tidy (wr_seq w) (so_max_bytes options) longest w []"
    using opened(2,3,5,6) opened(7) [OF assms(4)] by (auto simp: tidy_def seq_text_def split: if_splits)
  from write_batches_tidy [OF this assms(2,3,5,6)] obtain ats where
    t: "tidy (wr_seq w) (so_max_bytes options) longest (fold (write_batch env) batches w) []"
    and "length ats = length batches"
      "concat (map snd (wr_done (fold (write_batch env) batches w))) = concat (map (batch_text env) (zip ats batches))"
    using opened(6) by auto
  moreover have "contents = seq_text q (wr_done (fold (write_batch env) batches w)) \<and> length contents \<le> so_max_bytes options + longest"
    if "map_of (wr_files (fold (write_batch env) batches w)) (sink_file_name q) = Some contents" "wr_seq w \<le> q" for contents
    using tidyD [OF t that(2,1)] .
  moreover have "sorted (map fst (wr_done (fold (write_batch env) batches w)))" using t by (simp add: tidy_def)
  ultimately show ?thesis by (auto simp: Let_def split: option.split)
qed

definition sample_frame :: log_frame where
  "sample_frame = \<lparr>fr_at = 0, fr_epoch = 1, fr_kind = Mihomo, fr_stream = Stdout, fr_level = LInfo, fr_timestamp = None,
     fr_target = None, fr_message = ''up'', fr_fields = [], fr_raw = ''up'', fr_truncated = False\<rparr>"

definition sample_sink_env :: sink_env where
  "sample_sink_env = \<lparr>kv_json = (\<lambda>frame. Some (fr_message frame)), kv_now = (\<lambda>_. 0), kv_list = (\<lambda>_. True), kv_create = (\<lambda>_. None),
     kv_write = (\<lambda>_. None), kv_remove = (\<lambda>_. True)\<rparr>"

definition sample_writer :: writer where
  "sample_writer = \<lparr>wr_options = \<lparr>so_max_bytes = 1, so_max_files = 2\<rparr>, wr_files = [(''notes'', ''x''), (sink_file_name 1, [])], wr_calls = 3,
     wr_written = 0, wr_seq = 1, wr_done = []\<rparr>"

lemma sample_writer_open: "writer_open sample_sink_env \<lparr>so_max_bytes = 1, so_max_files = 2\<rparr> [(''notes'', ''x'')] = Inr sample_writer"
proof -
  have no_log: "file_seq ''notes'' = None" by (simp add: file_seq_def strip_prefix_def)
  moreover from this have "sink_file_name 1 \<noteq> ''notes''" using file_seq_name [of 1] by (metis option.distinct(1))
  ultimately show ?thesis
    by (simp add: writer_open_def next_seq_def read_seqs_def List.map_filter_def sample_sink_env_def counted_def prune_dir_def
        prune_targets_def create_def sample_writer_def)
qed

theorem sink_spares_other_files_witness:
  "map_of (wr_files (fold (write_batch sample_sink_env) [[LogEntry sample_frame]] sample_writer)) ''notes'' = Some ''x''
   \<or> (\<exists>q. ''notes'' = sink_file_name q)"
  using sink_spares_other_files [OF sample_writer_open, of "[[LogEntry sample_frame]]" "''notes''"]
  by (auto simp: sample_writer_def Let_def split: option.splits)

theorem sink_archives_in_order_witness:
  "sorted (map fst (wr_done (fold (write_batch sample_sink_env) [[LogEntry sample_frame]] sample_writer)))"
proof -
  have "faultless sample_sink_env" by (simp add: faultless_def sample_sink_env_def)
  moreover have "\<forall>entry\<in>set (concat [[LogEntry sample_frame]]). \<forall>n. length (entry_line sample_sink_env (kv_now sample_sink_env n) entry) \<le> 3"
    by (simp add: entry_line_def entry_json_def sample_sink_env_def sample_frame_def nl_def)
  ultimately show ?thesis
    using sink_archives_in_order [OF sample_writer_open, of "[[LogEntry sample_frame]]" 3]
    by (simp add: Let_def sample_writer_def)
qed

section \<open>The task loses nothing and ends\<close>

lemma drain_eq:
  "length batch \<le> MAX_BATCH_RECORDS \<Longrightarrow> drain closed queue batch = (let k = MAX_BATCH_RECORDS - length batch in
     (closed \<and> length queue < k, drop k queue, batch @ take k queue))"
proof (induction queue arbitrary: batch)
  case (Cons entry queue)
  show ?case
  proof (cases "length batch < MAX_BATCH_RECORDS")
    case True
    then obtain k where k: "MAX_BATCH_RECORDS - length batch = Suc k" by (metis Suc_diff_Suc)
    then have "MAX_BATCH_RECORDS - length (batch @ [entry]) = k" by simp
    then show ?thesis using True Cons.IH [of "batch @ [entry]"] by (simp add: k Let_def)
  next
    case False
    then show ?thesis by (simp add: Let_def)
  qed
qed (simp add: Let_def)

lemma drain_spec:
  assumes "drain closed queue batch = (closed', queue', batch')" "length batch \<le> MAX_BATCH_RECORDS"
  shows "batch' @ queue' = batch @ queue" "length batch' \<le> MAX_BATCH_RECORDS"
    "closed' \<or> length batch' < MAX_BATCH_RECORDS \<Longrightarrow> queue' = []"
    "length batch' = min MAX_BATCH_RECORDS (length batch + length queue)"
proof -
  have eq: "closed' = (closed \<and> length queue < MAX_BATCH_RECORDS - length batch)"
    "queue' = drop (MAX_BATCH_RECORDS - length batch) queue" "batch' = batch @ take (MAX_BATCH_RECORDS - length batch) queue"
    using assms(1) by (simp_all add: drain_eq [OF assms(2)] Let_def)
  show "batch' @ queue' = batch @ queue" by (simp add: eq)
  show "length batch' \<le> MAX_BATCH_RECORDS" "length batch' = min MAX_BATCH_RECORDS (length batch + length queue)"
    using assms(2) by (auto simp: eq min_def)
  show "closed' \<or> length batch' < MAX_BATCH_RECORDS \<Longrightarrow> queue' = []" using assms(2) by (auto simp: eq)
qed

text \<open>The entries a turn accepts: none once the task has ended or the channel is closed.\<close>

fun accepted :: "sink_env \<Rightarrow> turn list \<Rightarrow> sink \<Rightarrow> entry list" where
  "accepted env [] s = []"
| "accepted env (turn # turns) s = (if sk_ended s \<or> sk_closed s then [] else tn_arrivals turn) @ accepted env turns (sink_turn env turn s)"

definition sink_ok :: "sink \<Rightarrow> bool" where
  "sink_ok s \<longleftrightarrow> (sk_ended s \<longrightarrow> sk_queue s = []) \<and> (\<forall>batch\<in>set (sk_batches s). length batch \<le> MAX_BATCH_RECORDS)"

definition handled :: "sink \<Rightarrow> entry list" where
  "handled s = concat (sk_batches s) @ sk_queue s"

lemma write_drained_spec:
  assumes "write_drained env batch s = (closed, n, t)" "length batch \<le> MAX_BATCH_RECORDS"
  shows "handled t = concat (sk_batches s) @ batch @ sk_queue s" "closed \<or> n < MAX_BATCH_RECORDS \<Longrightarrow> sk_queue t = []"
    "sink_ok s \<Longrightarrow> \<forall>batch\<in>set (sk_batches t). length batch \<le> MAX_BATCH_RECORDS"
    "length (sk_queue t) = length batch + length (sk_queue s) - MAX_BATCH_RECORDS"
    "n = min MAX_BATCH_RECORDS (length batch + length (sk_queue s))" "sk_closed t = sk_closed s" "sk_ended t = sk_ended s"
    "sk_writer t = fold (write_batch env) (drop (length (sk_batches s)) (sk_batches t)) (sk_writer s)"
proof -
  obtain c q b where d: "drain (sk_closed s) (sk_queue s) batch = (c, q, b)" by (metis prod_cases3)
  have t: "closed = c" "n = length b" "t = s\<lparr>sk_queue := q, sk_writer := write_batch env b (sk_writer s), sk_batches := sk_batches s @ [b]\<rparr>"
    using assms(1) by (simp_all add: write_drained_def d)
  note dr = drain_spec [OF d assms(2)]
  have "length b + length q = length batch + length (sk_queue s)" using dr(1) by (metis length_append)
  then show "length (sk_queue t) = length batch + length (sk_queue s) - MAX_BATCH_RECORDS" using dr(4) by (simp add: t)
  show "handled t = concat (sk_batches s) @ batch @ sk_queue s" "closed \<or> n < MAX_BATCH_RECORDS \<Longrightarrow> sk_queue t = []"
    "sink_ok s \<Longrightarrow> \<forall>batch\<in>set (sk_batches t). length batch \<le> MAX_BATCH_RECORDS"
    "n = min MAX_BATCH_RECORDS (length batch + length (sk_queue s))" "sk_closed t = sk_closed s" "sk_ended t = sk_ended s"
    "sk_writer t = fold (write_batch env) (drop (length (sk_batches s)) (sk_batches t)) (sk_writer s)"
    using dr by (auto simp: t handled_def sink_ok_def)
qed

lemma max_nil: "length [] \<le> MAX_BATCH_RECORDS" and max_one: "length [x] \<le> MAX_BATCH_RECORDS"
  by (simp_all add: MAX_BATCH_RECORDS_def)

lemma sink_turn_ok:
  assumes ok: "sink_ok s"
  shows "sink_ok (sink_turn env turn s)"
    and "handled (sink_turn env turn s) = handled s @ (if sk_ended s \<or> sk_closed s then [] else tn_arrivals turn)"
proof -
  define u where "u = (if sk_closed s then s else s\<lparr>sk_queue := sk_queue s @ tn_arrivals turn, sk_closed := tn_closed turn\<rparr>)"
  have h: "\<not> sk_ended s \<Longrightarrow> concat (sk_batches u) @ sk_queue u = handled s @ (if sk_ended s \<or> sk_closed s then [] else tn_arrivals turn)"
    by (simp add: u_def handled_def)
  have u_ok: "\<not> sk_ended s \<Longrightarrow> sink_ok u" "\<not> sk_ended s \<Longrightarrow> \<not> sk_ended u" using ok by (simp_all add: u_def sink_ok_def)
  have "sink_ok (sink_turn env turn s)
    \<and> handled (sink_turn env turn s) = handled s @ (if sk_ended s \<or> sk_closed s then [] else tn_arrivals turn)"
  proof (cases "sk_ended s")
    case True
    then show ?thesis using ok by (simp add: sink_turn_def)
  next
    case False
    note u = h [OF False] u_ok [OF False]
    show ?thesis
    proof (cases "tn_cancelled turn")
      case True
      obtain closed n t where d: "write_drained env [] u = (closed, n, t)" by (metis prod_cases3)
      have "sink_turn env turn s = t\<lparr>sk_ended := closed \<or> n < MAX_BATCH_RECORDS\<rparr>"
        using False True d by (simp add: sink_turn_def u_def)
      then show ?thesis using write_drained_spec(1-3) [OF d max_nil] u by (auto simp: sink_ok_def handled_def)
    next
      case recv: False
      show ?thesis
      proof (cases "sk_queue u")
        case Nil
        then have "sink_turn env turn s = u\<lparr>sk_ended := sk_closed u\<rparr>" using False recv by (simp add: sink_turn_def u_def)
        then show ?thesis using u Nil by (auto simp: sink_ok_def handled_def)
      next
        case (Cons entry queue)
        obtain closed n t where d: "write_drained env [entry] (u\<lparr>sk_queue := queue\<rparr>) = (closed, n, t)" by (metis prod_cases3)
        have "sink_turn env turn s = t\<lparr>sk_ended := closed\<rparr>" using False recv Cons d by (simp add: sink_turn_def u_def)
        then show ?thesis
          using write_drained_spec(1-3) [OF d max_one] u Cons by (auto simp: sink_ok_def handled_def)
      qed
    qed
  qed
  then show "sink_ok (sink_turn env turn s)"
    "handled (sink_turn env turn s) = handled s @ (if sk_ended s \<or> sk_closed s then [] else tn_arrivals turn)" by simp_all
qed

lemma sink_turn_writer:
  "sk_writer (sink_turn env turn s) = fold (write_batch env) (drop (length (sk_batches s)) (sk_batches (sink_turn env turn s))) (sk_writer s)
   \<and> take (length (sk_batches s)) (sk_batches (sink_turn env turn s)) = sk_batches s"
proof -
  have drained: "sk_writer t = fold (write_batch env) (drop (length (sk_batches u)) (sk_batches t)) (sk_writer u)
      \<and> take (length (sk_batches u)) (sk_batches t) = sk_batches u" if "write_drained env batch u = (c, n, t)" for batch u c n t
    using that by (auto simp: write_drained_def split: prod.splits)
  show ?thesis
    by (auto simp: sink_turn_def Let_def drained split: prod.split list.split dest!: drained)
qed


lemma cancelled_turn:
  assumes "tn_arrivals turn = []" "tn_cancelled turn"
  shows "sk_ended (sink_turn env turn s)
    \<or> MAX_BATCH_RECORDS \<le> length (sk_queue s) \<and> length (sk_queue (sink_turn env turn s)) = length (sk_queue s) - MAX_BATCH_RECORDS"
proof (cases "sk_ended s")
  case False
  define u where "u = (if sk_closed s then s else s\<lparr>sk_closed := tn_closed turn\<rparr>)"
  have q: "sk_queue u = sk_queue s" by (simp add: u_def)
  obtain c n t where d: "write_drained env [] u = (c, n, t)" by (metis prod_cases3)
  have "sink_turn env turn s = t\<lparr>sk_ended := c \<or> n < MAX_BATCH_RECORDS\<rparr>"
    using False assms d by (auto simp: sink_turn_def u_def split: if_splits)
  then show ?thesis using write_drained_spec(4,5) [OF d max_nil] q by auto
qed (simp add: sink_turn_def)

text \<open>Once the task is cancelled and nothing more arrives it ends, after one turn for every 256 entries that
  wait and one more.\<close>

theorem sink_shutdown_ends:
  "sk_ended (fold (sink_turn env) (replicate (Suc (length (sk_queue s) div MAX_BATCH_RECORDS))
     \<lparr>tn_arrivals = [], tn_closed = closed, tn_cancelled = True\<rparr>) s)"
proof -
  let ?turn = "\<lparr>tn_arrivals = [], tn_closed = closed, tn_cancelled = True\<rparr>"
  have ended: "sk_ended u \<Longrightarrow> fold (sink_turn env) (replicate n ?turn) u = u" for n u
    by (induction n) (simp_all add: sink_turn_def)
  have "length (sk_queue s) < Suc n * MAX_BATCH_RECORDS \<Longrightarrow> sk_ended (fold (sink_turn env) (replicate (Suc n) ?turn) s)" for n
  proof (induction n arbitrary: s)
    case 0
    then show ?case using cancelled_turn [of ?turn env s] by simp
  next
    case (Suc n)
    show ?case
    proof (cases "sk_ended (sink_turn env ?turn s)")
      case True
      then show ?thesis using ended [of "sink_turn env ?turn s" "Suc n"] by simp
    next
      case False
      then have "length (sk_queue (sink_turn env ?turn s)) < Suc n * MAX_BATCH_RECORDS"
        using cancelled_turn [of ?turn env s] Suc.prems by simp
      from Suc.IH [OF this] show ?thesis by simp
    qed
  qed
  then show ?thesis using div_less_iff_less_mult [of MAX_BATCH_RECORDS "length (sk_queue s)" "Suc (length (sk_queue s) div MAX_BATCH_RECORDS)"]
    by (simp add: MAX_BATCH_RECORDS_def)
qed

text \<open>A write that fails half way leaves a torn line, and the next batch is appended to it in the same file.\<close>

lemma torn_line_is_glued:
  assumes "map_of (wr_files w) (sink_file_name (wr_seq w)) = Some contents" "buffer \<noteq> []" "later \<noteq> []"
    "kv_write env (wr_calls w) = Some k" "kv_write env (wr_calls w + 1) = None"
  shows "map_of (wr_files (flush_pending env later (flush_pending env buffer w))) (sink_file_name (wr_seq w))
    = Some (contents @ take k buffer @ later)"
  using assms by (simp add: flush_pending_def counted_def map_of_append_to)

end
