(* ===== verification/Service_Bridge.thy ===== *)
theory Service_Bridge
  imports Control_Properties "HOL-Library.Multiset"
begin

text \<open>
  The adapter between the service and the core manager (\<open>chimera_service/src/server/manager_bridge.rs\<close>): the
  projection of manager values onto the wire (\<open>chimera_ipc/src/api\<close>), the requests of both generations of the
  protocol over the models of the manager and of the control plane, the echo of the requested core type, the
  bridge that turns status changes into events, and the shutdown that keeps the service alive until the
  manager has shut down. The names of executables, the text of a UUID and the removal of credentials from a
  URL come from other crates and are parameters.
\<close>

section \<open>Wire types\<close>

datatype clash_core_type = TMihomo | TMihomoAlpha | TClashRust | TClashRustAlpha | TChimeraClient | TChimeraClientAlpha | TClashPremium

datatype core_type = Clash clash_core_type | SingBox

datatype wire_state = WRunning | WStopped "string option"

datatype controller_info = WNamedPipe string | WUnixSocket string | WHttp string

datatype wire_health_state = WStarting | WHealthy | WUnhealthy

record health_info =
  hi_state :: wire_health_state
  hi_changed_at :: int
  hi_consecutive_failures :: u32
  hi_last_error :: "string option"
  hi_last_success_at :: "int option"

record revision_info =
  vi_epoch :: u64
  vi_generation :: nat
  vi_source_hash :: string
  vi_effective_hash :: string

record revision_id_info =
  di_epoch :: u64
  di_generation :: nat
  di_effective_hash :: string

definition revision_info_id :: "revision_info \<Rightarrow> revision_id_info" where
  "revision_info_id r = \<lparr>di_epoch = vi_epoch r, di_generation = vi_generation r, di_effective_hash = vi_effective_hash r\<rparr>"

datatype state_detail =
    DStopped "string option" | DStarting u64 | DRunning u64 u32 | DRestarting u64 u32 | DSwitching "u64 option" u64 | DStopping u64

record core_infos =
  nf_instance_id :: "string option"
  nf_type :: "core_type option"
  nf_state :: wire_state
  nf_state_changed_at :: int
  nf_config_path :: "string option"
  nf_controller :: "controller_info option"
  nf_health :: "health_info option"
  nf_revision :: "revision_info option"
  nf_detail :: "state_detail option"

datatype operation_phase = PhaseQueued | PhaseRunning | PhaseSucceeded | PhaseFailed

datatype outcome_kind = KStarted | KNoop | KPatched | KReloaded | KRestarted | KSwitched | KRolledBack

record outcome_info =
  ui_outcome :: outcome_kind
  ui_revision :: revision_info
  ui_warning :: "string option"
  ui_failed_apply :: "string option"

datatype output_info = IReconciled outcome_info | IStoppedOutput | IRecovered | IShutDown

record operation_error_info =
  oe_kind :: "string option"
  oe_message :: string
  oe_retryable :: bool

record operation_info =
  on_id :: string
  on_phase :: operation_phase
  on_output :: "output_info option"
  on_error :: "operation_error_info option"

section \<open>Projections\<close>

record host_env =
  hv_show_uuid :: "nat \<Rightarrow> string"
  hv_strip_userinfo :: "string \<Rightarrow> string"
  hv_executable :: "core_type \<Rightarrow> string"
  hv_exists :: "nat \<Rightarrow> string \<Rightarrow> bool"
  hv_canonicalize :: "nat \<Rightarrow> string \<Rightarrow> (bool \<times> string) + string"
  hv_metadata :: "nat \<Rightarrow> string \<Rightarrow> string + unit"
  hv_data_dir :: string
  hv_app_dir :: string
  hv_join :: "string \<Rightarrow> string \<Rightarrow> string"

definition to_core_kind :: "core_type \<Rightarrow> string + core_kind" where
  "to_core_kind t = (case t of
       Clash TMihomo \<Rightarrow> Inr Mihomo | Clash TMihomoAlpha \<Rightarrow> Inr Mihomo
     | Clash TClashRust \<Rightarrow> Inr ClashRust | Clash TClashRustAlpha \<Rightarrow> Inr ClashRust
     | Clash TChimeraClient \<Rightarrow> Inr ChimeraClient | Clash TChimeraClientAlpha \<Rightarrow> Inr ChimeraClient
     | Clash TClashPremium \<Rightarrow> Inr ClashPremium
     | SingBox \<Rightarrow> Inl ''sing-box is not a supported core'')"

definition stop_reason_show :: "stop_reason \<Rightarrow> string" where
  "stop_reason_show reason = (case reason of
       Finished \<Rightarrow> ''core exited'' | User \<Rightarrow> ''stopped by user'' | StopError message \<Rightarrow> message)"

definition map_core_state :: "core_state \<Rightarrow> wire_state" where
  "map_core_state state = (case state of
       CRunning _ _ \<Rightarrow> WRunning | CSwitching _ _ \<Rightarrow> WRunning | CStopping _ \<Rightarrow> WRunning
     | CStarting _ \<Rightarrow> WStopped None | CRestarting _ _ \<Rightarrow> WStopped None
     | CStopped reason \<Rightarrow> WStopped (map_option stop_reason_show reason))"

definition map_controller :: "host_env \<Rightarrow> host \<Rightarrow> controller_info" where
  "map_controller hv h = (case h of
       NamedPipe path \<Rightarrow> WNamedPipe path | UnixSocket path \<Rightarrow> WUnixSocket path | Http url \<Rightarrow> WHttp (hv_strip_userinfo hv url))"

definition map_health :: "health_status \<Rightarrow> health_info" where
  "map_health h = \<lparr>hi_state = (case hs_state h of HStarting \<Rightarrow> WStarting | HHealthy \<Rightarrow> WHealthy | HUnhealthy \<Rightarrow> WUnhealthy),
     hi_changed_at = hs_changed_at h, hi_consecutive_failures = hs_consecutive_failures h, hi_last_error = hs_last_error h,
     hi_last_success_at = hs_last_success_at h\<rparr>"

definition map_revision :: "config_revision \<Rightarrow> revision_info" where
  "map_revision r = \<lparr>vi_epoch = epoch_get (cr_epoch r), vi_generation = cr_generation r, vi_source_hash = cr_source_hash r,
     vi_effective_hash = cr_effective_hash r\<rparr>"

definition map_state_detail :: "core_state \<Rightarrow> state_detail" where
  "map_state_detail state = (case state of
       CStopped reason \<Rightarrow> DStopped (map_option stop_reason_show reason)
     | CStarting e \<Rightarrow> DStarting (epoch_get e)
     | CRunning e pid \<Rightarrow> DRunning (epoch_get e) pid
     | CRestarting e attempt \<Rightarrow> DRestarting (epoch_get e) attempt
     | CSwitching from to \<Rightarrow> DSwitching (map_option epoch_get from) (epoch_get to)
     | CStopping e \<Rightarrow> DStopping (epoch_get e))"

definition project_core_infos :: "host_env \<Rightarrow> core_status \<Rightarrow> core_type option \<Rightarrow> core_infos" where
  "project_core_infos hv status requested = \<lparr>nf_instance_id = map_option (hv_show_uuid hv) (cs_instance_id status),
     nf_type = requested, nf_state = map_core_state (cs_state status), nf_state_changed_at = cs_changed_at status,
     nf_config_path = map_option ss_config_path (cs_spec status), nf_controller = map_option (map_controller hv) (cs_controller status),
     nf_health = map_option map_health (cs_health status), nf_revision = map_option map_revision (cs_revision status),
     nf_detail = Some (map_state_detail (cs_state status))\<rparr>"

fun unwrap_durability :: "apply_outcome \<Rightarrow> string list \<times> apply_outcome" where
  "unwrap_durability (ApplyDurabilityUncertain inner warning) = (case unwrap_durability inner of (ws, out) \<Rightarrow> (warning # ws, out))"
| "unwrap_durability out = ([], out)"

text \<open>A panic where the source says \<open>unreachable!\<close>.\<close>

definition map_reconcile_outcome :: "apply_outcome \<Rightarrow> outcome_info option" where
  "map_reconcile_outcome outcome = (case unwrap_durability outcome of (warnings, current) \<Rightarrow>
     map_option (\<lambda>(kind, revision, failed). \<lparr>ui_outcome = kind, ui_revision = map_revision revision,
         ui_warning = (if warnings = [] then None else Some (join_with ''; '' warnings)), ui_failed_apply = failed\<rparr>)
       (case current of
          Started r \<Rightarrow> Some (KStarted, r, None) | OutcomeNoop r \<Rightarrow> Some (KNoop, r, None) | Patched r \<Rightarrow> Some (KPatched, r, None)
        | Reloaded r \<Rightarrow> Some (KReloaded, r, None) | Restarted r \<Rightarrow> Some (KRestarted, r, None) | Switched r \<Rightarrow> Some (KSwitched, r, None)
        | RolledBack r failed \<Rightarrow> Some (KRolledBack, r, Some failed)
        | ApplyDurabilityUncertain _ _ \<Rightarrow> None))"

definition map_operation_output :: "operation_output \<Rightarrow> output_info option" where
  "map_operation_output out = (case out of
       OutReconciled outcome \<Rightarrow> map_option IReconciled (map_reconcile_outcome outcome)
     | OutStopped \<Rightarrow> Some IStoppedOutput | OutRecovered \<Rightarrow> Some IRecovered | OutShutDown \<Rightarrow> Some IShutDown)"

definition map_operation :: "operation_id \<Rightarrow> operation_state \<Rightarrow> operation_info option" where
  "map_operation i state = map_option (\<lambda>(phase, out, err). \<lparr>on_id = operation_id_show i, on_phase = phase, on_output = out, on_error = err\<rparr>)
     (case state of
        OpQueued \<Rightarrow> Some (PhaseQueued, None, None)
      | OpRunning \<Rightarrow> Some (PhaseRunning, None, None)
      | OpSucceeded out \<Rightarrow> map_option (\<lambda>info. (PhaseSucceeded, Some info, None)) (map_operation_output out)
      | OpFailed e \<Rightarrow> Some (PhaseFailed, None, Some \<lparr>oe_kind = map_option kind_as_str (ce_kind e), oe_message = ce_message e,
          oe_retryable = ce_retryable e\<rparr>))"

section \<open>Errors\<close>

record op_error =
  or_kind :: "core_error_kind option"
  or_message :: string
  or_retryable :: "bool option"

definition op_plain :: "string \<Rightarrow> op_error" where
  "op_plain message = \<lparr>or_kind = None, or_message = message, or_retryable = None\<rparr>"

definition op_with_kind :: "core_error_kind \<Rightarrow> string \<Rightarrow> op_error" where
  "op_with_kind kind message = \<lparr>or_kind = Some kind, or_message = message, or_retryable = None\<rparr>"

definition op_error_from_manager :: "error \<Rightarrow> op_error" where
  "op_error_from_manager e = \<lparr>or_kind = error_kind e,
     or_message = (case e of NotStarted \<Rightarrow> ''core have not been started yet'' | _ \<Rightarrow> error_to_string e), or_retryable = None\<rparr>"

definition op_error_from_control :: "core_error \<Rightarrow> op_error" where
  "op_error_from_control e = (case ce_kind e of Some kind \<Rightarrow> op_with_kind kind (ce_message e) | None \<Rightarrow> op_plain (ce_message e))
     \<lparr>or_retryable := Some (ce_retryable e)\<rparr>"

definition map_revision_id :: "revision_id_info \<Rightarrow> op_error + revision_id" where
  "map_revision_id info = (case epoch_new (di_epoch info) of
       None \<Rightarrow> Inl (op_plain ''expected revision epoch must be nonzero'')
     | Some e \<Rightarrow> Inr \<lparr>ri_epoch = e, ri_generation = di_generation info, ri_effective_hash = di_effective_hash info\<rparr>)"

section \<open>The service\<close>

text \<open>A watcher waits for one admitted reconcile; a check holds one of the slots while it runs.\<close>

record svc =
  sv_ctl :: ctl
  sv_requested :: "core_type option"
  sv_applied :: "u64 option"
  sv_closing :: bool
  sv_checks :: nat
  sv_watchers :: "(u64 \<times> core_type) list"

definition MAX_CONCURRENT_CHECKS :: nat where "MAX_CONCURRENT_CHECKS = 2"

definition MAX_OPERATION_WAIT_MS :: nat where "MAX_OPERATION_WAIT_MS = 90000"

definition service_new :: "ctl \<Rightarrow> svc" where
  "service_new c = \<lparr>sv_ctl = c, sv_requested = None, sv_applied = None, sv_closing = False, sv_checks = 0, sv_watchers = []\<rparr>"

definition publish_requested_core :: "core_type option \<Rightarrow> svc \<Rightarrow> svc" where
  "publish_requested_core committed s = (case committed of Some t \<Rightarrow> s\<lparr>sv_requested := Some t\<rparr> | None \<Rightarrow> s)"

definition find_binary_path :: "host_env \<Rightarrow> nat \<Rightarrow> core_type \<Rightarrow> string + string" where
  "find_binary_path hv n t =
     (let in_data = hv_join hv (hv_data_dir hv) (hv_executable hv t); in_app = hv_join hv (hv_app_dir hv) (hv_executable hv t) in
      if hv_exists hv n in_data then Inr in_data
      else if hv_exists hv (n + 1) in_app then Inr in_app
      else Inl (hv_executable hv t @ '' not found''))"

definition instance_spec_for :: "host_env \<Rightarrow> nat \<Rightarrow> core_type \<Rightarrow> string \<Rightarrow> op_error + instance_spec" where
  "instance_spec_for hv n t config_path =
     and_then (map_err (op_with_kind KBinaryNotFound) (find_binary_path hv n t)) (\<lambda>binary.
     and_then (map_err op_plain (to_core_kind t)) (\<lambda>kind.
     Inr \<lparr>sp_core = \<lparr>co_kind = kind, co_binary_path = binary, co_version = None, co_features = []\<rparr>, sp_config_path = config_path,
       sp_working_dir = hv_data_dir hv, sp_pid_file = None, sp_options = instance_options_default\<rparr>))"

definition canonical_config_path :: "host_env \<Rightarrow> nat \<Rightarrow> string \<Rightarrow> op_error + string" where
  "canonical_config_path hv n config = (case hv_canonicalize hv n config of
       Inr path \<Rightarrow> Inr path
     | Inl (missing, e) \<Rightarrow> (let message = ''failed to resolve config path '' @ config @ '': '' @ e in
         Inl (if missing then op_with_kind KConfigNotFound message else op_plain message)))"

definition closing_message :: string where
  "closing_message = ''service is shutting down''"

text \<open>The first generation of requests talks to the manager directly; an error is its text.\<close>

definition on_manager :: "(mgr \<Rightarrow> 'a result) \<Rightarrow> (error \<Rightarrow> string) \<Rightarrow> svc \<Rightarrow> ((string + 'a) \<times> svc) option" where
  "on_manager op show_error s = map_option (\<lambda>(r, m). (map_err show_error r, s\<lparr>sv_ctl := (sv_ctl s)\<lparr>ct_manager := m\<rparr>\<rparr>))
     (op (ct_manager (sv_ctl s)))"

definition service_start :: "control_env \<Rightarrow> host_env \<Rightarrow> nat \<Rightarrow> core_type \<Rightarrow> string \<Rightarrow> svc \<Rightarrow> ((string + unit) \<times> svc) option" where
  "service_start cv hv n t config s =
     (if sv_closing s then Some (Inl closing_message, s)
      else case hv_canonicalize hv n config of
        Inl (_, e) \<Rightarrow> Some (Inl e, s)
      | Inr path \<Rightarrow> (case hv_metadata hv (n + 1) path of Inl e \<Rightarrow> Some (Inl e, s) | Inr _ \<Rightarrow>
          if (case cs_state (ms_status (ct_manager (sv_ctl s))) of CStopped _ \<Rightarrow> False | _ \<Rightarrow> True)
          then Some (Inl ''core is already running'', s)
          else case instance_spec_for hv (n + 2) t path of
            Inl e \<Rightarrow> Some (Inl (or_message e), s)
          | Inr spec \<Rightarrow> and_do (on_manager (start (cv_env cv) spec) error_to_string s) (\<lambda>_ s.
              Some (Inr (), publish_requested_core (Some t) s))))"

definition service_stop :: "control_env \<Rightarrow> svc \<Rightarrow> ((string + unit) \<times> svc) option" where
  "service_stop cv s = (if sv_closing s then Some (Inl closing_message, s)
     else on_manager (stop (cv_env cv)) (\<lambda>e. if e = NotStarted then ''core is already stopped'' else error_to_string e) s)"

definition service_restart :: "control_env \<Rightarrow> svc \<Rightarrow> ((string + unit) \<times> svc) option" where
  "service_restart cv s = (if sv_closing s then Some (Inl closing_message, s)
     else map_option (\<lambda>(r, s). (map_ok (\<lambda>_. ()) r, s)) (on_manager (restart (cv_env cv)) (\<lambda>e. if e = NotStarted then ''core have not been started yet'' else error_to_string e) s))"

text \<open>A check takes a slot, or is refused; the slot is given back when it is done.\<close>

definition check_begin :: "svc \<Rightarrow> (op_error + unit) \<times> svc" where
  "check_begin s =
     (if sv_closing s then (Inl (op_plain closing_message), s)
      else if MAX_CONCURRENT_CHECKS \<le> sv_checks s
      then (Inl (op_plain (''at most '' @ show_nat MAX_CONCURRENT_CHECKS @ '' config checks may run at once; retry'')), s)
      else (Inr (), s\<lparr>sv_checks := sv_checks s + 1\<rparr>))"

definition check_run :: "control_env \<Rightarrow> host_env \<Rightarrow> nat \<Rightarrow> core_type \<Rightarrow> string \<Rightarrow> op_error + unit" where
  "check_run cv hv n t config =
     and_then (canonical_config_path hv n config) (\<lambda>path.
     and_then (instance_spec_for hv (n + 1) t path) (\<lambda>spec.
     map_err op_error_from_manager (ev_check_config (cv_env cv) n spec)))"

definition check_end :: "svc \<Rightarrow> svc" where
  "check_end s = s\<lparr>sv_checks := sv_checks s - 1\<rparr>"

section \<open>Submitting\<close>

datatype command_info =
    is_InfoReconcile: InfoReconcile (ri_local_ipc: "local_ipc_settings option") (ri_core_type: core_type) (ri_config: string)
      (ri_expected_digest: "string option") (ri_expected_applied: "revision_id_info option")
  | InfoStop | InfoRecover

definition map_command :: "host_env \<Rightarrow> nat \<Rightarrow> command_info \<Rightarrow> op_error + core_command \<times> core_type option" where
  "map_command hv n info = (case info of
       InfoReconcile local_ipc t config digest expected \<Rightarrow>
         and_then (instance_spec_for hv n t []) (\<lambda>spec.
         and_then (case expected of None \<Rightarrow> Inr None | Some token \<Rightarrow> map_ok Some (map_revision_id token)) (\<lambda>expected.
         Inr (CmdReconcile \<lparr>rq_core = sp_core spec, rq_config = Inline (as_bytes config) digest,
           rq_options = (sp_options spec)\<lparr>io_local_ipc := local_ipc\<rparr>, rq_expected = expected\<rparr>, Some t)))
     | InfoStop \<Rightarrow> Inr (CmdStop, None)
     | InfoRecover \<Rightarrow> Inr (CmdRecover, None))"

definition submit_v2 :: "control_env \<Rightarrow> host_env \<Rightarrow> nat \<Rightarrow> string \<Rightarrow> command_info \<Rightarrow> svc \<Rightarrow> ((op_error + operation_info) \<times> svc) option" where
  "submit_v2 cv hv n operation_id info s = (case operation_id_parse operation_id of
       None \<Rightarrow> Some (Inl (op_plain (''malformed operation id: '' @ operation_id)), s)
     | Some i \<Rightarrow> (case map_command hv n info of
         Inl e \<Rightarrow> Some (Inl e, s)
       | Inr (command, echoed) \<Rightarrow> (case submit cv i command (sv_ctl s) of
           (Inl e, c) \<Rightarrow> Some (Inl (op_error_from_control e), s\<lparr>sv_ctl := c\<rparr>)
         | (Inr a, c) \<Rightarrow> map_option (\<lambda>info. (Inr info, s\<lparr>sv_ctl := c, sv_watchers :=
               (case echoed of Some t \<Rightarrow> if ad_new a then sv_watchers s @ [(ad_sequence a, t)] else sv_watchers s
                | None \<Rightarrow> sv_watchers s)\<rparr>))
             (map_operation i (ad_state a)))))"

text \<open>\<open>operation_v2\<close> with the state that the registry had when the wait was over.\<close>

definition operation_wait :: "nat option \<Rightarrow> nat option" where
  "operation_wait wait_ms = map_option (\<lambda>ms. min ms MAX_OPERATION_WAIT_MS) wait_ms"

definition operation_v2 :: "string \<Rightarrow> registry \<Rightarrow> (op_error + operation_info) option" where
  "operation_v2 operation_id r = (case operation_id_parse operation_id of
       None \<Rightarrow> Some (Inl (op_plain (''malformed operation id: '' @ operation_id)))
     | Some i \<Rightarrow> (case rg_state i r of
         Some state \<Rightarrow> map_option Inr (map_operation i state)
       | None \<Rightarrow> Some (Inl (op_plain (''unknown operation '' @ operation_id_show i
           @ '': the registry entry was evicted or never existed; re-read /v2/core/status and rely on the revision CAS'')))))"

section \<open>The echo of the requested core\<close>

definition echo_commits :: "operation_state \<Rightarrow> bool" where
  "echo_commits state = (case state of
       OpSucceeded (OutReconciled outcome) \<Rightarrow> (case snd (unwrap_durability outcome) of RolledBack _ _ \<Rightarrow> False | _ \<Rightarrow> True)
     | _ \<Rightarrow> False)"

definition reconciled :: "operation_state \<Rightarrow> bool" where
  "reconciled state = (case state of OpSucceeded (OutReconciled _) \<Rightarrow> True | _ \<Rightarrow> False)"

text \<open>What a watcher does when its operation has ended.\<close>

definition watch_reconcile_echo :: "u64 \<times> core_type \<times> operation_state \<Rightarrow> svc \<Rightarrow> svc" where
  "watch_reconcile_echo w s = (case w of (sequence, t, state) \<Rightarrow>
     if \<not> echo_commits state \<and> \<not> reconciled state then s
     else if (case sv_applied s of Some latest \<Rightarrow> sequence \<le> latest | None \<Rightarrow> False) then s
     else publish_requested_core (if echo_commits state then Some t else None) (s\<lparr>sv_applied := Some sequence\<rparr>))"

definition service_status :: "host_env \<Rightarrow> svc \<Rightarrow> core_infos" where
  "service_status hv s = project_core_infos hv (ms_status (ct_manager (sv_ctl s))) (sv_requested s)"

section \<open>Shutting down\<close>

text \<open>
  Delays are in seconds. The operation is any fallible step on a state; not returning is \<open>None\<close>. The result
  carries the delays that were slept, in order.
\<close>

definition RETRY_INITIAL :: nat where "RETRY_INITIAL = 1"

definition RETRY_MAX :: nat where "RETRY_MAX = 30"

partial_function (option) retry_from ::
  "('s \<Rightarrow> ('e + unit) \<times> 's) \<Rightarrow> nat \<Rightarrow> 's \<Rightarrow> (nat list \<times> 's) option" where
  "retry_from operation delay s = (case operation s of (r, s') \<Rightarrow> (case r of
       Inr _ \<Rightarrow> Some ([], s')
     | Inl _ \<Rightarrow> Option.bind (retry_from operation (min (delay * 2) RETRY_MAX) s') (\<lambda>(delays, t). Some (delay # delays, t))))"

definition retry_until_success :: "('s \<Rightarrow> ('e + unit) \<times> 's) \<Rightarrow> 's \<Rightarrow> (nat list \<times> 's) option" where
  "retry_until_success operation s = retry_from operation RETRY_INITIAL s"

text \<open>The answers to the requests for an orderly shutdown; an error says whether the executor is gone.\<close>

datatype shutdown_reply = ReplyOk | ReplyError bool | ReplyTimeout

partial_function (option) request_shutdown :: "(nat \<Rightarrow> shutdown_reply) \<Rightarrow> nat \<Rightarrow> bool option" where
  "request_shutdown replies n = (case replies n of
       ReplyOk \<Rightarrow> Some True
     | ReplyError closed \<Rightarrow> if closed then Some False else request_shutdown replies (n + 1)
     | ReplyTimeout \<Rightarrow> Some False)"

definition service_shutdown ::
  "(nat \<Rightarrow> shutdown_reply) \<Rightarrow> (svc \<Rightarrow> ('e + unit) \<times> svc) \<Rightarrow> svc \<Rightarrow> svc option" where
  "service_shutdown replies manager_shutdown s =
     (if sv_closing s then Some s
      else let s = s\<lparr>sv_closing := True\<rparr> in
        Option.bind (request_shutdown replies 0) (\<lambda>done.
          if done then Some s else map_option snd (retry_until_success manager_shutdown s)))"

section \<open>The bridge to the event hub\<close>

datatype ws_event = CoreStatusChanged core_infos | CoreStateChanged wire_state

text \<open>A watch channel is its value and whether the bridge has seen the latest one.\<close>

record bridge =
  br_status :: core_status
  br_seen :: bool
  br_echo :: "core_type option"
  br_echo_seen :: bool
  br_last :: wire_state
  br_events :: "ws_event list"

definition same_ipc_state :: "wire_state \<Rightarrow> wire_state \<Rightarrow> bool" where
  "same_ipc_state a b = (case (a, b) of
       (WRunning, WRunning) \<Rightarrow> True | (WStopped x, WStopped y) \<Rightarrow> x = y | _ \<Rightarrow> False)"

definition departing :: "core_state \<Rightarrow> bool" where
  "departing state = (case state of CStopping _ \<Rightarrow> True | CSwitching _ _ \<Rightarrow> True | _ \<Rightarrow> False)"

definition stopped_state :: "wire_state \<Rightarrow> bool" where
  "stopped_state w = (case w of WStopped _ \<Rightarrow> True | WRunning \<Rightarrow> False)"

definition bridge_snapshot :: "host_env \<Rightarrow> bridge \<Rightarrow> ws_event" where
  "bridge_snapshot hv b = CoreStatusChanged (project_core_infos hv (br_status b) (br_echo b))"

definition bridge_start :: "core_status \<Rightarrow> core_type option \<Rightarrow> bool \<Rightarrow> bridge" where
  "bridge_start raw echo seen = \<lparr>br_status = raw, br_seen = True, br_echo = echo, br_echo_seen = seen,
     br_last = map_core_state (cs_state raw), br_events = []\<rparr>"

definition status_arm :: "host_env \<Rightarrow> bridge \<Rightarrow> bridge" where
  "status_arm hv b =
     (let raw = br_status b; following = map_core_state (cs_state raw);
          b = b\<lparr>br_seen := True, br_echo_seen := True, br_events := br_events b @ [bridge_snapshot hv b]\<rparr> in
      if departing (cs_state raw) \<and> stopped_state (br_last b) then b
      else if same_ipc_state (br_last b) following then b
      else b\<lparr>br_events := br_events b @ [CoreStateChanged following], br_last := following\<rparr>)"

definition echo_arm :: "host_env \<Rightarrow> bridge \<Rightarrow> bridge" where
  "echo_arm hv b = b\<lparr>br_echo_seen := True, br_events := br_events b @ [bridge_snapshot hv b]\<rparr>"

inductive bridge_step :: "host_env \<Rightarrow> bridge \<Rightarrow> bridge \<Rightarrow> bool" for hv where
  publishes: "bridge_step hv b (b\<lparr>br_status := raw, br_seen := False\<rparr>)"
| echoes: "bridge_step hv b (b\<lparr>br_echo := echo, br_echo_seen := False\<rparr>)"
| takes_status: "\<not> br_seen b \<Longrightarrow> bridge_step hv b (status_arm hv b)"
| takes_echo: "\<not> br_echo_seen b \<Longrightarrow> bridge_step hv b (echo_arm hv b)"

inductive_cases bridge_stepE: "bridge_step hv b c"

section \<open>Projections are total\<close>

lemma unwrap_durability_bare: "snd (unwrap_durability out) \<noteq> ApplyDurabilityUncertain inner warning"
proof (induction out arbitrary: inner warning rule: unwrap_durability.induct)
  case (1 out w)
  then show ?case by (simp add: case_prod_beta)
qed simp_all

lemma map_reconcile_outcome_total: "map_reconcile_outcome out \<noteq> None"
  by (cases "snd (unwrap_durability out)") (simp_all add: map_reconcile_outcome_def case_prod_beta unwrap_durability_bare)

text \<open>Every operation state has a wire form, since the arm marked unreachable is: a result is there exactly when the operation
  succeeded and an error exactly when it failed, and a client that sees a final phase sees the end of the operation.\<close>

theorem map_operation_total:
  "\<exists>info. map_operation i state = Some info \<and> on_id info = operation_id_show i
     \<and> (on_output info \<noteq> None \<longleftrightarrow> on_phase info = PhaseSucceeded) \<and> (on_error info \<noteq> None \<longleftrightarrow> on_phase info = PhaseFailed)
     \<and> (on_phase info \<in> {PhaseSucceeded, PhaseFailed} \<longleftrightarrow> op_terminal state)"
proof (cases state)
  case (OpSucceeded out)
  have "map_operation_output out \<noteq> None"
    using map_reconcile_outcome_total by (auto simp: map_operation_output_def split: operation_output.splits)
  then show ?thesis by (auto simp: map_operation_def OpSucceeded op_terminal_def)
qed (auto simp: map_operation_def op_terminal_def)

text \<open>The token a client compares and swaps with names the revision it was shown.\<close>

lemma revision_token_roundtrip:
  "epoch_get (cr_epoch r) \<noteq> 0 \<Longrightarrow> map_revision_id (revision_info_id (map_revision r)) = Inr (revision_id_of r)"
  by (cases "cr_epoch r") (simp add: map_revision_id_def revision_info_id_def map_revision_def revision_id_of_def epoch_new_def)

lemma same_ipc_state_iff [simp]: "same_ipc_state a b \<longleftrightarrow> a = b"
  by (cases a; cases b) (auto simp: same_ipc_state_def)

section \<open>Retrying\<close>

definition after_attempts :: "('s \<Rightarrow> 'r \<times> 's) \<Rightarrow> nat \<Rightarrow> 's \<Rightarrow> 's" where
  "after_attempts operation n s = ((\<lambda>s. snd (operation s)) ^^ n) s"

definition attempt_succeeds :: "('s \<Rightarrow> ('e + unit) \<times> 's) \<Rightarrow> nat \<Rightarrow> 's \<Rightarrow> bool" where
  "attempt_succeeds operation n s = (case fst (operation (after_attempts operation n s)) of Inr _ \<Rightarrow> True | Inl _ \<Rightarrow> False)"

definition backoff_delays :: "nat \<Rightarrow> nat \<Rightarrow> nat list" where
  "backoff_delays delay n = map (\<lambda>k. min (delay * 2 ^ k) RETRY_MAX) [0..<n]"

lemma after_attempts_simps [simp]:
  "after_attempts operation 0 s = s"
  "after_attempts operation (Suc n) s = after_attempts operation n (snd (operation s))"
  by (simp_all add: after_attempts_def funpow_swap1 [of "\<lambda>s. snd (operation s)"])

lemma attempt_succeeds_Suc [simp]:
  "attempt_succeeds operation (Suc n) s = attempt_succeeds operation n (snd (operation s))"
  by (simp add: attempt_succeeds_def)

lemma backoff_delays_Suc:
  "delay \<le> RETRY_MAX \<Longrightarrow> backoff_delays delay (Suc n) = delay # backoff_delays (min (delay * 2) RETRY_MAX) n"
proof -
  assume "delay \<le> RETRY_MAX"
  have "min (delay * 2 ^ Suc k) RETRY_MAX = min (min (delay * 2) RETRY_MAX * 2 ^ k) RETRY_MAX" for k
  proof (cases "delay * 2 \<le> RETRY_MAX")
    case False
    have "RETRY_MAX * 1 \<le> RETRY_MAX * 2 ^ k" "(delay * 2) * 1 \<le> (delay * 2) * 2 ^ k" by (rule mult_le_mono2, simp)+
    then have "RETRY_MAX \<le> RETRY_MAX * 2 ^ k" "RETRY_MAX \<le> delay * 2 ^ Suc k"
      using False by (simp_all only: power_Suc mult.assoc mult_1_right)
    then show ?thesis using False by (simp only: min_absorb2 linear min_absorb1 not_le less_imp_le)
  qed (simp add: mult.assoc min_def)
  then show ?thesis using \<open>delay \<le> RETRY_MAX\<close>
    by (simp add: backoff_delays_def upt_conv_Cons comp_def min_absorb1 flip: map_Suc_upt del: upt_Suc power_Suc)
qed

lemma retry_from_Some:
  "delay \<le> RETRY_MAX \<Longrightarrow> attempt_succeeds operation n s \<Longrightarrow> list_all (\<lambda>k. \<not> attempt_succeeds operation k s) [0..<n] \<Longrightarrow>
   retry_from operation delay s = Some (backoff_delays delay n, after_attempts operation (Suc n) s)"
proof (induction n arbitrary: delay s)
  case 0
  then show ?case
    by (subst retry_from.simps) (auto simp: attempt_succeeds_def backoff_delays_def split: prod.split sum.splits)
next
  case (Suc n)
  have "\<not> attempt_succeeds operation 0 s" "list_all (\<lambda>k. \<not> attempt_succeeds operation k (snd (operation s))) [0..<n]"
    using Suc.prems(3) by (simp_all add: upt_conv_Cons list.pred_map comp_def flip: map_Suc_upt del: upt_Suc)
  moreover have "min (delay * 2) RETRY_MAX \<le> RETRY_MAX" by simp
  ultimately show ?case using Suc.IH [of "min (delay * 2) RETRY_MAX" "snd (operation s)"] Suc.prems(1,2)
    by (subst retry_from.simps) (simp add: attempt_succeeds_def backoff_delays_Suc case_prod_beta split: sum.splits)
qed

lemma retry_from_succeeds:
  "retry_from operation delay s = Some (delays, t) \<Longrightarrow> \<exists>n. attempt_succeeds operation n s"
proof (rule retry_from.raw_induct [where P = "\<lambda>operation _ s _. \<exists>n. attempt_succeeds operation n s"])
  fix rf and op :: "'a \<Rightarrow> ('b + unit) \<times> 'a" and d s y
  assume IH: "\<And>op d (s :: 'a) y. rf op d s = Some y \<Longrightarrow> \<exists>n. attempt_succeeds op n s"
    and body: "(case op s of (r, s') \<Rightarrow> (case r of Inr _ \<Rightarrow> Some ([], s')
        | Inl _ \<Rightarrow> Option.bind (rf op (min (d * 2) RETRY_MAX) s') (\<lambda>(delays, t). Some (d # delays, t)))) = Some y"
  show "\<exists>n. attempt_succeeds op n s"
  proof (cases "fst (op s)")
    case (Inl e)
    with body obtain z where "rf op (min (d * 2) RETRY_MAX) (snd (op s)) = Some z" by (auto simp: case_prod_beta bind_eq_Some_conv)
    from IH [OF this] obtain n where "attempt_succeeds op (Suc n) s" by auto
    then show ?thesis ..
  qed (auto simp: attempt_succeeds_def intro: exI [of _ 0])
qed

lemma retry_from_first:
  "retry_from operation RETRY_INITIAL s = Some (delays, t) \<Longrightarrow> attempt_succeeds operation m s \<Longrightarrow>
   \<exists>n. attempt_succeeds operation n s \<and> t = after_attempts operation (Suc n) s \<and> delays = backoff_delays RETRY_INITIAL n"
proof -
  assume r: "retry_from operation RETRY_INITIAL s = Some (delays, t)" and m: "attempt_succeeds operation m s"
  let ?n = "LEAST n. attempt_succeeds operation n s"
  have "attempt_succeeds operation ?n s" using m by (rule LeastI)
  moreover have "list_all (\<lambda>k. \<not> attempt_succeeds operation k s) [0..<?n]" by (auto simp: list_all_iff dest: not_less_Least)
  ultimately show ?thesis using retry_from_Some [of RETRY_INITIAL operation ?n s] r
    by (auto simp: RETRY_INITIAL_def RETRY_MAX_def)
qed

text \<open>C32. The retry loop returns exactly when some attempt succeeds, at the first that does; it has then slept
  1, 2, 4, 8 and 16 seconds and 30 seconds ever after, one delay per failure, and leaves the state of the attempt that
  succeeded. It does not return while every attempt fails.\<close>

theorem retry_until_success_returns:
  "retry_until_success operation s =
     (if \<exists>n. attempt_succeeds operation n s
      then let n = (LEAST n. attempt_succeeds operation n s) in
        Some (map (\<lambda>k. min (2 ^ k) 30) [0..<n], after_attempts operation (Suc n) s)
      else None)"
proof (cases "\<exists>n. attempt_succeeds operation n s")
  case True
  let ?n = "LEAST n. attempt_succeeds operation n s"
  have "attempt_succeeds operation ?n s" using True by (rule LeastI_ex)
  moreover have "list_all (\<lambda>k. \<not> attempt_succeeds operation k s) [0..<?n]" by (auto simp: list_all_iff dest: not_less_Least)
  ultimately show ?thesis using True retry_from_Some [of RETRY_INITIAL operation ?n s]
    by (simp add: retry_until_success_def RETRY_INITIAL_def RETRY_MAX_def backoff_delays_def Let_def)
next
  case False
  then show ?thesis using retry_from_succeeds [of operation RETRY_INITIAL s]
    by (cases "retry_from operation RETRY_INITIAL s") (auto simp: retry_until_success_def)
qed

lemma request_shutdown_answered: "request_shutdown replies n = Some True \<Longrightarrow> \<exists>k. replies k = ReplyOk"
  by (erule request_shutdown.raw_induct [where P = "\<lambda>replies _ r. r \<longrightarrow> (\<exists>k. replies k = ReplyOk)", rotated, THEN mp])
    (auto split: shutdown_reply.splits if_splits)

text \<open>The service is torn down only when the executor has reported an orderly shutdown, or an attempt to shut the manager
  down has succeeded: a shutdown that fails or does not answer keeps the service, and with it the core, alive.\<close>

theorem service_shutdown_waits:
  "case service_shutdown replies manager_shutdown s of
     None \<Rightarrow> True
   | Some t \<Rightarrow> if sv_closing s then t = s
       else (\<exists>k. replies k = ReplyOk) \<and> t = s\<lparr>sv_closing := True\<rparr>
         \<or> (\<exists>n. attempt_succeeds manager_shutdown n (s\<lparr>sv_closing := True\<rparr>)
              \<and> t = after_attempts manager_shutdown (Suc n) (s\<lparr>sv_closing := True\<rparr>))"
proof (cases "service_shutdown replies manager_shutdown s")
  case (Some t)
  let ?s = "s\<lparr>sv_closing := True\<rparr>"
  have "retry_until_success manager_shutdown ?s = Some (ds, t) \<Longrightarrow>
      \<exists>n. attempt_succeeds manager_shutdown n ?s \<and> t = after_attempts manager_shutdown (Suc n) ?s" for ds t
    using retry_from_succeeds [of manager_shutdown RETRY_INITIAL ?s ds t]
    by (metis retry_from_first retry_until_success_def)
  then show ?thesis using Some request_shutdown_answered [of replies 0]
    by (auto simp: service_shutdown_def Let_def bind_eq_Some_conv split: if_splits)
qed simp

section \<open>The bridge tells the truth\<close>

primrec last_snapshot :: "ws_event list \<Rightarrow> core_infos option" where
  "last_snapshot [] = None"
| "last_snapshot (e # es) = (case last_snapshot es of Some i \<Rightarrow> Some i
     | None \<Rightarrow> (case e of CoreStatusChanged i \<Rightarrow> Some i | CoreStateChanged _ \<Rightarrow> None))"

definition legacy_states :: "ws_event list \<Rightarrow> wire_state list" where
  "legacy_states es = concat (map (\<lambda>e. case e of CoreStateChanged w \<Rightarrow> [w] | CoreStatusChanged _ \<Rightarrow> []) es)"

text \<open>A legacy event follows the snapshot it condenses, and \<open>Running\<close> is announced for a core that runs.\<close>

definition condenses :: "ws_event option \<Rightarrow> ws_event \<Rightarrow> bool" where
  "condenses previous e = (case e of
       CoreStatusChanged _ \<Rightarrow> True
     | CoreStateChanged w \<Rightarrow> (case previous of
         Some (CoreStatusChanged i) \<Rightarrow> nf_state i = w \<and> (w = WRunning \<longleftrightarrow> (\<exists>e pid. nf_detail i = Some (DRunning e pid)))
       | _ \<Rightarrow> False))"

primrec condensed :: "ws_event option \<Rightarrow> ws_event list \<Rightarrow> bool" where
  "condensed previous [] = True"
| "condensed previous (e # es) = (condenses previous e \<and> condensed (Some e) es)"

lemma last_snapshot_append [simp]:
  "last_snapshot (es @ fs) = (case last_snapshot fs of Some i \<Rightarrow> Some i | None \<Rightarrow> last_snapshot es)"
  by (induction es) (auto split: option.splits)

lemma legacy_states_simps [simp]:
  "legacy_states [] = []" "legacy_states (es @ fs) = legacy_states es @ legacy_states fs"
  "legacy_states (CoreStateChanged w # es) = w # legacy_states es" "legacy_states (CoreStatusChanged i # es) = legacy_states es"
  by (simp_all add: legacy_states_def)

lemma condensed_append [simp]:
  "condensed p (es @ fs) \<longleftrightarrow> condensed p es \<and> condensed (if es = [] then p else Some (last es)) fs"
  by (induction es arbitrary: p) auto

definition bridge_init :: "wire_state \<Rightarrow> bridge \<Rightarrow> bool" where
  "bridge_init first b \<longleftrightarrow> (\<exists>raw echo seen. b = bridge_start raw echo seen \<and> first = map_core_state (cs_state raw))"

definition truthful :: "host_env \<Rightarrow> bridge \<Rightarrow> bool" where
  "truthful hv b \<longleftrightarrow> (br_seen b \<longrightarrow> br_last b = map_core_state (cs_state (br_status b))
       \<or> departing (cs_state (br_status b)) \<and> stopped_state (br_last b))
     \<and> (br_seen b \<and> br_echo_seen b \<longrightarrow> (case last_snapshot (br_events b) of
         None \<Rightarrow> True | Some i \<Rightarrow> i = project_core_infos hv (br_status b) (br_echo b)))"

definition well_announced :: "wire_state \<Rightarrow> bridge \<Rightarrow> bool" where
  "well_announced first b \<longleftrightarrow> condensed None (br_events b) \<and> distinct_adj (first # legacy_states (br_events b))
     \<and> last (first # legacy_states (br_events b)) = br_last b"

lemma status_arm_cases:
  "status_arm hv b = (let c = b\<lparr>br_seen := True, br_echo_seen := True, br_events := br_events b @ [bridge_snapshot hv b]\<rparr>;
      w = map_core_state (cs_state (br_status b)) in
    if departing (cs_state (br_status b)) \<and> stopped_state (br_last b) \<or> br_last b = w then c
    else c\<lparr>br_events := br_events b @ [bridge_snapshot hv b, CoreStateChanged w], br_last := w\<rparr>)"
  by (simp add: status_arm_def Let_def)

lemma status_arm_truthful: "truthful hv (status_arm hv b)"
  by (auto simp: truthful_def status_arm_cases Let_def bridge_snapshot_def)

lemma bridge_step_truthful: "truthful hv b \<Longrightarrow> bridge_step hv b c \<Longrightarrow> truthful hv c"
  by (erule bridge_stepE)
    (auto simp: status_arm_truthful, auto simp: truthful_def echo_arm_def bridge_snapshot_def)

lemma announced_state:
  "\<not> (departing state \<and> stopped_state w) \<Longrightarrow> w \<noteq> map_core_state state \<Longrightarrow>
   map_core_state state = WRunning \<longleftrightarrow> (\<exists>e pid. map_state_detail state = DRunning e pid)"
  by (cases state; cases w) (simp_all add: map_core_state_def map_state_detail_def departing_def stopped_state_def)

lemma announces_snoc: "distinct_adj (x # xs) \<Longrightarrow> last (x # xs) \<noteq> y \<Longrightarrow> distinct_adj (x # xs @ [y])"
  using distinct_adj_append_iff [of "x # xs" "[y]"] by simp

lemma condensed_announcement:
  "nf_state i = w \<Longrightarrow> w = WRunning \<longleftrightarrow> (\<exists>e pid. nf_detail i = Some (DRunning e pid)) \<Longrightarrow>
   condensed p [CoreStatusChanged i, CoreStateChanged w]"
  by (simp add: condenses_def)

lemma bridge_step_announces: "well_announced first b \<Longrightarrow> bridge_step hv b c \<Longrightarrow> well_announced first c"
proof (erule bridge_stepE)
  assume b: "well_announced first b" and "\<not> br_seen b" and c: "c = status_arm hv b"
  let ?state = "cs_state (br_status b)"
  show "well_announced first c"
  proof (cases "departing ?state \<and> stopped_state (br_last b) \<or> br_last b = map_core_state ?state")
    case True
    then show ?thesis using b by (simp add: c status_arm_cases Let_def well_announced_def condenses_def bridge_snapshot_def)
  next
    case False
    then have "map_core_state ?state = WRunning \<longleftrightarrow> (\<exists>e pid. map_state_detail ?state = DRunning e pid)"
      by (intro announced_state) auto
    then have "condensed p [bridge_snapshot hv b, CoreStateChanged (map_core_state ?state)]" for p
      unfolding bridge_snapshot_def by (intro condensed_announcement) (simp_all add: project_core_infos_def)
    moreover have "distinct_adj (first # legacy_states (br_events b) @ [map_core_state ?state])"
      using False b by (intro announces_snoc) (simp_all add: well_announced_def)
    moreover have "c = b\<lparr>br_seen := True, br_echo_seen := True, br_last := map_core_state ?state,
        br_events := br_events b @ [bridge_snapshot hv b, CoreStateChanged (map_core_state ?state)]\<rparr>"
      using False by (simp add: c status_arm_cases Let_def)
    ultimately show ?thesis using b
      by (simp add: well_announced_def bridge_snapshot_def del: condensed.simps)
  qed
qed (auto simp: well_announced_def echo_arm_def condenses_def bridge_snapshot_def)

lemma bridge_init_holds: "bridge_init first b \<Longrightarrow> truthful hv b \<and> well_announced first b"
  by (auto simp: bridge_init_def bridge_start_def truthful_def well_announced_def)

interpretation status_bridge: invariant_system "bridge_init first" "bridge_step hv" "\<lambda>b. truthful hv b \<and> well_announced first b"
  for first hv
  by unfold_locales (auto dest: bridge_init_holds bridge_step_truthful bridge_step_announces)

definition sample_host :: host_env where
  "sample_host = \<lparr>hv_show_uuid = show_nat, hv_strip_userinfo = id, hv_executable = (\<lambda>_. ''core''), hv_exists = (\<lambda>_ _. True),
     hv_canonicalize = (\<lambda>_ path. Inr path), hv_metadata = (\<lambda>_ _. Inr ()), hv_data_dir = ''/data'', hv_app_dir = ''/app'',
     hv_join = (\<lambda>a b. a @ ''/'' @ b)\<rparr>"

definition sample_running :: core_status where
  "sample_running = (core_status_initial 0)\<lparr>cs_state := CRunning (Epoch 1) 77\<rparr>"

definition sample_bridge :: bridge where
  "sample_bridge = status_arm sample_host ((bridge_start (core_status_initial 0) None True)\<lparr>br_status := sample_running, br_seen := False\<rparr>)"

lemma sample_bridge_reach: "reach (bridge_init (WStopped None)) (bridge_step sample_host) sample_bridge"
proof -
  have "bridge_init (WStopped None) (bridge_start (core_status_initial 0) None True)"
    unfolding bridge_init_def
    by (intro exI [of _ "core_status_initial 0"] exI [of _ None] exI [of _ True])
      (simp add: core_status_initial_def map_core_state_def)
  from reach_init [of "bridge_init (WStopped None)", OF this]
  have "reach (bridge_init (WStopped None)) (bridge_step sample_host)
      ((bridge_start (core_status_initial 0) None True)\<lparr>br_status := sample_running, br_seen := False\<rparr>)"
    by (rule reach_step) (rule bridge_step.publishes)
  then show ?thesis unfolding sample_bridge_def by (rule reach_step) (rule bridge_step.takes_status, simp)
qed

text \<open>C30. What connected clients are told. Once the bridge has taken the latest values, the last snapshot it sent is the current
  status with the current core type, and the two-valued state of the old protocol is the current one, except that a core that is
  being stopped or replaced stays stopped for a client that believes so. The old stream never repeats itself, every event of
  it condenses the snapshot sent just before it, and it says running only for a core that runs.\<close>

theorem status_bridge_truthful:
  assumes "reach (bridge_init first) (bridge_step hv) b"
  shows "let client = last (first # legacy_states (br_events b)); raw = br_status b in
    condensed None (br_events b) \<and> distinct_adj (first # legacy_states (br_events b))
    \<and> (br_seen b \<longrightarrow> client = map_core_state (cs_state raw) \<or> departing (cs_state raw) \<and> stopped_state client)
    \<and> (br_seen b \<and> br_echo_seen b \<longrightarrow> (case last_snapshot (br_events b) of
         None \<Rightarrow> True | Some i \<Rightarrow> i = project_core_infos hv raw (br_echo b)))"
  using status_bridge.reach_inv [OF assms] by (simp add: truthful_def well_announced_def Let_def)

theorem status_bridge_truthful_witness:
  "last_snapshot (br_events sample_bridge) = Some (project_core_infos sample_host sample_running None)
   \<and> legacy_states (br_events sample_bridge) = [WRunning] \<and> br_seen sample_bridge
   \<and> last (WStopped None # legacy_states (br_events sample_bridge)) = map_core_state (cs_state sample_running)"
proof -
  have "br_seen sample_bridge" "br_status sample_bridge = sample_running" "legacy_states (br_events sample_bridge) = [WRunning]"
    "last_snapshot (br_events sample_bridge) = Some (project_core_infos sample_host sample_running None)"
    by (simp_all add: sample_bridge_def status_arm_cases Let_def sample_running_def bridge_start_def map_core_state_def
        core_status_initial_def departing_def bridge_snapshot_def)
  moreover from this have "last (WStopped None # legacy_states (br_events sample_bridge)) = map_core_state (cs_state sample_running)"
    using status_bridge_truthful [OF sample_bridge_reach] by (simp add: Let_def departing_def sample_running_def)
  ultimately show ?thesis by blast
qed

section \<open>The echo follows the order of execution\<close>

text \<open>A completion that leaves no rollback behind.\<close>

definition not_rolled_back :: "u64 \<times> core_type \<times> operation_state \<Rightarrow> bool" where
  "not_rolled_back w \<longleftrightarrow> (case w of (_, _, state) \<Rightarrow> echo_commits state \<or> \<not> reconciled state)"

definition observe_completions :: "(u64 \<times> core_type \<times> operation_state) list \<Rightarrow> svc \<Rightarrow> svc" where
  "observe_completions ws s = fold watch_reconcile_echo ws s"

lemma watch_silent [simp]: "\<not> echo_commits st \<Longrightarrow> \<not> reconciled st \<Longrightarrow> watch_reconcile_echo (n, t, st) s = s"
  by (simp add: watch_reconcile_echo_def)

lemma watch_commit:
  "echo_commits st \<Longrightarrow> watch_reconcile_echo (n, t, st) s =
     (if (case sv_applied s of Some latest \<Rightarrow> n \<le> latest | None \<Rightarrow> False) then s else s\<lparr>sv_applied := Some n, sv_requested := Some t\<rparr>)"
  by (simp add: watch_reconcile_echo_def publish_requested_core_def)

lemma watch_commute:
  assumes "not_rolled_back w" "not_rolled_back v" "fst w = fst v \<Longrightarrow> w = v"
  shows "watch_reconcile_echo w (watch_reconcile_echo v s) = watch_reconcile_echo v (watch_reconcile_echo w s)"
proof -
  obtain n t st m u st' where [simp]: "w = (n, t, st)" "v = (m, u, st')" by (cases w; cases v)
  show ?thesis
  proof (cases "echo_commits st \<and> echo_commits st'")
    case True
    then show ?thesis using assms(3) by (cases "n = m") (auto simp: watch_commit split: option.splits)
  qed (use assms(1,2) in \<open>auto simp: not_rolled_back_def\<close>)
qed

text \<open>Reconciles run one after the other, their watchers do not: when none of them was rolled back, every order in which their
  ends are observed leaves the same core type on the wire, and it is the one of the last to commit in the order of execution.\<close>

theorem echo_order_irrelevant:
  assumes "list_all not_rolled_back ws" "sorted_wrt (<) (map fst ws)" "mset vs = mset ws" "sv_applied s = None"
  shows "observe_completions vs s = observe_completions ws s
    \<and> sv_requested (observe_completions ws s) = (case filter (\<lambda>(_, _, state). echo_commits state) (rev ws) of
        [] \<Rightarrow> sv_requested s | (_, t, _) # _ \<Rightarrow> Some t)"
proof -
  have inj: "inj_on fst (set ws)"
    using assms(2) by (simp add: strict_sorted_iff distinct_map)
  have "fold watch_reconcile_echo ws = fold watch_reconcile_echo vs"
  proof (rule fold_multiset_equiv)
    fix w v assume "w \<in> set ws" "v \<in> set ws"
    then show "watch_reconcile_echo w \<circ> watch_reconcile_echo v = watch_reconcile_echo v \<circ> watch_reconcile_echo w"
      using watch_commute [of w v] assms(1) inj by (auto simp: list_all_iff fun_eq_iff dest: inj_onD)
  qed (simp add: assms(3))
  moreover have "sv_requested (fold watch_reconcile_echo ws s) = (case filter (\<lambda>(_, _, state). echo_commits state) (rev ws) of
        [] \<Rightarrow> sv_requested s | (_, t, _) # _ \<Rightarrow> Some t)
      \<and> (case sv_applied (fold watch_reconcile_echo ws s) of None \<Rightarrow> True | Some n \<Rightarrow> n \<in> fst ` set ws)"
    using assms(1,2)
  proof (induction ws rule: rev_induct)
    case Nil
    then show ?case by (simp add: assms(4))
  next
    case (snoc w ws)
    obtain n t st where [simp]: "w = (n, t, st)" by (cases w)
    show ?case
    proof (cases "echo_commits st")
      case True
      with snoc show ?thesis
        by (auto simp: sorted_wrt_append watch_commit dest: leD split: option.splits)
    next
      case False
      with snoc show ?thesis by (auto simp: sorted_wrt_append not_rolled_back_def split: option.splits)
    qed
  qed
  ultimately show ?thesis by (simp add: observe_completions_def)
qed

definition sample_committed :: operation_state where
  "sample_committed = OpSucceeded (OutReconciled (Started \<lparr>cr_epoch = Epoch 1, cr_generation = 1, cr_source_hash = [],
     cr_effective_hash = [], cr_runtime_path = []\<rparr>))"

definition sample_rolled_back :: operation_state where
  "sample_rolled_back = OpSucceeded (OutReconciled (RolledBack \<lparr>cr_epoch = Epoch 1, cr_generation = 1, cr_source_hash = [],
     cr_effective_hash = [], cr_runtime_path = []\<rparr> ''unhealthy''))"

lemma sample_completions [simp]:
  "echo_commits sample_committed" "reconciled sample_committed" "\<not> echo_commits sample_rolled_back" "reconciled sample_rolled_back"
  by (simp_all add: sample_committed_def sample_rolled_back_def echo_commits_def reconciled_def)

theorem echo_order_irrelevant_witness:
  "sv_requested (observe_completions [(2, SingBox, sample_committed), (1, Clash TMihomo, sample_committed)] (service_new sample_plane))
     = Some SingBox"
  using echo_order_irrelevant [of "[(1, Clash TMihomo, sample_committed), (2, SingBox, sample_committed)]"
      "[(2, SingBox, sample_committed), (1, Clash TMihomo, sample_committed)]" "service_new sample_plane"]
  by (simp add: not_rolled_back_def service_new_def)

text \<open>C31. A rollback that is observed before the commit it came after silences it: a reconcile commits a core type, a later one is
  rolled back to it, and the wire names the committed type only when the two ends are observed in the order of execution. In the
  other order it keeps the type from before, which the core no longer has.\<close>

theorem echo_lost_to_rollback:
  assumes "echo_commits st" "reconciled st'" "\<not> echo_commits st'" "n < m" "sv_applied s = None"
  shows "sv_requested (observe_completions [(n, t, st), (m, u, st')] s) = Some t
    \<and> sv_requested (observe_completions [(m, u, st'), (n, t, st)] s) = sv_requested s"
  using assms by (auto simp: observe_completions_def watch_reconcile_echo_def publish_requested_core_def)

theorem echo_lost_to_rollback_witness:
  "sv_requested (observe_completions [(2, SingBox, sample_rolled_back), (1, Clash TMihomo, sample_committed)] (service_new sample_plane)) = None
   \<and> sv_requested (observe_completions [(1, Clash TMihomo, sample_committed), (2, SingBox, sample_rolled_back)] (service_new sample_plane))
     = Some (Clash TMihomo)"
  using echo_lost_to_rollback [of sample_committed sample_rolled_back 1 2 "service_new sample_plane" "Clash TMihomo" SingBox]
  by (simp add: service_new_def)

section \<open>Submitting is a step of the control plane\<close>

lemma submit_counts:
  "submit cv i command c = (Inr a, c') \<Longrightarrow> ad_new a \<longleftrightarrow> ct_admitted c' \<noteq> ct_admitted c"
  by (auto simp: submit_def submit_admit_def admit_work_def latch_def split: if_splits prod.splits sum.splits)

lemma submit_total: "\<exists>info. map_operation i (ad_state a) = Some info"
  by (cases "ad_state a")
    (use map_reconcile_outcome_total in \<open>auto simp: map_operation_def map_operation_output_def split: operation_output.splits\<close>)

text \<open>A submission never panics and moves the control plane only along its own steps. It leaves a watcher behind exactly when it
  is a reconcile that was newly admitted: a malformed identifier, a command that cannot be mapped, a refusal and an idempotent
  repetition leave none.\<close>

theorem submit_v2_admits_once:
  "\<exists>r s'. submit_v2 cv hv n operation_id info s = Some (r, s') \<and> (ctl_step cv)\<^sup>*\<^sup>* (sv_ctl s) (sv_ctl s')
     \<and> length (sv_watchers s') = length (sv_watchers s) +
         (if isl r \<or> ct_admitted (sv_ctl s') = ct_admitted (sv_ctl s) then 0 else if is_InfoReconcile info then 1 else 0)"
proof (cases "operation_id_parse operation_id")
  case None
  then show ?thesis by (simp add: submit_v2_def)
next
  case (Some i)
  show ?thesis
  proof (cases "map_command hv n info")
    case (Inl e)
    then show ?thesis by (simp add: submit_v2_def Some)
  next
    case (Inr p)
    obtain command echoed where p [simp]: "p = (command, echoed)" by (cases p)
    have echoed: "echoed \<noteq> None \<longleftrightarrow> is_InfoReconcile info"
      using Inr by (cases info) (auto simp: map_command_def and_then_def split: sum.splits)
    obtain r c where sub: "submit cv i command (sv_ctl s) = (r, c)" by (cases "submit cv i command (sv_ctl s)")
    have steps: "(ctl_step cv)\<^sup>*\<^sup>* (sv_ctl s) c" using submit_steps [of cv "sv_ctl s" i command] sub by simp
    show ?thesis
    proof (cases r)
      case (Inl e)
      then show ?thesis using steps by (simp add: submit_v2_def Some Inr sub)
    next
      case r: (Inr a)
      have new: "ad_new a \<longleftrightarrow> ct_admitted c \<noteq> ct_admitted (sv_ctl s)" using submit_counts sub r by blast
      obtain out where "map_operation i (ad_state a) = Some out" using submit_total by blast
      then show ?thesis using steps echoed
        by (cases echoed) (simp_all add: submit_v2_def Some Inr sub r new)
    qed
  qed
qed

end
