(* ===== verification/Native_Files.thy ===== *)
theory Native_Files
  imports Pid_File
begin

text \<open>
  The data directory of the native cores (\<open>native_store/fs.rs\<close>, Unix build): ownership repair through opened
  handles, recognition of cache files, the migration of files from before the store, and the lease with its
  marker of a process that may still write. The data directory is a tree of inodes addressed by their
  components below it; a handle is the address it was opened at. Every system call may fail (\<open>ne_fault\<close>), a
  write that fails may have written any part of its data (\<open>ne_written\<close>), and another process may hold a lock
  at any moment (\<open>ne_held\<close>). A byte is a character. The YAML and JSON readers are parameters.
\<close>

section \<open>The tree\<close>

datatype store_owner = Unix u32 u32 | MissingOwner

datatype store_error =
    SAccess io_error | SBusy "string list" | SUnsafe "string list" | SFormat "string list" | SOwnerMissing | SRecovery "string list"

datatype node_kind = NFile | NDir | NSymlink | NSpecial

record inode =
  nd_kind :: node_kind
  nd_text :: string
  nd_links :: nat
  nd_uid :: u32
  nd_gid :: u32
  nd_mode :: nat
  nd_modified :: int

record native_env =
  ne_fault :: "nat \<Rightarrow> io_error option"
  ne_written :: "nat \<Rightarrow> nat"
  ne_held :: "nat \<Rightarrow> string list \<Rightarrow> bool"
  ne_now :: "nat \<Rightarrow> int"
  ne_user :: "u32 \<times> u32"
  ne_yaml :: "string \<Rightarrow> yaml_value option"
  ne_selectors :: "string \<Rightarrow> bool"
  ne_procs :: proc_env
  ne_pid_record :: "nat \<Rightarrow> store_error + string"

record nst =
  nx_files :: "(string list \<times> inode) list"
  nx_calls :: nat
  nx_leased :: bool
  nx_reaper :: reaper

type_synonym 'a nio = "((store_error + 'a) \<times> nst) option"

definition inode_at :: "nst \<Rightarrow> string list \<Rightarrow> inode option" where
  "inode_at s p = map_of (nx_files s) p"

definition set_inode :: "string list \<Rightarrow> inode \<Rightarrow> nst \<Rightarrow> nst" where
  "set_inode p nd s = s\<lparr>nx_files := assoc_insert p nd (nx_files s)\<rparr>"

definition drop_inode :: "string list \<Rightarrow> nst \<Rightarrow> nst" where
  "drop_inode p s = s\<lparr>nx_files := filter (\<lambda>e. fst e \<noteq> p) (nx_files s)\<rparr>"

definition io_fail :: "io_kind \<Rightarrow> string \<Rightarrow> store_error" where
  "io_fail kind message = SAccess (io_error_new kind message)"

definition missing :: store_error where
  "missing = io_fail IoNotFound ''No such file or directory (os error 2)''"

text \<open>One system call. That something is not there, or already there, is an answer about the tree and not a fault.\<close>

definition faulted :: "native_env \<Rightarrow> nst \<Rightarrow> io_error option" where
  "faulted env s = (case ne_fault env (nx_calls s) of
       Some e \<Rightarrow> if ie_kind e = IoNotFound \<or> ie_kind e = IoAlreadyExists then None else Some e | None \<Rightarrow> None)"

definition call :: "native_env \<Rightarrow> (nst \<Rightarrow> (store_error + 'a) \<times> nst) \<Rightarrow> nst \<Rightarrow> 'a nio" where
  "call env act s = (let t = s\<lparr>nx_calls := Suc (nx_calls s)\<rparr> in
     case faulted env s of Some e \<Rightarrow> Some (Inl (SAccess e), t) | None \<Rightarrow> Some (act t))"

definition refuse :: "store_error \<Rightarrow> nst \<Rightarrow> 'a nio" where
  "refuse e s = Some (Inl e, s)"

definition yield :: "'a \<Rightarrow> nst \<Rightarrow> 'a nio" where
  "yield x s = Some (Inr x, s)"

definition metadata :: "native_env \<Rightarrow> string list \<Rightarrow> nst \<Rightarrow> inode nio" where
  "metadata env p = call env (\<lambda>s. case inode_at s p of Some nd \<Rightarrow> (Inr nd, s) | None \<Rightarrow> (Inl missing, s))"

definition on_inode :: "native_env \<Rightarrow> string list \<Rightarrow> (inode \<Rightarrow> inode) \<Rightarrow> nst \<Rightarrow> unit nio" where
  "on_inode env p f = call env (\<lambda>s. case inode_at s p of
       Some nd \<Rightarrow> (Inr (), set_inode p (f nd) s) | None \<Rightarrow> (Inl missing, s))"

definition bad_descriptor :: store_error where
  "bad_descriptor = SAccess \<lparr>ie_kind = IoOther, ie_raw = Some 9, ie_message = ''Bad file descriptor (os error 9)''\<rparr>"

text \<open>\<open>fchown\<close> and \<open>fchmod\<close> do not work on a handle opened with \<open>O_PATH\<close>; the mode is then set through \<open>/proc\<close>.\<close>

definition authorize :: "native_env \<Rightarrow> store_owner \<Rightarrow> bool \<Rightarrow> string list \<Rightarrow> bool \<Rightarrow> nst \<Rightarrow> unit nio" where
  "authorize env owner path_only p directory s = (case owner of
       MissingOwner \<Rightarrow> refuse SOwnerMissing s
     | Unix uid gid \<Rightarrow>
         and_do (metadata env p s) (\<lambda>meta s.
         if nd_uid meta \<noteq> uid \<and> nd_uid meta \<noteq> 0 then refuse (SUnsafe p) s
         else and_do (if nd_uid meta \<noteq> uid \<or> nd_gid meta \<noteq> gid
                then if path_only then refuse bad_descriptor s else on_inode env p (\<lambda>nd. nd\<lparr>nd_uid := uid, nd_gid := gid\<rparr>) s
                else yield () s) (\<lambda>_ s.
           on_inode env p (\<lambda>nd. nd\<lparr>nd_mode := if directory then 448 else 384\<rparr>) (if path_only then s\<lparr>nx_calls := Suc (nx_calls s)\<rparr> else s))))"

section \<open>Directories and files\<close>

definition fresh_inode :: "native_env \<Rightarrow> node_kind \<Rightarrow> nat \<Rightarrow> nst \<Rightarrow> inode" where
  "fresh_inode env kind mode s = \<lparr>nd_kind = kind, nd_text = [], nd_links = 1, nd_uid = fst (ne_user env), nd_gid = snd (ne_user env),
     nd_mode = mode, nd_modified = ne_now env (nx_calls s)\<rparr>"

definition directory_open :: "native_env \<Rightarrow> string list \<Rightarrow> nst \<Rightarrow> unit nio" where
  "directory_open env p s =
     and_do (call env (\<lambda>s. case inode_at s p of
         None \<Rightarrow> (Inl missing, s)
       | Some nd \<Rightarrow> if nd_kind nd = NDir then (Inr (), s) else (Inl (io_fail IoOther ''Not a directory (os error 20)''), s)) s) (\<lambda>_ s.
     and_do (metadata env p s) (\<lambda>meta s. if nd_kind meta \<noteq> NDir then refuse (SUnsafe p) s else yield () s))"

definition mkdir_at :: "native_env \<Rightarrow> string list \<Rightarrow> nst \<Rightarrow> unit nio" where
  "mkdir_at env p = call env (\<lambda>s. case inode_at s p of
       Some _ \<Rightarrow> (Inl (io_fail IoAlreadyExists ''File exists (os error 17)''), s)
     | None \<Rightarrow> (Inr (), set_inode p (fresh_inode env NDir 448 s) s))"

definition of_kind :: "io_kind \<Rightarrow> store_error \<Rightarrow> bool" where
  "of_kind kind e = (case e of SAccess io \<Rightarrow> ie_kind io = kind | _ \<Rightarrow> False)"

definition child :: "native_env \<Rightarrow> store_owner \<Rightarrow> string list \<Rightarrow> string \<Rightarrow> nst \<Rightarrow> string list nio" where
  "child env owner dir name s =
     Option.bind (mkdir_at env (dir @ [name]) s) (\<lambda>(r, s).
     if (case r of Inl e \<Rightarrow> \<not> of_kind IoAlreadyExists e | Inr _ \<Rightarrow> False) then (case r of Inl e \<Rightarrow> refuse e s | Inr _ \<Rightarrow> yield [] s)
     else and_do (call env (\<lambda>s. case inode_at s (dir @ [name]) of
              None \<Rightarrow> (Inl missing, s)
            | Some nd \<Rightarrow> if nd_kind nd = NDir then (Inr (), s) else (Inl (io_fail IoOther ''Not a directory (os error 20)''), s)) s) (\<lambda>_ s.
          and_do (authorize env owner False (dir @ [name]) True s) (\<lambda>_ s. yield (dir @ [name]) s)))"

definition checked_file :: "native_env \<Rightarrow> string list \<Rightarrow> nst \<Rightarrow> unit nio" where
  "checked_file env p s = and_do (metadata env p s) (\<lambda>meta s.
     if nd_kind meta \<noteq> NFile \<or> nd_links meta \<noteq> 1 then refuse (SUnsafe p) s else yield () s)"

definition raw_file :: "native_env \<Rightarrow> bool \<Rightarrow> bool \<Rightarrow> string list \<Rightarrow> string \<Rightarrow> nst \<Rightarrow> string list nio" where
  "raw_file env write_access create dir name s =
     (let p = dir @ [name] in
      and_do (call env (\<lambda>s. case inode_at s p of
          None \<Rightarrow> if create then (Inr (), set_inode p (fresh_inode env NFile 384 s) s) else (Inl missing, s)
        | Some nd \<Rightarrow> (case nd_kind nd of
              NSymlink \<Rightarrow> (Inl (io_fail IoOther ''Too many levels of symbolic links (os error 40)''), s)
            | NDir \<Rightarrow> if write_access then (Inl (io_fail IoOther ''Is a directory (os error 21)''), s) else (Inr (), s)
            | _ \<Rightarrow> (Inr (), s))) s) (\<lambda>_ s.
      and_do (checked_file env p s) (\<lambda>_ s. yield p s)))"

definition permission_handle :: "native_env \<Rightarrow> string list \<Rightarrow> string \<Rightarrow> nst \<Rightarrow> string list nio" where
  "permission_handle env dir name s =
     (let p = dir @ [name] in
      and_do (call env (\<lambda>s. case inode_at s p of None \<Rightarrow> (Inl missing, s) | Some _ \<Rightarrow> (Inr (), s)) s) (\<lambda>_ s.
      and_do (checked_file env p s) (\<lambda>_ s. yield p s)))"

definition read_handle :: "native_env \<Rightarrow> string list \<Rightarrow> string \<Rightarrow> nst \<Rightarrow> string list nio" where
  "read_handle env dir name s = raw_file env False False dir name s"

definition file_handle :: "native_env \<Rightarrow> store_owner \<Rightarrow> bool \<Rightarrow> string list \<Rightarrow> string \<Rightarrow> nst \<Rightarrow> string list nio" where
  "file_handle env owner create dir name s =
     and_do (Option.bind (read_handle env dir name s) (\<lambda>(r, s). case r of
         Inr p \<Rightarrow> authorize env owner False p False s
       | Inl e \<Rightarrow> if of_kind IoPermissionDenied e
           then and_do (permission_handle env dir name s) (\<lambda>p s. authorize env owner True p False s)
           else if of_kind IoNotFound e \<and> create then yield () s
           else refuse e s)) (\<lambda>_ s.
     and_do (raw_file env True create dir name s) (\<lambda>p s.
     and_do (authorize env owner False p False s) (\<lambda>_ s. yield p s)))"

definition file_exists :: "native_env \<Rightarrow> string list \<Rightarrow> string \<Rightarrow> nst \<Rightarrow> bool nio" where
  "file_exists env dir name s = Option.bind (read_handle env dir name s) (\<lambda>(r, s). case r of
       Inr _ \<Rightarrow> yield True s
     | Inl e \<Rightarrow> if of_kind IoNotFound e then yield False s else refuse e s)"

definition remove_at :: "native_env \<Rightarrow> string list \<Rightarrow> string \<Rightarrow> nst \<Rightarrow> unit nio" where
  "remove_at env dir name s = Option.bind (call env (\<lambda>s. case inode_at s (dir @ [name]) of
       None \<Rightarrow> (Inl missing, s)
     | Some nd \<Rightarrow> if nd_kind nd = NDir then (Inl (io_fail IoOther ''Is a directory (os error 21)''), s)
         else (Inr (), drop_inode (dir @ [name]) s)) s) (\<lambda>(r, s). case r of
       Inl e \<Rightarrow> if of_kind IoNotFound e then yield () s else refuse e s
     | Inr _ \<Rightarrow> yield () s)"

definition rename_at :: "native_env \<Rightarrow> string list \<Rightarrow> string \<Rightarrow> string \<Rightarrow> nst \<Rightarrow> unit nio" where
  "rename_at env dir old new = call env (\<lambda>s. case inode_at s (dir @ [old]) of
       None \<Rightarrow> (Inl missing, s)
     | Some nd \<Rightarrow> if (case inode_at s (dir @ [new]) of Some other \<Rightarrow> nd_kind other = NDir | None \<Rightarrow> False)
         then (Inl (io_fail IoOther ''Is a directory (os error 21)''), s)
         else (Inr (), set_inode (dir @ [new]) nd (drop_inode (dir @ [old]) s)))"

definition sync_handle :: "native_env \<Rightarrow> nst \<Rightarrow> unit nio" where
  "sync_handle env = call env (\<lambda>s. (Inr (), s))"

definition truncate_file :: "native_env \<Rightarrow> string list \<Rightarrow> nst \<Rightarrow> unit nio" where
  "truncate_file env p s = on_inode env p (\<lambda>nd. nd\<lparr>nd_text := [], nd_modified := ne_now env (nx_calls s)\<rparr>) s"

text \<open>Writing at the start of a file; when it fails some of the data may be there.\<close>

definition overlay :: "string \<Rightarrow> inode \<Rightarrow> inode" where
  "overlay data nd = nd\<lparr>nd_text := data @ drop (length data) (nd_text nd)\<rparr>"

definition write_text :: "native_env \<Rightarrow> string list \<Rightarrow> string \<Rightarrow> nst \<Rightarrow> unit nio" where
  "write_text env p data s =
     (let t = s\<lparr>nx_calls := Suc (nx_calls s)\<rparr>; now = ne_now env (nx_calls s) in
      case inode_at s p of None \<Rightarrow> refuse missing t | Some nd \<Rightarrow>
      (case faulted env s of
         Some e \<Rightarrow> refuse (SAccess e) (set_inode p ((overlay (take (ne_written env (nx_calls s)) data) nd)\<lparr>nd_modified := now\<rparr>) t)
       | None \<Rightarrow> yield () (set_inode p ((overlay data nd)\<lparr>nd_modified := now\<rparr>) t)))"

definition read_text :: "native_env \<Rightarrow> string list \<Rightarrow> nst \<Rightarrow> string nio" where
  "read_text env p s = and_do (metadata env p s) (\<lambda>meta s. yield (nd_text meta) s)"

definition try_lock :: "native_env \<Rightarrow> string list \<Rightarrow> string list \<Rightarrow> nst \<Rightarrow> unit nio" where
  "try_lock env p blamed = call env (\<lambda>s. if ne_held env (nx_calls s) p then (Inl (SBusy blamed), s) else (Inr (), s))"

section \<open>Repairing ownership\<close>

definition names_in :: "string list \<Rightarrow> nst \<Rightarrow> string list" where
  "names_in dir s = map last (filter (\<lambda>p. p \<noteq> [] \<and> butlast p = dir) (map fst (nx_files s)))"

definition read_dir_names :: "native_env \<Rightarrow> string list \<Rightarrow> nst \<Rightarrow> string list nio" where
  "read_dir_names env dir = call env (\<lambda>s. (Inr (names_in dir s), s))"

primrec each_do :: "('n \<Rightarrow> nst \<Rightarrow> unit nio) \<Rightarrow> 'n list \<Rightarrow> nst \<Rightarrow> unit nio" where
  "each_do f [] s = yield () s"
| "each_do f (x # xs) s = and_do (f x s) (\<lambda>_ s. each_do f xs s)"

definition repair_entry :: "native_env \<Rightarrow> store_owner \<Rightarrow> (string list \<Rightarrow> nst \<Rightarrow> unit nio) \<Rightarrow> string list \<Rightarrow> string \<Rightarrow> nst \<Rightarrow> unit nio" where
  "repair_entry env owner recurse dir name s =
     and_do (call env (\<lambda>s. (Inr (), s)) s) (\<lambda>_ s.
     if \<not> utf8 name then refuse (SUnsafe dir) s
     else and_do (metadata env (dir @ [name]) s) (\<lambda>meta s.
       if nd_kind meta = NDir then and_do (child env owner dir name s) (\<lambda>p s. recurse p s)
       else and_do (file_handle env owner False dir name s) (\<lambda>_ s. yield () s)))"

text \<open>The number bounds the depth; \<open>repair_tree_at\<close> below passes one that the tree cannot exceed.\<close>

primrec repair_tree :: "native_env \<Rightarrow> store_owner \<Rightarrow> nat \<Rightarrow> string list \<Rightarrow> nst \<Rightarrow> unit nio" where
  "repair_tree env owner 0 dir s = None"
| "repair_tree env owner (Suc k) dir s =
     and_do (authorize env owner False dir True s) (\<lambda>_ s.
     and_do (read_dir_names env dir s) (\<lambda>names s. each_do (repair_entry env owner (repair_tree env owner k) dir) names s))"

definition tree_depth :: "nst \<Rightarrow> nat" where
  "tree_depth s = foldr (\<lambda>e. max (length (fst e))) (nx_files s) 0"

definition repair_tree_at :: "native_env \<Rightarrow> store_owner \<Rightarrow> string list \<Rightarrow> nst \<Rightarrow> unit nio" where
  "repair_tree_at env owner dir s = repair_tree env owner (Suc (tree_depth s)) dir s"

section \<open>Recognizing a cache\<close>

datatype cache_format = CacheEmpty | CacheYaml | CacheBolt | CacheUnknown

definition le_word :: "nat \<Rightarrow> nat \<Rightarrow> string \<Rightarrow> nat" where
  "le_word start width text = foldr (\<lambda>c v. of_char c + 256 * v) (take width (drop start text)) 0"

definition BOLT_MAGIC :: nat where "BOLT_MAGIC = 0xed0cdaed"

definition valid_meta :: "string \<Rightarrow> bool" where
  "valid_meta header \<longleftrightarrow> le_word 16 4 header = BOLT_MAGIC \<and> le_word 20 4 header = 2
     \<and> unat (fnv1a (as_bytes (take 56 (drop 16 header)))) = le_word 72 8 header"

fun untag :: "yaml_value \<Rightarrow> yaml_value" where
  "untag (Tagged _ v) = untag v"
| "untag v = v"

definition is_string_value :: "yaml_value \<Rightarrow> bool" where
  "is_string_value v \<longleftrightarrow> as_str (untag v) \<noteq> None"

definition CACHE_KEYS :: "string list" where
  "CACHE_KEYS = [''selected'', ''ip_to_host'', ''host_to_ip'']"

definition yaml_cache :: "mapping \<Rightarrow> bool" where
  "yaml_cache m \<longleftrightarrow> list_ex (\<lambda>k. mapping_get m k \<noteq> None) CACHE_KEYS
     \<and> list_all (\<lambda>k. case mapping_get m k of None \<Rightarrow> True | Some v \<Rightarrow>
         (case as_mapping (untag v) of None \<Rightarrow> False
          | Some entries \<Rightarrow> list_all (\<lambda>(key, val). is_string_value key \<and> is_string_value val) entries)) CACHE_KEYS"

definition is_power_of_two :: "nat \<Rightarrow> bool" where
  "is_power_of_two n \<longleftrightarrow> list_ex (\<lambda>k. n = 2 ^ k) [0..<32]"

definition classify_cache :: "native_env \<Rightarrow> string \<Rightarrow> cache_format" where
  "classify_cache env text =
     (let size = length text; header = take 80 text in
      if size = 0 then CacheEmpty
      else if 80 \<le> size \<and> le_word 16 4 header = BOLT_MAGIC then
        (let page_size = le_word 24 4 header in
         if page_size < 1024 \<or> 65536 < page_size \<or> \<not> is_power_of_two page_size \<or> size < page_size * 2 then CacheUnknown
         else if valid_meta header \<or> valid_meta (take 80 (drop page_size text)) then CacheBolt else CacheUnknown)
      else if 64 * 1024 * 1024 < size then CacheUnknown
      else (case ne_yaml env text of
          Some (Mapping m) \<Rightarrow> if yaml_cache m then CacheYaml else CacheUnknown
        | _ \<Rightarrow> CacheUnknown))"

definition cache_format_of :: "native_env \<Rightarrow> string list \<Rightarrow> nst \<Rightarrow> cache_format nio" where
  "cache_format_of env p s = and_do (read_text env p s) (\<lambda>text s. yield (classify_cache env text) s)"

definition validate_selector_json :: "native_env \<Rightarrow> string list \<Rightarrow> nst \<Rightarrow> unit nio" where
  "validate_selector_json env p s = and_do (read_text env p s) (\<lambda>text s.
     if 64 * 1024 * 1024 < length text then refuse (SFormat p) s
     else if ne_selectors env text then yield () s else refuse (SFormat p) s)"

section \<open>Copying\<close>

definition copy_file :: "native_env \<Rightarrow> store_owner \<Rightarrow> string list \<Rightarrow> string list \<Rightarrow> string \<Rightarrow> nst \<Rightarrow> unit nio" where
  "copy_file env owner source dir name s =
     and_do (file_handle env owner True dir (name @ ''.import'') s) (\<lambda>temp s.
     and_do (truncate_file env temp s) (\<lambda>_ s.
     and_do (read_text env source s) (\<lambda>text s.
     and_do (write_text env temp text s) (\<lambda>_ s.
     and_do (sync_handle env s) (\<lambda>_ s.
     and_do (rename_at env dir (name @ ''.import'') name s) (\<lambda>_ s.
     sync_handle env s))))))"

definition copy_once :: "native_env \<Rightarrow> store_owner \<Rightarrow> string list \<Rightarrow> string list \<Rightarrow> string \<Rightarrow> nst \<Rightarrow> unit nio" where
  "copy_once env owner source dir name s = and_do (file_exists env dir name s) (\<lambda>present s.
     if present then yield () s else copy_file env owner source dir name s)"

definition RESOURCES :: "string list" where
  "RESOURCES = [''Country.mmdb'', ''geoip.dat'', ''GeoIP.dat'', ''geosite.dat'', ''GeoSite.dat'', ''geoip.metadb'', ''geoip.db'',
     ''ASN.mmdb'', ''BundleMRS.7z'', ''wintun.dll'']"

definition seed_resource :: "native_env \<Rightarrow> store_owner \<Rightarrow> string list \<Rightarrow> string list \<Rightarrow> string \<Rightarrow> nst \<Rightarrow> unit nio" where
  "seed_resource env owner source dest name s =
     and_do (file_exists env source name s) (\<lambda>present s.
     if \<not> present then yield () s
     else and_do (read_handle env source name s) (\<lambda>input s.
       and_do (file_exists env dest name s) (\<lambda>there s.
       and_do (if there
           then and_do (metadata env input s) (\<lambda>ours s. and_do (read_handle env dest name s) (\<lambda>p s.
                and_do (metadata env p s) (\<lambda>theirs s. yield (nd_modified theirs < nd_modified ours) s)))
           else yield True s) (\<lambda>replace s.
       if replace then copy_file env owner input dest name s else yield () s))))"

definition seed_resources :: "native_env \<Rightarrow> store_owner \<Rightarrow> string list \<Rightarrow> string list \<Rightarrow> nst \<Rightarrow> unit nio" where
  "seed_resources env owner source dest s = each_do (seed_resource env owner source dest) RESOURCES s"

definition write_marker :: "native_env \<Rightarrow> store_owner \<Rightarrow> string list \<Rightarrow> string \<Rightarrow> string \<Rightarrow> string \<Rightarrow> nst \<Rightarrow> unit nio" where
  "write_marker env owner root temp name text s =
     and_do (file_handle env owner True root temp s) (\<lambda>p s.
     and_do (truncate_file env p s) (\<lambda>_ s.
     and_do (write_text env p text s) (\<lambda>_ s.
     and_do (sync_handle env s) (\<lambda>_ s.
     and_do (rename_at env root temp name s) (\<lambda>_ s.
     sync_handle env s)))))"

section \<open>Migration\<close>

definition selector_name :: string where "selector_name = ''selector-cache.json''"

definition cache_name :: string where "cache_name = ''cache.db''"

definition migrate_meow :: "native_env \<Rightarrow> store_owner \<Rightarrow> string list \<Rightarrow> string list \<Rightarrow> nst \<Rightarrow> unit nio" where
  "migrate_meow env owner root home s =
     and_do (file_exists env home selector_name s) (\<lambda>here s.
     if here then yield () s else
     and_do (file_exists env root ''meow-migrated.json'' s) (\<lambda>migrated s.
     if migrated then yield () s else
     and_do (file_exists env [] selector_name s) (\<lambda>old s.
     if \<not> old then yield () s else
     and_do (read_handle env [] selector_name s) (\<lambda>source s.
     and_do (validate_selector_json env source s) (\<lambda>_ s.
     and_do (child env owner root ''migration'' s) (\<lambda>backup s.
     and_do (copy_once env owner source backup ''selector-cache.json.backup'' s) (\<lambda>_ s.
     and_do (copy_once env owner source home selector_name s) (\<lambda>_ s.
     write_marker env owner root ''meow-migrated.new'' ''meow-migrated.json'' ''{\"version\":1}'' s))))))))"

definition source_kind :: "core_kind option \<Rightarrow> cache_format \<Rightarrow> (store_error + core_kind) option" where
  "source_kind legacy format = (case format of
       CacheYaml \<Rightarrow> Some (Inr (if legacy = Some ChimeraClient then ChimeraClient else ClashRust))
     | CacheBolt \<Rightarrow> Some (case legacy of Some Mihomo \<Rightarrow> Inr Mihomo | Some ClashPremium \<Rightarrow> Inr ClashPremium
         | _ \<Rightarrow> Inl (SFormat [cache_name]))
     | CacheEmpty \<Rightarrow> None
     | CacheUnknown \<Rightarrow> Some (Inl (SFormat [cache_name])))"

text \<open>The cache goes into its own namespace even when the requested core is another one.\<close>

definition import_cache :: "native_env \<Rightarrow> store_owner \<Rightarrow> string list \<Rightarrow> string list \<Rightarrow> core_kind \<Rightarrow> nst \<Rightarrow> unit nio" where
  "import_cache env owner root source kind s =
     and_do (child env owner root ''migration'' s) (\<lambda>backup s.
     and_do (copy_once env owner source backup ''cache.db.backup'' s) (\<lambda>_ s.
     and_do (child env owner root ''v1'' s) (\<lambda>version s.
     and_do (child env owner version (core_kind_as_ref kind) s) (\<lambda>dest s.
     and_do (file_exists env dest cache_name s) (\<lambda>taken s.
     and_do (if taken then yield () s else copy_once env owner source dest cache_name s) (\<lambda>_ s.
     write_marker env owner root ''migration.new'' ''migration.json''
       (''{\"version\":1,\"kind\":\"'' @ core_kind_as_ref kind @ ''\"}'') s))))))"

definition migrate :: "native_env \<Rightarrow> store_owner \<Rightarrow> core_kind option \<Rightarrow> string list \<Rightarrow> string list \<Rightarrow> nst \<Rightarrow> unit nio" where
  "migrate env owner legacy root home s =
     and_do (file_exists env home cache_name s) (\<lambda>here s.
     if here then yield () s else
     and_do (file_exists env root ''migration.json'' s) (\<lambda>migrated s.
     if migrated then yield () s else
     and_do (file_exists env [] cache_name s) (\<lambda>old s.
     if \<not> old then yield () s else
     and_do (read_handle env [] cache_name s) (\<lambda>source s.
     and_do (try_lock env source [cache_name] s) (\<lambda>_ s.
     and_do (cache_format_of env source s) (\<lambda>format s.
     case source_kind legacy format of
       None \<Rightarrow> yield () s
     | Some (Inl e) \<Rightarrow> refuse e s
     | Some (Inr kind) \<Rightarrow> import_cache env owner root source kind s))))))"

section \<open>The lease\<close>

record lease =
  le_root :: "string list"
  le_home :: "string list"
  le_kind :: core_kind

definition directories :: "native_env \<Rightarrow> store_owner \<Rightarrow> core_kind \<Rightarrow> nst \<Rightarrow> (string list \<times> string list) nio" where
  "directories env owner kind s =
     (if owner = MissingOwner then refuse SOwnerMissing s
      else and_do (directory_open env [] s) (\<lambda>_ s.
        and_do (child env owner [] ''native-store'' s) (\<lambda>root s.
        and_do (child env owner root ''v1'' s) (\<lambda>version s.
        and_do (child env owner version (core_kind_as_ref kind) s) (\<lambda>home s. yield (root, home) s)))))"

definition check_cache :: "native_env \<Rightarrow> store_owner \<Rightarrow> lease \<Rightarrow> nst \<Rightarrow> unit nio" where
  "check_cache env owner l s =
     (if le_kind l = Meow then
        and_do (file_handle env owner True (le_home l) selector_name s) (\<lambda>p s.
        and_do (metadata env p s) (\<lambda>meta s.
        and_do (if nd_text meta = [] then and_do (write_text env p ''{}'' s) (\<lambda>_ s. sync_handle env s) else yield () s) (\<lambda>_ s.
        validate_selector_json env p s)))
      else
        and_do (file_handle env owner True (le_home l) cache_name s) (\<lambda>p s.
        and_do (cache_format_of env p s) (\<lambda>format s.
        case format of
          CacheEmpty \<Rightarrow> if le_kind l = ClashRust \<or> le_kind l = ChimeraClient
            then and_do (write_text env p (''selected: {}'' @ [CHR 0x0A] @ ''ip_to_host: {}'' @ [CHR 0x0A] @ ''host_to_ip: {}'' @ [CHR 0x0A]) s)
              (\<lambda>_ s. sync_handle env s)
            else yield () s
        | CacheYaml \<Rightarrow> if le_kind l = ClashRust \<or> le_kind l = ChimeraClient then yield () s else refuse (SFormat p) s
        | CacheBolt \<Rightarrow> if le_kind l = Mihomo \<or> le_kind l = ClashPremium then yield () s else refuse (SFormat p) s
        | CacheUnknown \<Rightarrow> refuse (SFormat p) s)))"

definition process_alive :: "native_env \<Rightarrow> string \<Rightarrow> nst \<Rightarrow> ((io_error + bool) \<times> nst) option" where
  "process_alive env raw s = map_option (\<lambda>(r, u). (r, s\<lparr>nx_reaper := u\<rparr>)) (recorded_process_is_alive (ne_procs env) raw (nx_reaper s))"

definition judge_marker :: "native_env \<Rightarrow> string list \<Rightarrow> string \<Rightarrow> nst \<Rightarrow> unit nio" where
  "judge_marker env root raw s = Option.bind (process_alive env raw s) (\<lambda>(r, s). case r of
       Inr alive \<Rightarrow> if alive then refuse (SBusy (root @ [''active''])) s else remove_at env root ''active'' s
     | Inl _ \<Rightarrow> refuse (SRecovery (root @ [''active''])) s)"

definition settle_marker :: "native_env \<Rightarrow> string list \<Rightarrow> nst \<Rightarrow> unit nio" where
  "settle_marker env root s =
     and_do (file_exists env root ''active'' s) (\<lambda>present s.
     if \<not> present then yield () s
     else and_do (read_handle env root ''active'' s) (\<lambda>p s.
       and_do (read_text env p s) (\<lambda>body s.
       if \<not> utf8 (take 16384 body) then refuse (io_fail IoInvalidData ''stream did not contain valid UTF-8'') s
       else judge_marker env root (take 16384 body) s)))"

definition take_lease :: "native_env \<Rightarrow> string list \<Rightarrow> nst \<Rightarrow> unit nio" where
  "take_lease env root = call env (\<lambda>s. if nx_leased s \<or> ne_held env (nx_calls s) (root @ [''lease.lock'']) then (Inl (SBusy root), s)
     else (Inr (), s\<lparr>nx_leased := True\<rparr>))"

definition drop_lease :: "nst \<Rightarrow> nst" where
  "drop_lease s = s\<lparr>nx_leased := False\<rparr>"

text \<open>The lock is held from here on; when anything fails it is dropped again.\<close>

definition acquire_locked :: "native_env \<Rightarrow> store_owner \<Rightarrow> core_kind option \<Rightarrow> core_kind \<Rightarrow> string list \<Rightarrow> string list \<Rightarrow> nst \<Rightarrow> lease nio" where
  "acquire_locked env owner legacy kind root home s =
     and_do (settle_marker env root s) (\<lambda>_ s.
     and_do (repair_tree_at env owner home s) (\<lambda>_ s.
     and_do (if kind = Meow then migrate_meow env owner root home s else migrate env owner legacy root home s) (\<lambda>_ s.
     and_do (seed_resources env owner [] home s) (\<lambda>_ s.
     let l = \<lparr>le_root = root, le_home = home, le_kind = kind\<rparr> in
     and_do (check_cache env owner l s) (\<lambda>_ s. yield l s)))))"

definition acquire :: "native_env \<Rightarrow> store_owner \<Rightarrow> core_kind option \<Rightarrow> core_kind \<Rightarrow> nst \<Rightarrow> lease nio" where
  "acquire env owner legacy kind s =
     and_do (directories env owner kind s) (\<lambda>(root, home) s.
     and_do (file_handle env owner True root ''lease.lock'' s) (\<lambda>_ s.
     and_do (take_lease env root s) (\<lambda>_ s.
     map_option (\<lambda>(r, s). (r, case r of Inl _ \<Rightarrow> drop_lease s | Inr _ \<Rightarrow> s)) (acquire_locked env owner legacy kind root home s))))"

definition prepare_spawn :: "native_env \<Rightarrow> store_owner \<Rightarrow> lease \<Rightarrow> nst \<Rightarrow> unit nio" where
  "prepare_spawn env owner l s =
     and_do (repair_tree_at env owner (le_home l) s) (\<lambda>_ s.
     and_do (check_cache env owner l s) (\<lambda>_ s.
     and_do (file_handle env owner True (le_root l) ''active'' s) (\<lambda>p s.
     and_do (truncate_file env p s) (\<lambda>_ s.
     and_do (write_text env p (core_kind_as_ref (le_kind l)) s) (\<lambda>_ s.
     and_do (sync_handle env s) (\<lambda>_ s.
     sync_handle env s))))))"

definition record_started :: "native_env \<Rightarrow> store_owner \<Rightarrow> lease \<Rightarrow> nst \<Rightarrow> unit nio" where
  "record_started env owner l s = (case ne_pid_record env (nx_calls s) of
       Inl e \<Rightarrow> refuse e s
     | Inr raw \<Rightarrow> Option.bind (process_alive env raw s) (\<lambda>(r, s). case r of
         Inl e \<Rightarrow> refuse (SAccess e) s
       | Inr _ \<Rightarrow> write_marker env owner (le_root l) ''active.new'' ''active'' raw s))"

definition confirm_stopped :: "native_env \<Rightarrow> store_owner \<Rightarrow> lease \<Rightarrow> nst \<Rightarrow> unit nio" where
  "confirm_stopped env owner l s =
     and_do (repair_tree_at env owner (le_home l) s) (\<lambda>_ s.
     and_do (remove_at env (le_root l) ''active'' s) (\<lambda>_ s. sync_handle env s))"

end
