(* ===== verification/Native_Safety.thy ===== *)
theory Native_Safety
  imports Native_Files
begin

text \<open>
  What the native store of \<open>Native_Files\<close> guarantees under every pattern of faults: which operations leave the tree as it is
  (\<open>quiet\<close>), which paths the others change (\<open>only\<close>), that copies and markers are placed whole or not at all (\<open>placed\<close>, \<open>copied\<close>),
  that acquiring spares the files of the user and every cache with something in it (\<open>kept\<close>, \<open>safe\<close>), and that the marker
  of a launch keeps everybody out until its process is proven dead.
\<close>

section \<open>What an operation leaves alone\<close>

text \<open>Everything about a path but its owner and mode.\<close>

definition shape :: "nst \<Rightarrow> string list \<Rightarrow> (node_kind \<times> string \<times> nat \<times> int) option" where
  "shape s p = map_option (\<lambda>nd. (nd_kind nd, nd_text nd, nd_links nd, nd_modified nd)) (inode_at s p)"

definition same_shape :: "nst \<Rightarrow> nst \<Rightarrow> bool" where
  "same_shape s t \<longleftrightarrow> (\<forall>p. shape t p = shape s p) \<and> nx_leased t = nx_leased s \<and> nx_reaper t = nx_reaper s"

lemma inode_at_simps [simp]:
  "inode_at (set_inode p nd s) q = (if q = p then Some nd else inode_at s q)"
  "inode_at (drop_inode p s) q = (if q = p then None else inode_at s q)"
  "inode_at (s\<lparr>nx_calls := n\<rparr>) q = inode_at s q" "inode_at (s\<lparr>nx_leased := b\<rparr>) q = inode_at s q"
  "inode_at (s\<lparr>nx_reaper := u\<rparr>) q = inode_at s q"
  by (simp_all add: inode_at_def set_inode_def drop_inode_def map_of_assoc_insert map_of_filter_key)

lemma inode_fields [simp]:
  "nx_leased (set_inode p nd s) = nx_leased s" "nx_reaper (set_inode p nd s) = nx_reaper s"
  "nx_leased (drop_inode p s) = nx_leased s" "nx_reaper (drop_inode p s) = nx_reaper s"
  by (simp_all add: set_inode_def drop_inode_def)

lemma same_shape_refl [simp]: "same_shape s s"
  by (simp add: same_shape_def)

lemma same_shape_trans: "same_shape s t \<Longrightarrow> same_shape t u \<Longrightarrow> same_shape s u"
  by (simp add: same_shape_def)

lemma same_shape_calls [simp]:
  "same_shape s (t\<lparr>nx_calls := n\<rparr>) = same_shape s t" "same_shape (s\<lparr>nx_calls := n\<rparr>) t = same_shape s t"
  by (simp_all add: same_shape_def shape_def)

lemma shape_None: "shape s p = None \<longleftrightarrow> inode_at s p = None"
  by (simp add: shape_def)

lemma same_shapeD: "same_shape s t \<Longrightarrow> shape t p = shape s p"
  by (simp add: same_shape_def)

lemma same_shape_exists: "same_shape s t \<Longrightarrow> inode_at t p = None \<longleftrightarrow> inode_at s p = None"
  using shape_None [of t p] shape_None [of s p] by (simp add: same_shape_def)

lemma same_shape_set:
  "inode_at t p = Some old \<Longrightarrow> nd_kind nd = nd_kind old \<Longrightarrow> nd_text nd = nd_text old \<Longrightarrow> nd_links nd = nd_links old \<Longrightarrow>
   nd_modified nd = nd_modified old \<Longrightarrow> same_shape t (set_inode p nd (t\<lparr>nx_calls := n\<rparr>))"
  by (simp add: same_shape_def shape_def)

lemma same_shape_text: "same_shape s t \<Longrightarrow> inode_at t p = Some nd \<Longrightarrow>
  \<exists>nd'. inode_at s p = Some nd' \<and> nd_kind nd' = nd_kind nd \<and> nd_text nd' = nd_text nd \<and> nd_modified nd' = nd_modified nd"
proof -
  assume "same_shape s t" "inode_at t p = Some nd"
  then have "shape s p = Some (nd_kind nd, nd_text nd, nd_links nd, nd_modified nd)"
    using same_shapeD [of s t p] by (simp add: shape_def)
  then show ?thesis by (auto simp: shape_def)
qed

definition quiet :: "nst \<Rightarrow> 'a nio \<Rightarrow> ('a \<Rightarrow> bool) \<Rightarrow> bool" where
  "quiet s m Q \<longleftrightarrow> returns m (\<lambda>r t. same_shape s t \<and> (case r of Inr x \<Rightarrow> Q x | Inl _ \<Rightarrow> True))"

lemma quiet_yield [simp]: "quiet s (yield x t) Q \<longleftrightarrow> same_shape s t \<and> Q x"
  and quiet_refuse [simp]: "quiet s (refuse e t) Q \<longleftrightarrow> same_shape s t"
  by (simp_all add: quiet_def yield_def refuse_def)

lemma quiet_call:
  "(case act (t\<lparr>nx_calls := Suc (nx_calls t)\<rparr>) of (r, u) \<Rightarrow> same_shape t u \<and> (case r of Inr x \<Rightarrow> Q x | Inl _ \<Rightarrow> True))
   \<Longrightarrow> same_shape s t \<Longrightarrow> quiet s (call env act t) Q"
  by (auto simp: quiet_def call_def Let_def split: option.splits prod.splits elim: same_shape_trans)

lemma quiet_and_do:
  assumes "quiet s m Q" "\<And>x t. same_shape s t \<Longrightarrow> Q x \<Longrightarrow> quiet s (f x t) R"
  shows "quiet s (and_do m f) R"
  using assms unfolding quiet_def
  by (intro returns_and_doI [where A = "\<lambda>r t. same_shape s t \<and> (case r of Inr x \<Rightarrow> Q x | Inl _ \<Rightarrow> True)"]) auto

lemma quiet_bind:
  assumes "quiet s m Q" "\<And>r t. same_shape s t \<Longrightarrow> (case r of Inr x \<Rightarrow> Q x | Inl _ \<Rightarrow> True) \<Longrightarrow> quiet s (f (r, t)) R"
  shows "quiet s (Option.bind m f) R"
  using assms unfolding quiet_def
  by (intro returns_bindI [where A = "\<lambda>r t. same_shape s t \<and> (case r of Inr x \<Rightarrow> Q x | Inl _ \<Rightarrow> True)"]) auto

lemma quiet_mono: "quiet s m Q \<Longrightarrow> (\<And>x. Q x \<Longrightarrow> R x) \<Longrightarrow> quiet s m R"
  unfolding quiet_def by (erule returns_mono) (auto split: sum.splits)

lemma quiet_metadata:
  assumes "same_shape s t"
  shows "quiet s (metadata env p t) (\<lambda>nd. \<exists>old. inode_at s p = Some old \<and> nd_kind old = nd_kind nd \<and> nd_text old = nd_text nd
    \<and> nd_modified old = nd_modified nd)"
  unfolding metadata_def using assms
  by (intro quiet_call) (auto split: option.splits dest: same_shape_text)

lemma quiet_on_inode:
  assumes "same_shape s t" "\<And>nd. (nd_kind (f nd), nd_text (f nd), nd_links (f nd), nd_modified (f nd)) = (nd_kind nd, nd_text nd, nd_links nd, nd_modified nd)"
  shows "quiet s (on_inode env p f t) (\<lambda>_. True)"
  unfolding on_inode_def using assms(1)
  by (intro quiet_call) (use assms(2) in \<open>auto split: option.split intro: same_shape_set\<close>)

lemma quiet_authorize: "same_shape s t \<Longrightarrow> quiet s (authorize env owner path_only p directory t) (\<lambda>_. inode_at s p \<noteq> None)"
proof (cases owner)
  case (Unix uid gid)
  assume t: "same_shape s t"
  show ?thesis unfolding authorize_def Unix store_owner.case
  proof (rule quiet_and_do [OF quiet_metadata [OF t]])
    fix meta t assume t: "same_shape s t" and "\<exists>old. inode_at s p = Some old \<and> nd_kind old = nd_kind meta
      \<and> nd_text old = nd_text meta \<and> nd_modified old = nd_modified meta"
    then have there: "inode_at s p \<noteq> None" by auto
    have "quiet s (if nd_uid meta \<noteq> uid \<or> nd_gid meta \<noteq> gid
        then if path_only then refuse bad_descriptor t else on_inode env p (\<lambda>nd. nd\<lparr>nd_uid := uid, nd_gid := gid\<rparr>) t
        else yield () t) (\<lambda>_. True)"
      using t by (auto intro!: quiet_on_inode)
    moreover have "quiet s (on_inode env p (\<lambda>nd. nd\<lparr>nd_mode := if directory then 448 else 384\<rparr>)
        (if path_only then u\<lparr>nx_calls := Suc (nx_calls u)\<rparr> else u)) (\<lambda>_. inode_at s p \<noteq> None)" if "same_shape s u" for u
      by (rule quiet_mono [OF quiet_on_inode]) (use that there in simp_all)
    ultimately have "quiet s (and_do (if nd_uid meta \<noteq> uid \<or> nd_gid meta \<noteq> gid
            then if path_only then refuse bad_descriptor t else on_inode env p (\<lambda>nd. nd\<lparr>nd_uid := uid, nd_gid := gid\<rparr>) t
            else yield () t) (\<lambda>_ s.
          on_inode env p (\<lambda>nd. nd\<lparr>nd_mode := if directory then 448 else 384\<rparr>)
            (if path_only then s\<lparr>nx_calls := Suc (nx_calls s)\<rparr> else s))) (\<lambda>_. inode_at s p \<noteq> None)"
      by (rule quiet_and_do)
    then show "quiet s (if nd_uid meta \<noteq> uid \<and> nd_uid meta \<noteq> 0 then refuse (SUnsafe p) t
        else and_do (if nd_uid meta \<noteq> uid \<or> nd_gid meta \<noteq> gid
            then if path_only then refuse bad_descriptor t else on_inode env p (\<lambda>nd. nd\<lparr>nd_uid := uid, nd_gid := gid\<rparr>) t
            else yield () t) (\<lambda>_ s.
          on_inode env p (\<lambda>nd. nd\<lparr>nd_mode := if directory then 448 else 384\<rparr>)
            (if path_only then s\<lparr>nx_calls := Suc (nx_calls s)\<rparr> else s))) (\<lambda>_. inode_at s p \<noteq> None)"
      using t by (simp only: quiet_refuse simp_thms split: if_split)
  qed
qed (simp add: authorize_def)

lemma quiet_checked_file:
  "same_shape s t \<Longrightarrow> quiet s (checked_file env p t) (\<lambda>_. \<exists>nd. inode_at s p = Some nd \<and> nd_kind nd = NFile)"
  unfolding checked_file_def by (rule quiet_and_do [OF quiet_metadata]) auto

lemma quiet_raw_file:
  assumes "same_shape s t" "create \<Longrightarrow> inode_at s (dir @ [name]) \<noteq> None"
  shows "quiet s (raw_file env write_access create dir name t) (\<lambda>p. p = dir @ [name] \<and> (\<exists>nd. inode_at s p = Some nd \<and> nd_kind nd = NFile))"
proof -
  have "inode_at t (dir @ [name]) \<noteq> None" if create using assms(2) [OF that] same_shape_exists [OF assms(1)] by simp
  then have "quiet s (call env (\<lambda>s. case inode_at s (dir @ [name]) of
      None \<Rightarrow> if create then (Inr (), set_inode (dir @ [name]) (fresh_inode env NFile 384 s) s) else (Inl missing, s)
    | Some nd \<Rightarrow> (case nd_kind nd of
          NSymlink \<Rightarrow> (Inl (io_fail IoOther ''Too many levels of symbolic links (os error 40)''), s)
        | NDir \<Rightarrow> if write_access then (Inl (io_fail IoOther ''Is a directory (os error 21)''), s) else (Inr (), s)
        | _ \<Rightarrow> (Inr (), s))) t) (\<lambda>_. True)"
    using assms(1) by (intro quiet_call) (auto split: option.splits node_kind.splits)
  then show ?thesis unfolding raw_file_def Let_def
    by (rule quiet_and_do) (rule quiet_and_do [OF quiet_checked_file], auto)
qed

lemmas quiet_read_handle = quiet_raw_file [where create = False and write_access = False, folded read_handle_def, simplified]

lemma quiet_permission_handle:
  "same_shape s t \<Longrightarrow> quiet s (permission_handle env dir name t) (\<lambda>p. p = dir @ [name])"
  unfolding permission_handle_def Let_def
  by (intro quiet_and_do [OF quiet_call [where Q = "\<lambda>_. True"]] quiet_and_do [OF quiet_checked_file])
    (auto split: option.splits)

lemma quiet_file_handle:
  assumes "same_shape s t" "create \<Longrightarrow> inode_at s (dir @ [name]) \<noteq> None"
  shows "quiet s (file_handle env owner create dir name t) (\<lambda>p. p = dir @ [name])"
  unfolding file_handle_def
proof (rule quiet_and_do [where Q = "\<lambda>_. True"])
  show "quiet s (Option.bind (read_handle env dir name t) (\<lambda>(r, s). case r of
      Inr p \<Rightarrow> authorize env owner False p False s
    | Inl e \<Rightarrow> if of_kind IoPermissionDenied e
        then and_do (permission_handle env dir name s) (\<lambda>p s. authorize env owner True p False s)
        else if of_kind IoNotFound e \<and> create then yield () s else refuse e s)) (\<lambda>_. True)"
    by (rule quiet_bind [OF quiet_read_handle [OF assms(1)]])
      (auto split: sum.split intro!: quiet_mono [OF quiet_authorize] quiet_and_do [OF quiet_permission_handle])
next
  fix t assume "same_shape s t"
  then show "quiet s (and_do (raw_file env True create dir name t) (\<lambda>p s. and_do (authorize env owner False p False s) (\<lambda>_ s. yield p s)))
      (\<lambda>p. p = dir @ [name])"
    using assms(2) by (intro quiet_and_do [OF quiet_raw_file]) (auto intro!: quiet_and_do [OF quiet_authorize])
qed

lemma quiet_file_exists:
  assumes "same_shape s t"
  shows "quiet s (file_exists env dir name t) (\<lambda>present. present \<longrightarrow> (\<exists>nd. inode_at s (dir @ [name]) = Some nd \<and> nd_kind nd = NFile))"
  unfolding file_exists_def using assms
  by (intro quiet_bind [OF quiet_read_handle]) (auto split: sum.split)

lemma quiet_open_dir:
  "same_shape s t \<Longrightarrow> quiet s (call env (\<lambda>s. case inode_at s p of
      None \<Rightarrow> (Inl missing, s)
    | Some nd \<Rightarrow> if nd_kind nd = NDir then (Inr (), s) else (Inl (io_fail IoOther ''Not a directory (os error 20)''), s)) t) (\<lambda>_. True)"
  by (rule quiet_call) (auto split: option.split)

lemma quiet_directory_open: "same_shape s t \<Longrightarrow> quiet s (directory_open env p t) (\<lambda>_. True)"
  unfolding directory_open_def
  by (rule quiet_and_do [OF quiet_open_dir]) (auto intro!: quiet_and_do [OF quiet_metadata])

lemma quiet_child_open:
  "same_shape s t \<Longrightarrow> quiet s (and_do (call env (\<lambda>s. case inode_at s p of
      None \<Rightarrow> (Inl missing, s)
    | Some nd \<Rightarrow> if nd_kind nd = NDir then (Inr (), s) else (Inl (io_fail IoOther ''Not a directory (os error 20)''), s)) t) (\<lambda>_ s.
    and_do (authorize env owner False p True s) (\<lambda>_ s. yield p s))) (\<lambda>q. q = p)"
  by (rule quiet_and_do [OF quiet_open_dir]) (auto intro!: quiet_and_do [OF quiet_authorize])

lemma quiet_mkdir: "same_shape s t \<Longrightarrow> inode_at s p \<noteq> None \<Longrightarrow> quiet s (mkdir_at env p t) (\<lambda>_. True)"
  unfolding mkdir_at_def using same_shape_exists [of s t p]
  by (intro quiet_call) (auto split: option.split)

lemma quiet_child:
  assumes "same_shape s t" "inode_at s (dir @ [name]) \<noteq> None"
  shows "quiet s (child env owner dir name t) (\<lambda>q. q = dir @ [name])"
  unfolding child_def
  by (rule quiet_bind [OF quiet_mkdir [OF assms]]) (auto split: sum.split intro: quiet_child_open)

section \<open>Repairing ends\<close>

definition deeper :: "nst \<Rightarrow> nat \<Rightarrow> bool" where
  "deeper s n \<longleftrightarrow> (\<forall>p. inode_at s p \<noteq> None \<longrightarrow> length p < n)"

lemma names_in_exist: "name \<in> set (names_in dir s) \<Longrightarrow> inode_at s (dir @ [name]) \<noteq> None"
  by (auto simp: names_in_def inode_at_def map_of_eq_None_iff)
    (metis append_butlast_last_id fst_conv imageI image_eqI)

lemma quiet_each_do:
  assumes "\<And>x t. x \<in> set xs \<Longrightarrow> same_shape s t \<Longrightarrow> quiet s (f x t) (\<lambda>_. True)"
  shows "same_shape s t \<Longrightarrow> quiet s (each_do f xs t) (\<lambda>_. True)"
  using assms by (induction xs arbitrary: t) (auto intro: quiet_and_do)

lemma quiet_repair_entry:
  assumes "same_shape s t" "inode_at s (dir @ [name]) \<noteq> None"
    and "\<And>t. same_shape s t \<Longrightarrow> quiet s (recurse (dir @ [name]) t) (\<lambda>_. True)"
  shows "quiet s (repair_entry env owner recurse dir name t) (\<lambda>_. True)"
proof -
  have "quiet s (and_do (child env owner dir name t) (\<lambda>p s. recurse p s)) (\<lambda>_. True)" if "same_shape s t" for t
    by (rule quiet_and_do [OF quiet_child [OF that assms(2)]]) (auto intro: assms(3))
  moreover have "quiet s (and_do (file_handle env owner False dir name t) (\<lambda>_ s. yield () s)) (\<lambda>_. True)" if "same_shape s t" for t
    by (rule quiet_and_do [OF quiet_file_handle [OF that]]) auto
  moreover have "quiet s (call env (\<lambda>s. (Inr (), s)) t) (\<lambda>_. True)" using assms(1) by (intro quiet_call) auto
  ultimately show ?thesis unfolding repair_entry_def
    by (elim quiet_and_do) (auto intro!: quiet_and_do [OF quiet_metadata])
qed

lemma quiet_repair_tree:
  "same_shape s t \<Longrightarrow> deeper s (length dir + k) \<Longrightarrow> k \<noteq> 0 \<or> inode_at s dir \<noteq> None \<Longrightarrow>
   quiet s (repair_tree env owner k dir t) (\<lambda>_. True)"
proof (induction k arbitrary: dir t)
  case 0
  then show ?case by (auto simp: deeper_def)
next
  case (Suc k)
  have "quiet s (and_do (read_dir_names env dir t) (\<lambda>names u. each_do (repair_entry env owner (repair_tree env owner k) dir) names u)) (\<lambda>_. True)"
    if t: "same_shape s t" for t
  proof -
    have "quiet s (read_dir_names env dir t) (\<lambda>names. \<forall>name \<in> set names. inode_at s (dir @ [name]) \<noteq> None)"
      unfolding read_dir_names_def using t
      by (intro quiet_call) (auto dest!: names_in_exist dest: same_shape_text)
    then show ?thesis
    proof (rule quiet_and_do)
      fix names u assume u: "same_shape s u" and exist: "\<forall>name \<in> set names. inode_at s (dir @ [name]) \<noteq> None"
      show "quiet s (each_do (repair_entry env owner (repair_tree env owner k) dir) names u) (\<lambda>_. True)"
        using exist Suc.IH [of _ "dir @ [_]"] Suc.prems(2)
        by (intro quiet_each_do [OF _ u] quiet_repair_entry) auto
    qed
  qed
  then show ?case using Suc.prems(1) by (auto intro!: quiet_and_do [OF quiet_authorize])
qed

lemma tree_depth_bound: "inode_at s p \<noteq> None \<Longrightarrow> length p \<le> tree_depth s"
proof -
  assume "inode_at s p \<noteq> None"
  then have "p \<in> set (map fst (nx_files s))" by (auto simp: inode_at_def map_of_eq_None_iff)
  moreover have "p \<in> set (map fst xs) \<Longrightarrow> length p \<le> foldr (\<lambda>e. max (length (fst e))) xs 0" for xs :: "(string list \<times> inode) list"
    by (induction xs) (auto simp: le_max_iff_disj image_iff)
  ultimately show ?thesis by (simp add: tree_depth_def)
qed

lemma quiet_repair: "same_shape s t \<Longrightarrow> quiet s (repair_tree_at env owner dir t) (\<lambda>_. True)"
proof -
  assume t: "same_shape s t"
  have "inode_at s p \<noteq> None \<Longrightarrow> length p \<le> tree_depth t" for p
    using tree_depth_bound [of t p] same_shape_exists [OF t, of p] by simp
  then have "deeper s (length dir + Suc (tree_depth t))" by (fastforce simp: deeper_def)
  then show ?thesis unfolding repair_tree_at_def using t by (intro quiet_repair_tree) simp_all
qed

section \<open>What an operation changes\<close>

definition only :: "string list set \<Rightarrow> nst \<Rightarrow> nst \<Rightarrow> bool" where
  "only ps s t \<longleftrightarrow> (\<forall>q. q \<notin> ps \<longrightarrow> shape t q = shape s q) \<and> nx_leased t = nx_leased s \<and> nx_reaper t = nx_reaper s"

lemma only_same [intro]: "same_shape s t \<Longrightarrow> only ps s t"
  by (simp add: only_def same_shape_def)

lemma only_empty: "only {} s t \<longleftrightarrow> same_shape s t"
  by (simp add: only_def same_shape_def)

lemma only_trans: "only ps s t \<Longrightarrow> only qs t u \<Longrightarrow> only (ps \<union> qs) s u"
  by (simp add: only_def)

lemma only_mono: "only ps s t \<Longrightarrow> ps \<subseteq> qs \<Longrightarrow> only qs s t"
  unfolding only_def by blast

lemma only_after: "only ps s t \<Longrightarrow> same_shape t u \<Longrightarrow> only ps s u"
  using only_trans [of ps s t "{}" u] by (simp add: only_empty)

lemma only_set: "only {p} s (set_inode p nd (s\<lparr>nx_calls := n\<rparr>))"
  by (simp add: only_def shape_def)

lemma onlyD: "only ps s t \<Longrightarrow> q \<notin> ps \<Longrightarrow> shape t q = shape s q"
  by (simp add: only_def)

definition empty_at :: "node_kind \<Rightarrow> nst \<Rightarrow> string list \<Rightarrow> bool" where
  "empty_at kind s p \<longleftrightarrow> (\<exists>n m. shape s p = Some (kind, [], n, m))"

text \<open>Opening with permission to create leaves the path as it was, or makes an empty one where there was none.\<close>

definition opened :: "node_kind \<Rightarrow> string list \<Rightarrow> nst \<Rightarrow> nst \<Rightarrow> bool" where
  "opened kind p s t \<longleftrightarrow> only {p} s t \<and> (shape t p = shape s p \<or> shape s p = None \<and> empty_at kind t p)"

lemma opened_same: "same_shape s t \<Longrightarrow> opened kind p s t"
  by (auto simp: opened_def same_shapeD)

lemma opened_after: "opened kind p s t \<Longrightarrow> same_shape t u \<Longrightarrow> opened kind p s u"
  by (auto simp: opened_def empty_at_def same_shapeD intro: only_after)

lemma opened_from: "same_shape s t \<Longrightarrow> opened kind p t u \<Longrightarrow> opened kind p s u"
  using only_trans [of "{}" s t "{p}" u] by (auto simp: opened_def only_empty same_shapeD)

definition handle_of :: "string list \<Rightarrow> node_kind \<Rightarrow> nst \<Rightarrow> store_error + string list \<Rightarrow> bool" where
  "handle_of p kind t r \<longleftrightarrow> (case r of Inl _ \<Rightarrow> True | Inr q \<Rightarrow> q = p \<and> (\<exists>nd. inode_at t p = Some nd \<and> nd_kind nd = kind))"

lemma handle_of_Inl [simp]: "handle_of p kind t (Inl e)"
  by (simp add: handle_of_def)

lemma handle_ofI: "quiet t m (\<lambda>q. q = p \<and> (\<exists>nd. inode_at t p = Some nd \<and> nd_kind nd = kind)) \<Longrightarrow>
  returns m (\<lambda>r u. same_shape t u \<and> handle_of p kind u r)"
  unfolding quiet_def handle_of_def
  by (erule returns_mono) (auto split: sum.splits dest!: same_shapeD [where p = p] simp: shape_def)

lemma file_handle_tail:
  assumes "same_shape s t" "inode_at s (dir @ [name]) \<noteq> None"
  shows "quiet s (and_do (raw_file env True create dir name t) (\<lambda>p s. and_do (authorize env owner False p False s) (\<lambda>_ s. yield p s)))
    (\<lambda>p. p = dir @ [name] \<and> (\<exists>nd. inode_at s (dir @ [name]) = Some nd \<and> nd_kind nd = NFile))"
  by (rule quiet_and_do [OF quiet_raw_file [OF assms]]) (auto intro!: quiet_and_do [OF quiet_authorize])

lemma raw_file_creates:
  assumes "inode_at t (dir @ [name]) = None"
  shows "returns (raw_file env True True dir name t) (\<lambda>r u. opened NFile (dir @ [name]) t u \<and> handle_of (dir @ [name]) NFile u r)"
proof (cases "faulted env t")
  case None
  let ?t = "t\<lparr>nx_calls := Suc (nx_calls t)\<rparr>" and ?p = "dir @ [name]"
  let ?u = "set_inode ?p (fresh_inode env NFile 384 ?t) ?t"
  have "opened NFile ?p t ?u"
    using assms only_set [of ?p t] by (simp add: opened_def empty_at_def shape_def fresh_inode_def)
  moreover have "returns (and_do (checked_file env ?p ?u) (\<lambda>_ s. yield ?p s)) (\<lambda>r v. same_shape ?u v \<and> handle_of ?p NFile v r)"
    by (rule handle_ofI, rule quiet_and_do [OF quiet_checked_file]) auto
  ultimately show ?thesis
    using None assms by (auto simp: raw_file_def call_def Let_def elim!: returns_mono intro: opened_after)
next
  case (Some e)
  then show ?thesis by (simp add: raw_file_def call_def Let_def handle_of_def opened_same)
qed

lemma file_handle_opens:
  "returns (file_handle env owner True dir name t) (\<lambda>r u. opened NFile (dir @ [name]) t u \<and> handle_of (dir @ [name]) NFile u r)"
proof -
  let ?p = "dir @ [name]"
  let ?first = "Option.bind (read_handle env dir name t) (\<lambda>(r, s). case r of
      Inr p \<Rightarrow> authorize env owner False p False s
    | Inl e \<Rightarrow> if of_kind IoPermissionDenied e
        then and_do (permission_handle env dir name s) (\<lambda>p s. authorize env owner True p False s)
        else if of_kind IoNotFound e \<and> True then yield () s else refuse e s)"
  have first: "quiet t ?first (\<lambda>_. True)"
    by (rule quiet_bind [OF quiet_read_handle])
      (auto split: sum.split intro!: quiet_mono [OF quiet_authorize] quiet_and_do [OF quiet_permission_handle])
  have rest: "returns (and_do (raw_file env True True dir name u) (\<lambda>p s. and_do (authorize env owner False p False s) (\<lambda>_ s. yield p s)))
      (\<lambda>r v. opened NFile ?p t v \<and> handle_of ?p NFile v r)" if u: "same_shape t u" for u
  proof (cases "inode_at t ?p")
    case None
    then have "inode_at u ?p = None" using same_shape_exists [OF u] by simp
    show ?thesis
    proof (rule returns_and_doI [OF raw_file_creates [OF \<open>inode_at u ?p = None\<close>]])
      fix q v assume v: "opened NFile ?p u v \<and> handle_of ?p NFile v (Inr q)"
      then have [simp]: "q = ?p" and "\<exists>nd. inode_at v ?p = Some nd \<and> nd_kind nd = NFile" by (simp_all add: handle_of_def)
      then have "returns (and_do (authorize env owner False q False v) (\<lambda>_ s. yield q s)) (\<lambda>r w. same_shape v w \<and> handle_of ?p NFile w r)"
        by (intro handle_ofI) (auto intro!: quiet_and_do [OF quiet_authorize])
      then show "returns (and_do (authorize env owner False q False v) (\<lambda>_ s. yield q s)) (\<lambda>r w. opened NFile ?p t w \<and> handle_of ?p NFile w r)"
        using v opened_from [OF u] by (auto elim!: returns_mono intro: opened_after)
    qed (use opened_from [OF u] in \<open>auto simp: handle_of_def\<close>)
  next
    case (Some nd)
    have "returns (and_do (raw_file env True True dir name u) (\<lambda>p s. and_do (authorize env owner False p False s) (\<lambda>_ s. yield p s)))
        (\<lambda>r v. same_shape t v \<and> handle_of ?p NFile v r)"
      by (rule handle_ofI, rule file_handle_tail [OF u]) (simp add: Some)
    then show ?thesis by (rule returns_mono) (simp add: opened_same)
  qed
  show ?thesis unfolding file_handle_def
    by (rule returns_and_doI [OF first [unfolded quiet_def]]) (auto simp: opened_same intro: rest)
qed

lemma child_opens:
  "returns (child env owner dir name t) (\<lambda>r u. opened NDir (dir @ [name]) t u \<and> (case r of Inl _ \<Rightarrow> True | Inr q \<Rightarrow> q = dir @ [name]))"
proof -
  let ?p = "dir @ [name]"
  have mk: "returns (mkdir_at env ?p t) (\<lambda>_ u. opened NDir ?p t u)"
    using only_set [of ?p t] by (auto simp: mkdir_at_def call_def Let_def opened_same opened_def empty_at_def shape_def fresh_inode_def
        split: option.split)
  show ?thesis unfolding child_def
    by (rule returns_bindI [OF mk])
      (auto split: sum.split simp: refuse_def intro: opened_after intro!: returns_mono [OF quiet_child_open [OF same_shape_refl, unfolded quiet_def]])
qed

section \<open>Copies are whole or not there\<close>

definition text_of :: "nst \<Rightarrow> string list \<Rightarrow> string option" where
  "text_of s p = map_option (\<lambda>(_, text, _). text) (shape s p)"

definition file_with :: "string \<Rightarrow> nst \<Rightarrow> string list \<Rightarrow> bool" where
  "file_with text s p \<longleftrightarrow> (\<exists>n m. shape s p = Some (NFile, text, n, m))"

text \<open>Truncating and writing change one path, and never what kind of thing it is.\<close>

lemma truncate_changes:
  "inode_at t p = Some nd \<Longrightarrow> nd_kind nd = NFile \<Longrightarrow> returns (truncate_file env p t) (\<lambda>r u. only {p} t u
     \<and> (case r of Inl _ \<Rightarrow> shape u p = shape t p | Inr _ \<Rightarrow> file_with [] u p))"
  using only_set [of p t] only_same [of t t "{p}"]
  by (auto simp: truncate_file_def on_inode_def call_def Let_def file_with_def shape_def only_def split: option.split)

lemma write_changes:
  "file_with [] t p \<Longrightarrow> returns (write_text env p text t) (\<lambda>r u. only {p} t u
     \<and> (case r of Inl _ \<Rightarrow> \<exists>k. file_with (take k text) u p | Inr _ \<Rightarrow> file_with text u p))"
  using only_set [of p t]
  by (auto simp: write_text_def Let_def file_with_def shape_def overlay_def refuse_def yield_def split: option.split)

lemma file_with_only: "only ps s t \<Longrightarrow> p \<notin> ps \<Longrightarrow> file_with text t p \<longleftrightarrow> file_with text s p"
  by (simp add: file_with_def onlyD)

lemma file_with_same: "same_shape s t \<Longrightarrow> file_with text t p \<longleftrightarrow> file_with text s p"
  by (simp add: file_with_def same_shapeD)

lemma rename_changes:
  assumes "old \<noteq> new" "file_with text t (dir @ [old])"
  shows "returns (rename_at env dir old new t) (\<lambda>r u. only {dir @ [old], dir @ [new]} t u
     \<and> (case r of Inl _ \<Rightarrow> same_shape t u | Inr _ \<Rightarrow> file_with text u (dir @ [new])))"
  using assms
  by (auto simp: rename_at_def call_def Let_def only_def file_with_def same_shape_def shape_def split: option.split)

lemma quiet_sync: "same_shape s t \<Longrightarrow> quiet s (sync_handle env t) (\<lambda>_. True)"
  unfolding sync_handle_def by (rule quiet_call) simp_all

lemma quiet_read_text:
  "same_shape s t \<Longrightarrow> quiet s (read_text env p t) (\<lambda>text. text_of s p = Some text)"
  unfolding read_text_def text_of_def
  by (rule quiet_and_do [OF quiet_metadata]) (auto simp: shape_def)

text \<open>The end of a copy or of a marker: a temporary file is emptied, written, flushed and renamed.\<close>

definition installed :: "string \<Rightarrow> string list \<Rightarrow> nst \<Rightarrow> nst \<Rightarrow> bool" where
  "installed text p s t \<longleftrightarrow> shape t p = shape s p \<or> file_with text t p"

definition placed :: "string list \<Rightarrow> string list \<Rightarrow> string \<Rightarrow> nst \<Rightarrow> nst \<Rightarrow> (store_error + unit) \<Rightarrow> bool" where
  "placed temp p text s t r \<longleftrightarrow> only {temp, p} s t \<and> installed text p s t \<and> (case r of Inl _ \<Rightarrow> True | Inr _ \<Rightarrow> file_with text t p)"

lemma placed_temp: "only {temp} s t \<Longrightarrow> temp \<noteq> p \<Longrightarrow> placed temp p text s t (Inl e)"
  by (auto simp: placed_def installed_def only_def)

lemma place_tail:
  assumes "temp \<noteq> name" "file_with text t (dir @ [temp])" "only {dir @ [temp]} s t"
  shows "returns (and_do (sync_handle env t) (\<lambda>_ s. and_do (rename_at env dir temp name s) (\<lambda>_ s. sync_handle env s)))
    (\<lambda>r u. placed (dir @ [temp]) (dir @ [name]) text s u r)"
proof (rule returns_and_doI [OF quiet_sync [OF same_shape_refl, unfolded quiet_def]])
  fix e u assume "same_shape t u \<and> (case Inl e :: store_error + unit of Inl _ \<Rightarrow> True | Inr _ \<Rightarrow> True)"
  then show "placed (dir @ [temp]) (dir @ [name]) text s u (Inl e)" using assms only_after by (intro placed_temp) auto
next
  fix x u assume "same_shape t u \<and> (case Inr x :: store_error + unit of Inl _ \<Rightarrow> True | Inr _ \<Rightarrow> True)"
  then have u: "same_shape t u" by simp
  with assms have fw: "file_with text u (dir @ [temp])" and on: "only {dir @ [temp]} s u"
    by (auto simp: file_with_same intro: only_after)
  show "returns (and_do (rename_at env dir temp name u) (\<lambda>_ s. sync_handle env s)) (\<lambda>r u. placed (dir @ [temp]) (dir @ [name]) text s u r)"
  proof (rule returns_and_doI [OF rename_changes [OF assms(1) fw]])
    fix e v assume "only {dir @ [temp], dir @ [name]} u v \<and> (case Inl e :: store_error + unit of Inl _ \<Rightarrow> same_shape u v | Inr _ \<Rightarrow> file_with text v (dir @ [name]))"
    then show "placed (dir @ [temp]) (dir @ [name]) text s v (Inl e)" using on assms(1) only_after by (intro placed_temp) auto
  next
    fix x v assume "only {dir @ [temp], dir @ [name]} u v \<and> (case Inr x :: store_error + unit of Inl _ \<Rightarrow> same_shape u v | Inr _ \<Rightarrow> file_with text v (dir @ [name]))"
    then have "only {dir @ [temp], dir @ [name]} s v" "file_with text v (dir @ [name])"
      using only_trans [OF on, of "{dir @ [temp], dir @ [name]}" v] by (simp_all add: insert_commute)
    then show "returns (sync_handle env v) (\<lambda>r u. placed (dir @ [temp]) (dir @ [name]) text s u r)"
      by (intro returns_mono [OF quiet_sync [OF same_shape_refl, unfolded quiet_def]])
        (auto simp: placed_def installed_def file_with_same intro: only_after split: sum.split)
  qed
qed

lemma write_and_place:
  assumes "temp \<noteq> name" "file_with [] t (dir @ [temp])" "only {dir @ [temp]} s t"
  shows "returns (and_do (write_text env (dir @ [temp]) text t) (\<lambda>_ s. and_do (sync_handle env s) (\<lambda>_ s.
      and_do (rename_at env dir temp name s) (\<lambda>_ s. sync_handle env s)))) (\<lambda>r u. placed (dir @ [temp]) (dir @ [name]) text s u r)"
proof (rule returns_and_doI [OF write_changes [OF assms(2)]])
  fix e u assume u: "only {dir @ [temp]} t u \<and> (case Inl e :: store_error + unit of
      Inl _ \<Rightarrow> \<exists>k. file_with (take k text) u (dir @ [temp]) | Inr _ \<Rightarrow> file_with text u (dir @ [temp]))"
  show "placed (dir @ [temp]) (dir @ [name]) text s u (Inl e)"
    using assms(1) only_trans [OF assms(3), of "{dir @ [temp]}" u] u by (intro placed_temp) simp_all
next
  fix x u assume u: "only {dir @ [temp]} t u \<and> (case Inr x :: store_error + unit of
      Inl _ \<Rightarrow> \<exists>k. file_with (take k text) u (dir @ [temp]) | Inr _ \<Rightarrow> file_with text u (dir @ [temp]))"
  show "returns (and_do (sync_handle env u) (\<lambda>_ s. and_do (rename_at env dir temp name s) (\<lambda>_ s. sync_handle env s)))
      (\<lambda>r u. placed (dir @ [temp]) (dir @ [name]) text s u r)"
    using assms(1) only_trans [OF assms(3), of "{dir @ [temp]}" u] u by (intro place_tail) simp_all
qed

text \<open>An emptied temporary file, ready to be written.\<close>

lemma open_and_truncate:
  assumes "\<And>u. only {dir @ [temp]} s u \<Longrightarrow> file_with [] u (dir @ [temp]) \<Longrightarrow> returns (f (dir @ [temp]) u) Q"
    and "\<And>e u. only {dir @ [temp]} s u \<Longrightarrow> shape u (dir @ [temp]) = shape s (dir @ [temp]) \<or> file_with [] u (dir @ [temp]) \<Longrightarrow> Q (Inl e) u"
  shows "returns (and_do (file_handle env owner True dir temp s) (\<lambda>p s. and_do (truncate_file env p s) (\<lambda>_ s. f p s))) Q"
proof -
  have as_opened: "shape u (dir @ [temp]) = shape s (dir @ [temp]) \<or> file_with [] u (dir @ [temp])"
    if "opened NFile (dir @ [temp]) s u" for u
    using that by (auto simp: opened_def empty_at_def file_with_def)
  show ?thesis
  proof (rule returns_and_doI [OF file_handle_opens])
    fix p u assume o: "opened NFile (dir @ [temp]) s u \<and> handle_of (dir @ [temp]) NFile u (Inr p)"
    then obtain nd where u: "only {dir @ [temp]} s u" "p = dir @ [temp]" "inode_at u p = Some nd" "nd_kind nd = NFile"
      by (auto simp: opened_def handle_of_def)
    show "returns (and_do (truncate_file env p u) (\<lambda>_ s. f p s)) Q"
      using only_trans [OF u(1), of "{dir @ [temp]}"] u(2) assms as_opened [of u] o
      by (intro returns_and_doI [OF truncate_changes [OF u(3,4)]]) (auto simp: file_with_def)
  qed (use assms(2) as_opened in \<open>auto simp: opened_def\<close>)
qed

lemma write_marker_places:
  assumes "temp \<noteq> name"
  shows "returns (write_marker env owner dir temp name text s) (\<lambda>r u. placed (dir @ [temp]) (dir @ [name]) text s u r)"
  unfolding write_marker_def
  by (rule open_and_truncate) (use assms in \<open>auto intro: write_and_place placed_temp\<close>)

text \<open>Of a copy the caller sees the whole text of the source under the name, or what was there before.\<close>

definition copied :: "string list \<Rightarrow> string list \<Rightarrow> string list \<Rightarrow> nst \<Rightarrow> nst \<Rightarrow> (store_error + unit) \<Rightarrow> bool" where
  "copied source temp p s t r \<longleftrightarrow> only {temp, p} s t \<and> (shape t p = shape s p \<or> (\<exists>text. text_of s source = Some text \<and> file_with text t p))
     \<and> (case r of Inl _ \<Rightarrow> True | Inr _ \<Rightarrow> \<exists>text. text_of s source = Some text \<and> file_with text t p)"

lemma copy_file_copies:
  assumes "source \<noteq> dir @ [name @ ''.import'']"
  shows "returns (copy_file env owner source dir name s) (\<lambda>r u. copied source (dir @ [name @ ''.import'']) (dir @ [name]) s u r)"
  unfolding copy_file_def
proof (rule open_and_truncate)
  let ?temp = "dir @ [name @ ''.import'']"
  fix u assume u: "only {?temp} s u" "file_with [] u ?temp"
  have same: "text_of u source = text_of s source" using onlyD [OF u(1)] assms by (simp add: text_of_def)
  show "returns (and_do (read_text env source u) (\<lambda>text s. and_do (write_text env ?temp text s) (\<lambda>_ s. and_do (sync_handle env s) (\<lambda>_ s.
      and_do (rename_at env dir (name @ ''.import'') name s) (\<lambda>_ s. sync_handle env s))))) (\<lambda>r u. copied source ?temp (dir @ [name]) s u r)"
  proof (rule returns_and_doI [OF quiet_read_text [OF same_shape_refl, unfolded quiet_def]])
    fix body v assume "same_shape u v \<and> (case Inr body :: store_error + string of Inl _ \<Rightarrow> True | Inr body \<Rightarrow> text_of u source = Some body)"
    then have v: "only {?temp} s v" "file_with [] v ?temp" "text_of s source = Some body"
      using u same by (auto simp: file_with_same intro: only_after)
    show "returns (and_do (write_text env ?temp body v) (\<lambda>_ s. and_do (sync_handle env s) (\<lambda>_ s.
        and_do (rename_at env dir (name @ ''.import'') name s) (\<lambda>_ s. sync_handle env s)))) (\<lambda>r u. copied source ?temp (dir @ [name]) s u r)"
      using v by (intro returns_mono [OF write_and_place [OF _ v(2,1)]]) (auto simp: placed_def installed_def copied_def split: sum.split)
  qed (use u only_after in \<open>auto simp: copied_def only_def same_shape_def\<close>)
qed (auto simp: copied_def only_def)

lemma missing_kind [simp]:
  "of_kind IoNotFound missing" "\<not> of_kind IoNotFound (io_fail IoOther m)" "faulted env t = Some e \<Longrightarrow> \<not> of_kind IoNotFound (SAccess e)"
  "\<not> of_kind k (SUnsafe p)"
  by (auto simp: of_kind_def missing_def io_fail_def io_error_new_def faulted_def split: option.splits if_splits)

lemma checked_file_found:
  "inode_at t p = Some nd \<Longrightarrow> checked_file env p t = Some (Inl e, u) \<Longrightarrow> \<not> of_kind IoNotFound e"
  by (auto simp: checked_file_def metadata_def call_def Let_def refuse_def yield_def split: option.splits if_splits)

lemma and_do_yield_Inl: "and_do m (\<lambda>_. yield x) = Some (Inl e, v) \<Longrightarrow> m = Some (Inl e, v)"
  by (cases m) (auto simp: and_do_def yield_def split: sum.splits)

lemma file_exists_absent: "file_exists env dir name t = Some (Inr False, u) \<Longrightarrow> inode_at t (dir @ [name]) = None"
proof (cases "inode_at t (dir @ [name])")
  case (Some nd)
  assume "file_exists env dir name t = Some (Inr False, u)"
  then obtain e v where rh: "read_handle env dir name t = Some (Inl e, v)" and nf: "of_kind IoNotFound e"
    by (auto simp: file_exists_def yield_def refuse_def split: bind_splits sum.splits if_splits)
  show ?thesis
  proof (cases "faulted env t")
    case None
    have "checked_file env (dir @ [name]) (t\<lparr>nx_calls := Suc (nx_calls t)\<rparr>) \<noteq> Some (Inl e, v)"
      using checked_file_found [of "t\<lparr>nx_calls := Suc (nx_calls t)\<rparr>" "dir @ [name]" nd env e v] Some nf by auto
    then have "and_do (checked_file env (dir @ [name]) (t\<lparr>nx_calls := Suc (nx_calls t)\<rparr>)) (\<lambda>_. yield (dir @ [name])) \<noteq> Some (Inl e, v)"
      by (auto dest: and_do_yield_Inl)
    then show ?thesis using rh nf None Some
      by (cases "nd_kind nd") (auto simp: read_handle_def raw_file_def call_def Let_def)
  qed (use rh nf in \<open>auto simp: read_handle_def raw_file_def call_def Let_def\<close>)
qed simp

lemma file_exists_tells:
  "quiet t (file_exists env dir name t) (\<lambda>present. if present then \<exists>nd. inode_at t (dir @ [name]) = Some nd \<and> nd_kind nd = NFile
     else inode_at t (dir @ [name]) = None)"
proof -
  obtain r u where ru: "file_exists env dir name t = Some (r, u)" "same_shape t u" and
    "case r of Inl _ \<Rightarrow> True | Inr present \<Rightarrow> present \<longrightarrow> (\<exists>nd. inode_at t (dir @ [name]) = Some nd \<and> nd_kind nd = NFile)"
    using quiet_file_exists [OF same_shape_refl, of t env dir name] unfolding quiet_def by (auto elim!: returnsE)
  moreover have "r = Inr False \<Longrightarrow> inode_at t (dir @ [name]) = None" using ru(1) file_exists_absent by simp
  ultimately show ?thesis unfolding quiet_def by (cases r) auto
qed

section \<open>Migration and seeding spare what is there\<close>

definition store_root :: "string list" where
  "store_root = [''native-store'']"

definition store_home :: "core_kind \<Rightarrow> string list" where
  "store_home kind = [''native-store'', ''v1'', core_kind_as_ref kind]"

definition marker_path :: "string list" where
  "marker_path = [''native-store'', ''active'']"

definition inside :: "string list \<Rightarrow> bool" where
  "inside p \<longleftrightarrow> p \<noteq> [] \<and> hd p = ''native-store''"

definition is_cache :: "string list \<Rightarrow> bool" where
  "is_cache p \<longleftrightarrow> (\<exists>kind. p = store_home kind @ [cache_name] \<or> p = store_home kind @ [selector_name])"

definition default_text :: "string \<Rightarrow> string" where
  "default_text name = (if name = selector_name then ''{}''
     else ''selected: {}'' @ [CHR 0x0A] @ ''ip_to_host: {}'' @ [CHR 0x0A] @ ''host_to_ip: {}'' @ [CHR 0x0A])"

text \<open>A cache that holds something stays as it is. One that was absent or empty gets the whole text of the file it is
  migrated from, or (a part of) the empty cache.\<close>

definition filled :: "nst \<Rightarrow> string list \<Rightarrow> nst \<Rightarrow> bool" where
  "filled s p t \<longleftrightarrow> (\<exists>text. file_with text t p \<and> (text_of s [last p] = Some text \<or> (\<exists>k. text = take k (default_text (last p)))))"

definition cache_kept :: "nst \<Rightarrow> string list \<Rightarrow> nst \<Rightarrow> bool" where
  "cache_kept s p t \<longleftrightarrow> shape t p = shape s p \<or> (shape s p = None \<or> empty_at NFile s p) \<and> filled s p t"

definition kept :: "nst \<Rightarrow> nst \<Rightarrow> bool" where
  "kept s t \<longleftrightarrow> (\<forall>p. \<not> inside p \<longrightarrow> shape t p = shape s p) \<and> (\<forall>p. is_cache p \<longrightarrow> cache_kept s p t)"

lemma kept_refl [simp]: "kept s s"
  by (simp add: kept_def cache_kept_def)

lemma kept_same: "kept s t \<Longrightarrow> same_shape t u \<Longrightarrow> kept s u"
  unfolding kept_def cache_kept_def filled_def by (simp add: same_shapeD file_with_same)

lemma is_cache_inside: "is_cache p \<Longrightarrow> inside p"
  by (auto simp: is_cache_def inside_def store_home_def)

lemma kept_only:
  assumes "kept s t" "only ps t u" "\<And>p. p \<in> ps \<Longrightarrow> inside p \<and> \<not> is_cache p"
  shows "kept s u"
proof -
  have "shape u p = shape t p" if "\<not> inside p \<or> is_cache p" for p using assms(2,3) that onlyD by blast
  then show ?thesis using assms(1) unfolding kept_def cache_kept_def filled_def file_with_def by simp
qed

lemma kept_cache:
  assumes "kept s t" "only ps t u" "\<And>q. q \<in> ps \<Longrightarrow> q \<noteq> p \<Longrightarrow> inside q \<and> \<not> is_cache q" "is_cache p"
    and "shape t p = None \<or> empty_at NFile t p" "filled s p u"
  shows "kept s u"
proof -
  have "shape u q = shape t q" if "\<not> inside q \<or> is_cache q" "q \<noteq> p" for q using assms(2,3) that onlyD by blast
  moreover have "shape s p = None \<or> empty_at NFile s p"
  proof -
    have "cache_kept s p t" using assms(1,4) by (simp add: kept_def)
    then show ?thesis using assms(5) by (auto simp: cache_kept_def empty_at_def)
  qed
  ultimately show ?thesis
    using assms(1,4,6) is_cache_inside unfolding kept_def cache_kept_def filled_def file_with_def by metis
qed

lemma filled_default: "file_with (take k (default_text (last p))) t p \<Longrightarrow> filled s p t"
  by (auto simp: filled_def)

lemma filled_empty: "empty_at NFile t p \<Longrightarrow> filled s p t"
  using filled_default [of 0 p t s] by (auto simp: empty_at_def file_with_def)

lemma kept_opened_file: "kept s t \<Longrightarrow> opened NFile p t u \<Longrightarrow> inside p \<Longrightarrow> kept s u"
proof (cases "is_cache p \<and> shape u p \<noteq> shape t p")
  case True
  assume "kept s t" "opened NFile p t u" "inside p"
  with True show ?thesis by (intro kept_cache [of s t "{p}" u p]) (auto simp: opened_def filled_empty)
next
  case False
  assume t: "kept s t" "opened NFile p t u" "inside p"
  show ?thesis
  proof (cases "is_cache p")
    case True
    with False t(2) have "same_shape t u" by (auto simp: opened_def only_def same_shape_def)
    with t(1) show ?thesis by (rule kept_same)
  next
    case False
    with t show ?thesis by (intro kept_only [of s t "{p}" u]) (auto simp: opened_def)
  qed
qed

lemma kept_opened_dir: "kept s t \<Longrightarrow> opened NDir p t u \<Longrightarrow> inside p \<Longrightarrow> \<not> is_cache p \<Longrightarrow> kept s u"
  by (rule kept_only [of s t "{p}" u]) (auto simp: opened_def)

lemma kept_copied:
  assumes "kept s t" "copied source temp p t u r" "inside temp" "\<not> is_cache temp" "inside p"
    and "is_cache p \<Longrightarrow> shape t p = None \<and> source = [last p] \<and> \<not> inside source"
  shows "kept s u"
proof (cases "is_cache p")
  case True
  have on: "only {temp, p} t u" using assms(2) by (simp add: copied_def)
  show ?thesis
  proof (cases "shape u p = shape t p")
    case True
    then have "only {temp} t u" using on by (auto simp: only_def)
    then show ?thesis by (rule kept_only [OF assms(1)]) (use assms(3,4) in auto)
  next
    case False
    then obtain body where "text_of t source = Some body" "file_with body u p" using assms(2) by (auto simp: copied_def)
    moreover have "text_of t source = text_of s source"
      using assms(1) assms(6) [OF \<open>is_cache p\<close>] unfolding text_of_def kept_def by auto
    ultimately have "filled s p u" using assms(6) [OF True] by (auto simp: filled_def)
    then show ?thesis by (rule kept_cache [OF assms(1) on, rotated 3]) (use assms(3,4) assms(6) [OF True] True in auto)
  qed
next
  case False
  moreover have "only {temp, p} t u" using assms(2) by (simp add: copied_def)
  ultimately show ?thesis by (intro kept_only [OF assms(1)]) (use assms(3-5) in auto)
qed

section \<open>Acquiring is safe\<close>

definition loose :: "string list \<Rightarrow> bool" where
  "loose p \<longleftrightarrow> inside p \<and> \<not> is_cache p \<and> p \<noteq> marker_path"

text \<open>Nothing outside the store changes, caches are kept, and the marker, the lease and what is known of processes are untouched.\<close>

definition safe :: "nst \<Rightarrow> nst \<Rightarrow> bool" where
  "safe s t \<longleftrightarrow> kept s t \<and> shape t marker_path = shape s marker_path \<and> nx_leased t = nx_leased s \<and> nx_reaper t = nx_reaper s"

lemma is_cache_length: "is_cache p \<Longrightarrow> length p = 4"
  by (auto simp: is_cache_def store_home_def)

lemma cache_names [simp]: "cache_name \<noteq> selector_name" "cache_name \<noteq> ''active''" "last (p @ [x]) = x"
  by (simp_all add: cache_name_def selector_name_def)

lemma loose_names [simp]:
  "name \<noteq> ''active'' \<Longrightarrow> loose (store_root @ [name])" "loose (store_root @ [''migration'', name])" "loose (''native-store'' # [])"
  "loose [''native-store'', ''v1'']" "loose (store_home kind)"
  "name \<noteq> cache_name \<Longrightarrow> name \<noteq> selector_name \<Longrightarrow> loose (store_home kind @ [name])"
  by (auto simp: loose_def inside_def store_root_def store_home_def marker_path_def is_cache_def)

lemma cache_paths [simp]:
  "is_cache (store_home kind @ [cache_name])" "is_cache (store_home kind @ [selector_name])"
  "inside (store_home kind @ [name])" "store_home kind @ [name] \<noteq> marker_path"
  by (auto simp: is_cache_def inside_def store_home_def marker_path_def)

lemma safe_refl [simp]: "safe s s"
  by (simp add: safe_def)

lemma safe_same: "safe s t \<Longrightarrow> same_shape t u \<Longrightarrow> safe s u"
  using kept_same [of s t u] by (simp add: safe_def same_shape_def)

lemma safe_only: "safe s t \<Longrightarrow> only ps t u \<Longrightarrow> (\<And>p. p \<in> ps \<Longrightarrow> loose p) \<Longrightarrow> safe s u"
proof -
  assume t: "safe s t" "only ps t u" and ps: "\<And>p. p \<in> ps \<Longrightarrow> loose p"
  then have "kept s u" by (intro kept_only [of s t ps u]) (auto simp: safe_def loose_def)
  moreover have "marker_path \<notin> ps" using ps by (auto simp: loose_def)
  ultimately show "safe s u" using t by (simp add: safe_def only_def)
qed

lemma safe_quiet: "safe s t \<Longrightarrow> quiet t m Q \<Longrightarrow> returns m (\<lambda>r u. safe s u \<and> same_shape t u \<and> (case r of Inl _ \<Rightarrow> True | Inr x \<Rightarrow> Q x))"
  unfolding quiet_def by (erule returns_mono) (auto intro: safe_same)

lemma safe_child: "safe s t \<Longrightarrow> loose (dir @ [name]) \<Longrightarrow>
  returns (child env owner dir name t) (\<lambda>r u. safe s u \<and> (case r of Inl _ \<Rightarrow> True | Inr q \<Rightarrow> q = dir @ [name]))"
  by (rule returns_mono [OF child_opens]) (auto simp: opened_def intro: safe_only)

lemma safe_write_marker: "safe s t \<Longrightarrow> loose (dir @ [temp]) \<Longrightarrow> loose (dir @ [name]) \<Longrightarrow> temp \<noteq> name \<Longrightarrow>
  returns (write_marker env owner dir temp name body t) (\<lambda>_ u. safe s u)"
  by (rule returns_mono [OF write_marker_places]) (auto simp: placed_def intro: safe_only)

lemma safe_copied:
  assumes "safe s t" "copied source temp p t u r" "loose temp" "inside p" "p \<noteq> marker_path"
    "is_cache p \<Longrightarrow> shape t p = None \<and> source = [last p] \<and> \<not> inside source"
  shows "safe s u"
proof -
  have "only {temp, p} t u" using assms(2) by (simp add: copied_def)
  moreover have "kept s u" using assms by (intro kept_copied [of s t source temp p u r]) (auto simp: safe_def loose_def)
  ultimately show ?thesis using assms(1,3,5) by (auto simp: safe_def only_def loose_def)
qed

lemma safe_copy_file:
  "safe s t \<Longrightarrow> source \<noteq> dir @ [name @ ''.import''] \<Longrightarrow> loose (dir @ [name @ ''.import'']) \<Longrightarrow> loose (dir @ [name]) \<Longrightarrow>
   returns (copy_file env owner source dir name t) (\<lambda>_ u. safe s u)"
  by (rule returns_mono [OF copy_file_copies]) (auto simp: loose_def intro: safe_copied)

lemma safe_copy_once:
  assumes "safe s t" "\<not> inside source" "loose (dir @ [name @ ''.import''])" "loose (dir @ [name]) \<or> is_cache (dir @ [name]) \<and> source = [name]"
  shows "returns (copy_once env owner source dir name t) (\<lambda>_ u. safe s u)"
  unfolding copy_once_def
proof (rule returns_and_doI [OF safe_quiet [OF assms(1) file_exists_tells]])
  fix present u
  assume u: "safe s u \<and> same_shape t u \<and> (case Inr present :: store_error + bool of Inl _ \<Rightarrow> True | Inr present \<Rightarrow>
    if present then \<exists>nd. inode_at t (dir @ [name]) = Some nd \<and> nd_kind nd = NFile else inode_at t (dir @ [name]) = None)"
  show "returns (if present then yield () u else copy_file env owner source dir name u) (\<lambda>_ u. safe s u)"
  proof (cases present)
    case False
    with u have "shape u (dir @ [name]) = None" using same_shapeD [of t u "dir @ [name]"] by (simp add: shape_None)
    moreover have "source \<noteq> dir @ [name @ ''.import'']" using assms(2,3) by (auto simp: loose_def)
    moreover have "inside (dir @ [name])" "dir @ [name] \<noteq> marker_path"
      using assms(4) is_cache_inside is_cache_length [of "dir @ [name]"] by (auto simp: loose_def marker_path_def)
    ultimately show ?thesis using u False assms
      by (auto intro!: returns_mono [OF copy_file_copies] intro: safe_copied simp: loose_def)
  qed (use u in \<open>simp add: yield_def\<close>)
qed simp

lemma safe_each_do: "safe s t \<Longrightarrow> (\<And>x t. x \<in> set xs \<Longrightarrow> safe s t \<Longrightarrow> returns (f x t) (\<lambda>_ u. safe s u)) \<Longrightarrow>
  returns (each_do f xs t) (\<lambda>_ u. safe s u)"
  by (induction xs arbitrary: t) (auto simp: yield_def intro!: returns_and_doI [where A = "\<lambda>_ u. safe s u"])

lemma safe_step:
  "returns m (\<lambda>r u. safe s u \<and> A r u) \<Longrightarrow> (\<And>x u. safe s u \<Longrightarrow> A (Inr x) u \<Longrightarrow> returns (f x u) (\<lambda>_ v. safe s v)) \<Longrightarrow>
   returns (and_do m f) (\<lambda>_ v. safe s v)"
  by (erule returns_and_doI) auto

lemma safe_step': "returns m (\<lambda>_ u. safe s u) \<Longrightarrow> (\<And>x u. safe s u \<Longrightarrow> returns (f x u) (\<lambda>_ v. safe s v)) \<Longrightarrow>
   returns (and_do m f) (\<lambda>_ v. safe s v)"
  by (erule returns_and_doI) auto

lemma safe_yield [simp]: "returns (yield x t) (\<lambda>_ v. safe s v) \<longleftrightarrow> safe s t"
  and safe_refuse [simp]: "returns (refuse e t) (\<lambda>_ v. safe s v) \<longleftrightarrow> safe s t"
  by (simp_all add: yield_def refuse_def)

lemma safe_exists_then:
  "safe s t \<Longrightarrow> (\<And>u. safe s u \<Longrightarrow> returns (f u) (\<lambda>_ v. safe s v)) \<Longrightarrow> (\<And>u. safe s u \<Longrightarrow> returns (g u) (\<lambda>_ v. safe s v)) \<Longrightarrow>
   returns (and_do (file_exists env dir name t) (\<lambda>present u. if present then f u else g u)) (\<lambda>_ v. safe s v)"
  by (rule safe_step [OF safe_quiet [OF _ file_exists_tells]]) simp_all

lemma safe_read_then:
  "safe s t \<Longrightarrow> (\<And>u. safe s u \<Longrightarrow> returns (f (dir @ [name]) u) (\<lambda>_ v. safe s v)) \<Longrightarrow>
   returns (and_do (read_handle env dir name t) f) (\<lambda>_ v. safe s v)"
  by (rule safe_step [OF safe_quiet [OF _ quiet_read_handle [OF same_shape_refl]]]) simp_all

lemma safe_child_then:
  "safe s t \<Longrightarrow> loose (dir @ [name]) \<Longrightarrow> (\<And>u. safe s u \<Longrightarrow> returns (f (dir @ [name]) u) (\<lambda>_ v. safe s v)) \<Longrightarrow>
   returns (and_do (child env owner dir name t) f) (\<lambda>_ v. safe s v)"
  by (rule safe_step [OF safe_child]) simp_all

lemma safe_absent_then:
  "safe s t \<Longrightarrow> (\<And>u. safe s u \<Longrightarrow> returns (g u) (\<lambda>_ v. safe s v)) \<Longrightarrow>
   returns (and_do (file_exists env dir name t) (\<lambda>present u. if \<not> present then yield () u else g u)) (\<lambda>_ v. safe s v)"
  by (rule safe_step [OF safe_quiet [OF _ file_exists_tells]]) simp_all

lemma quiet_validate: "quiet t (validate_selector_json env p t) (\<lambda>_. True)"
  unfolding validate_selector_json_def by (rule quiet_and_do [OF quiet_read_text]) simp_all

lemma quiet_format: "quiet t (cache_format_of env p t) (\<lambda>f. \<exists>body. text_of t p = Some body \<and> f = classify_cache env body)"
  unfolding cache_format_of_def by (rule quiet_and_do [OF quiet_read_text]) simp_all

lemma quiet_try_lock: "quiet t (try_lock env p q t) (\<lambda>_. True)"
  unfolding try_lock_def by (rule quiet_call) auto

lemma safe_quiet_then: "safe s t \<Longrightarrow> quiet t m Q \<Longrightarrow> (\<And>x u. safe s u \<Longrightarrow> Q x \<Longrightarrow> returns (f x u) (\<lambda>_ v. safe s v)) \<Longrightarrow>
   returns (and_do m f) (\<lambda>_ v. safe s v)"
  by (rule safe_step [OF safe_quiet]) auto

lemma not_inside_name [simp]: "\<not> inside [cache_name]" "\<not> inside [selector_name]"
  by (simp_all add: inside_def cache_name_def selector_name_def)

lemma import_names [simp]:
  "cache_name @ ''.import'' \<noteq> cache_name" "cache_name @ ''.import'' \<noteq> selector_name" "selector_name @ ''.import'' \<noteq> cache_name"
  "selector_name @ ''.import'' \<noteq> selector_name"
  by (simp_all add: cache_name_def selector_name_def)

lemma migration_child [simp]: "loose ((store_root @ [''migration'']) @ [name])"
  using loose_names(2) by simp

lemma safe_migrate_meow: "safe s t \<Longrightarrow> returns (migrate_meow env owner store_root (store_home kind) t) (\<lambda>_ u. safe s u)"
  unfolding migrate_meow_def
  by (intro safe_exists_then safe_absent_then safe_read_then safe_quiet_then [OF _ quiet_validate] safe_child_then
      safe_step' [OF safe_copy_once] safe_write_marker) simp_all

lemma home_children [simp]:
  "loose (store_root @ [''v1''])" "loose ((store_root @ [''v1'']) @ [core_kind_as_ref kind])"
  "((store_root @ [''v1'']) @ [core_kind_as_ref kind]) @ [name] = store_home kind @ [name]"
  using loose_names(5) [of kind] by (simp_all add: store_root_def store_home_def)

lemma safe_import_cache: "safe s t \<Longrightarrow> returns (import_cache env owner store_root [cache_name] kind t) (\<lambda>_ u. safe s u)"
  unfolding import_cache_def
  apply (rule safe_child_then, assumption, simp)
  apply (rule safe_step' [OF safe_copy_once], assumption, simp, simp, simp)
  apply (rule safe_child_then, assumption, simp)
  apply (rule safe_child_then, assumption, simp only: home_children)
  apply (rule safe_quiet_then [OF _ file_exists_tells], assumption)
  apply (rule safe_step')
   apply (rule returns_if)
    apply simp
   apply (rule safe_copy_once, assumption, simp, simp only: home_children, simp, simp only: home_children cache_paths, simp)
  apply (rule safe_write_marker, assumption, simp, simp, simp)
  done

lemma safe_migrate: "safe s t \<Longrightarrow> returns (migrate env owner legacy store_root (store_home kind) t) (\<lambda>_ u. safe s u)"
  unfolding migrate_def
  apply (rule safe_exists_then, assumption, simp)
  apply (rule safe_exists_then, assumption, simp)
  apply (rule safe_absent_then, assumption)
  apply (rule safe_read_then, assumption)
  apply (rule safe_quiet_then [OF _ quiet_try_lock], assumption)
  apply (rule safe_quiet_then [OF _ quiet_format], assumption)
  apply (auto split: option.split sum.split intro: safe_import_cache)
  done

lemma resource_names: "name \<in> set RESOURCES \<Longrightarrow> name \<noteq> cache_name \<and> name \<noteq> selector_name \<and> name @ ''.import'' \<noteq> cache_name
  \<and> name @ ''.import'' \<noteq> selector_name"
  unfolding RESOURCES_def by (auto simp: cache_name_def selector_name_def)

lemma quiet_newer: "same_shape s t \<Longrightarrow> quiet s (and_do (metadata env input t) (\<lambda>ours s. and_do (read_handle env dest name s) (\<lambda>p s.
    and_do (metadata env p s) (\<lambda>theirs s. yield (nd_modified theirs < nd_modified ours) s)))) (\<lambda>_. True)"
  by (rule quiet_and_do [OF quiet_metadata], assumption, rule quiet_and_do [OF quiet_read_handle], assumption,
      rule quiet_and_do [OF quiet_metadata]) auto

lemma safe_seed_resource:
  assumes "safe s t" "name \<in> set RESOURCES"
  shows "returns (seed_resource env owner [] (store_home kind) name t) (\<lambda>_ u. safe s u)"
  unfolding seed_resource_def
proof (rule safe_absent_then [OF assms(1)], rule safe_read_then)
  fix u assume u: "safe s u"
  have copy: "returns (copy_file env owner ([] @ [name]) (store_home kind) name v) (\<lambda>_ u. safe s u)" if "safe s v" for v
  proof -
    have "[] @ [name] \<noteq> store_home kind @ [name @ ''.import'']" by (simp add: store_home_def)
    then show ?thesis using that resource_names [OF assms(2)] by (intro safe_copy_file) simp_all
  qed
  show "returns (and_do (file_exists env (store_home kind) name u) (\<lambda>there s. and_do (if there
      then and_do (metadata env ([] @ [name]) s) (\<lambda>ours s. and_do (read_handle env (store_home kind) name s) (\<lambda>p s.
        and_do (metadata env p s) (\<lambda>theirs s. yield (nd_modified theirs < nd_modified ours) s)))
      else yield True s) (\<lambda>replace s. if replace then copy_file env owner ([] @ [name]) (store_home kind) name s else yield () s)))
    (\<lambda>_ u. safe s u)"
  proof (rule safe_quiet_then [OF u file_exists_tells])
    fix there v assume v: "safe s v"
    have "quiet v (if there then and_do (metadata env ([] @ [name]) v) (\<lambda>ours s. and_do (read_handle env (store_home kind) name s) (\<lambda>p s.
        and_do (metadata env p s) (\<lambda>theirs s. yield (nd_modified theirs < nd_modified ours) s))) else yield True v) (\<lambda>_. True)"
      using quiet_newer [OF same_shape_refl] by simp
    then show "returns (and_do (if there
        then and_do (metadata env ([] @ [name]) v) (\<lambda>ours s. and_do (read_handle env (store_home kind) name s) (\<lambda>p s.
          and_do (metadata env p s) (\<lambda>theirs s. yield (nd_modified theirs < nd_modified ours) s)))
        else yield True v) (\<lambda>replace s. if replace then copy_file env owner ([] @ [name]) (store_home kind) name s else yield () s))
      (\<lambda>_ u. safe s u)"
      by (rule safe_quiet_then [OF v]) (auto intro: copy [simplified])
  qed
qed

lemma safe_seed_resources: "safe s t \<Longrightarrow> returns (seed_resources env owner [] (store_home kind) t) (\<lambda>_ u. safe s u)"
  unfolding seed_resources_def by (rule safe_each_do) (auto intro: safe_seed_resource)

lemma safe_opened:
  assumes "safe s t" "opened NFile p t u" "inside p" "p \<noteq> marker_path"
  shows "safe s u"
proof -
  have "only {p} t u" using assms(2) by (simp add: opened_def)
  moreover have "kept s u" using assms kept_opened_file by (auto simp: safe_def)
  ultimately show ?thesis using assms(1,4) by (simp add: safe_def only_def)
qed

lemma safe_open_cache:
  "safe s t \<Longrightarrow> returns (file_handle env owner True (store_home kind) name t)
     (\<lambda>r u. safe s u \<and> handle_of (store_home kind @ [name]) NFile u r)"
  by (rule returns_mono [OF file_handle_opens]) (auto intro: safe_opened)

lemma safe_write_default:
  assumes "safe s t" "file_with [] t p" "is_cache p" "p \<noteq> marker_path"
  shows "returns (and_do (write_text env p (default_text (last p)) t) (\<lambda>_ s. sync_handle env s)) (\<lambda>_ u. safe s u)"
proof (rule safe_step' [OF returns_mono [OF write_changes [OF assms(2)]]])
  fix r u assume u: "only {p} t u \<and> (case r :: store_error + unit of Inl _ \<Rightarrow> \<exists>k. file_with (take k (default_text (last p))) u p
    | Inr _ \<Rightarrow> file_with (default_text (last p)) u p)"
  then obtain k where "file_with (take k (default_text (last p))) u p"
    by (cases r) (auto intro: that [of "length (default_text (last p))"])
  then have "kept s u"
    using u assms by (intro kept_cache [of s t "{p}" u p]) (auto simp: safe_def empty_at_def file_with_def filled_default)
  then show "safe s u" using u assms(1,4) by (auto simp: safe_def only_def)
qed (auto intro!: returns_mono [OF safe_quiet [OF _ quiet_sync [OF same_shape_refl]]])

lemma handle_empty: "inode_at t p = Some nd \<Longrightarrow> nd_kind nd = NFile \<Longrightarrow> text_of t p = Some [] \<Longrightarrow> file_with [] t p"
  by (auto simp: text_of_def shape_def file_with_def)

lemma classify_empty: "classify_cache env body = CacheEmpty \<Longrightarrow> body = []"
  by (auto simp: classify_cache_def Let_def split: if_splits option.splits yaml_value.splits)

lemma safe_check_selector:
  assumes "safe s t"
  shows "returns (check_cache env owner \<lparr>le_root = store_root, le_home = store_home kind, le_kind = Meow\<rparr> t) (\<lambda>_ u. safe s u)"
proof -
  let ?p = "store_home kind @ [selector_name]"
  have default: "default_text (last ?p) = ''{}''" by (simp add: default_text_def)
  have "returns (and_do (metadata env q u) (\<lambda>meta s.
      and_do (if nd_text meta = [] then and_do (write_text env q ''{}'' s) (\<lambda>_ s. sync_handle env s) else yield () s) (\<lambda>_ s.
      validate_selector_json env q s))) (\<lambda>_ u. safe s u)" if u: "safe s u" "handle_of ?p NFile u (Inr q)" for q u
  proof -
    from u(2) obtain nd where q [simp]: "q = ?p" and nd: "inode_at u ?p = Some nd" "nd_kind nd = NFile" by (auto simp: handle_of_def)
    show ?thesis
    proof (rule safe_step [OF safe_quiet [OF u(1) quiet_metadata [OF same_shape_refl]]])
      fix meta v assume v: "safe s v" and m: "same_shape u v \<and> (case Inr meta :: store_error + inode of Inl _ \<Rightarrow> True
        | Inr x \<Rightarrow> \<exists>old. inode_at u q = Some old \<and> nd_kind old = nd_kind x \<and> nd_text old = nd_text x \<and> nd_modified old = nd_modified x)"
      have "file_with [] v ?p" if "nd_text meta = []"
        using m that nd by (subst file_with_same [of u v]) (auto simp: file_with_def shape_def)
      then have "returns (if nd_text meta = [] then and_do (write_text env q ''{}'' v) (\<lambda>_ s. sync_handle env s) else yield () v) (\<lambda>_ u. safe s u)"
        using safe_write_default [OF v, of ?p env] v default by (simp only: safe_yield cache_paths simp_thms q split: if_split) blast
      then show "returns (and_do (if nd_text meta = [] then and_do (write_text env q ''{}'' v) (\<lambda>_ s. sync_handle env s) else yield () v)
          (\<lambda>_ s. validate_selector_json env q s)) (\<lambda>_ u. safe s u)"
        by (rule safe_step') (auto intro!: returns_mono [OF safe_quiet [OF _ quiet_validate]])
    qed
  qed
  then show ?thesis unfolding check_cache_def lease.select_convs simp_thms if_True
    by (rule safe_step [OF safe_open_cache [OF assms]])
qed

lemma safe_check_db:
  assumes "safe s t" "kind \<noteq> Meow"
  shows "returns (check_cache env owner \<lparr>le_root = store_root, le_home = store_home kind, le_kind = kind\<rparr> t) (\<lambda>_ u. safe s u)"
proof -
  let ?p = "store_home kind @ [cache_name]"
  let ?default = "''selected: {}'' @ [CHR 0x0A] @ ''ip_to_host: {}'' @ [CHR 0x0A] @ ''host_to_ip: {}'' @ [CHR 0x0A]"
  have default: "default_text (last ?p) = ?default" by (simp add: default_text_def cache_name_def selector_name_def)
  have "returns (and_do (cache_format_of env q u) (\<lambda>format s. case format of
          CacheEmpty \<Rightarrow> if kind = ClashRust \<or> kind = ChimeraClient
            then and_do (write_text env q ?default s) (\<lambda>_ s. sync_handle env s) else yield () s
        | CacheYaml \<Rightarrow> if kind = ClashRust \<or> kind = ChimeraClient then yield () s else refuse (SFormat q) s
        | CacheBolt \<Rightarrow> if kind = Mihomo \<or> kind = ClashPremium then yield () s else refuse (SFormat q) s
        | CacheUnknown \<Rightarrow> refuse (SFormat q) s)) (\<lambda>_ u. safe s u)" if u: "safe s u" "handle_of ?p NFile u (Inr q)" for q u
  proof -
    from u(2) obtain nd where q [simp]: "q = ?p" and nd: "inode_at u ?p = Some nd" "nd_kind nd = NFile" by (auto simp: handle_of_def)
    show ?thesis
    proof (rule safe_step [OF safe_quiet [OF u(1) quiet_format]])
      fix format v assume v: "safe s v" and m: "same_shape u v \<and> (case Inr format :: store_error + cache_format of Inl _ \<Rightarrow> True
        | Inr x \<Rightarrow> \<exists>body. text_of u q = Some body \<and> x = classify_cache env body)"
      have "returns (and_do (write_text env q ?default v) (\<lambda>_ s. sync_handle env s)) (\<lambda>_ u. safe s u)" if "format = CacheEmpty"
      proof -
        have "text_of u ?p = Some []" using m that by (auto dest!: classify_empty [OF sym])
        then have "file_with [] v ?p" using handle_empty [OF nd] m by (simp add: file_with_same [of u v])
        then show ?thesis using safe_write_default [OF v, of ?p env] by (simp only: default cache_paths q) simp
      qed
      then show "returns (case format of
          CacheEmpty \<Rightarrow> if kind = ClashRust \<or> kind = ChimeraClient
            then and_do (write_text env q ?default v) (\<lambda>_ s. sync_handle env s) else yield () v
        | CacheYaml \<Rightarrow> if kind = ClashRust \<or> kind = ChimeraClient then yield () v else refuse (SFormat q) v
        | CacheBolt \<Rightarrow> if kind = Mihomo \<or> kind = ClashPremium then yield () v else refuse (SFormat q) v
        | CacheUnknown \<Rightarrow> refuse (SFormat q) v) (\<lambda>_ u. safe s u)"
        using v by (cases format) simp_all
    qed
  qed
  then show ?thesis unfolding check_cache_def lease.select_convs using assms(2)
    by (simp only: if_False) (rule safe_step [OF safe_open_cache [OF assms(1)]])
qed

lemmas safe_check_cache = safe_check_selector safe_check_db

lemma is_cache_last: "is_cache p \<Longrightarrow> \<not> inside [last p]"
  by (auto simp: is_cache_def)

lemma kept_trans: "kept s t \<Longrightarrow> kept t u \<Longrightarrow> kept s u"
proof -
  assume st: "kept s t" and tu: "kept t u"
  have "cache_kept s p u" if p: "is_cache p" for p
  proof -
    have "text_of t [last p] = text_of s [last p]" using st is_cache_last [OF p] by (simp add: kept_def text_of_def)
    then have "filled t p u \<longleftrightarrow> filled s p u" by (simp add: filled_def)
    moreover have "cache_kept s p t" "cache_kept t p u" using st tu p by (simp_all add: kept_def)
    moreover have "filled s p t \<Longrightarrow> shape u p = shape t p \<Longrightarrow> filled s p u" by (simp add: filled_def file_with_def)
    ultimately show ?thesis by (auto simp: cache_kept_def empty_at_def)
  qed
  then show ?thesis using st tu by (simp add: kept_def)
qed

definition proven_dead :: "native_env \<Rightarrow> nst \<Rightarrow> bool" where
  "proven_dead env s \<longleftrightarrow> (\<exists>body u. text_of s marker_path = Some body
     \<and> recorded_process_is_alive (ne_procs env) (take 16384 body) (nx_reaper s) = Some (Inr False, u))"

lemma recorded_alive_returns: "returns (recorded_process_is_alive env raw u) (\<lambda>_ _. True)"
  unfolding recorded_process_is_alive_def
  by (auto simp: done_with_def query_def split: sum.split option.split intro!: returns_and_do)
    (metis prod.collapse returns_Some)

lemma marker_not_cache [simp]: "\<not> is_cache marker_path" "inside marker_path"
  using is_cache_length [of marker_path] by (auto simp: marker_path_def inside_def)

text \<open>The marker is left as it is, or it is removed because its process is proven dead; only then does the check succeed.\<close>

definition settled :: "native_env \<Rightarrow> nst \<Rightarrow> nst \<Rightarrow> bool" where
  "settled env s t \<longleftrightarrow> kept s t \<and> nx_leased t = nx_leased s
     \<and> (shape t marker_path = shape s marker_path \<or> shape t marker_path = None \<and> proven_dead env s)"

lemma remove_marker:
  assumes "kept s t" "nx_leased t = nx_leased s" "shape t marker_path = shape s marker_path"
  shows "returns (remove_at env store_root ''active'' t) (\<lambda>r u. kept s u \<and> nx_leased u = nx_leased s
     \<and> (case r of Inl _ \<Rightarrow> shape u marker_path = shape s marker_path | Inr _ \<Rightarrow> shape u marker_path = None))" (is "returns _ ?Q")
proof -
  let ?t = "t\<lparr>nx_calls := Suc (nx_calls t)\<rparr>"
  have p: "store_root @ [''active''] = marker_path" by (simp add: store_root_def marker_path_def)
  have "kept s (drop_inode marker_path ?t)"
    by (rule kept_only [OF assms(1), of "{marker_path}"]) (auto simp: only_def shape_def)
  then have removed: "?Q (Inr ()) (drop_inode marker_path ?t)" using assms(2) by (simp add: shape_def)
  have failed: "?Q (Inl e) ?t" for e :: store_error
    using assms kept_same [OF assms(1), of ?t] same_shapeD [of t ?t marker_path] by simp
  have absent: "?Q (Inr ()) ?t" if "inode_at t marker_path = None"
    using that assms kept_same [OF assms(1), of ?t] by (simp add: shape_def)
  show ?thesis unfolding remove_at_def p call_def Let_def
    using removed failed absent by (cases "faulted env t"; cases "inode_at t marker_path") (simp_all add: yield_def refuse_def)
qed

lemma remove_marker_settles:
  assumes "kept s t" "nx_leased t = nx_leased s" "shape t marker_path = shape s marker_path" "proven_dead env s"
  shows "returns (remove_at env store_root ''active'' t) (\<lambda>r u. settled env s u \<and> (case r of Inl _ \<Rightarrow> True | Inr _ \<Rightarrow> shape u marker_path = None))"
  by (rule returns_mono [OF remove_marker [OF assms(1-3)]]) (use assms(4) in \<open>auto simp: settled_def split: sum.splits\<close>)

lemma judge_marker_settles:
  assumes "safe s t" "text_of s marker_path = Some body"
  shows "returns (judge_marker env store_root (take 16384 body) t)
    (\<lambda>r u. settled env s u \<and> (case r of Inl _ \<Rightarrow> True | Inr _ \<Rightarrow> shape u marker_path = None))"
proof -
  obtain r v where alive: "recorded_process_is_alive (ne_procs env) (take 16384 body) (nx_reaper s) = Some (r, v)"
    using recorded_alive_returns [of "ne_procs env" "take 16384 body" "nx_reaper s"] by (auto elim: returnsE)
  let ?t = "t\<lparr>nx_reaper := v\<rparr>"
  have "process_alive env (take 16384 body) t = Some (r, ?t)" using alive assms(1) by (simp add: process_alive_def safe_def)
  moreover have shape: "shape ?t q = shape t q" for q by (simp add: shape_def)
  moreover have kept: "kept s ?t"
    using assms(1) shape unfolding safe_def kept_def cache_kept_def filled_def file_with_def by simp
  moreover have "nx_leased ?t = nx_leased s" "shape ?t marker_path = shape s marker_path" using assms(1) shape by (simp_all add: safe_def)
  moreover have "r = Inr False \<Longrightarrow> proven_dead env s" using alive assms(2) by (auto simp: proven_dead_def)
  ultimately show ?thesis using remove_marker_settles [of s ?t env]
    by (cases r) (auto simp: judge_marker_def refuse_def settled_def)
qed

lemma settle_marker_settles:
  assumes "safe s t"
  shows "returns (settle_marker env store_root t) (\<lambda>r u. settled env s u \<and> (case r of Inl _ \<Rightarrow> True | Inr _ \<Rightarrow> shape u marker_path = None))"
    (is "returns _ ?Q")
proof -
  have p: "store_root @ [''active''] = marker_path" by (simp add: store_root_def marker_path_def)
  have settled: "settled env s u" if "safe s u" for u using that by (simp add: settled_def safe_def)
  have read: "returns (and_do (read_text env marker_path v) (\<lambda>body s.
      if \<not> utf8 (take 16384 body) then refuse (io_fail IoInvalidData ''stream did not contain valid UTF-8'') s
      else judge_marker env store_root (take 16384 body) s)) ?Q" if v: "safe s v" for v
  proof (rule returns_and_doI [OF safe_quiet [OF v quiet_read_text [OF same_shape_refl]]])
    fix body w assume w: "safe s w \<and> same_shape v w \<and> (case Inr body :: store_error + string of Inl _ \<Rightarrow> True | Inr x \<Rightarrow> text_of v marker_path = Some x)"
    then have "text_of s marker_path = Some body" using v by (simp add: text_of_def safe_def)
    then show "returns (if \<not> utf8 (take 16384 body) then refuse (io_fail IoInvalidData ''stream did not contain valid UTF-8'') w
        else judge_marker env store_root (take 16384 body) w) ?Q"
      using judge_marker_settles [of s w body env] w settled by (simp add: refuse_def)
  qed (simp add: settled)
  show ?thesis unfolding settle_marker_def
  proof (rule returns_and_doI [OF safe_quiet [OF assms file_exists_tells]], unfold p)
    fix present u assume u: "safe s u \<and> same_shape t u \<and> (case Inr present :: store_error + bool of Inl _ \<Rightarrow> True | Inr present \<Rightarrow>
      if present then \<exists>nd. inode_at t marker_path = Some nd \<and> nd_kind nd = NFile else inode_at t marker_path = None)"
    have "returns (and_do (read_handle env store_root ''active'' u) (\<lambda>p s. and_do (read_text env p s) (\<lambda>body s.
        if \<not> utf8 (take 16384 body) then refuse (io_fail IoInvalidData ''stream did not contain valid UTF-8'') s
        else judge_marker env store_root (take 16384 body) s))) ?Q"
      using u by (intro returns_and_doI [OF safe_quiet [OF _ quiet_read_handle [OF same_shape_refl]]]) (auto simp: p settled intro: read)
    moreover have "shape u marker_path = None" if "\<not> present"
      using u that same_shapeD [of t u marker_path] by (simp add: shape_None)
    ultimately show "returns (if \<not> present then yield () u else and_do (read_handle env store_root ''active'' u) (\<lambda>p s. and_do (read_text env p s) (\<lambda>body s.
        if \<not> utf8 (take 16384 body) then refuse (io_fail IoInvalidData ''stream did not contain valid UTF-8'') s
        else judge_marker env store_root (take 16384 body) s))) ?Q"
      using u settled by (simp add: yield_def)
  qed (simp add: settled)
qed

lemma store_root_loose [simp]: "loose store_root"
  using loose_names(3) by (simp add: store_root_def)

lemma directories_safe:
  assumes "safe s t"
  shows "returns (directories env owner kind t) (\<lambda>r u. safe s u \<and> (case r of Inl _ \<Rightarrow> True | Inr q \<Rightarrow> q = (store_root, store_home kind)))"
    (is "returns _ ?Q")
proof (cases "owner = MissingOwner")
  case False
  have home: "((([] @ [''native-store'']) @ [''v1'']) @ [core_kind_as_ref kind]) = store_home kind" "[] @ [''native-store''] = store_root"
    by (simp_all add: store_home_def store_root_def)
  have third: "returns (and_do (child env owner (store_root @ [''v1'']) (core_kind_as_ref kind) u) (\<lambda>home s. yield (store_root, home) s)) ?Q"
    if "safe s u" for u
  proof -
    have "(store_root @ [''v1'']) @ [core_kind_as_ref kind] = store_home kind" by (simp add: store_root_def store_home_def)
    then show ?thesis using loose_names(5) [of kind] by (intro returns_and_doI [OF safe_child [OF that]]) (simp_all add: yield_def)
  qed
  have second: "returns (and_do (child env owner store_root ''v1'' u) (\<lambda>version s. and_do (child env owner version (core_kind_as_ref kind) s)
      (\<lambda>home s. yield (store_root, home) s))) ?Q" if "safe s u" for u
    by (rule returns_and_doI [OF safe_child [OF that]]) (auto intro: third [simplified])
  have first: "returns (and_do (child env owner [] ''native-store'' u) (\<lambda>root s. and_do (child env owner root ''v1'' s) (\<lambda>version s.
      and_do (child env owner version (core_kind_as_ref kind) s) (\<lambda>home s. yield (root, home) s)))) ?Q" if "safe s u" for u
    by (rule returns_and_doI [OF safe_child [OF that]]) (auto simp: home(2) [simplified] intro: second)
  show ?thesis unfolding directories_def using False
    by simp (rule returns_and_doI [OF safe_quiet [OF assms quiet_directory_open [OF same_shape_refl]]], auto intro: first)
qed (use assms in \<open>simp add: directories_def refuse_def\<close>)

definition lease_of :: "core_kind \<Rightarrow> lease" where
  "lease_of kind = \<lparr>le_root = store_root, le_home = store_home kind, le_kind = kind\<rparr>"

lemma safe_repair: "safe s t \<Longrightarrow> returns (repair_tree_at env owner dir t) (\<lambda>_ u. safe s u)"
  by (rule returns_mono [OF safe_quiet [OF _ quiet_repair [OF same_shape_refl]]]) auto

lemma acquire_rest:
  assumes "safe s t"
  shows "returns (and_do (repair_tree_at env owner (store_home kind) t) (\<lambda>_ s.
      and_do (if kind = Meow then migrate_meow env owner store_root (store_home kind) s else migrate env owner legacy store_root (store_home kind) s) (\<lambda>_ s.
      and_do (seed_resources env owner [] (store_home kind) s) (\<lambda>_ s.
      let l = lease_of kind in and_do (check_cache env owner l s) (\<lambda>_ s. yield l s)))))
    (\<lambda>r u. safe s u \<and> (case r of Inl _ \<Rightarrow> True | Inr l \<Rightarrow> l = lease_of kind))" (is "returns _ ?Q")
proof -
  have check: "returns (let l = lease_of kind in and_do (check_cache env owner l u) (\<lambda>_ s. yield l s)) ?Q" if "safe s u" for u
    using safe_check_cache [OF that] by (cases "kind = Meow")
      (auto simp: Let_def lease_of_def yield_def intro!: returns_and_doI [where A = "\<lambda>_ u. safe s u"])
  have seed: "returns (and_do (seed_resources env owner [] (store_home kind) u) (\<lambda>_ s.
      let l = lease_of kind in and_do (check_cache env owner l s) (\<lambda>_ s. yield l s))) ?Q" if "safe s u" for u
    by (rule returns_and_doI [OF safe_seed_resources [OF that]]) (auto intro: check)
  have migration: "returns (if kind = Meow then migrate_meow env owner store_root (store_home kind) u
      else migrate env owner legacy store_root (store_home kind) u) (\<lambda>_ u. safe s u)" if "safe s u" for u
    using that safe_migrate_meow safe_migrate by simp
  have rest: "returns (and_do (if kind = Meow then migrate_meow env owner store_root (store_home kind) u
      else migrate env owner legacy store_root (store_home kind) u) (\<lambda>_ s. and_do (seed_resources env owner [] (store_home kind) s) (\<lambda>_ s.
      let l = lease_of kind in and_do (check_cache env owner l s) (\<lambda>_ s. yield l s)))) ?Q" if "safe s u" for u
    by (rule returns_and_doI [OF migration [OF that]]) (simp, rule seed)
  show ?thesis by (rule returns_and_doI [OF safe_repair [OF assms]]) (simp, rule rest)
qed

lemma acquire_locked_settles:
  assumes "safe s t"
  shows "returns (acquire_locked env owner legacy kind store_root (store_home kind) t)
    (\<lambda>r u. settled env s u \<and> (case r of Inl _ \<Rightarrow> True | Inr l \<Rightarrow> l = lease_of kind \<and> shape u marker_path = None))"
  unfolding acquire_locked_def lease_of_def [symmetric]
proof (rule returns_and_doI [OF settle_marker_settles [OF assms]])
  fix x u assume u: "settled env s u \<and> (case Inr x :: store_error + unit of Inl _ \<Rightarrow> True | Inr _ \<Rightarrow> shape u marker_path = None)"
  have "settled env s v" "shape v marker_path = None" if "safe u v" for v
    using u that kept_trans [of s u v] by (auto simp: settled_def safe_def)
  then show "returns (and_do (repair_tree_at env owner (store_home kind) u) (\<lambda>_ s.
      and_do (if kind = Meow then migrate_meow env owner store_root (store_home kind) s else migrate env owner legacy store_root (store_home kind) s) (\<lambda>_ s.
      and_do (seed_resources env owner [] (store_home kind) s) (\<lambda>_ s.
      let l = lease_of kind in and_do (check_cache env owner l s) (\<lambda>_ s. yield l s)))))
    (\<lambda>r u. settled env s u \<and> (case r of Inl _ \<Rightarrow> True | Inr l \<Rightarrow> l = lease_of kind \<and> shape u marker_path = None))"
    by (intro returns_mono [OF acquire_rest [OF safe_refl]]) (auto split: sum.splits)
qed simp

lemma shape_leased: "shape (t\<lparr>nx_leased := b\<rparr>) p = shape t p"
  by (simp add: shape_def)

lemma kept_leased: "kept s (t\<lparr>nx_leased := b\<rparr>) \<longleftrightarrow> kept s t" "kept (s\<lparr>nx_leased := b\<rparr>) t \<longleftrightarrow> kept s t"
  by (simp_all add: kept_def cache_kept_def filled_def file_with_def empty_at_def text_of_def shape_leased)

lemma acquire_safe_rule:
  "returns (acquire env owner legacy kind s) (\<lambda>r t. kept s t
     \<and> (shape t marker_path = shape s marker_path \<or> shape t marker_path = None \<and> proven_dead env s)
     \<and> (case r of
          Inl _ \<Rightarrow> nx_leased t = nx_leased s
        | Inr l \<Rightarrow> l = lease_of kind \<and> \<not> nx_leased s \<and> nx_leased t \<and> shape t marker_path = None))" (is "returns _ ?Q")
proof -
  have fail: "?Q (Inl e) t" if "safe s t" for e :: store_error and t using that by (simp add: safe_def)
  have locked: "returns (map_option (\<lambda>(r, s). (r, case r of Inl _ \<Rightarrow> drop_lease s | Inr _ \<Rightarrow> s))
      (acquire_locked env owner legacy kind store_root (store_home kind) (u\<lparr>nx_leased := True\<rparr>))) ?Q"
    if u: "safe s u" "\<not> nx_leased u" for u
  proof -
    let ?u = "u\<lparr>nx_leased := True\<rparr>"
    obtain r v where v: "acquire_locked env owner legacy kind store_root (store_home kind) ?u = Some (r, v)" "settled env ?u v"
      "case r of Inl _ \<Rightarrow> True | Inr l \<Rightarrow> l = lease_of kind \<and> shape v marker_path = None"
      using acquire_locked_settles [OF safe_refl, of env owner legacy kind ?u] by (auto elim: returnsE)
    have "kept s v" "proven_dead env ?u \<longleftrightarrow> proven_dead env s" "shape ?u marker_path = shape s marker_path"
      using u(1) v(2) kept_trans [of s u v] by (auto simp: settled_def safe_def kept_leased proven_dead_def text_of_def shape_leased)
    then show ?thesis using v u by (cases r) (auto simp: settled_def drop_lease_def kept_leased shape_leased safe_def)
  qed
  have taken: "returns (and_do (take_lease env store_root u) (\<lambda>_ s. map_option (\<lambda>(r, s). (r, case r of Inl _ \<Rightarrow> drop_lease s | Inr _ \<Rightarrow> s))
      (acquire_locked env owner legacy kind store_root (store_home kind) s))) ?Q" if u: "safe s u" for u
  proof -
    let ?u = "u\<lparr>nx_calls := Suc (nx_calls u)\<rparr>"
    have safe: "safe s ?u" using u by (rule safe_same) simp
    consider "take_lease env store_root u = Some (Inr (), ?u\<lparr>nx_leased := True\<rparr>)" "\<not> nx_leased ?u"
      | e where "take_lease env store_root u = Some (Inl e, ?u)"
      by (cases "faulted env u"; cases "nx_leased u \<or> ne_held env (nx_calls ?u) (store_root @ [''lease.lock''])")
        (auto simp: take_lease_def call_def Let_def)
    then show ?thesis
    proof cases
      case 1
      then show ?thesis using locked [OF safe 1(2)] by (simp only: and_do_simps)
    next
      case 2
      then show ?thesis using fail [OF safe] by (simp only: and_do_simps returns_Some)
    qed
  qed
  have opened: "returns (and_do (file_handle env owner True store_root ''lease.lock'' u) (\<lambda>_ s. and_do (take_lease env store_root s) (\<lambda>_ s.
      map_option (\<lambda>(r, s). (r, case r of Inl _ \<Rightarrow> drop_lease s | Inr _ \<Rightarrow> s))
        (acquire_locked env owner legacy kind store_root (store_home kind) s)))) ?Q" if u: "safe s u" for u
  proof -
    have "returns (file_handle env owner True store_root ''lease.lock'' u) (\<lambda>_ v. safe s v)"
      by (rule returns_mono [OF file_handle_opens]) (auto simp: opened_def intro: safe_only [OF u])
    then show ?thesis by (rule returns_and_doI) (erule fail, erule taken)
  qed
  show ?thesis unfolding acquire_def
    by (rule returns_and_doI [OF directories_safe [OF safe_refl]]) (elim conjE, erule fail, simp only: sum.case prod.case, elim conjE, erule opened)
qed

text \<open>C36. Whatever fails while the native store is acquired, the files of the user outside it stay as they are and no cache with
  anything in it is overwritten: a cache that was absent or empty holds the whole migrated file, or the empty cache of its core. The store is
  handed out only when this host did not hold it and no marker names a process: the marker is absent, or its
  process is proven dead, which is the only reason to remove it. A failure gives the lock back. The walk over the tree ends.\<close>

theorem acquire_safe:
  "returns (acquire env owner legacy kind s) (\<lambda>r t. kept s t
     \<and> (shape t marker_path = shape s marker_path \<or> shape t marker_path = None \<and> proven_dead env s)
     \<and> (case r of
          Inl _ \<Rightarrow> nx_leased t = nx_leased s
        | Inr l \<Rightarrow> l = lease_of kind \<and> \<not> nx_leased s \<and> nx_leased t \<and> shape t marker_path = None))"
  by (rule acquire_safe_rule)

section \<open>The marker guards the store\<close>

lemma lines_from_subset: "line \<in> set (lines_from acc body) \<Longrightarrow> set line \<subseteq> set acc \<union> set body"
proof (induction acc body rule: lines_from.induct)
  case (2 acc c cs)
  then show ?case by (cases acc) (auto split: if_splits)
qed (auto split: if_splits)

lemma not_a_record: "CHR ''='' \<notin> set raw \<Longrightarrow> \<exists>e. parse_epoch_record os raw = Inl e"
proof (cases "str_lines raw")
  case Nil
  then show ?thesis by (simp add: parse_epoch_record_def record_keys_def)
next
  case (Cons line rest)
  assume "CHR ''='' \<notin> set raw"
  then have "CHR ''='' \<notin> set line" using lines_from_subset [of line "[]" raw] Cons by (auto simp: str_lines_def)
  then have "split_once ''='' line = None" by (induction line) (auto simp: starts_with_def)
  then show ?thesis by (simp add: parse_epoch_record_def Cons)
qed

lemma kind_name_plain: "CHR ''='' \<notin> set (core_kind_as_ref kind)"
  by (cases kind) simp_all

lemma unfinished_marker: "text_of s marker_path = Some (take k (core_kind_as_ref kind)) \<Longrightarrow> \<not> proven_dead env s"
proof
  assume marker: "text_of s marker_path = Some (take k (core_kind_as_ref kind))" and "proven_dead env s"
  then obtain u where "recorded_process_is_alive (ne_procs env) (take 16384 (take k (core_kind_as_ref kind))) (nx_reaper s) = Some (Inr False, u)"
    by (auto simp: proven_dead_def)
  moreover have "CHR ''='' \<notin> set (take 16384 (take k (core_kind_as_ref kind)))"
    using kind_name_plain by (auto dest!: in_set_takeD)
  then obtain e where "parse_epoch_record (pv_platform (ne_procs env)) (take 16384 (take k (core_kind_as_ref kind))) = Inl e"
    using not_a_record by blast
  ultimately show False by (simp add: recorded_process_is_alive_def done_with_def)
qed

text \<open>While a process is being launched the marker is as before, or an unfinished one that nothing can prove dead.\<close>

definition unfinished :: "core_kind \<Rightarrow> nst \<Rightarrow> bool" where
  "unfinished kind t \<longleftrightarrow> (\<exists>k. text_of t marker_path = Some (take k (core_kind_as_ref kind)))"

definition marked :: "core_kind \<Rightarrow> nst \<Rightarrow> nst \<Rightarrow> bool" where
  "marked kind s t \<longleftrightarrow> kept s t \<and> nx_leased t = nx_leased s \<and> (shape t marker_path = shape s marker_path \<or> unfinished kind t)"

lemma file_with_text: "file_with body t p \<Longrightarrow> text_of t p = Some body"
  by (auto simp: file_with_def text_of_def)

lemma marked_only:
  assumes "safe s t" "only {marker_path} t u" "shape u marker_path = shape t marker_path \<or> file_with (take k (core_kind_as_ref kind)) u marker_path"
  shows "marked kind s u"
proof -
  have "kept s u" by (rule kept_only [of s t "{marker_path}"]) (use assms in \<open>auto simp: safe_def\<close>)
  then show ?thesis using assms file_with_text by (auto simp: marked_def safe_def only_def unfinished_def)
qed

lemma marker_written:
  assumes "safe s t"
  shows "returns (and_do (file_handle env owner True store_root ''active'' t) (\<lambda>p s. and_do (truncate_file env p s) (\<lambda>_ s.
      and_do (write_text env p (core_kind_as_ref kind) s) (\<lambda>_ s. and_do (sync_handle env s) (\<lambda>_ s. sync_handle env s)))))
    (\<lambda>r u. marked kind s u \<and> (case r of Inl _ \<Rightarrow> True | Inr _ \<Rightarrow> text_of u marker_path = Some (core_kind_as_ref kind)))"
    (is "returns _ ?Q")
proof -
  have p: "store_root @ [''active''] = marker_path" by (simp add: store_root_def marker_path_def)
  have synced: "returns (and_do (sync_handle env v) (\<lambda>_ s. sync_handle env s)) ?Q"
    if v: "only {marker_path} t v" "file_with (core_kind_as_ref kind) v marker_path" for v
  proof -
    have finished: "marked kind s w \<and> text_of w marker_path = Some (core_kind_as_ref kind)" if "same_shape v w" for w
      using v that marked_only [OF assms only_after [OF v(1) that], of "length (core_kind_as_ref kind)"] file_with_text
      by (simp add: file_with_same)
    have "quiet v (and_do (sync_handle env v) (\<lambda>_ s. sync_handle env s)) (\<lambda>_. True)"
      by (rule quiet_and_do [OF quiet_sync]) (auto intro: quiet_sync)
    then show ?thesis unfolding quiet_def by (rule returns_mono) (auto dest: finished split: sum.split)
  qed
  show ?thesis
  proof (rule open_and_truncate, unfold p)
    fix u assume u: "only {marker_path} t u" "file_with [] u marker_path"
    show "returns (and_do (write_text env marker_path (core_kind_as_ref kind) u) (\<lambda>_ s. and_do (sync_handle env s) (\<lambda>_ s. sync_handle env s))) ?Q"
    proof (rule returns_and_doI [OF write_changes [OF u(2)]])
      fix e v assume v: "only {marker_path} u v \<and> (case Inl e :: store_error + unit of Inl _ \<Rightarrow> \<exists>k. file_with (take k (core_kind_as_ref kind)) v marker_path
        | Inr _ \<Rightarrow> file_with (core_kind_as_ref kind) v marker_path)"
      then show "?Q (Inl e) v" using only_trans [OF u(1), of "{marker_path}" v] marked_only [OF assms] by auto
    next
      fix x v assume v: "only {marker_path} u v \<and> (case Inr x :: store_error + unit of Inl _ \<Rightarrow> \<exists>k. file_with (take k (core_kind_as_ref kind)) v marker_path
        | Inr _ \<Rightarrow> file_with (core_kind_as_ref kind) v marker_path)"
      then show "returns (and_do (sync_handle env v) (\<lambda>_ s. sync_handle env s)) ?Q"
        using only_trans [OF u(1), of "{marker_path}" v] by (intro synced) auto
    qed
  next
    fix e u assume "only {marker_path} t u" "shape u marker_path = shape t marker_path \<or> file_with [] u marker_path"
    then show "?Q (Inl e) u" using marked_only [OF assms, of u 0 kind] by simp
  qed
qed

lemma prepare_spawn_marks:
  "returns (prepare_spawn env owner (lease_of kind) s)
     (\<lambda>r u. marked kind s u \<and> (case r of Inl _ \<Rightarrow> True | Inr _ \<Rightarrow> text_of u marker_path = Some (core_kind_as_ref kind)))" (is "returns _ ?Q")
proof -
  have fail: "?Q (Inl e) u" if "safe s u" for e :: store_error and u using that by (simp add: marked_def safe_def)
  have check: "returns (check_cache env owner (lease_of kind) u) (\<lambda>_ v. safe s v)" if "safe s u" for u
    using safe_check_cache [OF that] by (cases "kind = Meow") (auto simp: lease_of_def)
  have writing: "returns (and_do (check_cache env owner (lease_of kind) u) (\<lambda>_ s.
      and_do (file_handle env owner True store_root ''active'' s) (\<lambda>p s. and_do (truncate_file env p s) (\<lambda>_ s.
      and_do (write_text env p (core_kind_as_ref kind) s) (\<lambda>_ s. and_do (sync_handle env s) (\<lambda>_ s. sync_handle env s)))))) ?Q"
    if "safe s u" for u
    by (rule returns_and_doI [OF check [OF that]]) (erule fail, erule marker_written)
  have sel: "le_root (lease_of kind) = store_root" "le_home (lease_of kind) = store_home kind" "le_kind (lease_of kind) = kind"
    by (simp_all add: lease_of_def)
  show ?thesis unfolding prepare_spawn_def sel
    by (rule returns_and_doI [OF safe_repair [OF safe_refl]]) (erule fail, erule writing)
qed

text \<open>C37. Once a launch is prepared the store is closed to everybody: from the state it leaves, even when the host dies
  and its lock is lost, no attempt to acquire the store succeeds or touches the marker, because a marker that names only a
  core cannot be proven dead. A preparation that fails has left the marker as it was or such an unfinished one, and spares the
  files of the user and the caches like an acquisition does.\<close>

theorem prepared_store_is_guarded:
  "returns (prepare_spawn env owner (lease_of kind) s) (\<lambda>r t. kept s t
     \<and> (case r of
          Inl _ \<Rightarrow> shape t marker_path = shape s marker_path \<or> unfinished kind t
        | Inr _ \<Rightarrow> returns (acquire env' owner' legacy kind' (drop_lease t)) (\<lambda>r' u.
            (case r' of Inl _ \<Rightarrow> shape u marker_path = shape t marker_path | Inr _ \<Rightarrow> False))))"
proof (rule returns_mono [OF prepare_spawn_marks])
  fix r t assume t: "marked kind s t \<and> (case r :: store_error + unit of Inl _ \<Rightarrow> True | Inr _ \<Rightarrow> text_of t marker_path = Some (core_kind_as_ref kind))"
  have "returns (acquire env' owner' legacy kind' (drop_lease t)) (\<lambda>r' u.
      (case r' of Inl _ \<Rightarrow> shape u marker_path = shape t marker_path | Inr _ \<Rightarrow> False))"
    if "text_of t marker_path = Some (core_kind_as_ref kind)"
  proof -
    have "text_of (drop_lease t) marker_path = Some (take (length (core_kind_as_ref kind)) (core_kind_as_ref kind))"
      using that by (simp add: text_of_def drop_lease_def shape_leased)
    then have "\<not> proven_dead env' (drop_lease t)" by (rule unfinished_marker)
    moreover have "shape t marker_path \<noteq> None" using that by (auto simp: text_of_def)
    ultimately show ?thesis
      by (intro returns_mono [OF acquire_safe_rule]) (auto simp: drop_lease_def shape_leased split: sum.splits)
  qed
  then show "kept s t \<and> (case r of Inl _ \<Rightarrow> shape t marker_path = shape s marker_path \<or> unfinished kind t
      | Inr _ \<Rightarrow> returns (acquire env' owner' legacy kind' (drop_lease t)) (\<lambda>r' u.
          (case r' of Inl _ \<Rightarrow> shape u marker_path = shape t marker_path | Inr _ \<Rightarrow> False)))"
    using t by (cases r) (simp_all add: marked_def)
qed

text \<open>The record of the process replaces the marker as a whole or not at all; a confirmed stop removes it.\<close>

lemma record_started_marks:
  "returns (record_started env owner (lease_of kind) s) (\<lambda>r t. kept s t
     \<and> (shape t marker_path = shape s marker_path \<or> (\<exists>raw. ne_pid_record env (nx_calls s) = Inr raw \<and> file_with raw t marker_path))
     \<and> (case r of Inl _ \<Rightarrow> True | Inr _ \<Rightarrow> \<exists>raw. ne_pid_record env (nx_calls s) = Inr raw \<and> file_with raw t marker_path))" (is "returns _ ?Q")
proof (cases "ne_pid_record env (nx_calls s)")
  case (Inr raw)
  obtain r v where alive: "recorded_process_is_alive (ne_procs env) raw (nx_reaper s) = Some (r, v)"
    using recorded_alive_returns [of "ne_procs env" raw "nx_reaper s"] by (auto elim: returnsE)
  let ?s = "s\<lparr>nx_reaper := v\<rparr>"
  have shape: "shape ?s q = shape s q" for q by (simp add: shape_def)
  have p: "store_root @ [''active''] = marker_path" "loose (store_root @ [''active.new''])"
    by (simp_all add: store_root_def marker_path_def loose_def inside_def is_cache_def store_home_def)
  have "?Q r' t" if t: "placed (store_root @ [''active.new'']) (store_root @ [''active'']) raw ?s t r'" for r' t
  proof -
    have on: "only {store_root @ [''active.new''], marker_path} ?s t" using t p by (simp add: placed_def)
    have "kept ?s t" by (rule kept_only [OF kept_refl on]) (use p in \<open>auto simp: loose_def\<close>)
    moreover have "kept s t \<longleftrightarrow> kept ?s t"
      by (simp add: kept_def cache_kept_def filled_def empty_at_def text_of_def shape)
    ultimately show ?thesis using t p shape Inr by (auto simp: placed_def installed_def split: sum.splits)
  qed
  then show ?thesis using alive shape write_marker_places [of "''active.new''" "''active''" env owner store_root raw ?s]
    by (cases r) (auto simp: record_started_def process_alive_def Inr refuse_def lease_of_def kept_def cache_kept_def elim!: returns_mono)
qed (simp add: record_started_def refuse_def)

lemma confirm_stopped_clears:
  "returns (confirm_stopped env owner (lease_of kind) s) (\<lambda>r t. kept s t \<and> nx_leased t = nx_leased s
     \<and> (case r of Inl _ \<Rightarrow> shape t marker_path = shape s marker_path \<or> shape t marker_path = None | Inr _ \<Rightarrow> shape t marker_path = None))"
    (is "returns _ ?Q")
proof -
  have synced: "returns (sync_handle env t) ?Q" if "kept s t" "nx_leased t = nx_leased s" "shape t marker_path = None" for t
  proof (rule returns_mono [OF quiet_sync [OF same_shape_refl, of t env, unfolded quiet_def]])
    fix r u assume "same_shape t u \<and> (case r :: store_error + unit of Inl _ \<Rightarrow> True | Inr _ \<Rightarrow> True)"
    then have u: "same_shape t u" by simp
    have "shape u marker_path = None" "kept s u" "nx_leased u = nx_leased s"
      using that same_shapeD [OF u] kept_same [OF that(1) u] u by (simp_all add: same_shape_def)
    then show "?Q r u" by (cases r) simp_all
  qed
  have sel: "le_root (lease_of kind) = store_root" "le_home (lease_of kind) = store_home kind" by (simp_all add: lease_of_def)
  have cleared: "returns (and_do (remove_at env store_root ''active'' t) (\<lambda>_ s. sync_handle env s)) ?Q" if "safe s t" for t
    by (rule returns_and_doI [OF remove_marker]) (use that in \<open>auto simp: safe_def intro: synced\<close>)
  have failed: "?Q (Inl e) t" if "safe s t" for e :: store_error and t using that by (simp add: safe_def)
  show ?thesis unfolding confirm_stopped_def sel
    by (rule returns_and_doI [OF safe_repair [OF safe_refl]]) (erule failed, erule cleared)
qed

end
