(* ===== verification/Probe_Driver.thy ===== *)
theory Probe_Driver
  imports Instance_Life
begin

text \<open>
  The task that probes one run of a core (\<open>health/driver.rs\<close>): it waits for the next probe, takes commands, makes one attempt at
  a time under a timeout, and reports what it saw to the monitor. The answers of the probe, the clock, the commands and the
  cancellation come from outside, as steps of the relation.
\<close>

section \<open>State\<close>

text \<open>The number of a reconcile stands for its response channel.\<close>

datatype driver_command = UseLiveness | ReconcileNow nat

record driver_config =
  dc_run_id :: u64
  dc_pid :: u32
  dc_liveness :: bool
  dc_policy :: health_policy
  dc_show_duration :: "nat \<Rightarrow> string"
  dc_now_ms :: "nat \<Rightarrow> int"

record attempt =
  at_phase :: probe_phase
  at_liveness :: bool
  at_started :: nat
  at_response :: "nat option"

record report =
  rt_observation :: probe_observation
  rt_phase :: probe_phase
  rt_started :: nat

record driver =
  dv_now :: nat
  dv_next :: nat
  dv_periodic :: "probe_phase option"
  dv_queue :: "driver_command list"
  dv_sender :: bool
  dv_cancelled :: bool
  dv_attempt :: "attempt option"
  dv_ended :: bool
  dv_reports :: "report list"
  dv_answers :: "(nat \<times> probe_result) list"

section \<open>Operations\<close>

definition driver_start :: "nat \<Rightarrow> driver" where
  "driver_start now = \<lparr>dv_now = now, dv_next = now, dv_periodic = Some Readiness, dv_queue = [], dv_sender = True, dv_cancelled = False,
     dv_attempt = None, dv_ended = False, dv_reports = [], dv_answers = []\<rparr>"

definition begin_attempt :: "probe_phase \<Rightarrow> bool \<Rightarrow> nat option \<Rightarrow> driver \<Rightarrow> driver" where
  "begin_attempt phase liveness response s =
     s\<lparr>dv_attempt := Some \<lparr>at_phase = phase, at_liveness = liveness, at_started = dv_now s, at_response = response\<rparr>\<rparr>"

definition driver_use_liveness :: "driver \<Rightarrow> driver" where
  "driver_use_liveness s = s\<lparr>dv_queue := dv_queue s @ [UseLiveness]\<rparr>"

definition driver_reconcile :: "nat \<Rightarrow> driver \<Rightarrow> driver" where
  "driver_reconcile response s = s\<lparr>dv_queue := dv_queue s @ [ReconcileNow response]\<rparr>"

definition take_command :: "driver_config \<Rightarrow> driver_command \<Rightarrow> driver_command list \<Rightarrow> driver \<Rightarrow> driver" where
  "take_command cfg command rest s =
     (let s = s\<lparr>dv_queue := rest\<rparr> in
      case command of
        UseLiveness \<Rightarrow> s\<lparr>dv_periodic := (if dc_liveness cfg then Some Liveness else None), dv_next := dv_now s + hp_interval (dc_policy cfg)\<rparr>
      | ReconcileNow response \<Rightarrow> begin_attempt Reconcile (dc_liveness cfg) (Some response) s)"

definition rearm :: "driver_config \<Rightarrow> attempt \<Rightarrow> driver \<Rightarrow> driver" where
  "rearm cfg a s = (if at_phase a = Reconcile then s else s\<lparr>dv_next := dv_now s + hp_interval (dc_policy cfg)\<rparr>)"

definition attempt_cancelled :: "driver_config \<Rightarrow> attempt \<Rightarrow> driver \<Rightarrow> driver" where
  "attempt_cancelled cfg a s = rearm cfg a (s\<lparr>dv_attempt := None\<rparr>)"

definition attempt_ends :: "driver_config \<Rightarrow> attempt \<Rightarrow> probe_result \<Rightarrow> driver \<Rightarrow> driver" where
  "attempt_ends cfg a result s = rearm cfg a (s\<lparr>dv_attempt := None,
     dv_answers := dv_answers s @ (case at_response a of Some response \<Rightarrow> [(response, result)] | None \<Rightarrow> []),
     dv_reports := dv_reports s @ [\<lparr>rt_observation = \<lparr>po_run_id = dc_run_id cfg, po_pid = dc_pid cfg, po_completed_at = dv_now s,
       po_completed_at_ms = dc_now_ms cfg (dv_now s), po_result = result\<rparr>, rt_phase = at_phase a, rt_started = at_started a\<rparr>]\<rparr>)"

definition timed_out_result :: "driver_config \<Rightarrow> probe_result" where
  "timed_out_result cfg = ProbeUnhealthy (Some (''probe timed out after '' @ dc_show_duration cfg (hp_timeout (dc_policy cfg))))"

section \<open>The task and what surrounds it\<close>

text \<open>The arms of the loop are taken in the order of the source: cancellation, commands, the timer.\<close>

definition waiting :: "driver \<Rightarrow> bool" where
  "waiting s \<longleftrightarrow> dv_attempt s = None \<and> \<not> dv_ended s"

inductive driver_step :: "driver_config \<Rightarrow> driver \<Rightarrow> driver \<Rightarrow> bool" for cfg where
  ticks: "driver_step cfg s (s\<lparr>dv_now := dv_now s + d\<rparr>)"
| asks_liveness: "dv_sender s \<Longrightarrow> driver_step cfg s (driver_use_liveness s)"
| asks_reconcile: "dv_sender s \<Longrightarrow> driver_step cfg s (driver_reconcile response s)"
| cancels: "driver_step cfg s (s\<lparr>dv_cancelled := True\<rparr>)"
| drops: "driver_step cfg s (s\<lparr>dv_cancelled := True, dv_sender := False\<rparr>)"
| sees_cancel: "waiting s \<Longrightarrow> dv_cancelled s \<Longrightarrow> driver_step cfg s (s\<lparr>dv_ended := True\<rparr>)"
| takes: "waiting s \<Longrightarrow> \<not> dv_cancelled s \<Longrightarrow> dv_queue s = command # rest \<Longrightarrow> driver_step cfg s (take_command cfg command rest s)"
| closes: "waiting s \<Longrightarrow> \<not> dv_cancelled s \<Longrightarrow> dv_queue s = [] \<Longrightarrow> \<not> dv_sender s \<Longrightarrow> driver_step cfg s (s\<lparr>dv_ended := True\<rparr>)"
| probes: "waiting s \<Longrightarrow> \<not> dv_cancelled s \<Longrightarrow> dv_queue s = [] \<Longrightarrow> dv_sender s \<Longrightarrow> dv_periodic s = Some phase \<Longrightarrow> dv_next s \<le> dv_now s \<Longrightarrow>
    driver_step cfg s (begin_attempt phase (phase = Liveness) None s)"
| interrupted: "dv_attempt s = Some a \<Longrightarrow> dv_cancelled s \<Longrightarrow> driver_step cfg s (attempt_cancelled cfg a s)"
| answered: "dv_attempt s = Some a \<Longrightarrow> \<not> dv_cancelled s \<Longrightarrow> driver_step cfg s (attempt_ends cfg a result s)"
| timed_out: "dv_attempt s = Some a \<Longrightarrow> \<not> dv_cancelled s \<Longrightarrow> at_started a + hp_timeout (dc_policy cfg) \<le> dv_now s \<Longrightarrow>
    driver_step cfg s (attempt_ends cfg a (timed_out_result cfg) s)"

inductive_cases driver_stepE: "driver_step cfg s t"

definition driver_init :: "driver \<Rightarrow> bool" where
  "driver_init s \<longleftrightarrow> (\<exists>now. s = driver_start now)"

section \<open>Invariant\<close>

definition completed :: "report \<Rightarrow> nat" where
  "completed r = po_completed_at (rt_observation r)"

definition periodic :: "report \<Rightarrow> bool" where
  "periodic r \<longleftrightarrow> rt_phase r \<noteq> Reconcile"

text \<open>A periodic probe starts an interval after the one before it ended, and readiness is not asked again after liveness.\<close>

definition follows :: "driver_config \<Rightarrow> report \<Rightarrow> report \<Rightarrow> bool" where
  "follows cfg a b \<longleftrightarrow> completed a \<le> rt_started b \<and> (periodic a \<and> periodic b \<longrightarrow> completed a + hp_interval (dc_policy cfg) \<le> rt_started b)
     \<and> \<not> (rt_phase a = Liveness \<and> rt_phase b = Readiness)"

definition of_this_run :: "driver_config \<Rightarrow> report \<Rightarrow> bool" where
  "of_this_run cfg r \<longleftrightarrow> po_run_id (rt_observation r) = dc_run_id cfg \<and> po_pid (rt_observation r) = dc_pid cfg \<and> rt_started r \<le> completed r
     \<and> (rt_phase r = Liveness \<longrightarrow> dc_liveness cfg)"

text \<open>What holds between the reports and the next attempt, when it starts at a given time in a given phase.\<close>

definition clear_for :: "driver_config \<Rightarrow> driver \<Rightarrow> probe_phase \<Rightarrow> nat \<Rightarrow> bool" where
  "clear_for cfg s phase begun \<longleftrightarrow> list_all (\<lambda>r. completed r \<le> begun \<and> (periodic r \<and> phase \<noteq> Reconcile \<longrightarrow> completed r + hp_interval (dc_policy cfg) \<le> begun)
     \<and> \<not> (rt_phase r = Liveness \<and> phase = Readiness)) (dv_reports s) \<and> (phase = Liveness \<longrightarrow> dc_liveness cfg)"

definition driver_inv :: "driver_config \<Rightarrow> driver \<Rightarrow> bool" where
  "driver_inv cfg s \<longleftrightarrow> sorted_wrt (follows cfg) (dv_reports s) \<and> list_all (of_this_run cfg) (dv_reports s)
     \<and> list_all (\<lambda>r. completed r \<le> dv_now s \<and> (periodic r \<longrightarrow> completed r + hp_interval (dc_policy cfg) \<le> dv_next s)) (dv_reports s)
     \<and> (case dv_attempt s of Some a \<Rightarrow> at_started a \<le> dv_now s \<and> clear_for cfg s (at_phase a) (at_started a) | None \<Rightarrow> True)
     \<and> (case dv_periodic s of Some phase \<Rightarrow> phase \<noteq> Reconcile \<and> (phase = Liveness \<longrightarrow> dc_liveness cfg)
          \<and> (phase = Readiness \<longrightarrow> list_all (\<lambda>r. rt_phase r \<noteq> Liveness) (dv_reports s)
               \<and> (case dv_attempt s of Some a \<Rightarrow> at_phase a \<noteq> Liveness | None \<Rightarrow> True))
        | None \<Rightarrow> True)
     \<and> (case dv_attempt s of Some a \<Rightarrow> at_phase a = Readiness \<longrightarrow> dv_periodic s = Some Readiness | None \<Rightarrow> True)"

lemma driver_init_inv: "driver_init s \<Longrightarrow> driver_inv cfg s"
  by (auto simp: driver_init_def driver_start_def driver_inv_def)

lemma attempt_ends_inv:
  assumes "driver_inv cfg s" "dv_attempt s = Some a"
  shows "driver_inv cfg (attempt_ends cfg a result s)"
  using assms
  by (auto simp: driver_inv_def attempt_ends_def rearm_def clear_for_def sorted_wrt_append follows_def of_this_run_def periodic_def completed_def
      list_all_iff split: option.splits)

lemma driver_step_inv: "driver_inv cfg s \<Longrightarrow> driver_step cfg s t \<Longrightarrow> driver_inv cfg t"
proof (erule driver_stepE)
  fix a result assume "driver_inv cfg s" "dv_attempt s = Some a" "t = attempt_ends cfg a result s"
  then show "driver_inv cfg t" using attempt_ends_inv by simp
next
  fix a assume "driver_inv cfg s" "dv_attempt s = Some a" "t = attempt_ends cfg a (timed_out_result cfg) s"
  then show "driver_inv cfg t" using attempt_ends_inv by simp
next
  fix command rest
  assume "driver_inv cfg s" "waiting s" "t = take_command cfg command rest s"
  then show "driver_inv cfg t"
    by (cases command) (auto simp: driver_inv_def waiting_def take_command_def Let_def begin_attempt_def clear_for_def list_all_iff split: option.splits)
next
  fix phase
  assume "driver_inv cfg s" "waiting s" "dv_periodic s = Some phase" "dv_next s \<le> dv_now s" "t = begin_attempt phase (phase = Liveness) None s"
  then show "driver_inv cfg t"
    by (auto simp: driver_inv_def waiting_def begin_attempt_def clear_for_def list_all_iff split: option.splits)
next
  fix a assume "driver_inv cfg s" "dv_attempt s = Some a" "t = attempt_cancelled cfg a s"
  then show "driver_inv cfg t"
    by (auto simp: driver_inv_def attempt_cancelled_def rearm_def list_all_iff split: option.splits)
qed (auto simp: driver_inv_def driver_use_liveness_def driver_reconcile_def clear_for_def list_all_iff split: option.splits)

interpretation probing: invariant_system driver_init "driver_step cfg" "driver_inv cfg" for cfg
  by unfold_locales (auto intro: driver_init_inv driver_step_inv)

text \<open>Nothing is reported or answered after the cancellation.\<close>

definition silenced :: "driver \<Rightarrow> driver \<Rightarrow> bool" where
  "silenced s t \<longleftrightarrow> dv_cancelled t \<and> dv_reports t = dv_reports s \<and> dv_answers t = dv_answers s"

interpretation silence: stable_property driver_init "driver_step cfg" "driver_inv cfg" "silenced s" for cfg s
proof unfold_locales
  fix u v assume "driver_inv cfg u" "silenced s u" "driver_step cfg u v"
  then show "silenced s v"
    by (auto simp: silenced_def driver_use_liveness_def driver_reconcile_def attempt_cancelled_def rearm_def elim!: driver_stepE)
qed

definition sample_driver :: driver_config where
  "sample_driver = \<lparr>dc_run_id = 1, dc_pid = 77, dc_liveness = True, dc_policy = \<lparr>hp_interval = 10, hp_timeout = 5, hp_failure_threshold = 3,
     hp_success_threshold = 1, hp_start_period = 0\<rparr>, dc_show_duration = show_nat, dc_now_ms = int\<rparr>"

definition sample_probed :: driver where
  "sample_probed = attempt_ends sample_driver \<lparr>at_phase = Readiness, at_liveness = False, at_started = 3, at_response = None\<rparr> ProbeHealthy
     (begin_attempt Readiness False None (driver_start 3))"

lemma sample_probed_reach: "reach driver_init (driver_step sample_driver) sample_probed"
proof -
  have "reach driver_init (driver_step sample_driver) (driver_start 3)" by (rule reach_init) (auto simp: driver_init_def)
  moreover have "driver_step sample_driver (driver_start 3) (begin_attempt Readiness False None (driver_start 3))"
    using driver_step.probes [of "driver_start 3" Readiness sample_driver] by (simp add: waiting_def driver_start_def)
  moreover have "driver_step sample_driver (begin_attempt Readiness False None (driver_start 3)) sample_probed"
    unfolding sample_probed_def by (rule driver_step.answered) (simp_all add: begin_attempt_def driver_start_def)
  ultimately show ?thesis by (meson reach_step)
qed

text \<open>C33. The driver makes one attempt at a time and reports them in the order it made them: every report is of this run, a periodic probe
  starts at least an interval after the one before it ended, readiness is not probed again once liveness is, and liveness
  only when the core has such a probe. Once cancelled it reports and answers nothing more, not even the attempt under way.\<close>

theorem probe_driver_disciplined:
  assumes "reach driver_init (driver_step cfg) s" "(driver_step cfg)\<^sup>*\<^sup>* s t"
  shows "sorted_wrt (follows cfg) (dv_reports t) \<and> list_all (of_this_run cfg) (dv_reports t)
    \<and> (dv_cancelled s \<longrightarrow> dv_reports t = dv_reports s \<and> dv_answers t = dv_answers s)"
proof -
  have inv: "driver_inv cfg s" using probing.reach_inv [OF assms(1)] .
  have "driver_inv cfg t" using probing.steps_inv [OF assms(2) inv] .
  moreover have "silenced s t" if "dv_cancelled s" using silence.stays [OF assms(2) inv, of s] that by (simp add: silenced_def)
  ultimately show ?thesis by (auto simp: driver_inv_def silenced_def)
qed

theorem probe_driver_disciplined_witness:
  "length (dv_reports sample_probed) = 1 \<and> list_all (of_this_run sample_driver) (dv_reports sample_probed)
   \<and> dv_reports (attempt_cancelled sample_driver \<lparr>at_phase = Readiness, at_liveness = False, at_started = 3, at_response = None\<rparr>
       ((begin_attempt Readiness False None (driver_start 3))\<lparr>dv_cancelled := True\<rparr>)) = []"
proof -
  let ?a = "\<lparr>at_phase = Readiness, at_liveness = False, at_started = 3, at_response = None\<rparr>"
  let ?u = "(begin_attempt Readiness False None (driver_start 3))\<lparr>dv_cancelled := True\<rparr>"
  have "reach driver_init (driver_step sample_driver) (driver_start 3)" by (rule reach_init) (auto simp: driver_init_def)
  then have "reach driver_init (driver_step sample_driver) (begin_attempt Readiness False None (driver_start 3))"
    by (rule reach_step) (use driver_step.probes [of "driver_start 3" Readiness sample_driver] in \<open>simp add: waiting_def driver_start_def\<close>)
  then have "reach driver_init (driver_step sample_driver) ?u" by (rule reach_step) (rule driver_step.cancels)
  moreover have "(driver_step sample_driver)\<^sup>*\<^sup>* ?u (attempt_cancelled sample_driver ?a ?u)"
    by (intro r_into_rtranclp driver_step.interrupted) (simp_all add: begin_attempt_def driver_start_def)
  ultimately have "dv_reports (attempt_cancelled sample_driver ?a ?u) = []"
    using probe_driver_disciplined [of sample_driver ?u "attempt_cancelled sample_driver ?a ?u"] by (simp add: begin_attempt_def driver_start_def)
  moreover have "list_all (of_this_run sample_driver) (dv_reports sample_probed)"
    using probe_driver_disciplined [OF sample_probed_reach rtranclp.rtrancl_refl] by blast
  moreover have "length (dv_reports sample_probed) = 1"
    by (simp add: sample_probed_def attempt_ends_def rearm_def begin_attempt_def driver_start_def)
  ultimately show ?thesis by blast
qed

end
