(* ===== verification/Spec2Isabelle.thy ===== *)
theory Spec2Isabelle
  imports Control_Properties Log_Parser Supervisor Process_Pump Pid_Safety Instance_Life Log_Sink Service_Bridge Native_Safety Probe_Driver
begin

text \<open>
  A verification library for the core service (the Rust workspace under \<open>src/\<close>): the part that runs a
  proxy core as a child process, keeps exactly one of them alive, changes its configuration as
  transactions, survives its own crashes, and serves all of this as idempotent operations.

  \<^bold>\<open>The program.\<close> A host submits commands to the control plane (\<open>control/\<close>). Its executor runs them one at
  a time as transactions of the core manager (\<open>manager/\<close>). The manager prepares a configuration
  document (\<open>config/\<close>, \<open>native_store/\<close>), writes it into the runtime directory (\<open>config/runtime_store.rs\<close>
  on \<open>io/atomic_fs.rs\<close>), launches a runtime through its backend, waits for readiness, retires the old one,
  converges the DNS override and publishes a status. A runtime is a supervised process
  (\<open>chimera-utils/src/process/\<close>) whose console output is parsed (\<open>log.rs\<close>) and whose controller is probed
  (\<open>health/\<close>). Each process has a record (\<open>pid_file.rs\<close>) by which the next manager reaps what this one left.

  \<^bold>\<open>Theories, in the order of the code.\<close>
  \<^item> Prelude, Utf8, Digits, Transition_Systems: machine integers, results, the transaction calculus
    \<open>returns\<close>, text of the Rust standard library over bytes, numbers in text, and reachability with the
    locales of an invariant (\<open>invariant_system\<close>) and of a stable property (\<open>stable_property\<close>).
  \<^item> Core_Types (\<open>chimera-core-metadata\<close>, \<open>epoch.rs\<close>, \<open>state.rs\<close>, \<open>error.rs\<close>), Health (\<open>health/mod.rs\<close>), Specs
    (\<open>spec.rs\<close>, \<open>kind.rs\<close>, \<open>capability.rs\<close>): identifiers, published states, errors, the health tracker, launch
    arguments and the resolution of features.
  \<^item> Yaml, Config (\<open>config/\<close>), Native_Paths (\<open>native_store/\<close>): documents, canonical form, diff,
    classification of a change, the managed controller, bootstrap and effective documents, rebasing.
  \<^item> Runtime_Store (\<open>config/runtime_store.rs\<close>, \<open>io/atomic_fs.rs\<close>): the runtime directory under arbitrary
    I/O faults.
  \<^item> Manager_State, Dns_Sync, Transactions, Switching, Apply (\<open>manager/\<close>): the state of the manager as a
    record, and every transaction as a function to a result and a state, or to a panic. Frames,
    Manager_Safety, Manager_Runs, Manager_Switch, Manager_Apply, Manager_Build and Manager_Properties prove
    what the transactions keep and what their answers mean.
  \<^item> Operations, Control (\<open>control/mod.rs\<close>, \<open>control/executor.rs\<close>): commands, digests, the registry, and the
    control plane as a step relation over the model of the manager; Control_Properties has its theorems.
  \<^item> Supervisor (\<open>process/supervisor.rs\<close>): the supervision task as a step relation. Process_Pump
    (\<open>process/engine.rs\<close>, \<open>handle.rs\<close>): the task that pumps one child, under back pressure and kills.
  \<^item> Pid_Record, Pid_File (\<open>process/pid_file.rs\<close>): the text of a pid record, identities of processes and the
    reaping protocol; Pid_Safety has its theorems.
  \<^item> Log_Text, Log_Parser (\<open>log.rs\<close>): normalization of console output.
  \<^item> Instance, Instance_Life (\<open>instance.rs\<close>): one runtime as the manager sees it, its status under the
    interleaving of its tasks, and the stop that confirms the death of the process.
  \<^item> Log_Sink (\<open>log_sink.rs\<close>): the archive of console output, its rotation and its shutdown.
  \<^item> Probe_Driver (\<open>health/driver.rs\<close>): the task that probes a run, under commands and cancellation.
  \<^item> Native_Files, Native_Safety (\<open>native_store/fs.rs\<close>): acquisition of the native store, its lock and marker,
    the migration of caches, and what survives any fault.
  \<^item> Service_Bridge (\<open>chimera_service/src/server/manager_bridge.rs\<close>): the projection of the manager onto both wire protocols, the
    echo of reconciles, and the shutdown with its retries.

  \<^bold>\<open>How state and effects correspond.\<close> A struct is a record with the same fields, an enum a datatype, a
  fallible function a function into \<open>error + 'a\<close>. An operation under the control lock is a function from the
  state to \<open>((error + 'a) \<times> mgr) option\<close>, where \<open>None\<close> is a panic. A call to the outside (file system, process
  table, backend, DNS, HTTP, clock) is a function in an environment record whose first argument is the number
  of calls made so far: nothing is assumed of its answers, so a theorem about an operation holds for every
  interleaving of answers and failures. Tasks that run concurrently (executor, supervisor) are inductive step
  relations whose steps are the critical sections of the code; the callers and the environment are steps too.

  \<^bold>\<open>What the lemmas show.\<close> Of the manager: every live process is accounted for, no request panics, every
  answer is true of the state it leaves, refusals change nothing. Of the control plane: the registry is
  bounded and complete, each operation follows one life cycle and ends, operations start in the order of
  their sequence numbers, a shutdown fences the queue, submitting is idempotent, and the executor never dies
  while epoch numbers last. Of the supervisor: the order of its events and its restart budget. Of the
  pump: every line is delivered or counted, every request is answered, a stop cannot be postponed. Of reaping:
  only processes whose identity was just proven are signalled, and a record is removed only when its process
  was seen gone. Of the store: replacement is atomic, backups restore, cleanup is complete. Of
  configuration: canonical form, exact diffs, deny by default classification, closed bootstrap documents. Of
  the parser: it conserves lines, bounds frames and reads back what cores print. Of an instance and its
  archive: a dead instance stays dead and no line is lost before the archive ends. Of the native store: files
  of others are spared and a guarded store is not handed out. Of the bridge: clients converge to the
  current status, and a shutdown returns exactly when an attempt succeeds.

  \<^bold>\<open>Bounds and fuel.\<close> Loops are structural recursions or have a termination proof; retry loops count down the
  attempts of the source (20 and 100 for process identities). No definition uses fuel beyond these. Epoch and
  sequence counters are 64-bit words; theorems that need them not to have wrapped say so.

  \<^bold>\<open>Not modelled.\<close> YAML text, the HTTP client, TLS, serde encodings and paths of other platforms are
  parameters, as are raw system calls and the console helper of Windows. Pure glue is left out: command line, service installation, named
  pipes and sockets, the typed clients of the clash API, derive macros, and vendored code. Timers appear as
  nondeterministic steps; fairness is assumed nowhere.
\<close>

end
